(* ===== verification/Prelude.thy ===== *)
theory Prelude
  imports Main "HOL-Library.Word" "HOL-Library.Monad_Syntax"
begin

text \<open>
  Shared vocabulary of the development: the names of Go's fixed-width integers, byte
  slices, the collections of rewrite rules the component theories fill and use, and the
  facts on lists and words that more than one component needs.

  Conventions.  A Go panic (nil dereference, index out of range, an explicit call of
  \<^verbatim>\<open>panic\<close>) is the value \<^term>\<open>None\<close> of a result of type \<open>'a option\<close>; a Go
  \<^verbatim>\<open>error\<close> result is a value of a sum type or of a component's own error datatype.
  Integers keep their width: \<open>uint8\<close> to \<open>uint64\<close> and \<open>uintptr\<close> are words, and
  \<open>int\<close> values whose overflow plays no role are mathematical integers or naturals.
\<close>

unbundle bit_operations_syntax

type_synonym u8 = "8 word"
type_synonym u16 = "16 word"
type_synonym u32 = "32 word"
type_synonym u64 = "64 word"
type_synonym byte = u8

named_theorems mem_simps \<open>reads after writes in byte memory\<close>
named_theorems wire_simps \<open>encodings of integers and headers as byte lists\<close>
named_theorems pkt_defs \<open>definitions of packet accessors and parsers\<close>

section \<open>Slices\<close>

definition slice :: "nat \<Rightarrow> nat \<Rightarrow> 'a list \<Rightarrow> 'a list" where
  "slice i n xs = take n (drop i xs)"

lemma length_slice [simp]: "length (slice i n xs) = min n (length xs - i)"
  by (simp add: slice_def)

lemma nth_slice [simp]: "j < n \<Longrightarrow> i + j < length xs \<Longrightarrow> slice i n xs ! j = xs ! (i + j)"
  by (simp add: slice_def)

lemma slice_append_left [simp]: "i + n \<le> length xs \<Longrightarrow> slice i n (xs @ ys) = slice i n xs"
  by (simp add: slice_def)

lemma slice_append_right [simp]:
  "length xs \<le> i \<Longrightarrow> slice i n (xs @ ys) = slice (i - length xs) n ys"
  by (simp add: slice_def)

lemma slice_Cons [simp]: "0 < i \<Longrightarrow> slice i n (x # xs) = slice (i - 1) n xs"
  by (cases i) (simp_all add: slice_def)

lemma slice_0_all [simp]: "length xs = n \<Longrightarrow> slice 0 n xs = xs"
  by (simp add: slice_def)

lemma slice_join: "slice i n xs @ slice (i + n) k xs = slice i (n + k) xs"
  unfolding slice_def by (metis add.commute drop_drop take_add)

lemma slice_glue: "j = i + n \<Longrightarrow> slice i n xs @ slice j k xs = slice i (n + k) xs"
  by (simp add: slice_join)

lemma slice_glue_assoc: "j = i + n \<Longrightarrow> slice i n xs @ slice j k xs @ ys = slice i (n + k) xs @ ys"
  by (metis append_assoc slice_join)

lemma slice_cons: "i < length xs \<Longrightarrow> j = Suc i \<Longrightarrow> xs ! i # slice j k xs = slice i (Suc k) xs"
  by (simp add: slice_def Cons_nth_drop_Suc [symmetric])

lemma slice_one: "i < length xs \<Longrightarrow> [xs ! i] = slice i 1 xs"
  by (simp add: slice_def Cons_nth_drop_Suc [symmetric])

lemmas slice_merge = slice_glue slice_cons slice_one

text \<open>Go's built-in \<^verbatim>\<open>copy\<close> on a destination slice: the shorter length wins.\<close>

definition go_copy :: "'a list \<Rightarrow> 'a list \<Rightarrow> 'a list" where
  "go_copy dst src = take (length dst) src @ drop (length src) dst"

lemma length_go_copy [simp]: "length (go_copy dst src) = length dst"
  by (simp add: go_copy_def)

section \<open>Maps of a counter over an interval\<close>

lemma map_upt_shift: "map (\<lambda>i. f (k + i)) [0..<n] = map f [k..<k + n]"
  by (rule nth_equalityI) simp_all

lemma map_upt_add: "map f [0..<m + n] = map f [0..<m] @ map (\<lambda>i. f (m + i)) [0..<n]"
  unfolding map_upt_shift by (metis le0 map_append upt_add_eq_append)

section \<open>Words\<close>

lemma unat_of_nat_small: "n < 2 ^ LENGTH('a::len) \<Longrightarrow> unat (of_nat n :: 'a word) = n"
  by (simp add: unat_of_nat)

lemma of_nat_word_inj:
  "m < 2 ^ LENGTH('a::len) \<Longrightarrow> n < 2 ^ LENGTH('a) \<Longrightarrow> (of_nat m :: 'a word) = of_nat n \<longleftrightarrow> m = n"
  by (metis unat_of_nat_small)

lemma unat_mod_small: "unat (w :: 'a::len word) < 2 ^ LENGTH('a)"
  by (rule unsigned_less)

lemma unat_add_exact:
  "unat (a :: 'a::len word) + unat b < 2 ^ LENGTH('a) \<Longrightarrow> unat (a + b) = unat a + unat b"
  by (simp add: unat_word_ariths)

lemma unat_sub_exact: "b \<le> a \<Longrightarrow> unat (a - b) = unat (a :: 'a::len word) - unat b"
  by (simp add: unat_sub word_le_nat_alt)

lemma unat_ucast_small:
  "unat (w :: 'a::len word) < 2 ^ LENGTH('b::len) \<Longrightarrow> unat (ucast w :: 'b word) = unat w"
  by (simp add: unsigned_ucast_eq take_bit_nat_eq_self)

section \<open>Signed reading of 64-bit words\<close>

lemma int_upto_upt: "[int a..int b - 1] = map int [a..<b]"
proof (induction b)
  case (Suc b)
  then show ?case
    by (cases "a \<le> b") (use upto_rec2 [of "int a" "int b"] in simp_all)
qed simp

lemma sint_small: "unat (w :: u64) < 2 ^ 63 \<Longrightarrow> sint w = int (unat w)"
proof -
  assume "unat w < 2 ^ 63"
  then have "int (unat w) < int (2 ^ 63)" by (simp only: of_nat_less_iff)
  then have "int (unat w) < 2 ^ 63" by (simp only: of_nat_power of_nat_numeral)
  then have "signed_take_bit 63 (int (unat w)) = int (unat w)"
    by (rule signed_take_bit_int_eq_self [rotated]) (rule order_trans [of _ 0], simp_all)
  then show ?thesis unfolding sint_uint uint_nat by simp
qed

lemma sint_pred: "unat (w :: u64) < 2 ^ 63 \<Longrightarrow> sint (w - 1) = int (unat w) - 1"
proof (cases "w = 0")
  case False
  moreover assume "unat w < 2 ^ 63"
  moreover have "unat (w - 1) = unat w - 1" using False by (simp add: unat_minus_one)
  moreover have "0 < unat w" using False by (simp add: unat_gt_0)
  ultimately show ?thesis by (simp add: sint_small)
qed simp

end
