(* ===== verification/Memory.thy ===== *)
theory Memory
  imports Prelude
begin

text \<open>
  The byte-addressed memory that the code reaches through \<^verbatim>\<open>unsafe.Pointer\<close>: packet
  buffers, C structures and headers overlaid on them.  Addresses are 64-bit words with
  wrap-around, the nil pointer is address 0, and multi-byte integers are stored in the
  little-endian order of the machines the code is written for (its byte-swapped
  constants, src/types/const.go, are the little-endian ones).

  The locale \<open>layout\<close> is the interface between a header type and the memory: an
  encoding of fixed length with its decoder.  Every header of the packet library is an
  interpretation; the read-over-write facts of overlaid structures are proved once.
\<close>

type_synonym addr = u64
type_synonym memory = "addr \<Rightarrow> byte"

abbreviation nil :: addr where
  "nil \<equiv> 0"

section \<open>Byte ranges\<close>

definition load_bytes :: "memory \<Rightarrow> addr \<Rightarrow> nat \<Rightarrow> byte list" where
  "load_bytes m a n = map (\<lambda>i. m (a + of_nat i)) [0..<n]"

fun store_bytes :: "memory \<Rightarrow> addr \<Rightarrow> byte list \<Rightarrow> memory" where
  "store_bytes m a [] = m"
| "store_bytes m a (b # bs) = store_bytes (m(a := b)) (a + 1) bs"

definition region :: "addr \<Rightarrow> nat \<Rightarrow> addr set" where
  "region a n = (\<lambda>i. a + of_nat i) ` {..<n}"

lemma length_load_bytes [simp]: "length (load_bytes m a n) = n"
  by (simp add: load_bytes_def)

lemma nth_load_bytes [simp]: "i < n \<Longrightarrow> load_bytes m a n ! i = m (a + of_nat i)"
  by (simp add: load_bytes_def)

lemma load_bytes_0 [simp]: "load_bytes m a 0 = []"
  by (simp add: load_bytes_def)

lemma load_bytes_Suc: "load_bytes m a (Suc n) = m a # load_bytes m (a + 1) n"
  by (rule nth_equalityI) (auto simp: nth_Cons add.assoc split: nat.split)

lemma load_bytes_add: "load_bytes m a (n + k) = load_bytes m a n @ load_bytes m (a + of_nat n) k"
  by (simp add: load_bytes_def map_upt_add add.assoc)

lemma slice_load_bytes:
  "i + n \<le> k \<Longrightarrow> slice i n (load_bytes m a k) = load_bytes m (a + of_nat i) n"
  by (rule nth_equalityI) (auto simp: add.assoc)

lemma load_bytes_cong:
  "(\<And>i. i < n \<Longrightarrow> m (a + of_nat i) = m' (a + of_nat i)) \<Longrightarrow> load_bytes m a n = load_bytes m' a n"
  by (rule nth_equalityI) simp_all

lemma in_region: "x \<in> region a n \<longleftrightarrow> (\<exists>i<n. x = a + of_nat i)"
  by (auto simp: region_def)

lemma region_iff: "n \<le> 2 ^ 64 \<Longrightarrow> x \<in> region a n \<longleftrightarrow> unat (x - a) < n"
proof (unfold in_region, intro iffI)
  assume n: "n \<le> 2 ^ 64" and "\<exists>i<n. x = a + of_nat i"
  then obtain i where i: "i < n" "x = a + of_nat i" by blast
  then show "unat (x - a) < n" using n by (simp add: unat_of_nat_small)
next
  assume "unat (x - a) < n"
  moreover have "x = a + of_nat (unat (x - a))" by simp
  ultimately show "\<exists>i<n. x = a + of_nat i" by blast
qed

lemma store_bytes_other: "x \<notin> region a (length bs) \<Longrightarrow> store_bytes m a bs x = m x"
proof (induction bs arbitrary: m a)
  case Nil
  then show ?case by simp
next
  case (Cons b bs)
  have "a + 1 + of_nat i \<in> region a (length (b # bs))" if "i < length bs" for i
    using that unfolding in_region by (intro exI [of _ "Suc i"]) simp
  with Cons.prems have "x \<notin> region (a + 1) (length bs)"
    unfolding in_region by blast
  moreover have "a \<in> region a (length (b # bs))"
    unfolding in_region by (intro exI [of _ 0]) simp
  ultimately show ?case using Cons.IH Cons.prems by auto
qed

lemma store_bytes_nth:
  "i < length bs \<Longrightarrow> length bs \<le> 2 ^ 64 \<Longrightarrow> store_bytes m a bs (a + of_nat i) = bs ! i"
proof (induction bs arbitrary: m a i)
  case Nil
  then show ?case by simp
next
  case (Cons b bs)
  show ?case
  proof (cases i)
    case 0
    have "a \<notin> region (a + 1) (length bs)"
    proof
      assume "a \<in> region (a + 1) (length bs)"
      then obtain j where j: "j < length bs" and "a = a + (1 + of_nat j)"
        by (auto simp: in_region add.assoc)
      then have "(of_nat (Suc j) :: addr) = of_nat 0" by simp
      moreover have "Suc j < 2 ^ 64" using j Cons.prems(2) by simp
      ultimately show False
        using of_nat_word_inj [of "Suc j" 0, where 'a = 64] by simp
    qed
    then show ?thesis using 0 by (simp add: store_bytes_other)
  next
    case (Suc j)
    have "store_bytes (m(a := b)) (a + 1) bs (a + 1 + of_nat j) = bs ! j"
      using Cons Suc by (intro Cons.IH) auto
    then show ?thesis using Suc by (simp add: add.assoc)
  qed
qed

lemma load_store_bytes [mem_simps]:
  "length bs = n \<Longrightarrow> n \<le> 2 ^ 64 \<Longrightarrow> load_bytes (store_bytes m a bs) a n = bs"
  by (rule nth_equalityI) (simp_all add: store_bytes_nth)

lemma load_bytes_disjoint [mem_simps]:
  "region a n \<inter> region b (length bs) = {} \<Longrightarrow> load_bytes (store_bytes m b bs) a n = load_bytes m a n"
  by (rule load_bytes_cong, rule store_bytes_other) (force simp: in_region disjoint_iff)

lemma store_load_bytes [mem_simps]: "n \<le> 2 ^ 64 \<Longrightarrow> store_bytes m a (load_bytes m a n) = m"
proof
  fix x
  assume n: "n \<le> 2 ^ 64"
  show "store_bytes m a (load_bytes m a n) x = m x"
  proof (cases "x \<in> region a n")
    case True
    then obtain i where "i < n" "x = a + of_nat i" by (auto simp: in_region)
    then show ?thesis using n by (simp add: store_bytes_nth)
  qed (simp add: store_bytes_other)
qed

lemma store_bytes_append:
  "store_bytes m a (xs @ ys) = store_bytes (store_bytes m a xs) (a + of_nat (length xs)) ys"
  by (induction xs arbitrary: m a) (simp_all add: add.assoc)

lemma region_disjoint_offset:
  assumes "i + n \<le> j" "j + k \<le> 2 ^ 64"
  shows "region (a + of_nat i) n \<inter> region (a + of_nat j) k = {}"
proof -
  have "a + of_nat i + of_nat u \<noteq> a + of_nat j + of_nat v" if "u < n" "v < k" for u v :: nat
  proof
    assume "a + of_nat i + of_nat u = a + of_nat j + of_nat v"
    then have "(of_nat (i + u) :: addr) = of_nat (j + v)" by (simp add: add.assoc)
    then show False
      using that assms of_nat_word_inj [of "i + u" "j + v", where 'a = 64] by simp
  qed
  then show ?thesis by (auto simp: in_region)
qed

lemma store_bytes_overwrite:
  assumes "length xs = length ys" "length ys \<le> 2 ^ 64"
  shows "store_bytes (store_bytes m a xs) a ys = store_bytes m a ys"
proof
  fix x
  show "store_bytes (store_bytes m a xs) a ys x = store_bytes m a ys x"
  proof (cases "x \<in> region a (length ys)")
    case True
    then obtain i where "i < length ys" "x = a + of_nat i" by (auto simp: in_region)
    then show ?thesis using assms by (simp add: store_bytes_nth)
  qed (simp add: store_bytes_other assms)
qed

section \<open>Byte-wise moves\<close>

text \<open>
  A loop of assignments \<^verbatim>\<open>*dst = *src\<close> over a list of address pairs.  Access at the nil
  address panics.  Where no source or destination of a later step is a destination of an
  earlier one, every destination ends with the original byte of its source.
\<close>

fun move_bytes :: "memory \<Rightarrow> (addr \<times> addr) list \<Rightarrow> memory option" where
  "move_bytes m [] = Some m"
| "move_bytes m ((d, s) # ps) =
     (if d = nil \<or> s = nil then None else move_bytes (m(d := m s)) ps)"

fun no_clobber :: "(addr \<times> addr) list \<Rightarrow> bool" where
  "no_clobber [] \<longleftrightarrow> True"
| "no_clobber ((d, s) # ps) \<longleftrightarrow> d \<notin> fst ` set ps \<and> d \<notin> snd ` set ps \<and> no_clobber ps"

lemma move_bytes_defined:
  "nil \<notin> fst ` set ps \<Longrightarrow> nil \<notin> snd ` set ps \<Longrightarrow> \<exists>m'. move_bytes m ps = Some m'"
  by (induction m ps rule: move_bytes.induct) auto

lemma move_bytes_other: "move_bytes m ps = Some m' \<Longrightarrow> x \<notin> fst ` set ps \<Longrightarrow> m' x = m x"
  by (induction m ps rule: move_bytes.induct) (auto split: if_splits)

lemma move_bytes_moved:
  "move_bytes m ps = Some m' \<Longrightarrow> no_clobber ps \<Longrightarrow> (d, s) \<in> set ps \<Longrightarrow> m' d = m s"
proof (induction m ps arbitrary: d s rule: move_bytes.induct)
  case (2 m d1 s1 ps)
  have rest: "move_bytes (m(d1 := m s1)) ps = Some m'" and nn: "\<not> (d1 = nil \<or> s1 = nil)"
    using "2.prems"(1) by (auto split: if_splits)
  show ?case
  proof (cases "(d, s) = (d1, s1)")
    case True
    then show ?thesis using "2.prems"(2) move_bytes_other [OF rest, of d1] by simp
  next
    case False
    then have in_ps: "(d, s) \<in> set ps" using "2.prems"(3) by auto
    then have "s \<noteq> d1" using "2.prems"(2) by force
    then show ?thesis using "2.IH" [OF nn rest _ in_ps] "2.prems"(2) by simp
  qed
qed simp

lemma no_clobber_map:
  assumes "sorted_wrt (\<lambda>i j. f i \<noteq> f j \<and> f i \<noteq> g j) is"
  shows "no_clobber (map (\<lambda>i. (f i, g i)) is)"
  using assms by (induction "is") auto

section \<open>Integers in memory\<close>

text \<open>Little-endian digits of a word, for any width, and their value.\<close>

fun le_bytes :: "nat \<Rightarrow> 'a::len word \<Rightarrow> byte list" where
  "le_bytes 0 w = []"
| "le_bytes (Suc n) w = ucast w # le_bytes n (drop_bit 8 w)"

fun un_le :: "byte list \<Rightarrow> 'a::len word" where
  "un_le [] = 0"
| "un_le (b # bs) = ucast b OR push_bit 8 (un_le bs)"

lemma length_le_bytes [simp]: "length (le_bytes n w) = n"
  by (induction n arbitrary: w) auto

lemma nth_le_bytes: "i < n \<Longrightarrow> le_bytes n w ! i = ucast (drop_bit (8 * i) w)"
  by (induction n arbitrary: w i) (auto simp: nth_Cons add.commute split: nat.split)

lemma bit_un_le:
  "bit (un_le bs :: 'a::len word) k \<longleftrightarrow>
     k < LENGTH('a) \<and> k div 8 < length bs \<and> bit (bs ! (k div 8)) (k mod 8)"
proof (induction bs arbitrary: k)
  case Nil
  then show ?case by simp
next
  case (Cons b bs)
  show ?case
  proof (cases "k < 8")
    case True
    then show ?thesis by (auto simp: bit_simps dest: bit_imp_le_length)
  next
    case False
    then obtain j where j: "k = 8 + j" by (metis le_add_diff_inverse not_le)
    have "\<not> bit b k" using False bit_imp_le_length [of b k] by auto
    moreover have "(8 + j) div 8 = Suc (j div 8)" by simp
    ultimately show ?thesis using Cons.IH [of j] unfolding j by (auto simp: bit_simps)
  qed
qed

lemma un_le_le_bytes: "LENGTH('a) \<le> 8 * n \<Longrightarrow> un_le (le_bytes n w) = (w :: 'a::len word)"
proof (rule bit_word_eqI)
  fix k assume n: "LENGTH('a) \<le> 8 * n" and k: "k < LENGTH('a)"
  then have d: "k div 8 < n" by linarith
  have "8 * (k div 8) + k mod 8 = k" by simp
  then show "bit (un_le (le_bytes n w) :: 'a word) k = bit w k"
    using k d by (simp add: bit_un_le nth_le_bytes bit_simps)
qed

lemma le_bytes_un_le:
  assumes "length bs = n" "8 * n \<le> LENGTH('a::len)"
  shows "le_bytes n (un_le bs :: 'a word) = bs"
proof (rule nth_equalityI)
  fix i assume "i < length (le_bytes n (un_le bs :: 'a word))"
  then have i: "i < n" by simp
  show "le_bytes n (un_le bs :: 'a word) ! i = bs ! i"
  proof (rule bit_word_eqI)
    fix k assume "k < LENGTH(8)"
    then have "k < 8" by simp
    then have "(8 * i + k) div 8 = i" "(8 * i + k) mod 8 = k" "8 * i + k < LENGTH('a)"
      using i assms(2) by auto
    then show "bit (le_bytes n (un_le bs :: 'a word) ! i) k = bit (bs ! i) k"
      using i assms(1) \<open>k < 8\<close> by (simp add: nth_le_bytes bit_simps bit_un_le)
  qed
qed (simp add: assms)

abbreviation le16 :: "u16 \<Rightarrow> byte list" where "le16 \<equiv> le_bytes 2"
abbreviation le32 :: "u32 \<Rightarrow> byte list" where "le32 \<equiv> le_bytes 4"
abbreviation le64 :: "u64 \<Rightarrow> byte list" where "le64 \<equiv> le_bytes 8"
abbreviation un_le16 :: "byte list \<Rightarrow> u16" where "un_le16 \<equiv> un_le"
abbreviation un_le32 :: "byte list \<Rightarrow> u32" where "un_le32 \<equiv> un_le"
abbreviation un_le64 :: "byte list \<Rightarrow> u64" where "un_le64 \<equiv> un_le"

lemma le_rt [wire_simps]:
  "un_le16 (le16 v) = v" "un_le32 (le32 w) = w" "un_le64 (le64 x) = x"
  by (simp_all add: un_le_le_bytes)

lemma le_rt_list [wire_simps]:
  "length bs = 2 \<Longrightarrow> le16 (un_le16 bs) = bs"
  "length bs = 4 \<Longrightarrow> le32 (un_le32 bs) = bs"
  "length bs = 8 \<Longrightarrow> le64 (un_le64 bs) = bs"
  by (simp_all add: le_bytes_un_le)

lemma le_bytes_unfold [wire_simps]:
  "le16 v = [ucast v, ucast (drop_bit 8 v)]"
  "le32 w = [ucast w, ucast (drop_bit 8 w), ucast (drop_bit 16 w), ucast (drop_bit 24 w)]"
  by (simp_all add: numeral_eq_Suc)

definition load16 :: "memory \<Rightarrow> addr \<Rightarrow> u16" where
  "load16 m a = un_le16 (load_bytes m a 2)"

definition load32 :: "memory \<Rightarrow> addr \<Rightarrow> u32" where
  "load32 m a = un_le32 (load_bytes m a 4)"

definition load64 :: "memory \<Rightarrow> addr \<Rightarrow> u64" where
  "load64 m a = un_le64 (load_bytes m a 8)"

definition store16 :: "memory \<Rightarrow> addr \<Rightarrow> u16 \<Rightarrow> memory" where
  "store16 m a v = store_bytes m a (le16 v)"

definition store32 :: "memory \<Rightarrow> addr \<Rightarrow> u32 \<Rightarrow> memory" where
  "store32 m a v = store_bytes m a (le32 v)"

definition store64 :: "memory \<Rightarrow> addr \<Rightarrow> u64 \<Rightarrow> memory" where
  "store64 m a v = store_bytes m a (le64 v)"

lemma load_store_same [mem_simps]:
  "load16 (store16 m a v) a = v" "load32 (store32 m a w) a = w" "load64 (store64 m a x) a = x"
  unfolding load16_def load32_def load64_def store16_def store32_def store64_def
  by (simp_all add: load_store_bytes un_le_le_bytes)

text \<open>Moving a 64-bit word is moving its eight bytes.\<close>

lemma store64_load64: "store64 m d (load64 m s) = store_bytes m d (load_bytes m s 8)"
  by (simp add: store64_def load64_def le_bytes_un_le)

section \<open>Structures overlaid on memory\<close>

definition view_load :: "(byte list \<Rightarrow> 'h) \<Rightarrow> nat \<Rightarrow> memory \<Rightarrow> addr \<Rightarrow> 'h" where
  "view_load dec len m a = dec (load_bytes m a len)"

definition view_store :: "('h \<Rightarrow> byte list) \<Rightarrow> memory \<Rightarrow> addr \<Rightarrow> 'h \<Rightarrow> memory" where
  "view_store enc m a h = store_bytes m a (enc h)"

locale layout =
  fixes enc :: "'h \<Rightarrow> byte list"
    and dec :: "byte list \<Rightarrow> 'h"
    and len :: nat
    and valid :: "'h \<Rightarrow> bool"
  assumes enc_length: "valid h \<Longrightarrow> length (enc h) = len"
    and dec_enc: "valid h \<Longrightarrow> dec (enc h) = h"
    and enc_dec: "length bs = len \<Longrightarrow> enc (dec bs) = bs"
    and valid_dec: "length bs = len \<Longrightarrow> valid (dec bs)"
    and len_small: "len \<le> 2 ^ 64"
begin

lemma load_valid: "valid (view_load dec len m a)"
  by (simp add: view_load_def valid_dec)

lemma load_after_store: "valid h \<Longrightarrow> view_load dec len (view_store enc m a h) a = h"
  using load_store_bytes [OF enc_length len_small] by (simp add: view_load_def view_store_def dec_enc)

lemma store_after_load: "view_store enc m a (view_load dec len m a) = m"
  using store_load_bytes [OF len_small] by (simp add: view_load_def view_store_def enc_dec)

lemma store_outside:
  "valid h \<Longrightarrow> x \<notin> region a len \<Longrightarrow> view_store enc m a h x = m x"
  by (simp add: view_store_def store_bytes_other enc_length)

lemma load_disjoint:
  "valid h \<Longrightarrow> region b n \<inter> region a len = {} \<Longrightarrow>
     load_bytes (view_store enc m a h) b n = load_bytes m b n"
  by (simp add: view_store_def load_bytes_disjoint enc_length)

lemma store_overwrite:
  "valid h \<Longrightarrow> valid h' \<Longrightarrow> view_store enc (view_store enc m a h) a h' = view_store enc m a h'"
  unfolding view_store_def using len_small by (intro store_bytes_overwrite) (simp_all add: enc_length)

lemma load_unique: "valid h \<Longrightarrow> view_load dec len m a = h \<longleftrightarrow> load_bytes m a len = enc h"
  by (metis dec_enc enc_dec length_load_bytes view_load_def)

end

end
