(* ===== verification/Fmt.thy ===== *)
theory Fmt
  imports Prelude
begin

text \<open>
  The verbs of Go's \<^verbatim>\<open>fmt.Sprintf\<close> the sources use: \<^verbatim>\<open>%d\<close> on unsigned values,
  \<^verbatim>\<open>%02x\<close> on bytes, and \<^verbatim>\<open>strings.Join\<close>.  Each printer comes with the reader that
  inverts it, so that printed text can be related back to the value.
\<close>

definition digit_char :: "nat \<Rightarrow> char" where
  "digit_char d = char_of (48 + d)"

fun dec_str :: "nat \<Rightarrow> string" where
  "dec_str n = (if n < 10 then [digit_char n] else dec_str (n div 10) @ [digit_char (n mod 10)])"

declare dec_str.simps [simp del]

definition int_str :: "int \<Rightarrow> string" where
  "int_str n = (if n < 0 then CHR ''-'' # dec_str (nat (- n)) else dec_str (nat n))"

definition digit_val :: "char \<Rightarrow> nat" where
  "digit_val c = of_char c - 48"

definition read_dec :: "string \<Rightarrow> nat" where
  "read_dec s = foldl (\<lambda>acc c. 10 * acc + digit_val c) 0 s"

lemma digit_val_char [simp]: "d < 10 \<Longrightarrow> digit_val (digit_char d) = d"
  by (simp add: digit_val_def digit_char_def)

lemma read_dec_dec_str [simp]: "read_dec (dec_str n) = n"
proof (induction n rule: dec_str.induct)
  case (1 n)
  then show ?case
    by (subst dec_str.simps) (auto simp: read_dec_def)
qed

lemma dec_str_inject [simp]: "dec_str m = dec_str n \<longleftrightarrow> m = n"
  by (metis read_dec_dec_str)

lemma dec_str_nonempty [simp]: "dec_str n \<noteq> []"
  by (subst dec_str.simps) simp

lemma dec_str_digits: "c \<in> set (dec_str n) \<Longrightarrow> 48 \<le> (of_char c :: nat) \<and> (of_char c :: nat) < 58"
proof (induction n rule: dec_str.induct)
  case (1 n)
  then show ?case
    by (subst (asm) dec_str.simps) (auto simp: digit_char_def split: if_splits)
qed

lemma dec_str_no_comma [simp]: "CHR '','' \<notin> set (dec_str n)"
  using dec_str_digits by fastforce

lemma dec_str_no_dash [simp]: "CHR ''-'' \<notin> set (dec_str n)"
  using dec_str_digits by fastforce

lemma dec_str_no_dot [simp]: "CHR ''.'' \<notin> set (dec_str n)"
  using dec_str_digits by fastforce

text \<open>\<^verbatim>\<open>strings.Join\<close> and the split that inverts it.\<close>

fun join :: "string \<Rightarrow> string list \<Rightarrow> string" where
  "join sep [] = []"
| "join sep [s] = s"
| "join sep (s # t # ss) = s @ sep @ join sep (t # ss)"

fun split_on :: "char \<Rightarrow> string \<Rightarrow> string list" where
  "split_on c [] = [[]]"
| "split_on c (x # xs) =
     (if x = c then [] # split_on c xs
      else case split_on c xs of [] \<Rightarrow> [[x]] | w # ws \<Rightarrow> (x # w) # ws)"

lemma split_on_nonempty [simp]: "split_on c s \<noteq> []"
  by (induction s) (auto split: list.splits)

lemma split_on_word: "c \<notin> set w \<Longrightarrow> split_on c w = [w]"
  by (induction w) auto

lemma split_on_append: "c \<notin> set w \<Longrightarrow> split_on c (w @ c # s) = w # split_on c s"
  by (induction w) (auto split: list.splits)

lemma split_on_join:
  "ss \<noteq> [] \<Longrightarrow> \<forall>s \<in> set ss. c \<notin> set s \<Longrightarrow> split_on c (join [c] ss) = ss"
  by (induction "[c]" ss rule: join.induct) (auto simp: split_on_word split_on_append)

text \<open>Two hexadecimal digits of a byte, lower case.\<close>

definition hex_digit :: "nat \<Rightarrow> char" where
  "hex_digit d = char_of (if d < 10 then 48 + d else 87 + d)"

definition hex2 :: "byte \<Rightarrow> string" where
  "hex2 b = [hex_digit (unat b div 16), hex_digit (unat b mod 16)]"

definition hex_val :: "char \<Rightarrow> nat" where
  "hex_val c = (let n = of_char c in if n < 58 then n - 48 else n - 87)"

lemma hex_val_digit [simp]: "d < 16 \<Longrightarrow> hex_val (hex_digit d) = d"
  by (auto simp: hex_val_def hex_digit_def Let_def)

lemma hex2_inject [simp]: "hex2 a = hex2 b \<longleftrightarrow> a = b"
proof
  assume "hex2 a = hex2 b"
  moreover have "unat x = 16 * hex_val (hex2 x ! 0) + hex_val (hex2 x ! 1)" for x
  proof -
    have "unat x div 16 < 16" using unat_mod_small [of x] by simp
    then show ?thesis by (simp add: hex2_def)
  qed
  ultimately have "unat a = unat b" by simp
  then show "a = b" by (simp add: word_unat_eq_iff)
qed simp

lemma length_hex2 [simp]: "length (hex2 b) = 2"
  by (simp add: hex2_def)

end
