(* ===== verification/Errors.thy ===== *)
theory Errors
  imports Prelude
begin

text \<open>
  Error values and src/common/common.go.  A Go \<^verbatim>\<open>error\<close> is an optional value of
  \<open>go_error\<close>; \<^term>\<open>None\<close> is nil.  The DPDK error numbers come from C headers that are
  not part of the repository: they are the record \<open>rte_errnos\<close>, an argument of every
  definition that reads them.
\<close>

datatype go_error =
    ErrNoConfig | ErrSecondary | ErrMinErrno | ErrMaxErrno
  | ErrnoErr int            \<comment> \<open>\<^verbatim>\<open>fmt.Errorf("%d not match, ...", n, ...)\<close>\<close>
  | ErrOpenQuote            \<comment> \<open>src/common/parse.go\<close>
  | ErrNullData             \<comment> \<open>src/mbuf/mbuf.go\<close>
  | ErrLcoreInvalid | ErrLcorePanic nat string  \<comment> \<open>src/eal\<close>
  | OsErrInvalid | OsErrNotExist | OsErrClosed | OsErrExist
  | ENOMEM | ENOTSUP
  | ErrMsg string           \<comment> \<open>an error known by its message only\<close>
  | ErrWithMessage string go_error  \<comment> \<open>src/util/errors.go\<close>

type_synonym error = "go_error option"

record rte_errnos =
  E_RTE_NO_CONFIG :: int
  E_RTE_SECONDARY :: int
  RTE_MAX_ERRNO :: int
  RTE_MIN_ERRNO :: int

text \<open>Negation of an \<^verbatim>\<open>int64\<close>: the least value is its own negation.\<close>

definition neg64 :: "int \<Rightarrow> int" where
  "neg64 n = (if n = - (2 ^ 63) then n else - n)"

definition errno :: "rte_errnos \<Rightarrow> int \<Rightarrow> error" where
  "errno c n =
     (if n = 0 then None
      else let n' = (if n < 0 then neg64 n else n) in
        if n' = E_RTE_NO_CONFIG c then Some ErrNoConfig
        else if n' = E_RTE_SECONDARY c then Some ErrSecondary
        else if n' = RTE_MAX_ERRNO c then Some ErrMaxErrno
        else if n' = RTE_MIN_ERRNO c then Some ErrMinErrno
        else Some (ErrnoErr n'))"

definition IntErr :: "rte_errnos \<Rightarrow> int \<Rightarrow> error" where
  "IntErr c n = errno c n"

text \<open>\<^verbatim>\<open>RteErrno\<close> reads the thread's \<^verbatim>\<open>rte_errno\<close>, here the argument \<open>e\<close>.\<close>

definition RteErrno :: "rte_errnos \<Rightarrow> int \<Rightarrow> error" where
  "RteErrno c e = errno c e"

definition IntOrErr :: "rte_errnos \<Rightarrow> int \<Rightarrow> int \<times> error" where
  "IntOrErr c x = (if x \<ge> 0 then (x, None) else (0, errno c x))"

definition IntToErr :: "rte_errnos \<Rightarrow> int \<Rightarrow> error" where
  "IntToErr c x = errno c x"

text \<open>
  The packages' helper \<^verbatim>\<open>err(n ...interface{})\<close> (src/ring/ring.go, src/mempool/mempool.go,
  src/memzone/memzone.go, src/eal/init.go, \<^verbatim>\<open>errget\<close> of src/ethdev/ethdev.go,
  \<^verbatim>\<open>geterr\<close> of src/util/rx_buffer.go): no argument means \<^verbatim>\<open>rte_errno\<close>.
\<close>

definition err :: "rte_errnos \<Rightarrow> int \<Rightarrow> int list \<Rightarrow> error" where
  "err c rte_errno ns = (case ns of [] \<Rightarrow> RteErrno c rte_errno | n # _ \<Rightarrow> IntToErr c n)"

section \<open>DoOnce\<close>

text \<open>
  \<^verbatim>\<open>DoOnce(fn)\<close> captures a \<^verbatim>\<open>sync.Once\<close> and the error of the one execution.  The
  decorated function acts on the world \<open>'w\<close>, as \<^verbatim>\<open>fn\<close> does.
\<close>

record once =
  once_done :: bool
  once_err :: error

definition new_once :: once where
  "new_once = \<lparr>once_done = False, once_err = None\<rparr>"

definition DoOnce :: "('w \<Rightarrow> error \<times> 'w) \<Rightarrow> once \<Rightarrow> 'w \<Rightarrow> error \<times> once \<times> 'w" where
  "DoOnce fn st w =
     (if once_done st then (once_err st, st, w)
      else let (e, w') = fn w in (e, \<lparr>once_done = True, once_err = e\<rparr>, w'))"

fun DoOnce_calls :: "('w \<Rightarrow> error \<times> 'w) \<Rightarrow> nat \<Rightarrow> once \<Rightarrow> 'w \<Rightarrow> error list \<times> once \<times> 'w" where
  "DoOnce_calls fn 0 st w = ([], st, w)"
| "DoOnce_calls fn (Suc n) st w =
     (let (e, st1, w1) = DoOnce fn st w; (es, st2, w2) = DoOnce_calls fn n st1 w1
      in (e # es, st2, w2))"

section \<open>Properties\<close>

lemma errno_None_iff [simp]: "errno c n = None \<longleftrightarrow> n = 0"
  by (simp add: errno_def Let_def)

lemma errno_0 [simp]: "errno c 0 = None"
  by simp

lemma errno_sign: "- (2 ^ 63) < n \<Longrightarrow> n < 2 ^ 63 \<Longrightarrow> errno c (- n) = errno c n"
  by (auto simp: errno_def neg64_def Let_def)

lemma IntOrErr_cases:
  "x \<ge> 0 \<Longrightarrow> IntOrErr c x = (x, None)"
  "x < 0 \<Longrightarrow> fst (IntOrErr c x) = 0 \<and> snd (IntOrErr c x) \<noteq> None"
  by (auto simp: IntOrErr_def)

lemma DoOnce_done: "once_done st \<Longrightarrow> DoOnce_calls fn n st w = (replicate n (once_err st), st, w)"
  by (induction n) (simp_all add: DoOnce_def)

text \<open>However often the decorated function is called, the body runs once.\<close>

lemma DoOnce_runs_once:
  assumes "n > 0" "fn w = (e, w')"
  shows "DoOnce_calls fn n new_once w = (replicate n e, \<lparr>once_done = True, once_err = e\<rparr>, w')"
proof -
  from assms(1) obtain k where "n = Suc k" by (cases n) auto
  then show ?thesis
    using assms(2) by (simp add: DoOnce_def new_once_def DoOnce_done)
qed

end
