(* ===== verification/Types_Pkg.thy ===== *)
theory Types_Pkg
  imports Memory Fmt Errors
begin

text \<open>
  The package \<^verbatim>\<open>types\<close>: protocol constants (src/types/const.go) and the address types of
  src/types/ipv4.go, ipv6.go and mac.go.  A Go array type such as \<^verbatim>\<open>[6]uint8\<close> is a byte
  list together with the predicate that fixes its length.
\<close>

section \<open>Constants\<close>

abbreviation (input) EtherAddrLen :: "'a::numeral" where "EtherAddrLen \<equiv> 6"
abbreviation (input) IPv4AddrLen :: "'a::numeral" where "IPv4AddrLen \<equiv> 4"
abbreviation (input) IPv6AddrLen :: "'a::numeral" where "IPv6AddrLen \<equiv> 16"

abbreviation (input) IPV4Number :: u16 where "IPV4Number \<equiv> 0x0800"
abbreviation (input) ARPNumber :: u16 where "ARPNumber \<equiv> 0x0806"
abbreviation (input) VLANNumber :: u16 where "VLANNumber \<equiv> 0x8100"
abbreviation (input) MPLSNumber :: u16 where "MPLSNumber \<equiv> 0x8847"
abbreviation (input) IPV6Number :: u16 where "IPV6Number \<equiv> 0x86dd"
abbreviation (input) SwapIPV4Number :: u16 where "SwapIPV4Number \<equiv> 0x0008"
abbreviation (input) SwapARPNumber :: u16 where "SwapARPNumber \<equiv> 0x0608"
abbreviation (input) SwapVLANNumber :: u16 where "SwapVLANNumber \<equiv> 0x0081"
abbreviation (input) SwapMPLSNumber :: u16 where "SwapMPLSNumber \<equiv> 0x4788"
abbreviation (input) SwapIPV6Number :: u16 where "SwapIPV6Number \<equiv> 0xdd86"

abbreviation (input) ICMPNumber :: u8 where "ICMPNumber \<equiv> 0x01"
abbreviation (input) TCPNumber :: u8 where "TCPNumber \<equiv> 0x06"
abbreviation (input) UDPNumber :: u8 where "UDPNumber \<equiv> 0x11"
abbreviation (input) ICMPv6Number :: u8 where "ICMPv6Number \<equiv> 0x3a"
abbreviation (input) NoNextHeader :: u8 where "NoNextHeader \<equiv> 0x3b"

abbreviation (input) ICMPTypeEchoRequest :: u8 where "ICMPTypeEchoRequest \<equiv> 8"
abbreviation (input) ICMPTypeEchoResponse :: u8 where "ICMPTypeEchoResponse \<equiv> 0"
abbreviation (input) ICMPv6TypeEchoRequest :: u8 where "ICMPv6TypeEchoRequest \<equiv> 128"
abbreviation (input) ICMPv6TypeEchoResponse :: u8 where "ICMPv6TypeEchoResponse \<equiv> 129"
abbreviation (input) ICMPv6TypeRouterSolicitation :: u8 where "ICMPv6TypeRouterSolicitation \<equiv> 133"
abbreviation (input) ICMPv6NeighborSolicitation :: u8 where "ICMPv6NeighborSolicitation \<equiv> 135"
abbreviation (input) ICMPv6NeighborAdvertisement :: u8 where "ICMPv6NeighborAdvertisement \<equiv> 136"

abbreviation (input) EtherLen :: "'a::numeral" where "EtherLen \<equiv> 14"
abbreviation (input) IPv4MinLen :: "'a::numeral" where "IPv4MinLen \<equiv> 20"
abbreviation (input) IPv6Len :: "'a::numeral" where "IPv6Len \<equiv> 40"
abbreviation (input) ICMPLen :: "'a::numeral" where "ICMPLen \<equiv> 8"
abbreviation (input) TCPMinLen :: "'a::numeral" where "TCPMinLen \<equiv> 20"
abbreviation (input) UDPLen :: "'a::numeral" where "UDPLen \<equiv> 8"
abbreviation (input) ARPLen :: "'a::numeral" where "ARPLen \<equiv> 28"
abbreviation (input) VXLANLen :: "'a::numeral" where "VXLANLen \<equiv> 8"

abbreviation (input) TCPMinDataOffset :: u8 where "TCPMinDataOffset \<equiv> 0x50"
abbreviation (input) IPv4VersionIhl :: u8 where "IPv4VersionIhl \<equiv> 0x45"
abbreviation (input) IPv6VtcFlow :: u32 where "IPv6VtcFlow \<equiv> 0x60"

section \<open>Addresses\<close>

type_synonym IPv4Address = u32
type_synonym IPv6Address = "byte list"
type_synonym MACAddress = "byte list"

definition is_MAC :: "MACAddress \<Rightarrow> bool" where
  "is_MAC a \<longleftrightarrow> length a = EtherAddrLen"

definition is_IPv4_array :: "byte list \<Rightarrow> bool" where
  "is_IPv4_array a \<longleftrightarrow> length a = IPv4AddrLen"

definition is_IPv6 :: "IPv6Address \<Rightarrow> bool" where
  "is_IPv6 a \<longleftrightarrow> length a = IPv6AddrLen"

definition BytesToIPv4 :: "byte \<Rightarrow> byte \<Rightarrow> byte \<Rightarrow> byte \<Rightarrow> IPv4Address" where
  "BytesToIPv4 a b c d =
     push_bit 24 (ucast d) OR push_bit 16 (ucast c) OR push_bit 8 (ucast b) OR ucast a"

definition ArrayToIPv4 :: "byte list \<Rightarrow> IPv4Address" where
  "ArrayToIPv4 a =
     push_bit 24 (ucast (a ! 3)) OR push_bit 16 (ucast (a ! 2)) OR
     push_bit 8 (ucast (a ! 1)) OR ucast (a ! 0)"

definition SliceToIPv4 :: "byte list \<Rightarrow> IPv4Address option" where
  "SliceToIPv4 s =
     (if 3 < length s
      then Some (push_bit 24 (ucast (s ! 3)) OR push_bit 16 (ucast (s ! 2)) OR
                 push_bit 8 (ucast (s ! 1)) OR ucast (s ! 0))
      else None)"

definition IPv4ToBytes :: "IPv4Address \<Rightarrow> byte list" where
  "IPv4ToBytes v = [ucast v, ucast (drop_bit 8 v), ucast (drop_bit 16 v), ucast (drop_bit 24 v)]"

definition IPv4Address_String :: "IPv4Address \<Rightarrow> string" where
  "IPv4Address_String addr = join ''.''
     [dec_str (unat (ucast addr :: byte)), dec_str (unat (ucast (drop_bit 8 addr) :: byte)),
      dec_str (unat (ucast (drop_bit 16 addr) :: byte)), dec_str (unat (ucast (drop_bit 24 addr) :: byte))]"

definition IPv4ArrayToString :: "byte list \<Rightarrow> string" where
  "IPv4ArrayToString addr = join ''.''
     [dec_str (unat (addr ! 0)), dec_str (unat (addr ! 1)),
      dec_str (unat (addr ! 2)), dec_str (unat (addr ! 3))]"

definition MACAddress_String :: "MACAddress \<Rightarrow> string" where
  "MACAddress_String mac = join '':''
     [hex2 (mac ! 0), hex2 (mac ! 1), hex2 (mac ! 2), hex2 (mac ! 3), hex2 (mac ! 4), hex2 (mac ! 5)]"

definition IPv6Address_String :: "IPv6Address \<Rightarrow> string" where
  "IPv6Address_String addr = ''['' @ join '':''
     [hex2 (addr ! 0) @ hex2 (addr ! 1), hex2 (addr ! 2) @ hex2 (addr ! 3),
      hex2 (addr ! 4) @ hex2 (addr ! 5), hex2 (addr ! 6) @ hex2 (addr ! 7),
      hex2 (addr ! 8) @ hex2 (addr ! 9), hex2 (addr ! 10) @ hex2 (addr ! 11),
      hex2 (addr ! 12) @ hex2 (addr ! 13), hex2 (addr ! 14) @ hex2 (addr ! 15)] @ '']''"

subsection \<open>JSON\<close>

text \<open>
  \<^verbatim>\<open>json.Unmarshal\<close>, \<^verbatim>\<open>net.ParseIP\<close> and \<^verbatim>\<open>net.ParseMAC\<close> are arguments.  A
  \<^verbatim>\<open>net.IP\<close> is a byte list; \<^verbatim>\<open>To4\<close> and \<^verbatim>\<open>To16\<close> are those of package \<^verbatim>\<open>net\<close>: an
  address of four bytes, or of sixteen with the IPv4-mapped prefix.
\<close>

definition v4InV6Prefix :: "byte list" where
  "v4InV6Prefix = replicate 10 0 @ [0xff, 0xff]"

definition IP_To4 :: "byte list \<Rightarrow> byte list option" where
  "IP_To4 ip =
     (if length ip = 4 then Some ip
      else if length ip = 16 \<and> take 12 ip = v4InV6Prefix then Some (drop 12 ip) else None)"

definition IP_To16 :: "byte list \<Rightarrow> byte list option" where
  "IP_To16 ip =
     (if length ip = 4 then Some (v4InV6Prefix @ ip)
      else if length ip = 16 then Some ip else None)"

definition IPv4_UnmarshalJSON ::
  "(byte list \<Rightarrow> go_error + string) \<Rightarrow> (string \<Rightarrow> byte list option) \<Rightarrow>
     byte list \<Rightarrow> IPv4Address \<Rightarrow> error \<times> IPv4Address" where
  "IPv4_UnmarshalJSON Unmarshal ParseIP b out =
     (case Unmarshal b of
        Inl e \<Rightarrow> (Some e, out)
      | Inr s \<Rightarrow>
          (case ParseIP s of
             None \<Rightarrow> (Some (ErrMsg (''Failed to parse address '' @ s)), out)
           | Some ip \<Rightarrow>
               (case IP_To4 ip of
                  None \<Rightarrow> (Some (ErrMsg (''Bad IPv4 address '' @ s)), out)
                | Some ipv4 \<Rightarrow> (None, BytesToIPv4 (ipv4 ! 0) (ipv4 ! 1) (ipv4 ! 2) (ipv4 ! 3)))))"

definition IPv6_UnmarshalJSON ::
  "(byte list \<Rightarrow> go_error + string) \<Rightarrow> (string \<Rightarrow> byte list option) \<Rightarrow>
     byte list \<Rightarrow> IPv6Address \<Rightarrow> error \<times> IPv6Address" where
  "IPv6_UnmarshalJSON Unmarshal ParseIP b out =
     (case Unmarshal b of
        Inl e \<Rightarrow> (Some e, out)
      | Inr s \<Rightarrow>
          (case ParseIP s of
             None \<Rightarrow> (Some (ErrMsg (''Failed to parse address '' @ s)), out)
           | Some ip \<Rightarrow>
               (case IP_To16 ip of
                  None \<Rightarrow> (Some (ErrMsg (''Bad IPv6 address '' @ s)), out)
                | Some ipv6 \<Rightarrow> (None, go_copy out ipv6))))"

definition StringToMACAddress ::
  "(string \<Rightarrow> go_error + byte list) \<Rightarrow> string \<Rightarrow> MACAddress \<times> error" where
  "StringToMACAddress ParseMAC str =
     (case ParseMAC str of
        Inl e \<Rightarrow> (replicate 6 0, Some e)
      | Inr hw \<Rightarrow> (go_copy (replicate 6 0) hw, None))"

definition MAC_UnmarshalJSON ::
  "(byte list \<Rightarrow> go_error + string) \<Rightarrow> (string \<Rightarrow> go_error + byte list) \<Rightarrow>
     byte list \<Rightarrow> MACAddress \<Rightarrow> error \<times> MACAddress" where
  "MAC_UnmarshalJSON Unmarshal ParseMAC b out =
     (case Unmarshal b of
        Inl e \<Rightarrow> (Some e, out)
      | Inr s \<Rightarrow> (let (a, e) = StringToMACAddress ParseMAC s in (e, a)))"

section \<open>Properties\<close>

lemma IPv4ToBytes_le32: "IPv4ToBytes v = le32 v"
  by (simp add: IPv4ToBytes_def wire_simps)

lemma length_IPv4ToBytes [simp]: "length (IPv4ToBytes v) = 4"
  by (simp add: IPv4ToBytes_def)

lemma BytesToIPv4_un_le: "BytesToIPv4 a b c d = un_le32 [a, b, c, d]"
  by (simp add: BytesToIPv4_def push_bit_or ac_simps)

lemma length_4_conv: "length xs = 4 \<longleftrightarrow> (\<exists>a b c d. xs = [a, b, c, d])"
  by (auto simp: numeral_eq_Suc length_Suc_conv)

lemma ArrayToIPv4_un_le: "length a = 4 \<Longrightarrow> ArrayToIPv4 a = un_le32 a"
  by (auto simp: length_4_conv ArrayToIPv4_def push_bit_or ac_simps)

lemma ArrayToIPv4_IPv4ToBytes: "ArrayToIPv4 (IPv4ToBytes v) = v"
  using ArrayToIPv4_un_le [OF length_IPv4ToBytes, of v] by (simp only: IPv4ToBytes_le32 le_rt)

lemma IPv4ToBytes_ArrayToIPv4: "length a = 4 \<Longrightarrow> IPv4ToBytes (ArrayToIPv4 a) = a"
  by (simp only: ArrayToIPv4_un_le IPv4ToBytes_le32 le_rt_list)

lemma IPv4_String_array: "IPv4Address_String v = IPv4ArrayToString (IPv4ToBytes v)"
  by (simp add: IPv4Address_String_def IPv4ArrayToString_def IPv4ToBytes_def)

text \<open>The dotted text determines the address: reading the four fields gives its bytes.\<close>

lemma IPv4_String_read:
  "map (of_nat \<circ> read_dec) (split_on CHR ''.'' (IPv4Address_String v)) = IPv4ToBytes v"
proof -
  have "split_on CHR ''.'' (IPv4Address_String v) = map (dec_str \<circ> unat) (IPv4ToBytes v)"
    unfolding IPv4_String_array IPv4ArrayToString_def
    by (subst split_on_join) (auto simp: IPv4ToBytes_def)
  then show ?thesis by (simp add: comp_def)
qed

lemma UnmarshalJSON_success_v4:
  assumes "Unmarshal b = Inr s" "ParseIP s = Some ip" "IP_To4 ip = Some q"
  shows "IPv4_UnmarshalJSON Unmarshal ParseIP b out = (None, ArrayToIPv4 q)"
  using assms by (simp add: IPv4_UnmarshalJSON_def ArrayToIPv4_def BytesToIPv4_def)

end
