(* ===== verification/Mbuf.thy ===== *)
theory Mbuf
  imports Types_Pkg
begin

text \<open>
  Package \<^verbatim>\<open>mbuf\<close> (src/mbuf/mbuf.go).  The record \<open>Mbuf\<close> holds the fields of
  \<^verbatim>\<open>struct rte_mbuf\<close> the package reads or writes, at their C widths; the packet bytes
  are in the shared \<^typ>\<open>memory\<close>.  The four length-changing operations are those of the
  Go code (\<^verbatim>\<open>PrependMbuf\<close>, \<^verbatim>\<open>AppendMbuf\<close>, \<^verbatim>\<open>AdjMbuf\<close>, \<^verbatim>\<open>TrimMbuf\<close>), with the
  conversions \<^verbatim>\<open>C.uint16_t(length)\<close> written as \<^term>\<open>ucast\<close>.  Their specification is a
  segment of three natural numbers: head room, data, tail room.
\<close>

record Mbuf =
  buf_addr :: addr
  data_off :: u16
  data_len :: u16
  pkt_len :: u32
  buf_len :: u16
  mb_next :: addr
  mb_pool :: addr
  priv_size :: u16
  refcnt :: u16
  hash_rss :: u32

text \<open>An mbuf as a driver hands it out, with \<open>n\<close> bytes of data, for concrete examples.\<close>

definition sample_mbuf :: "u16 \<Rightarrow> Mbuf" where
  "sample_mbuf n = \<lparr>buf_addr = 0x10000, data_off = 128, data_len = n, pkt_len = ucast n,
     buf_len = 2176, mb_next = nil, mb_pool = nil, priv_size = 0, refcnt = 1, hash_rss = 0\<rparr>"

section \<open>Lengths\<close>

text \<open>The global \<^verbatim>\<open>packetStructSize\<close> is the argument \<open>pss\<close>, an \<^verbatim>\<open>int\<close>.\<close>

definition SetPacketStructSize :: "int \<Rightarrow> int \<Rightarrow> int \<Rightarrow> error \<times> int" where
  "SetPacketStructSize RTE_PKTMBUF_HEADROOM t pss =
     (if t > RTE_PKTMBUF_HEADROOM
      then (Some (ErrMsg ''Packet structure can't be placed inside mbuf.''), pss)
      else (None, t))"

definition PrependMbuf :: "int \<Rightarrow> Mbuf \<Rightarrow> u64 \<Rightarrow> bool \<times> Mbuf" where
  "PrependMbuf pss mb n =
     (if (ucast n :: u16) > data_off mb - word_of_int pss then (False, mb)
      else (True, mb\<lparr>data_off := data_off mb - ucast n,
                     data_len := data_len mb + ucast n,
                     pkt_len := pkt_len mb + ucast n\<rparr>))"

definition AppendMbuf :: "Mbuf \<Rightarrow> u64 \<Rightarrow> bool \<times> Mbuf" where
  "AppendMbuf mb n =
     (if (ucast n :: u16) > buf_len mb - data_off mb - data_len mb then (False, mb)
      else (True, mb\<lparr>data_len := data_len mb + ucast n,
                     pkt_len := pkt_len mb + ucast n\<rparr>))"

definition AdjMbuf :: "Mbuf \<Rightarrow> u64 \<Rightarrow> bool \<times> Mbuf" where
  "AdjMbuf m n =
     (if (ucast n :: u16) > data_len m then (False, m)
      else (True, m\<lparr>data_off := data_off m + ucast n,
                    data_len := data_len m - ucast n,
                    pkt_len := pkt_len m - ucast n\<rparr>))"

definition TrimMbuf :: "Mbuf \<Rightarrow> u64 \<Rightarrow> bool \<times> Mbuf" where
  "TrimMbuf m n =
     (if (ucast n :: u16) > data_len m then (False, m)
      else (True, m\<lparr>data_len := data_len m - ucast n,
                    pkt_len := pkt_len m - ucast n\<rparr>))"

definition GetPktLenMbuf :: "Mbuf \<Rightarrow> u64" where
  "GetPktLenMbuf mb = ucast (pkt_len mb)"

definition GetDataLenMbuf :: "Mbuf \<Rightarrow> u64" where
  "GetDataLenMbuf mb = ucast (data_len mb)"

definition PktLen :: "Mbuf \<Rightarrow> u32" where "PktLen m = pkt_len m"
definition HeadRoomSize :: "Mbuf \<Rightarrow> u16" where "HeadRoomSize m = data_off m"

definition TailRoomSize :: "Mbuf \<Rightarrow> u16" where
  "TailRoomSize m = buf_len m - data_off m - data_len m"

definition BufLen :: "Mbuf \<Rightarrow> u16" where "BufLen m = buf_len m"
definition PrivSize :: "Mbuf \<Rightarrow> u16" where "PrivSize m = priv_size m"
definition Mempool :: "Mbuf \<Rightarrow> addr" where "Mempool m = mb_pool m"
definition Next :: "Mbuf \<Rightarrow> addr" where "Next m = mb_next m"
definition HashRss :: "Mbuf \<Rightarrow> u32" where "HashRss m = hash_rss m"

definition SetNextMbuf :: "addr \<Rightarrow> Mbuf \<Rightarrow> Mbuf" where
  "SetNextMbuf nxt prev = prev\<lparr>mb_next := nxt\<rparr>"

section \<open>Data\<close>

definition GetPacketDataStartPointer :: "Mbuf \<Rightarrow> addr" where
  "GetPacketDataStartPointer mb = buf_addr mb + ucast (data_off mb)"

definition Mbuf_L2 :: "Mbuf \<Rightarrow> addr" where
  "Mbuf_L2 m = buf_addr m + ucast (data_off m)"

abbreviation MaxLength :: nat where "MaxLength \<equiv> 2147483647"

text \<open>Slicing the array at a nil pointer, or beyond its bound, panics.\<close>

definition WriteDataToMbuf :: "memory \<Rightarrow> Mbuf \<Rightarrow> byte list \<Rightarrow> memory option" where
  "WriteDataToMbuf m mb data =
     (let d = GetPacketDataStartPointer mb in
      if d = nil \<or> length data > MaxLength then None else Some (store_bytes m d data))"

definition GetRawPacketBytesMbuf :: "memory \<Rightarrow> Mbuf \<Rightarrow> byte list option" where
  "GetRawPacketBytesMbuf m mb =
     (let dataPtr = buf_addr mb + ucast (data_off mb) in
      if dataPtr = nil then None else Some (load_bytes m dataPtr (unat (data_len mb))))"

definition Mbuf_Data :: "memory \<Rightarrow> Mbuf \<Rightarrow> byte list" where
  "Mbuf_Data m mb = load_bytes m (buf_addr mb + ucast (data_off mb)) (unat (data_len mb))"

text \<open>\<^verbatim>\<open>PrivData\<close> sets a \<^verbatim>\<open>CStruct\<close> (pointer and length) to the area behind the mbuf.\<close>

definition PrivData :: "addr \<Rightarrow> u64 \<Rightarrow> Mbuf \<Rightarrow> addr \<times> int" where
  "PrivData m sizeof_mbuf mb = (m + sizeof_mbuf, int (unat (priv_size mb)))"

section \<open>Operations over DPDK calls\<close>

text \<open>
  \<^verbatim>\<open>rte_pktmbuf_append\<close>, \<^verbatim>\<open>rte_pktmbuf_reset\<close> and \<^verbatim>\<open>rte_pktmbuf_alloc\<close> are arguments.
  The first returns the address of the appended room (nil if there is none) and the mbuf.
\<close>

type_synonym append_fn = "Mbuf \<Rightarrow> u16 \<Rightarrow> addr \<times> Mbuf"

definition PktMbufAppend :: "append_fn \<Rightarrow> memory \<Rightarrow> Mbuf \<Rightarrow> byte list \<Rightarrow> error \<times> Mbuf \<times> memory" where
  "PktMbufAppend rte_pktmbuf_append m mb data =
     (let (ptr, mb') = rte_pktmbuf_append mb (of_nat (length data)) in
      if ptr = nil then (Some ErrNullData, mb', m) else (None, mb', store_bytes m ptr data))"

text \<open>The C helper \<^verbatim>\<open>reset_and_append\<close>; \<open>data\<close> are the bytes of the \<^verbatim>\<open>CStruct\<close>.\<close>

definition reset_and_append ::
  "(Mbuf \<Rightarrow> Mbuf) \<Rightarrow> append_fn \<Rightarrow> memory \<Rightarrow> Mbuf \<Rightarrow> byte list \<Rightarrow> addr \<times> Mbuf \<times> memory" where
  "reset_and_append rte_pktmbuf_reset rte_pktmbuf_append m mb data =
     (let (ptr, mb') = rte_pktmbuf_append (rte_pktmbuf_reset mb) (of_nat (length data)) in
      if ptr = nil then (nil, mb', m) else (ptr, mb', store_bytes m ptr data))"

definition ResetAndAppend ::
  "(Mbuf \<Rightarrow> Mbuf) \<Rightarrow> append_fn \<Rightarrow> memory \<Rightarrow> Mbuf \<Rightarrow> byte list \<Rightarrow> error \<times> Mbuf \<times> memory" where
  "ResetAndAppend rst app m mb data =
     (let (ptr, mb', m') = reset_and_append rst app m mb data in
      (if ptr = nil then Some ErrNullData else None, mb', m'))"

text \<open>
  \<^verbatim>\<open>alloc_reset_and_append\<close> on a pool state \<open>'p\<close>.  Where the append fails the C code
  returns NULL; the allocated mbuf stays out of the pool, as the resulting pool shows.
\<close>

definition alloc_reset_and_append ::
  "('p \<Rightarrow> Mbuf option \<times> 'p) \<Rightarrow> (Mbuf \<Rightarrow> Mbuf) \<Rightarrow> append_fn \<Rightarrow> memory \<Rightarrow> 'p \<Rightarrow> byte list
     \<Rightarrow> Mbuf option \<times> 'p \<times> memory" where
  "alloc_reset_and_append alloc rst app m p data =
     (case alloc p of
        (None, p') \<Rightarrow> (None, p', m)
      | (Some mb, p') \<Rightarrow>
          let (ptr, mb') = app (rst mb) (of_nat (length data)) in
          if ptr = nil then (None, p', m) else (Some mb', p', store_bytes m ptr data))"

definition AllocResetAndAppend ::
  "('p \<Rightarrow> Mbuf option \<times> 'p) \<Rightarrow> (Mbuf \<Rightarrow> Mbuf) \<Rightarrow> append_fn \<Rightarrow> memory \<Rightarrow> 'p \<Rightarrow> byte list
     \<Rightarrow> Mbuf option \<times> 'p \<times> memory" where
  "AllocResetAndAppend alloc rst app m p data = alloc_reset_and_append alloc rst app m p data"

section \<open>Specification: a segment of three lengths\<close>

record segment =
  seg_head :: nat
  seg_body :: nat
  seg_tail :: nat

definition mbuf_inv :: "Mbuf \<Rightarrow> bool" where
  "mbuf_inv mb \<longleftrightarrow> unat (data_off mb) + unat (data_len mb) \<le> unat (buf_len mb)
     \<and> pkt_len mb = ucast (data_len mb)"

definition mbuf_abs :: "Mbuf \<Rightarrow> segment" where
  "mbuf_abs mb = \<lparr>seg_head = unat (data_off mb), seg_body = unat (data_len mb),
     seg_tail = unat (buf_len mb) - unat (data_off mb) - unat (data_len mb)\<rparr>"

definition seg_prepend :: "nat \<Rightarrow> nat \<Rightarrow> segment \<Rightarrow> segment option" where
  "seg_prepend reserved n s = (if n + reserved \<le> seg_head s
     then Some (s\<lparr>seg_head := seg_head s - n, seg_body := seg_body s + n\<rparr>) else None)"

definition seg_append :: "nat \<Rightarrow> segment \<Rightarrow> segment option" where
  "seg_append n s = (if n \<le> seg_tail s
     then Some (s\<lparr>seg_body := seg_body s + n, seg_tail := seg_tail s - n\<rparr>) else None)"

definition seg_adj :: "nat \<Rightarrow> segment \<Rightarrow> segment option" where
  "seg_adj n s = (if n \<le> seg_body s
     then Some (s\<lparr>seg_head := seg_head s + n, seg_body := seg_body s - n\<rparr>) else None)"

definition seg_trim :: "nat \<Rightarrow> segment \<Rightarrow> segment option" where
  "seg_trim n s = (if n \<le> seg_body s
     then Some (s\<lparr>seg_body := seg_body s - n, seg_tail := seg_tail s + n\<rparr>) else None)"

text \<open>
  A concrete operation implements an abstract one on a state: it succeeds exactly when
  the abstract one does, its result has the abstract result and satisfies the invariant,
  and a refusal leaves the mbuf as it was.
\<close>

definition implements :: "bool \<times> Mbuf \<Rightarrow> segment option \<Rightarrow> Mbuf \<Rightarrow> bool" where
  "implements res spec mb \<longleftrightarrow>
     (case spec of
        None \<Rightarrow> res = (False, mb)
      | Some s \<Rightarrow> fst res \<and> mbuf_abs (snd res) = s \<and> mbuf_inv (snd res)
          \<and> buf_len (snd res) = buf_len mb \<and> buf_addr (snd res) = buf_addr mb)"

section \<open>Properties\<close>

lemma ucast_len:
  "unat (n :: u64) < 2 ^ 16 \<Longrightarrow> unat (ucast n :: u16) = unat n"
  "unat (n :: u64) < 2 ^ 16 \<Longrightarrow> unat (ucast n :: u32) = unat n"
  by (simp_all add: unat_ucast_small)

lemma ucast_u16_u32: "unat (ucast (w :: u16) :: u32) = unat w"
  using unat_mod_small [of w] by (simp add: unat_ucast_small)

lemma tail_room:
  "unat (data_off mb) + unat (data_len mb) \<le> unat (buf_len mb) \<Longrightarrow>
     unat (buf_len mb - data_off mb - data_len mb) =
     unat (buf_len mb) - unat (data_off mb) - unat (data_len mb)"
  by (simp add: unat_sub_exact word_le_nat_alt)

lemmas mbuf_arith = tail_room word_less_nat_alt word_le_nat_alt unat_add_exact unat_sub_exact
  word_unat_eq_iff ucast_u16_u32

lemmas mbuf_defs = implements_def mbuf_abs_def mbuf_inv_def

lemma AppendMbuf_implements:
  assumes "mbuf_inv mb" "unat n < 2 ^ 16"
  shows "implements (AppendMbuf mb n) (seg_append (unat n) (mbuf_abs mb)) mb"
  using assms ucast_len [OF assms(2)] unat_mod_small [of "buf_len mb"]
  by (auto simp: mbuf_defs AppendMbuf_def seg_append_def mbuf_arith)

lemma AdjMbuf_implements:
  assumes "mbuf_inv mb" "unat n < 2 ^ 16"
  shows "implements (AdjMbuf mb n) (seg_adj (unat n) (mbuf_abs mb)) mb"
  using assms ucast_len [OF assms(2)] unat_mod_small [of "buf_len mb"]
  by (auto simp: mbuf_defs AdjMbuf_def seg_adj_def mbuf_arith)

lemma TrimMbuf_implements:
  assumes "mbuf_inv mb" "unat n < 2 ^ 16"
  shows "implements (TrimMbuf mb n) (seg_trim (unat n) (mbuf_abs mb)) mb"
  using assms ucast_len [OF assms(2)] unat_mod_small [of "buf_len mb"]
  by (auto simp: mbuf_defs TrimMbuf_def seg_trim_def mbuf_arith)

lemma PrependMbuf_implements:
  assumes "mbuf_inv mb" "unat n < 2 ^ 16" "0 \<le> pss" "nat pss \<le> unat (data_off mb)"
  shows "implements (PrependMbuf pss mb n) (seg_prepend (nat pss) (unat n) (mbuf_abs mb)) mb"
proof -
  have "nat pss < 2 ^ 16"
    using assms(4) unat_mod_small [of "data_off mb"] by simp
  then have "unat (word_of_int pss :: u16) = nat pss"
    using assms(3) unat_of_nat_small [of "nat pss", where 'a = 16] by simp
  then show ?thesis
    using assms ucast_len [OF assms(2)] unat_mod_small [of "buf_len mb"]
    by (auto simp: mbuf_defs PrependMbuf_def seg_prepend_def mbuf_arith)
qed

text \<open>A length that is a multiple of 2 to the 16 passes every guard.\<close>

lemma AppendMbuf_truncates:
  assumes "ucast n = (0 :: u16)"
  shows "AppendMbuf mb n = (True, mb\<lparr>pkt_len := pkt_len mb + ucast n\<rparr>)"
  using assms by (simp add: AppendMbuf_def)

lemma WriteDataToMbuf_reads_back:
  assumes "GetPacketDataStartPointer mb \<noteq> nil" "unat (data_len mb) = length data"
  shows "Option.bind (WriteDataToMbuf m mb data) (\<lambda>m'. GetRawPacketBytesMbuf m' mb) = Some data"
  using assms unat_mod_small [of "data_len mb"]
  by (simp add: WriteDataToMbuf_def GetRawPacketBytesMbuf_def GetPacketDataStartPointer_def
      Let_def load_store_bytes)

text \<open>
  The 16-bit subtraction of the guard of \<^verbatim>\<open>PrependMbuf\<close> wraps when the data starts inside the packet
  structure.
\<close>

lemma PrependMbuf_wraps:
  assumes "unat n < 2 ^ 16" "int (unat (data_off mb)) < pss" "pss < 2 ^ 16"
    and "int (unat n) \<le> int (unat (data_off mb)) - pss + 2 ^ 16"
  shows "fst (PrependMbuf pss mb n)"
proof -
  have "int (unat n) < int (2 ^ 16)" using assms(1) by (simp only: of_nat_less_iff)
  then have n: "uint (ucast n :: u16) = int (unat n)" by (simp add: unsigned_ucast_eq take_bit_eq_mod)
  have "uint (data_off mb - word_of_int pss) = (uint (data_off mb) - pss) mod 2 ^ 16"
    by (simp add: uint_word_ariths mod_diff_right_eq uint_word_of_int)
  also have "\<dots> = int (unat (data_off mb)) - pss + 2 ^ 16"
  proof -
    have "uint (data_off mb) < pss" using assms(2) by simp
    then have "0 \<le> uint (data_off mb) - pss + 2 ^ 16" "uint (data_off mb) - pss + 2 ^ 16 < 2 ^ 16"
      using assms(3) uint_ge_0 [of "data_off mb"] by linarith+
    then have "(uint (data_off mb) - pss + 2 ^ 16) mod 2 ^ 16 = uint (data_off mb) - pss + 2 ^ 16"
      by (rule mod_pos_pos_trivial)
    then show ?thesis by simp
  qed
  finally show ?thesis using n assms(4) by (simp add: PrependMbuf_def word_less_def)
qed

text \<open>C26: on a consistent mbuf and for lengths below 2 to the 16, AppendMbuf, AdjMbuf and TrimMbuf implement the operations of a segment with head room, data and tail room: they succeed exactly when the room suffices, keep the invariant and otherwise change nothing. PrependMbuf does so, with the packet structure size taken off the head room, when that size is at least 0 and the data does not start before it; when the data starts inside the packet structure, so that there is no room at all, the 16-bit subtraction of its guard wraps and it succeeds for every length up to the wrapped difference.\<close>

theorem mbuf_operations_refine:
  assumes "mbuf_inv mb" "unat n < 2 ^ 16"
  shows "implements (AppendMbuf mb n) (seg_append (unat n) (mbuf_abs mb)) mb
    \<and> implements (AdjMbuf mb n) (seg_adj (unat n) (mbuf_abs mb)) mb
    \<and> implements (TrimMbuf mb n) (seg_trim (unat n) (mbuf_abs mb)) mb
    \<and> (0 \<le> pss \<and> nat pss \<le> unat (data_off mb) \<longrightarrow>
        implements (PrependMbuf pss mb n) (seg_prepend (nat pss) (unat n) (mbuf_abs mb)) mb)
    \<and> (int (unat (data_off mb)) < pss \<and> pss < 2 ^ 16 \<and> int (unat n) \<le> int (unat (data_off mb)) - pss + 2 ^ 16 \<longrightarrow>
        fst (PrependMbuf pss mb n))"
  using assms AppendMbuf_implements AdjMbuf_implements TrimMbuf_implements PrependMbuf_implements
    PrependMbuf_wraps by blast

theorem mbuf_operations_refine_witness:
  "implements (AppendMbuf (sample_mbuf 60) 100) (seg_append 100 (mbuf_abs (sample_mbuf 60))) (sample_mbuf 60) \<and>
   implements (PrependMbuf 64 (sample_mbuf 60) 14) (seg_prepend 64 14 (mbuf_abs (sample_mbuf 60))) (sample_mbuf 60) \<and>
   fst (PrependMbuf 192 (sample_mbuf 60) 14)"
  using mbuf_operations_refine [of "sample_mbuf 60" 100 0] mbuf_operations_refine [of "sample_mbuf 60" 14 64]
    mbuf_operations_refine [of "sample_mbuf 60" 14 192]
  by (simp add: sample_mbuf_def mbuf_inv_def)

end
