(* ===== verification/Headers.thy ===== *)
theory Headers
  imports Types_Pkg
begin

text \<open>
  The header structures of src/packet/packet.go, arp.go and icmp6.go with Go's memory
  layout.  Each is a record, an encoder and a decoder; the interpretation of
  \<open>layout\<close> shows that the two are inverse and that the size is the one of
  src/types/const.go.  \<open>H_at\<close> reads the structure overlaid at an address, \<open>set_H\<close> writes
  it: an assignment \<^verbatim>\<open>hdr.Field = v\<close> is the write of the updated structure.
\<close>

record EtherHdr =
  DAddr :: MACAddress
  SAddr :: MACAddress
  EtherType :: u16

record IPv4Hdr =
  VersionIhl :: u8
  TypeOfService :: u8
  TotalLength :: u16
  PacketID :: u16
  FragmentOffset :: u16
  TimeToLive :: u8
  NextProtoID :: u8
  HdrChecksum :: u16
  ip4_SrcAddr :: IPv4Address
  ip4_DstAddr :: IPv4Address

record IPv6Hdr =
  VtcFlow :: u32
  PayloadLen :: u16
  Proto :: u8
  HopLimits :: u8
  ip6_SrcAddr :: IPv6Address
  ip6_DstAddr :: IPv6Address

record TCPHdr =
  tcp_SrcPort :: u16
  tcp_DstPort :: u16
  SentSeq :: u32
  RecvAck :: u32
  DataOff :: u8
  tcp_Flags :: u8
  RxWin :: u16
  tcp_Cksum :: u16
  TCPUrp :: u16

record UDPHdr =
  udp_SrcPort :: u16
  udp_DstPort :: u16
  DgramLen :: u16
  DgramCksum :: u16

record ICMPHdr =
  icmp_Type :: u8
  icmp_Code :: u8
  icmp_Cksum :: u16
  Identifier :: u16
  SeqNum :: u16

record VXLANHeader =
  vx_Flags :: u32
  VNI :: u32

record ARPHdr =
  HType :: u16
  PType :: u16
  HLen :: u8
  PLen :: u8
  Operation :: u16
  SHA :: MACAddress
  SPA :: "byte list"
  THA :: MACAddress
  TPA :: "byte list"

record NDLinkLayerAddressOption =
  opt_Type :: u8
  opt_Length :: u8
  LinkLayerAddress :: MACAddress

section \<open>Encoders and decoders\<close>

definition enc_EtherHdr :: "EtherHdr \<Rightarrow> byte list" where
  "enc_EtherHdr h = DAddr h @ SAddr h @ le16 (EtherType h)"

definition dec_EtherHdr :: "byte list \<Rightarrow> EtherHdr" where
  "dec_EtherHdr b = \<lparr>DAddr = slice 0 6 b, SAddr = slice 6 6 b, EtherType = un_le16 (slice 12 2 b)\<rparr>"

definition valid_EtherHdr :: "EtherHdr \<Rightarrow> bool" where
  "valid_EtherHdr h \<longleftrightarrow> is_MAC (DAddr h) \<and> is_MAC (SAddr h)"

definition enc_IPv4Hdr :: "IPv4Hdr \<Rightarrow> byte list" where
  "enc_IPv4Hdr h = [VersionIhl h, TypeOfService h] @ le16 (TotalLength h) @ le16 (PacketID h) @
     le16 (FragmentOffset h) @ [TimeToLive h, NextProtoID h] @ le16 (HdrChecksum h) @
     le32 (ip4_SrcAddr h) @ le32 (ip4_DstAddr h)"

definition dec_IPv4Hdr :: "byte list \<Rightarrow> IPv4Hdr" where
  "dec_IPv4Hdr b = \<lparr>VersionIhl = b ! 0, TypeOfService = b ! 1, TotalLength = un_le16 (slice 2 2 b),
     PacketID = un_le16 (slice 4 2 b), FragmentOffset = un_le16 (slice 6 2 b),
     TimeToLive = b ! 8, NextProtoID = b ! 9, HdrChecksum = un_le16 (slice 10 2 b),
     ip4_SrcAddr = un_le32 (slice 12 4 b), ip4_DstAddr = un_le32 (slice 16 4 b)\<rparr>"

definition enc_IPv6Hdr :: "IPv6Hdr \<Rightarrow> byte list" where
  "enc_IPv6Hdr h = le32 (VtcFlow h) @ le16 (PayloadLen h) @ [Proto h, HopLimits h] @
     ip6_SrcAddr h @ ip6_DstAddr h"

definition dec_IPv6Hdr :: "byte list \<Rightarrow> IPv6Hdr" where
  "dec_IPv6Hdr b = \<lparr>VtcFlow = un_le32 (slice 0 4 b), PayloadLen = un_le16 (slice 4 2 b),
     Proto = b ! 6, HopLimits = b ! 7, ip6_SrcAddr = slice 8 16 b, ip6_DstAddr = slice 24 16 b\<rparr>"

definition valid_IPv6Hdr :: "IPv6Hdr \<Rightarrow> bool" where
  "valid_IPv6Hdr h \<longleftrightarrow> is_IPv6 (ip6_SrcAddr h) \<and> is_IPv6 (ip6_DstAddr h)"

definition enc_TCPHdr :: "TCPHdr \<Rightarrow> byte list" where
  "enc_TCPHdr h = le16 (tcp_SrcPort h) @ le16 (tcp_DstPort h) @ le32 (SentSeq h) @
     le32 (RecvAck h) @ [DataOff h, tcp_Flags h] @ le16 (RxWin h) @ le16 (tcp_Cksum h) @
     le16 (TCPUrp h)"

definition dec_TCPHdr :: "byte list \<Rightarrow> TCPHdr" where
  "dec_TCPHdr b = \<lparr>tcp_SrcPort = un_le16 (slice 0 2 b), tcp_DstPort = un_le16 (slice 2 2 b),
     SentSeq = un_le32 (slice 4 4 b), RecvAck = un_le32 (slice 8 4 b), DataOff = b ! 12,
     tcp_Flags = b ! 13, RxWin = un_le16 (slice 14 2 b), tcp_Cksum = un_le16 (slice 16 2 b),
     TCPUrp = un_le16 (slice 18 2 b)\<rparr>"

definition enc_UDPHdr :: "UDPHdr \<Rightarrow> byte list" where
  "enc_UDPHdr h = le16 (udp_SrcPort h) @ le16 (udp_DstPort h) @ le16 (DgramLen h) @
     le16 (DgramCksum h)"

definition dec_UDPHdr :: "byte list \<Rightarrow> UDPHdr" where
  "dec_UDPHdr b = \<lparr>udp_SrcPort = un_le16 (slice 0 2 b), udp_DstPort = un_le16 (slice 2 2 b),
     DgramLen = un_le16 (slice 4 2 b), DgramCksum = un_le16 (slice 6 2 b)\<rparr>"

definition enc_ICMPHdr :: "ICMPHdr \<Rightarrow> byte list" where
  "enc_ICMPHdr h = [icmp_Type h, icmp_Code h] @ le16 (icmp_Cksum h) @ le16 (Identifier h) @
     le16 (SeqNum h)"

definition dec_ICMPHdr :: "byte list \<Rightarrow> ICMPHdr" where
  "dec_ICMPHdr b = \<lparr>icmp_Type = b ! 0, icmp_Code = b ! 1, icmp_Cksum = un_le16 (slice 2 2 b),
     Identifier = un_le16 (slice 4 2 b), SeqNum = un_le16 (slice 6 2 b)\<rparr>"

definition enc_VXLANHeader :: "VXLANHeader \<Rightarrow> byte list" where
  "enc_VXLANHeader h = le32 (vx_Flags h) @ le32 (VNI h)"

definition dec_VXLANHeader :: "byte list \<Rightarrow> VXLANHeader" where
  "dec_VXLANHeader b = \<lparr>vx_Flags = un_le32 (slice 0 4 b), VNI = un_le32 (slice 4 4 b)\<rparr>"

definition enc_ARPHdr :: "ARPHdr \<Rightarrow> byte list" where
  "enc_ARPHdr h = le16 (HType h) @ le16 (PType h) @ [HLen h, PLen h] @ le16 (Operation h) @
     SHA h @ SPA h @ THA h @ TPA h"

definition dec_ARPHdr :: "byte list \<Rightarrow> ARPHdr" where
  "dec_ARPHdr b = \<lparr>HType = un_le16 (slice 0 2 b), PType = un_le16 (slice 2 2 b), HLen = b ! 4,
     PLen = b ! 5, Operation = un_le16 (slice 6 2 b), SHA = slice 8 6 b, SPA = slice 14 4 b,
     THA = slice 18 6 b, TPA = slice 24 4 b\<rparr>"

definition valid_ARPHdr :: "ARPHdr \<Rightarrow> bool" where
  "valid_ARPHdr h \<longleftrightarrow> is_MAC (SHA h) \<and> is_IPv4_array (SPA h) \<and> is_MAC (THA h) \<and> is_IPv4_array (TPA h)"

definition enc_NDOption :: "NDLinkLayerAddressOption \<Rightarrow> byte list" where
  "enc_NDOption h = [opt_Type h, opt_Length h] @ LinkLayerAddress h"

definition dec_NDOption :: "byte list \<Rightarrow> NDLinkLayerAddressOption" where
  "dec_NDOption b = \<lparr>opt_Type = b ! 0, opt_Length = b ! 1, LinkLayerAddress = slice 2 6 b\<rparr>"

definition valid_NDOption :: "NDLinkLayerAddressOption \<Rightarrow> bool" where
  "valid_NDOption h \<longleftrightarrow> is_MAC (LinkLayerAddress h)"

section \<open>The layouts\<close>

lemmas wf_defs = is_MAC_def is_IPv4_array_def is_IPv6_def valid_EtherHdr_def valid_IPv6Hdr_def
  valid_ARPHdr_def valid_NDOption_def

lemmas rt_simps = le_rt le_rt_list slice_merge nth_append nth_Cons'

interpretation ether: layout enc_EtherHdr dec_EtherHdr 14 valid_EtherHdr
  by unfold_locales (auto simp: enc_EtherHdr_def dec_EtherHdr_def wf_defs rt_simps)

interpretation ipv4: layout enc_IPv4Hdr dec_IPv4Hdr 20 "\<lambda>_. True"
  by unfold_locales (auto simp: enc_IPv4Hdr_def dec_IPv4Hdr_def wf_defs rt_simps)

interpretation ipv6: layout enc_IPv6Hdr dec_IPv6Hdr 40 valid_IPv6Hdr
  by unfold_locales (auto simp: enc_IPv6Hdr_def dec_IPv6Hdr_def wf_defs rt_simps)

interpretation tcp: layout enc_TCPHdr dec_TCPHdr 20 "\<lambda>_. True"
  by unfold_locales (auto simp: enc_TCPHdr_def dec_TCPHdr_def wf_defs rt_simps)

interpretation udp: layout enc_UDPHdr dec_UDPHdr 8 "\<lambda>_. True"
  by unfold_locales (auto simp: enc_UDPHdr_def dec_UDPHdr_def wf_defs rt_simps)

interpretation icmp: layout enc_ICMPHdr dec_ICMPHdr 8 "\<lambda>_. True"
  by unfold_locales (auto simp: enc_ICMPHdr_def dec_ICMPHdr_def wf_defs rt_simps)

interpretation vxlan: layout enc_VXLANHeader dec_VXLANHeader 8 "\<lambda>_. True"
  by unfold_locales (auto simp: enc_VXLANHeader_def dec_VXLANHeader_def wf_defs rt_simps)

interpretation arp: layout enc_ARPHdr dec_ARPHdr 28 valid_ARPHdr
  by unfold_locales (auto simp: enc_ARPHdr_def dec_ARPHdr_def wf_defs rt_simps)

interpretation ndopt: layout enc_NDOption dec_NDOption 8 valid_NDOption
  by unfold_locales (auto simp: enc_NDOption_def dec_NDOption_def wf_defs rt_simps)

section \<open>Access through pointers\<close>

definition Ether_at :: "memory \<Rightarrow> addr \<Rightarrow> EtherHdr" where "Ether_at = view_load dec_EtherHdr 14"
definition IPv4_at :: "memory \<Rightarrow> addr \<Rightarrow> IPv4Hdr" where "IPv4_at = view_load dec_IPv4Hdr 20"
definition IPv6_at :: "memory \<Rightarrow> addr \<Rightarrow> IPv6Hdr" where "IPv6_at = view_load dec_IPv6Hdr 40"
definition TCP_at :: "memory \<Rightarrow> addr \<Rightarrow> TCPHdr" where "TCP_at = view_load dec_TCPHdr 20"
definition UDP_at :: "memory \<Rightarrow> addr \<Rightarrow> UDPHdr" where "UDP_at = view_load dec_UDPHdr 8"
definition ICMP_at :: "memory \<Rightarrow> addr \<Rightarrow> ICMPHdr" where "ICMP_at = view_load dec_ICMPHdr 8"
definition VXLAN_at :: "memory \<Rightarrow> addr \<Rightarrow> VXLANHeader" where "VXLAN_at = view_load dec_VXLANHeader 8"
definition ARP_at :: "memory \<Rightarrow> addr \<Rightarrow> ARPHdr" where "ARP_at = view_load dec_ARPHdr 28"
definition NDOption_at :: "memory \<Rightarrow> addr \<Rightarrow> NDLinkLayerAddressOption" where
  "NDOption_at = view_load dec_NDOption 8"

definition set_Ether :: "memory \<Rightarrow> addr \<Rightarrow> EtherHdr \<Rightarrow> memory" where "set_Ether = view_store enc_EtherHdr"
definition set_IPv4 :: "memory \<Rightarrow> addr \<Rightarrow> IPv4Hdr \<Rightarrow> memory" where "set_IPv4 = view_store enc_IPv4Hdr"
definition set_IPv6 :: "memory \<Rightarrow> addr \<Rightarrow> IPv6Hdr \<Rightarrow> memory" where "set_IPv6 = view_store enc_IPv6Hdr"
definition set_TCP :: "memory \<Rightarrow> addr \<Rightarrow> TCPHdr \<Rightarrow> memory" where "set_TCP = view_store enc_TCPHdr"
definition set_UDP :: "memory \<Rightarrow> addr \<Rightarrow> UDPHdr \<Rightarrow> memory" where "set_UDP = view_store enc_UDPHdr"
definition set_ICMP :: "memory \<Rightarrow> addr \<Rightarrow> ICMPHdr \<Rightarrow> memory" where "set_ICMP = view_store enc_ICMPHdr"
definition set_ARP :: "memory \<Rightarrow> addr \<Rightarrow> ARPHdr \<Rightarrow> memory" where "set_ARP = view_store enc_ARPHdr"
definition set_NDOption :: "memory \<Rightarrow> addr \<Rightarrow> NDLinkLayerAddressOption \<Rightarrow> memory" where
  "set_NDOption = view_store enc_NDOption"

lemmas hdr_at_defs = Ether_at_def IPv4_at_def IPv6_at_def TCP_at_def UDP_at_def ICMP_at_def
  VXLAN_at_def ARP_at_def NDOption_at_def
lemmas hdr_set_defs = set_Ether_def set_IPv4_def set_IPv6_def set_TCP_def set_UDP_def
  set_ICMP_def set_ARP_def set_NDOption_def

section \<open>Headers side by side\<close>

text \<open>
  A write of one header does not change another at a disjoint range of offsets from the
  same address; the instances are the stackings of Ethernet, network and transport headers.
\<close>

lemma view_above:
  assumes "unat x + n \<le> unat y" "unat y + length (enc h) \<le> 2 ^ 64"
  shows "view_load dec n (view_store enc m (a + y) h) (a + x) = view_load dec n m (a + x)"
  using region_disjoint_offset [of "unat x" n "unat y" "length (enc h)" a] assms
  by (simp add: view_load_def view_store_def load_bytes_disjoint)

lemma view_below:
  assumes "unat y + length (enc h) \<le> unat x" "unat x + n \<le> 2 ^ 64"
  shows "view_load dec n (view_store enc m (a + y) h) (a + x) = view_load dec n m (a + x)"
  using region_disjoint_offset [of "unat y" "length (enc h)" "unat x" n a] assms
  by (simp add: view_load_def view_store_def load_bytes_disjoint Int_commute)

lemmas view_above0 = view_above [where x = 0, simplified]
lemmas view_below0 = view_below [where y = 0, simplified]
lemmas enc_lengths = ether.enc_length ipv4.enc_length ipv6.enc_length tcp.enc_length
  udp.enc_length icmp.enc_length arp.enc_length ndopt.enc_length

lemma hdr_same [mem_simps]:
  "valid_EtherHdr e \<Longrightarrow> Ether_at (set_Ether m a e) a = e"
  "IPv4_at (set_IPv4 m a h4) a = h4"
  "valid_IPv6Hdr h6 \<Longrightarrow> IPv6_at (set_IPv6 m a h6) a = h6"
  "TCP_at (set_TCP m a t) a = t" "UDP_at (set_UDP m a u) a = u" "ICMP_at (set_ICMP m a i) a = i"
  "valid_ARPHdr r \<Longrightarrow> ARP_at (set_ARP m a r) a = r"
  "valid_NDOption o1 \<Longrightarrow> NDOption_at (set_NDOption m a o1) a = o1"
  unfolding hdr_at_defs hdr_set_defs
  by (simp_all add: ether.load_after_store ipv4.load_after_store ipv6.load_after_store
      tcp.load_after_store udp.load_after_store icmp.load_after_store arp.load_after_store
      ndopt.load_after_store)

lemma hdr_valid [simp]:
  "valid_EtherHdr (Ether_at m a)" "valid_IPv6Hdr (IPv6_at m a)" "valid_ARPHdr (ARP_at m a)"
  "valid_NDOption (NDOption_at m a)"
  unfolding hdr_at_defs
  by (simp_all add: ether.load_valid ipv6.load_valid arp.load_valid ndopt.load_valid)

lemma hdr_above [mem_simps]:
  "Ether_at (set_IPv4 m (a + 14) h4) a = Ether_at m a"
  "valid_IPv6Hdr h6 \<Longrightarrow> Ether_at (set_IPv6 m (a + 14) h6) a = Ether_at m a"
  "valid_ARPHdr r \<Longrightarrow> Ether_at (set_ARP m (a + 14) r) a = Ether_at m a"
  "Ether_at (set_TCP m (a + 34) t) a = Ether_at m a" "Ether_at (set_TCP m (a + 54) t) a = Ether_at m a"
  "Ether_at (set_UDP m (a + 34) u) a = Ether_at m a" "Ether_at (set_UDP m (a + 54) u) a = Ether_at m a"
  "Ether_at (set_ICMP m (a + 34) i) a = Ether_at m a" "Ether_at (set_ICMP m (a + 54) i) a = Ether_at m a"
  "IPv4_at (set_TCP m (a + 34) t) (a + 14) = IPv4_at m (a + 14)"
  "IPv4_at (set_UDP m (a + 34) u) (a + 14) = IPv4_at m (a + 14)"
  "IPv4_at (set_ICMP m (a + 34) i) (a + 14) = IPv4_at m (a + 14)"
  "IPv6_at (set_TCP m (a + 54) t) (a + 14) = IPv6_at m (a + 14)"
  "IPv6_at (set_UDP m (a + 54) u) (a + 14) = IPv6_at m (a + 14)"
  "IPv6_at (set_ICMP m (a + 54) i) (a + 14) = IPv6_at m (a + 14)"
  unfolding hdr_at_defs hdr_set_defs
  by (simp_all add: view_above view_above0 enc_lengths)

lemma hdr_below [mem_simps]:
  "valid_EtherHdr e \<Longrightarrow> IPv4_at (set_Ether m a e) (a + 14) = IPv4_at m (a + 14)"
  "valid_EtherHdr e \<Longrightarrow> IPv6_at (set_Ether m a e) (a + 14) = IPv6_at m (a + 14)"
  "valid_EtherHdr e \<Longrightarrow> ARP_at (set_Ether m a e) (a + 14) = ARP_at m (a + 14)"
  "valid_EtherHdr e \<Longrightarrow> ICMP_at (set_Ether m a e) (a + 54) = ICMP_at m (a + 54)"
  "valid_IPv6Hdr h6 \<Longrightarrow> ICMP_at (set_IPv6 m (a + 14) h6) (a + 54) = ICMP_at m (a + 54)"
  "TCP_at (set_IPv4 m (a + 14) h4) (a + 34) = TCP_at m (a + 34)"
  "UDP_at (set_IPv4 m (a + 14) h4) (a + 34) = UDP_at m (a + 34)"
  "valid_EtherHdr e \<Longrightarrow> ICMP_at (set_Ether m a e) (a + 34) = ICMP_at m (a + 34)"
  "ICMP_at (set_IPv4 m (a + 14) h4) (a + 34) = ICMP_at m (a + 34)"
  unfolding hdr_at_defs hdr_set_defs
  by (simp_all add: view_below view_below0 enc_lengths)

text \<open>The bytes of a header, and bytes behind the headers of an ICMP packet over IPv4.\<close>

lemma hdr_bytes:
  "load_bytes m a 14 = enc_EtherHdr (Ether_at m a)" "load_bytes m a 20 = enc_IPv4Hdr (IPv4_at m a)"
  "load_bytes m a 40 = enc_IPv6Hdr (IPv6_at m a)" "load_bytes m a 8 = enc_ICMPHdr (ICMP_at m a)"
  unfolding hdr_at_defs
  using ether.load_unique ether.load_valid ipv4.load_unique ipv6.load_unique ipv6.load_valid icmp.load_unique
  by blast+

lemma payload_below:
  assumes "unat y + length (enc h) \<le> unat x" "unat x + n \<le> 2 ^ 64"
  shows "load_bytes (view_store enc m (a + y) h) (a + x) n = load_bytes m (a + x) n"
  using region_disjoint_offset [of "unat y" "length (enc h)" "unat x" n a] assms
  by (simp add: view_store_def load_bytes_disjoint Int_commute)

lemmas payload_below0 = payload_below [where y = 0, simplified]

lemma icmp_payload [mem_simps]:
  assumes "n \<le> 65535"
  shows "valid_EtherHdr e \<Longrightarrow> load_bytes (set_Ether m a e) (a + 42) n = load_bytes m (a + 42) n"
    "load_bytes (set_IPv4 m (a + 14) h4) (a + 42) n = load_bytes m (a + 42) n"
    "load_bytes (set_ICMP m (a + 34) i) (a + 42) n = load_bytes m (a + 42) n"
  using assms unfolding hdr_set_defs
  by (simp_all add: payload_below payload_below0 enc_lengths)

lemma region_sub:
  assumes "unat x + n \<le> k"
  shows "region (a + x) n \<subseteq> region a k"
proof
  fix y assume "y \<in> region (a + x) n"
  then obtain i where "i < n" "y = a + x + of_nat i" by (auto simp: in_region)
  then show "y \<in> region a k" using assms
    by (auto simp: in_region add.assoc intro!: exI [of _ "unat x + i"])
qed

lemma view_store_outside:
  "y \<notin> region a k \<Longrightarrow> unat x + length (enc h) \<le> k \<Longrightarrow> view_store enc m (a + x) h y = m y"
  unfolding view_store_def using region_sub [of x "length (enc h)" k a] store_bytes_other by blast

lemmas view_store_outside0 = view_store_outside [where x = 0, simplified]

end
