(* ===== verification/Packet.thy ===== *)
theory Packet
  imports Mbuf Headers
begin

text \<open>
  The packet structure and its parsers (src/packet/packet.go).  \<open>Packet\<close> holds the pointers
  of the Go structure; \<^verbatim>\<open>CMbuf\<close> is the mbuf the packet belongs to, held by value, and
  packet bytes live in the shared \<^typ>\<open>memory\<close>.  A method that only reads takes the memory
  as an argument; a method with results that depend on a dereference is option-valued,
  with \<^term>\<open>None\<close> for the panic at a nil pointer.

  The specification reads a frame as a function from offsets to bytes, in network byte
  order: \<open>frame_l4\<close> and \<open>frame_data\<close> give the offsets of the transport header and of the
  payload.  The theorems at the end relate the pointer code to it.
\<close>

record Packet =
  L2 :: addr
  L3 :: addr
  L4 :: addr
  Data :: addr
  OuterL2 :: addr
  OuterL3 :: addr
  OuterL4 :: addr
  OuterEther :: addr
  OuterIPv4Hdr :: addr
  OuterUDPHdr :: addr
  VxlanHeader :: addr
  Overlay :: bool
  Ether :: addr
  CMbuf :: Mbuf
  Next_pkt :: addr

definition sample_packet :: "u16 \<Rightarrow> Packet" where
  "sample_packet n = \<lparr>L2 = 0x10080, L3 = nil, L4 = nil, Data = nil, OuterL2 = nil, OuterL3 = nil,
     OuterL4 = nil, OuterEther = nil, OuterIPv4Hdr = nil, OuterUDPHdr = nil, VxlanHeader = nil,
     Overlay = False, Ether = 0x10080, CMbuf = sample_mbuf n, Next_pkt = nil\<rparr>"

definition deref :: "addr \<Rightarrow> addr option" where
  "deref a = (if a = nil then None else Some a)"

lemma deref_some [simp]: "a \<noteq> nil \<Longrightarrow> deref a = Some a"
  by (simp add: deref_def)

section \<open>Byte order\<close>

definition SwapBytesUint16 :: "u16 \<Rightarrow> u16" where
  "SwapBytesUint16 x = push_bit 8 x OR drop_bit 8 x"

definition SwapBytesUint32 :: "u32 \<Rightarrow> u32" where
  "SwapBytesUint32 x =
     push_bit 24 (x AND 0x000000ff) OR push_bit 8 (x AND 0x0000ff00) OR
     drop_bit 8 (x AND 0x00ff0000) OR drop_bit 24 (x AND 0xff000000)"

definition SwapBytesIPv4Addr :: "IPv4Address \<Rightarrow> IPv4Address" where
  "SwapBytesIPv4Addr x =
     push_bit 24 (x AND 0x000000ff) OR push_bit 8 (x AND 0x0000ff00) OR
     drop_bit 8 (x AND 0x00ff0000) OR drop_bit 24 (x AND 0xff000000)"

section \<open>Text of headers\<close>

abbreviation nl :: string where "nl \<equiv> [CHR 0x0A]"

definition etherTypeNameLookupTable :: "u16 \<rightharpoonup> string" where
  "etherTypeNameLookupTable = [SwapIPV4Number \<mapsto> ''IPv4'', SwapARPNumber \<mapsto> ''ARP'',
     SwapVLANNumber \<mapsto> ''VLAN'', SwapMPLSNumber \<mapsto> ''MPLS'', SwapIPV6Number \<mapsto> ''IPv6'']"

definition getEtherTypeName :: "u16 \<Rightarrow> string" where
  "getEtherTypeName et =
     (case etherTypeNameLookupTable et of None \<Rightarrow> ''unknown'' | Some ret \<Rightarrow> ret)"

definition hex4 :: "u16 \<Rightarrow> string" where
  "hex4 w = hex2 (ucast (drop_bit 8 w)) @ hex2 (ucast w)"

definition EtherHdr_String :: "EtherHdr \<Rightarrow> string" where
  "EtherHdr_String hdr =
     ''L2 protocol: Ethernet, EtherType: 0x'' @ hex4 (EtherType hdr) @
     '' ('' @ getEtherTypeName (EtherType hdr) @ '')'' @ nl @
     ''Ethernet Source: '' @ MACAddress_String (SAddr hdr) @ nl @
     ''Ethernet Destination: '' @ MACAddress_String (DAddr hdr) @ nl"

definition IPv4Hdr_String :: "IPv4Hdr \<Rightarrow> string" where
  "IPv4Hdr_String hdr =
     ''    L3 protocol: IPv4'' @ nl @
     ''    IPv4 Source: '' @ IPv4Address_String (ip4_SrcAddr hdr) @ nl @
     ''    IPv4 Destination: '' @ IPv4Address_String (ip4_DstAddr hdr) @ nl"

definition IPv6Hdr_String :: "IPv6Hdr \<Rightarrow> string" where
  "IPv6Hdr_String hdr =
     ''    L3 protocol: IPv6'' @ nl @
     ''    IPv6 Source: '' @ IPv6Address_String (ip6_SrcAddr hdr) @ nl @
     ''    IPv6 Destination '' @ IPv6Address_String (ip6_DstAddr hdr) @ nl"

definition TCPHdr_String :: "TCPHdr \<Rightarrow> string" where
  "TCPHdr_String hdr =
     ''        L4 protocol: TCP'' @ nl @
     ''        L4 Source: '' @ dec_str (unat (SwapBytesUint16 (tcp_SrcPort hdr))) @ nl @
     ''        L4 Destination: '' @ dec_str (unat (SwapBytesUint16 (tcp_DstPort hdr))) @ nl"

definition UDPHdr_String :: "UDPHdr \<Rightarrow> string" where
  "UDPHdr_String hdr =
     ''        L4 protocol: UDP'' @ nl @
     ''        L4 Source: '' @ dec_str (unat (SwapBytesUint16 (udp_SrcPort hdr))) @ nl @
     ''        L4 Destination: '' @ dec_str (unat (SwapBytesUint16 (udp_DstPort hdr))) @ nl"

definition ICMPHdr_String :: "ICMPHdr \<Rightarrow> string" where
  "ICMPHdr_String hdr =
     ''        L4 protocol: ICMP'' @ nl @
     ''        ICMP Type: '' @ dec_str (unat (icmp_Type hdr)) @ nl @
     ''        ICMP Code: '' @ dec_str (unat (icmp_Code hdr)) @ nl @
     ''        ICMP Cksum: '' @ dec_str (unat (SwapBytesUint16 (icmp_Cksum hdr))) @ nl @
     ''        ICMP Identifier: '' @ dec_str (unat (SwapBytesUint16 (Identifier hdr))) @ nl @
     ''        ICMP SeqNum: '' @ dec_str (unat (SwapBytesUint16 (SeqNum hdr))) @ nl"

definition VXLANHeader_String :: "VXLANHeader \<Rightarrow> string" where
  "VXLANHeader_String hdr =
     ''        Protocol: VXLAN'' @ nl @
     ''     VXLAN VNI: '' @ dec_str (unat (drop_bit 16 (VNI hdr))) @ nl"

section \<open>Pointers to headers\<close>

definition ParseL2 :: "Packet \<Rightarrow> Packet" where
  "ParseL2 p = p\<lparr>L2 := Mbuf_L2 (CMbuf p)\<rparr>"

definition GetEther :: "Packet \<Rightarrow> addr" where
  "GetEther p = L2 p"

definition unparsed :: "Packet \<Rightarrow> addr" where
  "unparsed p = L2 p + EtherLen"

definition StartAtOffset :: "Packet \<Rightarrow> addr \<Rightarrow> addr" where
  "StartAtOffset p off = L2 p + off"

definition ParseL3 :: "Packet \<Rightarrow> Packet" where
  "ParseL3 p = p\<lparr>L3 := unparsed p\<rparr>"

definition GetIPv4NoCheck :: "Packet \<Rightarrow> addr" where "GetIPv4NoCheck p = L3 p"
definition GetARPNoCheck :: "Packet \<Rightarrow> addr" where "GetARPNoCheck p = L3 p"
definition GetIPv6NoCheck :: "Packet \<Rightarrow> addr" where "GetIPv6NoCheck p = L3 p"
definition GetTCPNoCheck :: "Packet \<Rightarrow> addr" where "GetTCPNoCheck p = L4 p"
definition GetUDPNoCheck :: "Packet \<Rightarrow> addr" where "GetUDPNoCheck p = L4 p"
definition GetICMPNoCheck :: "Packet \<Rightarrow> addr" where "GetICMPNoCheck p = L4 p"

definition GetIPv4 :: "memory \<Rightarrow> Packet \<Rightarrow> addr option" where
  "GetIPv4 m p = do {
     e \<leftarrow> deref (GetEther p);
     Some (if EtherType (Ether_at m e) = SwapBytesUint16 IPV4Number then L3 p else nil) }"

definition GetARP :: "memory \<Rightarrow> Packet \<Rightarrow> addr option" where
  "GetARP m p = do {
     e \<leftarrow> deref (GetEther p);
     Some (if EtherType (Ether_at m e) = SwapBytesUint16 ARPNumber then L3 p else nil) }"

definition GetIPv6 :: "memory \<Rightarrow> Packet \<Rightarrow> addr option" where
  "GetIPv6 m p = do {
     e \<leftarrow> deref (GetEther p);
     Some (if EtherType (Ether_at m e) = SwapBytesUint16 IPV6Number then L3 p else nil) }"

definition ParseL4ForIPv4 :: "memory \<Rightarrow> Packet \<Rightarrow> Packet option" where
  "ParseL4ForIPv4 m p = do {
     h \<leftarrow> deref (GetIPv4NoCheck p);
     Some (p\<lparr>L4 := L3 p + ucast (push_bit 2 (VersionIhl (IPv4_at m h) AND 0x0f))\<rparr>) }"

definition ParseL4ForIPv6 :: "Packet \<Rightarrow> Packet" where
  "ParseL4ForIPv6 p = p\<lparr>L4 := L3 p + IPv6Len\<rparr>"

definition GetTCPForIPv4 :: "memory \<Rightarrow> Packet \<Rightarrow> addr option" where
  "GetTCPForIPv4 m p = do {
     h \<leftarrow> deref (GetIPv4NoCheck p);
     Some (if NextProtoID (IPv4_at m h) = TCPNumber then L4 p else nil) }"

definition GetUDPForIPv4 :: "memory \<Rightarrow> Packet \<Rightarrow> addr option" where
  "GetUDPForIPv4 m p = do {
     h \<leftarrow> deref (GetIPv4NoCheck p);
     Some (if NextProtoID (IPv4_at m h) = UDPNumber then L4 p else nil) }"

definition GetICMPForIPv4 :: "memory \<Rightarrow> Packet \<Rightarrow> addr option" where
  "GetICMPForIPv4 m p = do {
     h \<leftarrow> deref (GetIPv4NoCheck p);
     Some (if NextProtoID (IPv4_at m h) = ICMPNumber then L4 p else nil) }"

definition GetTCPForIPv6 :: "memory \<Rightarrow> Packet \<Rightarrow> addr option" where
  "GetTCPForIPv6 m p = do {
     h \<leftarrow> deref (GetIPv6NoCheck p);
     Some (if Proto (IPv6_at m h) = TCPNumber then L4 p else nil) }"

definition GetUDPForIPv6 :: "memory \<Rightarrow> Packet \<Rightarrow> addr option" where
  "GetUDPForIPv6 m p = do {
     h \<leftarrow> deref (GetIPv6NoCheck p);
     Some (if Proto (IPv6_at m h) = UDPNumber then L4 p else nil) }"

definition GetICMPForIPv6 :: "memory \<Rightarrow> Packet \<Rightarrow> addr option" where
  "GetICMPForIPv6 m p = do {
     h \<leftarrow> deref (GetIPv6NoCheck p);
     Some (if Proto (IPv6_at m h) = ICMPv6Number then L4 p else nil) }"

section \<open>Parsers\<close>

text \<open>Results are triples of pointers: (IPv4, IPv6, ARP) and (TCP, UDP, ICMP).\<close>

definition ParseAllKnownL3 :: "memory \<Rightarrow> Packet \<Rightarrow> ((addr \<times> addr \<times> addr) \<times> Packet) option" where
  "ParseAllKnownL3 m p0 = do {
     let p = ParseL3 p0;
     ip4 \<leftarrow> GetIPv4 m p;
     if ip4 \<noteq> nil then Some ((GetIPv4NoCheck p, nil, nil), p) else do {
     arp \<leftarrow> GetARP m p;
     if arp \<noteq> nil then Some ((nil, nil, GetARPNoCheck p), p) else do {
     ip6 \<leftarrow> GetIPv6 m p;
     if ip6 \<noteq> nil then Some ((nil, GetIPv6NoCheck p, nil), p) else
     Some ((nil, nil, nil), p) }}}"

definition ParseAllKnownL4ForIPv4 ::
  "memory \<Rightarrow> Packet \<Rightarrow> ((addr \<times> addr \<times> addr) \<times> Packet) option" where
  "ParseAllKnownL4ForIPv4 m p0 = do {
     p \<leftarrow> ParseL4ForIPv4 m p0;
     udp \<leftarrow> GetUDPForIPv4 m p;
     if udp \<noteq> nil then Some ((nil, GetUDPNoCheck p, nil), p) else do {
     tcp \<leftarrow> GetTCPForIPv4 m p;
     if tcp \<noteq> nil then Some ((GetTCPNoCheck p, nil, nil), p) else do {
     icmp \<leftarrow> GetICMPForIPv4 m p;
     if icmp \<noteq> nil then Some ((nil, nil, GetICMPNoCheck p), p) else
     Some ((nil, nil, nil), p) }}}"

definition ParseAllKnownL4ForIPv6 ::
  "memory \<Rightarrow> Packet \<Rightarrow> ((addr \<times> addr \<times> addr) \<times> Packet) option" where
  "ParseAllKnownL4ForIPv6 m p0 = do {
     let p = ParseL4ForIPv6 p0;
     tcp \<leftarrow> GetTCPForIPv6 m p;
     if tcp \<noteq> nil then Some ((GetTCPNoCheck p, nil, nil), p) else do {
     udp \<leftarrow> GetUDPForIPv6 m p;
     if udp \<noteq> nil then Some ((nil, GetUDPNoCheck p, nil), p) else do {
     icmp \<leftarrow> GetICMPForIPv6 m p;
     if icmp \<noteq> nil then Some ((nil, nil, GetICMPNoCheck p), p) else
     Some ((nil, nil, nil), p) }}}"

definition tcp_data :: "memory \<Rightarrow> addr \<Rightarrow> addr option" where
  "tcp_data m l4 = do {
     h \<leftarrow> deref l4;
     Some (l4 + drop_bit 2 (ucast (DataOff (TCP_at m h) AND 0xf0))) }"

definition ParseL7 :: "memory \<Rightarrow> u64 \<Rightarrow> Packet \<Rightarrow> Packet option" where
  "ParseL7 m protocol p =
     (if protocol = ucast TCPNumber then do { d \<leftarrow> tcp_data m (L4 p); Some (p\<lparr>Data := d\<rparr>) }
      else if protocol = ucast UDPNumber then Some (p\<lparr>Data := L4 p + UDPLen\<rparr>)
      else if protocol = ucast ICMPNumber \<or> protocol = ucast ICMPv6Number
      then Some (p\<lparr>Data := L4 p + ICMPLen\<rparr>)
      else Some p)"

text \<open>The tail that \<^verbatim>\<open>ParseData\<close> and \<^verbatim>\<open>VxlanDecap\<close> share: the payload pointer.\<close>

definition set_data :: "memory \<Rightarrow> addr \<times> addr \<times> addr \<Rightarrow> Packet \<Rightarrow> (int \<times> Packet) option" where
  "set_data m l4 p = (let (pktTCP, pktUDP, pktICMP) = l4 in
     if pktTCP \<noteq> nil then do { d \<leftarrow> tcp_data m (L4 p); Some (0, p\<lparr>Data := d\<rparr>) }
     else if pktUDP \<noteq> nil then Some (0, p\<lparr>Data := L4 p + UDPLen\<rparr>)
     else if pktICMP \<noteq> nil then Some (0, p\<lparr>Data := L4 p + ICMPLen\<rparr>)
     else Some (-1, p))"

definition ParseData :: "memory \<Rightarrow> Packet \<Rightarrow> (int \<times> Packet) option" where
  "ParseData m p0 = do {
     ((pktIPv4, pktIPv6, _), p) \<leftarrow> ParseAllKnownL3 m p0;
     (l4, p) \<leftarrow>
       (if pktIPv4 \<noteq> nil then ParseAllKnownL4ForIPv4 m p
        else if pktIPv6 \<noteq> nil then ParseAllKnownL4ForIPv6 m p
        else Some ((nil, nil, nil), p));
     set_data m l4 p }"

text \<open>
  \<^verbatim>\<open>VxlanDecap\<close>.  The variable \<^verbatim>\<open>pktUDP\<close> still holds the outer UDP header when the
  inner frame is parsed: the last default of the inner \<^verbatim>\<open>if\<close> is \<open>(nil, pktUDP, nil)\<close>.
\<close>

definition VxlanDecap :: "memory \<Rightarrow> Packet \<Rightarrow> (int \<times> Packet) option" where
  "VxlanDecap m p0 = do {
     let p = ParseL2 (p0\<lparr>Overlay := False\<rparr>);
     let ether = GetEther p;
     e \<leftarrow> deref ether;
     let etherType = EtherType (Ether_at m e);
     if etherType = SwapARPNumber \<or> etherType = SwapIPV6Number then Some (-1, ParseL3 p) else do {
     let p = (if etherType = SwapIPV4Number then ParseL3 p else p);
     ((pktIPv4, _, _), p) \<leftarrow> ParseAllKnownL3 m p;
     if pktIPv4 = nil then Some (-1, p) else do {
     ((_, pktUDP, _), p) \<leftarrow> ParseAllKnownL4ForIPv4 m p;
     if pktUDP = nil \<or> SwapBytesUint16 (udp_DstPort (UDP_at m pktUDP)) \<noteq> 4789
     then Some (-1, p) else do {
     let p = p\<lparr>Overlay := True, OuterEther := ether, OuterIPv4Hdr := pktIPv4,
               OuterUDPHdr := pktUDP, VxlanHeader := L4 p + UDPLen,
               OuterL2 := L2 p, OuterL3 := L3 p, OuterL4 := L4 p, L3 := nil, L4 := nil\<rparr>;
     let p = p\<lparr>L2 := OuterL4 p + UDPLen + VXLANLen\<rparr>;
     ((pktIPv4, pktIPv6, pktARP), p) \<leftarrow> ParseAllKnownL3 m p;
     if pktARP \<noteq> nil then Some (0, p) else do {
     (l4, p) \<leftarrow>
       (if pktIPv4 \<noteq> nil then ParseAllKnownL4ForIPv4 m p
        else if pktIPv6 \<noteq> nil then ParseAllKnownL4ForIPv6 m p
        else Some ((nil, pktUDP, nil), p));
     set_data m l4 p }}}}}"

section \<open>Packets in mbufs\<close>

text \<open>The size of the mbuf structure is the argument \<open>mbufStructSize\<close>.\<close>

definition ExtractPacketAddr :: "addr \<Rightarrow> addr \<Rightarrow> addr" where
  "ExtractPacketAddr mbufStructSize IN = IN + mbufStructSize"

definition ToPacket :: "addr \<Rightarrow> addr" where "ToPacket IN = IN"

definition ExtractPacket :: "addr \<Rightarrow> addr \<Rightarrow> addr" where
  "ExtractPacket mbufStructSize IN = ToPacket (ExtractPacketAddr mbufStructSize IN)"

definition ExtractPackets :: "addr \<Rightarrow> addr list \<Rightarrow> addr list \<Rightarrow> nat \<Rightarrow> addr list option" where
  "ExtractPackets mbufStructSize packet IN n =
     (if n \<le> length packet \<and> n \<le> length IN
      then Some (map (ExtractPacket mbufStructSize) (take n IN) @ drop n packet) else None)"

definition GetRawPacketBytes :: "memory \<Rightarrow> Packet \<Rightarrow> byte list option" where
  "GetRawPacketBytes m p = GetRawPacketBytesMbuf m (CMbuf p)"

definition GetPacketLen :: "Packet \<Rightarrow> u64" where
  "GetPacketLen p = GetPktLenMbuf (CMbuf p)"

definition GetPacketSegmentLen :: "Packet \<Rightarrow> u64" where
  "GetPacketSegmentLen p = GetDataLenMbuf (CMbuf p)"

text \<open>Slicing \<^verbatim>\<open>pktBytes[hdrsLen:]\<close> beyond the length panics.\<close>

definition GetPacketPayload :: "memory \<Rightarrow> Packet \<Rightarrow> ((byte list \<times> bool) \<times> Packet) option" where
  "GetPacketPayload m p0 = do {
     let pktStartAddr = StartAtOffset p0 0;
     pktBytes \<leftarrow> GetRawPacketBytes m p0;
     (r, p) \<leftarrow> ParseData m p0;
     if r = -1 then Some (([], False), p) else do {
     let hdrsLen = unat (Data p - pktStartAddr);
     if hdrsLen > length pktBytes then None
     else Some ((drop hdrsLen pktBytes, True), p) }}"

lemmas parse_defs [pkt_defs] = ParseL2_def GetEther_def unparsed_def StartAtOffset_def ParseL3_def
  GetIPv4NoCheck_def GetARPNoCheck_def GetIPv6NoCheck_def GetTCPNoCheck_def GetUDPNoCheck_def
  GetICMPNoCheck_def GetIPv4_def GetARP_def GetIPv6_def ParseL4ForIPv4_def ParseL4ForIPv6_def
  GetTCPForIPv4_def GetUDPForIPv4_def GetICMPForIPv4_def GetTCPForIPv6_def GetUDPForIPv6_def
  GetICMPForIPv6_def

end
