(* ===== verification/Frame.thy ===== *)
theory Frame
  imports Packet
begin

text \<open>
  The specification of the parsers of src/packet/packet.go.  A frame is a function from
  offsets to bytes; the offsets of the transport header and of the payload are computed
  with natural numbers from the fields in network byte order, as the Ethernet, IPv4, IPv6,
  TCP, UDP and ICMP formats define them.
\<close>

section \<open>Big-endian values\<close>

definition be_val :: "byte \<Rightarrow> byte \<Rightarrow> nat" where
  "be_val hi lo = 256 * unat hi + unat lo"

lemma be_val_less: "be_val hi lo < 65536"
  using unat_mod_small [of hi] unat_mod_small [of lo] by (simp add: be_val_def)

lemma SwapBytesUint16_swap [simp]: "SwapBytesUint16 (SwapBytesUint16 x) = x"
  by (rule bit_word_eqI) (auto simp: SwapBytesUint16_def bit_simps)

lemma SwapBytesUint16_inject [simp]: "SwapBytesUint16 x = SwapBytesUint16 y \<longleftrightarrow> x = y"
  by (metis SwapBytesUint16_swap)

lemma or_byte_unat: "unat (push_bit 8 (ucast hi) OR ucast lo :: u16) = be_val hi lo"
proof -
  have "push_bit 8 (ucast hi) OR ucast lo = (push_bit 8 (ucast hi) + ucast lo :: u16)"
    by (rule disjunctive_add [symmetric]) (auto simp: bit_simps dest: bit_imp_le_length)
  moreover have hi: "unat (push_bit 8 (ucast hi) :: u16) = 256 * unat hi"
    using unat_mod_small [of hi]
    by (simp add: push_bit_eq_mult unat_word_ariths unat_ucast_small)
  moreover have lo: "unat (ucast lo :: u16) = unat lo"
    using unat_mod_small [of lo] by (simp add: unat_ucast_small)
  ultimately show ?thesis
    using be_val_less [of hi lo] by (simp add: unat_add_exact be_val_def)
qed

lemma SwapBytesUint16_un_le: "SwapBytesUint16 (un_le16 [x, y]) = push_bit 8 (ucast x) OR ucast y"
  by (rule bit_word_eqI) (auto simp: SwapBytesUint16_def bit_simps dest: bit_imp_le_length)

lemma unat_SwapBytesUint16: "unat (SwapBytesUint16 (un_le16 [x, y])) = be_val x y"
  by (simp only: SwapBytesUint16_un_le or_byte_unat)

lemma un_le16_eq_swap: "un_le16 [x, y] = SwapBytesUint16 w \<longleftrightarrow> be_val x y = unat w"
  by (metis SwapBytesUint16_swap unat_SwapBytesUint16 word_unat_eq_iff)

section \<open>Frames\<close>

type_synonym frame = "nat \<Rightarrow> byte"

datatype l4_kind = TCP | UDP | ICMP

definition frame_at :: "memory \<Rightarrow> addr \<Rightarrow> frame" where
  "frame_at m a i = m (a + of_nat i)"

definition frame_type :: "frame \<Rightarrow> nat" where
  "frame_type f = be_val (f 12) (f 13)"

text \<open>The offset of the transport header and its kind, if the protocol is a known one.\<close>

definition frame_l4 :: "frame \<Rightarrow> (nat \<times> l4_kind option) option" where
  "frame_l4 f =
     (if frame_type f = 0x0800 then
        Some (14 + 4 * (unat (f 14) mod 16),
          if f 23 = 6 then Some TCP else if f 23 = 17 then Some UDP
          else if f 23 = 1 then Some ICMP else None)
      else if frame_type f = 0x86dd then
        Some (54,
          if f 20 = 6 then Some TCP else if f 20 = 17 then Some UDP
          else if f 20 = 58 then Some ICMP else None)
      else None)"

definition l4_len :: "frame \<Rightarrow> nat \<Rightarrow> l4_kind \<Rightarrow> nat" where
  "l4_len f k kind =
     (case kind of TCP \<Rightarrow> 4 * (unat (f (k + 12)) div 16) | UDP \<Rightarrow> 8 | ICMP \<Rightarrow> 8)"

definition frame_data :: "frame \<Rightarrow> nat option" where
  "frame_data f = (case frame_l4 f of
     Some (k, Some kind) \<Rightarrow> Some (k + l4_len f k kind)
   | _ \<Rightarrow> None)"

text \<open>Headers take at most 14 + 60 + 60 bytes.\<close>

abbreviation (input) max_hdrs :: nat where "max_hdrs \<equiv> 134"

lemma frame_l4_bound: "frame_l4 f = Some (k, kind) \<Longrightarrow> 14 \<le> k \<and> k \<le> 74"
  by (auto simp: frame_l4_def split: if_splits intro: less_imp_le_nat)

lemma l4_len_bound: "l4_len f k kind \<le> 60"
  using unat_mod_small [of "f (k + 12)"] by (auto simp: l4_len_def split: l4_kind.split)

lemma frame_data_bound: "frame_data f = Some d \<Longrightarrow> 14 \<le> d \<and> d \<le> max_hdrs"
  using l4_len_bound frame_l4_bound
  by (fastforce simp: frame_data_def split: option.splits prod.splits intro: add_mono [of _ 74 _ 60, simplified])

section \<open>Fields of headers overlaid on a frame\<close>

lemma load_bytes_frame: "load_bytes m a n = map (frame_at m a) [0..<n]"
  by (simp add: load_bytes_def frame_at_def)

lemma slice2_load_bytes:
  "i + 2 \<le> n \<Longrightarrow> slice i 2 (load_bytes m a n) = [frame_at m a i, frame_at m a (i + 1)]"
  by (simp add: slice_load_bytes load_bytes_Suc numeral_2_eq_2 frame_at_def ac_simps)

lemma swapped_numbers:
  "SwapBytesUint16 IPV4Number = SwapIPV4Number" "SwapBytesUint16 ARPNumber = SwapARPNumber"
  "SwapBytesUint16 IPV6Number = SwapIPV6Number" "SwapBytesUint16 VLANNumber = SwapVLANNumber"
  "SwapBytesUint16 MPLSNumber = SwapMPLSNumber"
  by code_simp+

lemma EtherType_at: "EtherType (Ether_at m a) = SwapBytesUint16 w \<longleftrightarrow> frame_type (frame_at m a) = unat w"
proof -
  have "EtherType (Ether_at m a) = un_le16 [frame_at m a 12, frame_at m a 13]"
    by (simp add: Ether_at_def view_load_def dec_EtherHdr_def slice2_load_bytes)
  then show ?thesis by (simp only: un_le16_eq_swap frame_type_def)
qed

lemma EtherType_swapped:
  "EtherType (Ether_at m a) = SwapIPV4Number \<longleftrightarrow> frame_type (frame_at m a) = 0x0800"
  "EtherType (Ether_at m a) = SwapARPNumber \<longleftrightarrow> frame_type (frame_at m a) = 0x0806"
  "EtherType (Ether_at m a) = SwapIPV6Number \<longleftrightarrow> frame_type (frame_at m a) = 0x86dd"
  using EtherType_at [of m a IPV4Number] EtherType_at [of m a ARPNumber]
    EtherType_at [of m a IPV6Number] by (simp_all add: swapped_numbers)

lemma frame_at_shift: "frame_at m (a + of_nat k) i = frame_at m a (k + i)"
  by (simp add: frame_at_def add.assoc)

lemma IPv4_fields_at:
  "VersionIhl (IPv4_at m a) = frame_at m a 0" "NextProtoID (IPv4_at m a) = frame_at m a 9"
  by (simp_all add: IPv4_at_def view_load_def dec_IPv4Hdr_def load_bytes_frame)

lemma IPv6_Proto_at: "Proto (IPv6_at m a) = frame_at m a 6"
  by (simp add: IPv6_at_def view_load_def dec_IPv6Hdr_def load_bytes_frame)

lemma TCP_DataOff_at: "DataOff (TCP_at m a) = frame_at m a 12"
  by (simp add: TCP_at_def view_load_def dec_TCPHdr_def load_bytes_frame)

lemma UDP_DstPort_at:
  "unat (SwapBytesUint16 (udp_DstPort (UDP_at m a))) = be_val (frame_at m a 2) (frame_at m a 3)"
proof -
  have "udp_DstPort (UDP_at m a) = un_le16 [frame_at m a 2, frame_at m a 3]"
    by (simp add: UDP_at_def view_load_def dec_UDPHdr_def slice2_load_bytes)
  then show ?thesis by (simp only: unat_SwapBytesUint16)
qed

lemma ihl_bytes: "unat (push_bit 2 (b AND 0x0f) :: u8) = 4 * (unat b mod 16)"
proof -
  have "b AND 0x0f = take_bit 4 b" by (simp add: take_bit_eq_mask mask_eq_exp_minus_1)
  then have "unat (b AND 0x0f) = unat b mod 16" 
    by (simp only: unsigned_take_bit_eq) (simp add: take_bit_eq_mod)
  then show ?thesis by (simp add: push_bit_eq_mult unat_word_ariths)
qed

lemma doff_bytes: "unat (drop_bit 2 (ucast (b AND 0xf0 :: u8)) :: u64) = 4 * (unat b div 16)"
proof -
  have "drop_bit 2 (ucast (b AND 0xf0)) = (push_bit 2 (ucast (drop_bit 4 b)) :: u64)"
  proof -
    have "b AND push_bit 4 (mask 4) = push_bit 4 (drop_bit 4 b)"
      by (rule bit_word_eqI) (auto simp: bit_simps simp del: push_bit_minus_one dest: bit_imp_le_length)
    moreover have "push_bit 4 (mask 4) = (0xf0 :: u8)" by (simp add: mask_eq_exp_minus_1)
    ultimately have "b AND 0xf0 = push_bit 4 (drop_bit 4 b)" by simp
    then show ?thesis
      by (simp only:) (rule bit_word_eqI, auto simp: bit_simps dest: bit_imp_le_length)
  qed
  moreover have "unat (ucast (drop_bit 4 b) :: u64) = unat b div 16"
  proof -
    have "unat (drop_bit 4 b) = unat b div 16"
      using unat_mod_small [of b]
      by (simp only: unsigned_drop_bit_eq) (simp add: drop_bit_eq_div take_bit_nat_eq_self)
    then show ?thesis using unat_mod_small [of b] by (simp add: unat_ucast_small)
  qed
  ultimately show ?thesis
    using unat_mod_small [of b] by (simp add: push_bit_eq_mult unat_word_ariths)
qed

lemma ihl_ucast: "ucast (push_bit 2 (b AND 0x0f :: u8)) = (of_nat (4 * (unat b mod 16)) :: u64)"
  by (metis ihl_bytes of_nat_unat)

lemma doff_word: "drop_bit 2 (ucast (b AND 0xf0 :: u8)) = (of_nat (4 * (unat b div 16)) :: u64)"
  by (metis doff_bytes of_nat_unat ucast_id)

section \<open>The parsers meet the specification\<close>

text \<open>Which of three pointers the protocol selects.\<close>

definition l3_ptrs :: "frame \<Rightarrow> addr \<Rightarrow> addr \<times> addr \<times> addr" where
  "l3_ptrs f a = (if frame_type f = 0x0800 then (a, nil, nil)
     else if frame_type f = 0x0806 then (nil, nil, a)
     else if frame_type f = 0x86dd then (nil, a, nil) else (nil, nil, nil))"

definition l4_ptrs :: "l4_kind option \<Rightarrow> addr \<Rightarrow> addr \<times> addr \<times> addr" where
  "l4_ptrs kind a = (case kind of None \<Rightarrow> (nil, nil, nil) | Some TCP \<Rightarrow> (a, nil, nil)
     | Some UDP \<Rightarrow> (nil, a, nil) | Some ICMP \<Rightarrow> (nil, nil, a))"

lemma nonnil_offset:
  assumes "a \<noteq> nil" "unat a + k < 2 ^ 64"
  shows "a + of_nat k \<noteq> nil"
proof -
  have "unat (a + of_nat k) = unat a + k"
    using assms(2) by (simp add: unat_add_exact unat_of_nat_small)
  then show ?thesis using assms(1) by (metis add_is_0 unat_0 unat_eq_zero)
qed

lemma ParseAllKnownL3_frame:
  assumes "L2 p \<noteq> nil" "L2 p + 14 \<noteq> nil"
  shows "ParseAllKnownL3 m p =
    Some (l3_ptrs (frame_at m (L2 p)) (L2 p + 14), p\<lparr>L3 := L2 p + 14\<rparr>)"
  using assms
  by (simp add: ParseAllKnownL3_def pkt_defs l3_ptrs_def EtherType_at)

lemma frame_l4_v4:
  assumes "frame_type f = 0x0800"
  shows "frame_l4 f = Some (14 + 4 * (unat (f 14) mod 16),
          if f 23 = 6 then Some TCP else if f 23 = 17 then Some UDP
          else if f 23 = 1 then Some ICMP else None)"
  using assms by (simp add: frame_l4_def)

lemma ParseAllKnownL4ForIPv4_frame:
  assumes "frame_l4 (frame_at m a) = Some (k, kind)" "frame_type (frame_at m a) = 0x0800"
    and "L3 p = a + 14" "L3 p \<noteq> nil" "a + of_nat k \<noteq> nil"
  shows "ParseAllKnownL4ForIPv4 m p =
    Some (l4_ptrs kind (a + of_nat k), p\<lparr>L4 := a + of_nat k\<rparr>)"
proof -
  have sh: "frame_at m (a + 14) i = frame_at m a (14 + i)" for i
    using frame_at_shift [of m a 14 i] by simp
  have k: "k = 14 + 4 * (unat (frame_at m a 14) mod 16)"
    and kind: "kind = (if frame_at m a 23 = 6 then Some TCP else if frame_at m a 23 = 17
          then Some UDP else if frame_at m a 23 = 1 then Some ICMP else None)"
    using assms(1) frame_l4_v4 [OF assms(2)] by simp_all
  have l4: "L3 p + ucast (push_bit 2 (VersionIhl (IPv4_at m (L3 p)) AND 0x0f)) = a + of_nat k"
    unfolding k assms(3) by (simp only: IPv4_fields_at ihl_ucast sh) (simp add: add.assoc)
  have parse: "ParseL4ForIPv4 m p = Some (p\<lparr>L4 := a + of_nat k\<rparr>)"
    unfolding ParseL4ForIPv4_def GetIPv4NoCheck_def deref_some [OF assms(4)] Option.bind.simps l4 ..
  show ?thesis
    using assms(4,5) unfolding ParseAllKnownL4ForIPv4_def parse kind l4_ptrs_def
    by (simp add: pkt_defs assms(3) IPv4_fields_at sh)
qed

lemma ParseAllKnownL4ForIPv6_frame:
  assumes "frame_l4 (frame_at m a) = Some (k, kind)" "frame_type (frame_at m a) = 0x86dd"
    and "L3 p = a + 14" "L3 p \<noteq> nil" "a + of_nat k \<noteq> nil"
  shows "ParseAllKnownL4ForIPv6 m p =
    Some (l4_ptrs kind (a + of_nat k), p\<lparr>L4 := a + of_nat k\<rparr>)"
proof -
  have sh: "frame_at m (a + 14) i = frame_at m a (14 + i)" for i
    using frame_at_shift [of m a 14 i] by simp
  have k: "k = 54"
    and kind: "kind = (if frame_at m a 20 = 6 then Some TCP else if frame_at m a 20 = 17
          then Some UDP else if frame_at m a 20 = 58 then Some ICMP else None)"
    using assms(1,2) by (simp_all add: frame_l4_def)
  show ?thesis
    using assms(4,5) unfolding ParseAllKnownL4ForIPv6_def pkt_defs kind l4_ptrs_def k
    by (simp add: assms(3) IPv6_Proto_at sh add.assoc)
qed

lemma set_data_frame:
  assumes "L4 p = a + of_nat k" "a + of_nat k \<noteq> nil"
  shows "set_data m (l4_ptrs kind (L4 p)) p = Some (case kind of
     None \<Rightarrow> (-1, p)
   | Some knd \<Rightarrow> (0, p\<lparr>Data := a + of_nat (k + l4_len (frame_at m a) k knd)\<rparr>))"
  using assms
  by (cases "(kind, the kind)" rule: prod.exhaust, cases "the kind")
    (auto simp: set_data_def l4_ptrs_def tcp_data_def l4_len_def TCP_DataOff_at doff_word
      frame_at_shift add.assoc split: option.splits l4_kind.splits)

lemma ParseData_frame:
  assumes "L2 p \<noteq> nil" "unat (L2 p) + max_hdrs < 2 ^ 64"
  shows "ParseData m p = Some (
    if frame_data (frame_at m (L2 p)) = None then -1 else 0,
    p\<lparr>L3 := L2 p + 14,
      L4 := (case frame_l4 (frame_at m (L2 p)) of None \<Rightarrow> L4 p | Some (k, _) \<Rightarrow> L2 p + of_nat k),
      Data := (case frame_data (frame_at m (L2 p)) of None \<Rightarrow> Data p | Some d \<Rightarrow> L2 p + of_nat d)\<rparr>)"
proof -
  let ?a = "L2 p" and ?f = "frame_at m (L2 p)"
  have nn: "?a + of_nat k \<noteq> nil" if "k \<le> max_hdrs" for k
    using nonnil_offset assms that by simp
  have l3: "ParseAllKnownL3 m p = Some (l3_ptrs ?f (?a + 14), p\<lparr>L3 := ?a + 14\<rparr>)"
    using assms(1) nn [of 14] by (intro ParseAllKnownL3_frame) simp_all
  show ?thesis
  proof (cases "frame_l4 ?f")
    case None
    then have "frame_type ?f \<noteq> 0x0800" "frame_type ?f \<noteq> 0x86dd"
      by (auto simp: frame_l4_def split: if_splits)
    with None show ?thesis
      by (simp add: ParseData_def l3 l3_ptrs_def set_data_def frame_data_def)
  next
    case (Some kk)
    obtain k kind where kk: "kk = (k, kind)" by fastforce
    have k: "?a + of_nat k \<noteq> nil"
      using nn [of k] frame_l4_bound [of ?f k kind] Some kk by simp
    have l4: "ParseAllKnownL4ForIPv4 m (p\<lparr>L3 := ?a + 14\<rparr>)
        = Some (l4_ptrs kind (?a + of_nat k), p\<lparr>L3 := ?a + 14, L4 := ?a + of_nat k\<rparr>)"
      if "frame_type ?f = 0x0800"
      using ParseAllKnownL4ForIPv4_frame [OF _ that _ _ k] Some kk nn [of 14] by simp
    have l6: "ParseAllKnownL4ForIPv6 m (p\<lparr>L3 := ?a + 14\<rparr>)
        = Some (l4_ptrs kind (?a + of_nat k), p\<lparr>L3 := ?a + 14, L4 := ?a + of_nat k\<rparr>)"
      if "frame_type ?f = 0x86dd"
      using ParseAllKnownL4ForIPv6_frame [OF _ that _ _ k] Some kk nn [of 14] by simp
    have d: "set_data m (l4_ptrs kind (?a + of_nat k)) (p\<lparr>L3 := ?a + 14, L4 := ?a + of_nat k\<rparr>) =
      Some (case kind of None \<Rightarrow> (-1, p\<lparr>L3 := ?a + 14, L4 := ?a + of_nat k\<rparr>)
       | Some knd \<Rightarrow> (0, p\<lparr>L3 := ?a + 14, L4 := ?a + of_nat k,
                         Data := ?a + of_nat (k + l4_len ?f k knd)\<rparr>))"
      using set_data_frame [of "p\<lparr>L3 := ?a + 14, L4 := ?a + of_nat k\<rparr>" ?a k m kind] k by simp
    have ty: "frame_type ?f = 0x0800 \<or> frame_type ?f = 0x86dd"
      using Some by (auto simp: frame_l4_def split: if_splits)
    have "ParseData m p = set_data m (l4_ptrs kind (?a + of_nat k))
        (p\<lparr>L3 := ?a + 14, L4 := ?a + of_nat k\<rparr>)"
      using ty nn [of 14] by (auto simp: ParseData_def l3 l3_ptrs_def l4 l6)
    then show ?thesis
      using Some kk d by (cases kind) (simp_all add: frame_data_def)
  qed
qed

section \<open>VXLAN\<close>

text \<open>The offset of the outer UDP header of a frame that carries VXLAN (port 4789).\<close>

definition vxlan_at :: "frame \<Rightarrow> nat option" where
  "vxlan_at f = (case frame_l4 f of
     Some (k, Some UDP) \<Rightarrow>
       if frame_type f = 0x0800 \<and> be_val (f (k + 2)) (f (k + 3)) = 4789 then Some k else None
   | _ \<Rightarrow> None)"

text \<open>The packet with its outer headers saved, positioned on the inner frame.\<close>

definition overlay_packet :: "Packet \<Rightarrow> addr \<Rightarrow> nat \<Rightarrow> Packet" where
  "overlay_packet p a k = p\<lparr>Overlay := True, OuterEther := a, OuterIPv4Hdr := a + 14,
     OuterUDPHdr := a + of_nat k, VxlanHeader := a + of_nat (k + 8),
     OuterL2 := a, OuterL3 := a + 14, OuterL4 := a + of_nat k,
     L3 := nil, L4 := nil, L2 := a + of_nat (k + 16)\<rparr>"

lemma vxlan_at_SomeE:
  assumes "vxlan_at f = Some k"
  shows "frame_l4 f = Some (k, Some UDP)" "frame_type f = 0x0800"
    "be_val (f (k + 2)) (f (k + 3)) = 4789"
  using assms by (auto simp: vxlan_at_def split: option.splits prod.splits l4_kind.splits if_splits)

lemma udp_port_frame:
  "SwapBytesUint16 (udp_DstPort (UDP_at m (a + of_nat k))) = 4789
     \<longleftrightarrow> be_val (frame_at m a (k + 2)) (frame_at m a (k + 3)) = 4789"
  using UDP_DstPort_at [of m "a + of_nat k"] by (simp add: word_unat_eq_iff frame_at_shift)

text \<open>The part of \<^verbatim>\<open>VxlanDecap\<close> after the outer UDP header has been accepted.\<close>

definition inner_parse :: "memory \<Rightarrow> addr \<Rightarrow> Packet \<Rightarrow> (int \<times> Packet) option" where
  "inner_parse m pktUDP p = do {
     ((pktIPv4, pktIPv6, pktARP), p) \<leftarrow> ParseAllKnownL3 m p;
     if pktARP \<noteq> nil then Some (0, p) else do {
     (l4, p) \<leftarrow>
       (if pktIPv4 \<noteq> nil then ParseAllKnownL4ForIPv4 m p
        else if pktIPv6 \<noteq> nil then ParseAllKnownL4ForIPv6 m p
        else Some ((nil, pktUDP, nil), p));
     set_data m l4 p }}"

lemma set_data_udp: "u \<noteq> nil \<Longrightarrow> set_data m (nil, u, nil) p = Some (0, p\<lparr>Data := L4 p + UDPLen\<rparr>)"
  by (simp add: set_data_def)

lemma inner_parse_frame:
  assumes "L2 p \<noteq> nil" "L2 p + 14 \<noteq> nil" "pktUDP \<noteq> nil"
  shows "inner_parse m pktUDP p =
    (let t = frame_type (frame_at m (L2 p)) in
     if t = 0x0800 \<or> t = 0x86dd then ParseData m p
     else if t = 0x0806 then Some (0, p\<lparr>L3 := L2 p + 14\<rparr>)
     else Some (0, p\<lparr>L3 := L2 p + 14, Data := L4 p + 8\<rparr>))"
  using assms set_data_udp
  by (auto simp: inner_parse_def ParseData_def ParseAllKnownL3_frame l3_ptrs_def Let_def)

lemma VxlanDecap_start:
  assumes "Mbuf_L2 (CMbuf p) = a" "a \<noteq> nil" "unat a + 240 < 2 ^ 64"
  shows "VxlanDecap m p = (case vxlan_at (frame_at m a) of
      Some k \<Rightarrow> inner_parse m (a + of_nat k) (overlay_packet p a k)
    | None \<Rightarrow> Some (-1, p\<lparr>Overlay := False, L2 := a, L3 := a + 14,
        L4 := (if frame_type (frame_at m a) = 0x0800
               then case frame_l4 (frame_at m a) of Some (k, _) \<Rightarrow> a + of_nat k | None \<Rightarrow> L4 p
               else L4 p)\<rparr>))"
proof -
  let ?f = "frame_at m a" and ?p = "p\<lparr>Overlay := False, L2 := a\<rparr>"
  have nn: "a + of_nat k \<noteq> nil" if "k \<le> 240" for k
    using nonnil_offset assms(2,3) that by simp
  have l3: "ParseAllKnownL3 m q = Some (l3_ptrs ?f (a + 14), q\<lparr>L3 := a + 14\<rparr>)" if "L2 q = a" for q
    using ParseAllKnownL3_frame [of q m] assms(2) nn [of 14] that by simp
  show ?thesis
  proof (cases "frame_type ?f = 0x0800")
    case False
    then show ?thesis
      using assms(2) by (auto simp: assms(1) Let_def VxlanDecap_def ParseL2_def GetEther_def l3 l3_ptrs_def
        EtherType_swapped vxlan_at_def frame_l4_def ParseL3_def unparsed_def)
  next
    case True
    then obtain k kind where fl: "frame_l4 ?f = Some (k, kind)" by (auto simp: frame_l4_def)
    have k: "k \<le> 74" using frame_l4_bound [OF fl] by simp
    have l4: "ParseAllKnownL4ForIPv4 m (?p\<lparr>L3 := a + 14\<rparr>)
        = Some (l4_ptrs kind (a + of_nat k), ?p\<lparr>L3 := a + 14, L4 := a + of_nat k\<rparr>)"
      using ParseAllKnownL4ForIPv4_frame [OF fl True] nn [of 14] nn [of k] k by simp
    show ?thesis
    proof (cases "kind = Some UDP \<and> be_val (?f (k + 2)) (?f (k + 3)) = 4789")
      case v: True
      then have "vxlan_at ?f = Some k" using fl True by (simp add: vxlan_at_def)
      then show ?thesis
        using v assms(2) True nn [of 14] nn [of k] k
        by (simp add: assms(1) Let_def VxlanDecap_def ParseL2_def GetEther_def l3 l3_ptrs_def l4 l4_ptrs_def
          EtherType_swapped ParseL3_def unparsed_def udp_port_frame inner_parse_def
          overlay_packet_def ac_simps)
    next
      case v: False
      then have "vxlan_at ?f = None"
        using fl by (auto simp: vxlan_at_def split: option.splits l4_kind.splits)
      then show ?thesis
        using v assms(2) True fl nn [of 14] nn [of k] k
        by (auto simp: assms(1) Let_def VxlanDecap_def ParseL2_def GetEther_def l3 l3_ptrs_def l4 l4_ptrs_def
          EtherType_swapped ParseL3_def unparsed_def udp_port_frame split: option.splits l4_kind.splits)
    qed
  qed
qed

lemma VxlanDecap_not_vxlan:
  assumes "Mbuf_L2 (CMbuf p) = a" "a \<noteq> nil" "unat a + 240 < 2 ^ 64"
    and "vxlan_at (frame_at m a) = None"
  shows "\<exists>p'. VxlanDecap m p = Some (-1, p') \<and> \<not> Overlay p' \<and> L2 p' = a \<and> Data p' = Data p"
  using VxlanDecap_start [OF assms(1-3)] assms(4) by simp

text \<open>C5: VxlanDecap on a frame that carries VXLAN (IPv4, UDP port 4789) records the outer headers and parses the inner frame behind them; when the inner EtherType is neither IPv4, IPv6 nor ARP it reports success with a payload pointer of 8, because the outer UDP header is still taken for the inner one.\<close>

theorem VxlanDecap_vxlan:
  assumes "Mbuf_L2 (CMbuf p) = a" "a \<noteq> nil" "unat a + 240 < 2 ^ 64"
    and "vxlan_at (frame_at m a) = Some k"
  shows "VxlanDecap m p =
    (let q = overlay_packet p a k; t = frame_type (frame_at m (a + of_nat (k + 16))) in
     if t = 0x0800 \<or> t = 0x86dd then ParseData m q
     else if t = 0x0806 then Some (0, q\<lparr>L3 := L2 q + 14\<rparr>)
     else Some (0, q\<lparr>L3 := L2 q + 14, Data := 8\<rparr>))"
proof -
  have k: "k \<le> 74" using vxlan_at_SomeE [OF assms(4)] frame_l4_bound by blast
  have nn: "a + of_nat j \<noteq> nil" if "j \<le> 240" for j
    using nonnil_offset assms(2,3) that by simp
  have "a + of_nat (k + 16) + 14 \<noteq> nil"
    using nn [of "k + 30"] k by (simp add: ac_simps)
  then show ?thesis
    using VxlanDecap_start [OF assms(1-3), of m] assms(4) k nn [of k] nn [of "k + 16"]
      inner_parse_frame [of "overlay_packet p a k" "a + of_nat k" m]
    by (simp add: overlay_packet_def Let_def)
qed

theorem VxlanDecap_vxlan_witness:
  "\<exists>q. VxlanDecap ((\<lambda>_. 0)(0x1008c := 8, 0x1008e := 0x45, 0x10097 := 17, 0x100a4 := 0x12, 0x100a5 := 0xb5))
     (sample_packet 100) = Some (0, q) \<and> Overlay q \<and> Data q = 8"
proof -
  let ?m = "(\<lambda>_. 0)(0x1008c := 8, 0x1008e := 0x45, 0x10097 := 17, 0x100a4 := 0x12, 0x100a5 := 0xb5) :: memory"
  have v: "vxlan_at (frame_at ?m 0x10080) = Some 34"
    by (simp add: vxlan_at_def frame_l4_def frame_type_def frame_at_def be_val_def)
  have t: "frame_type (frame_at ?m (0x10080 + of_nat (34 + 16))) = 0"
    by (simp add: frame_type_def frame_at_def be_val_def)
  show ?thesis
    using VxlanDecap_vxlan [OF _ _ _ v, of "sample_packet 100"] t
    by (auto simp: sample_packet_def sample_mbuf_def Mbuf_L2_def overlay_packet_def)
qed

section \<open>Payload\<close>

lemma GetPacketPayload_frame:
  assumes "L2 p = Mbuf_L2 (CMbuf p)" "L2 p \<noteq> nil" "unat (L2 p) + max_hdrs < 2 ^ 64"
  shows "map_option fst (GetPacketPayload m p) = (case frame_data (frame_at m (L2 p)) of
      None \<Rightarrow> Some ([], False)
    | Some d \<Rightarrow> if d \<le> unat (data_len (CMbuf p))
                then Some (drop d (Mbuf_Data m (CMbuf p)), True) else None)"
proof -
  have raw: "GetRawPacketBytes m p = Some (Mbuf_Data m (CMbuf p))"
    using assms(1,2)
    by (simp add: GetRawPacketBytes_def GetRawPacketBytesMbuf_def Mbuf_Data_def Mbuf_L2_def)
  have len: "length (Mbuf_Data m (CMbuf p)) = unat (data_len (CMbuf p))"
    by (simp add: Mbuf_Data_def)
  have off: "unat (of_nat d :: addr) = d" if "frame_data (frame_at m (L2 p)) = Some d" for d
    using frame_data_bound [OF that] by (simp add: unat_of_nat_small)
  show ?thesis
    by (auto simp: GetPacketPayload_def StartAtOffset_def raw len ParseData_frame [OF assms(2,3)]
        Let_def off split: option.split)
qed

text \<open>C4: ParseData returns, for every frame in memory, exactly the pointers that the Ethernet, IPv4 (with options), IPv6, TCP, UDP and ICMP formats prescribe: the transport header and payload offsets computed from the bytes of the frame in network order, and -1 exactly when the frame has no known transport protocol.\<close>

theorem ParseData_offsets:
  assumes "L2 p \<noteq> nil" "unat (L2 p) + max_hdrs < 2 ^ 64"
  shows "ParseData m p = Some (
    if frame_data (frame_at m (L2 p)) = None then -1 else 0,
    p\<lparr>L3 := L2 p + 14,
      L4 := (case frame_l4 (frame_at m (L2 p)) of None \<Rightarrow> L4 p | Some (k, _) \<Rightarrow> L2 p + of_nat k),
      Data := (case frame_data (frame_at m (L2 p)) of None \<Rightarrow> Data p | Some d \<Rightarrow> L2 p + of_nat d)\<rparr>)"
  using assms by (rule ParseData_frame)

theorem ParseData_offsets_witness:
  "\<exists>q. ParseData ((\<lambda>_. 0)(0x1008c := 8, 0x1008e := 0x46, 0x10097 := 17)) (sample_packet 60) = Some (0, q) \<and>
     L4 q = 0x100a6 \<and> Data q = 0x100ae"
proof -
  let ?m = "(\<lambda>_. 0)(0x1008c := 8, 0x1008e := 0x46, 0x10097 := 17) :: memory"
  have l4: "frame_l4 (frame_at ?m 0x10080) = Some (38, Some UDP)"
    by (simp add: frame_l4_def frame_type_def frame_at_def be_val_def)
  then have "frame_data (frame_at ?m 0x10080) = Some 46" by (simp add: frame_data_def l4_len_def)
  then show ?thesis
    using ParseData_offsets [of "sample_packet 60" ?m] l4 by (simp add: sample_packet_def)
qed

end
