(* ===== verification/Packet_Gen.thy ===== *)
theory Packet_Gen
  imports Frame
begin

text \<open>
  Generation and editing of packets (src/packet/packet.go).  An operation returns its
  boolean result with the new memory and packet; \<^term>\<open>None\<close> is the panic at a nil pointer.
  The global \<^verbatim>\<open>hwtxchecksum\<close> is the argument \<open>hw\<close>.
\<close>

type_synonym gen_result = "(bool \<times> memory \<times> Packet) option"

definition SetHWTXChecksumFlag :: "bool \<Rightarrow> bool" where
  "SetHWTXChecksumFlag flag = flag"

text \<open>Assignments to fields of headers.\<close>

definition upd_Ether :: "(EtherHdr \<Rightarrow> EtherHdr) \<Rightarrow> addr \<Rightarrow> memory \<Rightarrow> memory option" where
  "upd_Ether f a m = do { a \<leftarrow> deref a; Some (set_Ether m a (f (Ether_at m a))) }"

definition upd_IPv4 :: "(IPv4Hdr \<Rightarrow> IPv4Hdr) \<Rightarrow> addr \<Rightarrow> memory \<Rightarrow> memory option" where
  "upd_IPv4 f a m = do { a \<leftarrow> deref a; Some (set_IPv4 m a (f (IPv4_at m a))) }"

definition upd_IPv6 :: "(IPv6Hdr \<Rightarrow> IPv6Hdr) \<Rightarrow> addr \<Rightarrow> memory \<Rightarrow> memory option" where
  "upd_IPv6 f a m = do { a \<leftarrow> deref a; Some (set_IPv6 m a (f (IPv6_at m a))) }"

definition upd_TCP :: "(TCPHdr \<Rightarrow> TCPHdr) \<Rightarrow> addr \<Rightarrow> memory \<Rightarrow> memory option" where
  "upd_TCP f a m = do { a \<leftarrow> deref a; Some (set_TCP m a (f (TCP_at m a))) }"

definition upd_UDP :: "(UDPHdr \<Rightarrow> UDPHdr) \<Rightarrow> addr \<Rightarrow> memory \<Rightarrow> memory option" where
  "upd_UDP f a m = do { a \<leftarrow> deref a; Some (set_UDP m a (f (UDP_at m a))) }"

definition upd_ICMP :: "(ICMPHdr \<Rightarrow> ICMPHdr) \<Rightarrow> addr \<Rightarrow> memory \<Rightarrow> memory option" where
  "upd_ICMP f a m = do { a \<leftarrow> deref a; Some (set_ICMP m a (f (ICMP_at m a))) }"

definition upd_ARP :: "(ARPHdr \<Rightarrow> ARPHdr) \<Rightarrow> addr \<Rightarrow> memory \<Rightarrow> memory option" where
  "upd_ARP f a m = do { a \<leftarrow> deref a; Some (set_ARP m a (f (ARP_at m a))) }"

section \<open>Generation\<close>

definition GeneratePacketFromByte :: "memory \<Rightarrow> Packet \<Rightarrow> byte list \<Rightarrow> gen_result" where
  "GeneratePacketFromByte m p data =
     (let (ok, mb) = AppendMbuf (CMbuf p) (of_nat (length data)) in
      if \<not> ok then Some (False, m, p)
      else do { m \<leftarrow> WriteDataToMbuf m mb data; Some (True, m, p\<lparr>CMbuf := mb\<rparr>) })"

definition InitEmptyPacket :: "memory \<Rightarrow> Packet \<Rightarrow> u64 \<Rightarrow> gen_result" where
  "InitEmptyPacket m p plSize =
     (let bufSize = plSize + EtherLen; (ok, mb) = AppendMbuf (CMbuf p) bufSize in
      if \<not> ok then Some (False, m, p)
      else Some (True, m, p\<lparr>CMbuf := mb, Data := unparsed p\<rparr>))"

definition fillIPv4Default :: "Packet \<Rightarrow> u16 \<Rightarrow> u8 \<Rightarrow> memory \<Rightarrow> memory option" where
  "fillIPv4Default p plLen nextProto m = do {
     m \<leftarrow> upd_IPv4 (\<lambda>h. h\<lparr>VersionIhl := IPv4VersionIhl\<rparr>) (GetIPv4NoCheck p) m;
     m \<leftarrow> upd_IPv4 (\<lambda>h. h\<lparr>TotalLength := SwapBytesUint16 plLen\<rparr>) (GetIPv4NoCheck p) m;
     m \<leftarrow> upd_IPv4 (\<lambda>h. h\<lparr>NextProtoID := nextProto\<rparr>) (GetIPv4NoCheck p) m;
     upd_IPv4 (\<lambda>h. h\<lparr>TimeToLive := 64\<rparr>) (GetIPv4NoCheck p) m }"

definition fillIPv6Default :: "Packet \<Rightarrow> u16 \<Rightarrow> u8 \<Rightarrow> memory \<Rightarrow> memory option" where
  "fillIPv6Default p totalLen nextProto m = do {
     m \<leftarrow> upd_IPv6 (\<lambda>h. h\<lparr>PayloadLen := SwapBytesUint16 totalLen\<rparr>) (GetIPv6NoCheck p) m;
     m \<leftarrow> upd_IPv6 (\<lambda>h. h\<lparr>VtcFlow := IPv6VtcFlow\<rparr>) (GetIPv6NoCheck p) m;
     m \<leftarrow> upd_IPv6 (\<lambda>h. h\<lparr>Proto := nextProto\<rparr>) (GetIPv6NoCheck p) m;
     upd_IPv6 (\<lambda>h. h\<lparr>HopLimits := 255\<rparr>) (GetIPv6NoCheck p) m }"

definition clear_cksum :: "bool \<Rightarrow> Packet \<Rightarrow> memory \<Rightarrow> memory option" where
  "clear_cksum hw p m =
     (if hw then upd_IPv4 (\<lambda>h. h\<lparr>HdrChecksum := 0\<rparr>) (GetIPv4NoCheck p) m else Some m)"

definition InitEmptyIPv4Packet :: "bool \<Rightarrow> memory \<Rightarrow> Packet \<Rightarrow> u64 \<Rightarrow> gen_result" where
  "InitEmptyIPv4Packet hw m p plSize =
     (let bufSize = plSize + EtherLen + IPv4MinLen; (ok, mb) = AppendMbuf (CMbuf p) bufSize in
      if \<not> ok then Some (False, m, p) else do {
      let p = p\<lparr>CMbuf := mb\<rparr>;
      m \<leftarrow> upd_Ether (\<lambda>h. h\<lparr>EtherType := SwapBytesUint16 IPV4Number\<rparr>) (Ether p) m;
      let p = ParseL3 (p\<lparr>Data := unparsed p + IPv4MinLen\<rparr>);
      m \<leftarrow> fillIPv4Default p (ucast (IPv4MinLen + plSize)) NoNextHeader m;
      m \<leftarrow> clear_cksum hw p m;
      Some (True, m, p) })"

definition InitEmptyIPv6Packet :: "memory \<Rightarrow> Packet \<Rightarrow> u64 \<Rightarrow> gen_result" where
  "InitEmptyIPv6Packet m p plSize =
     (let bufSize = plSize + EtherLen + IPv6Len; (ok, mb) = AppendMbuf (CMbuf p) bufSize in
      if \<not> ok then Some (False, m, p) else do {
      let p = p\<lparr>CMbuf := mb\<rparr>;
      m \<leftarrow> upd_Ether (\<lambda>h. h\<lparr>EtherType := SwapBytesUint16 IPV6Number\<rparr>) (Ether p) m;
      let p = ParseL3 (p\<lparr>Data := unparsed p + IPv6Len\<rparr>);
      m \<leftarrow> fillIPv6Default p (ucast plSize) NoNextHeader m;
      Some (True, m, p) })"

definition InitEmptyARPPacket :: "memory \<Rightarrow> Packet \<Rightarrow> gen_result" where
  "InitEmptyARPPacket m p =
     (let (ok, mb) = AppendMbuf (CMbuf p) (EtherLen + ARPLen) in
      if \<not> ok then Some (False, m, p) else do {
      let p = p\<lparr>CMbuf := mb\<rparr>;
      m \<leftarrow> upd_Ether (\<lambda>h. h\<lparr>EtherType := SwapBytesUint16 ARPNumber\<rparr>) (Ether p) m;
      Some (True, m, ParseL3 p) })"

definition InitEmptyIPv4TCPPacket :: "bool \<Rightarrow> memory \<Rightarrow> Packet \<Rightarrow> u64 \<Rightarrow> gen_result" where
  "InitEmptyIPv4TCPPacket hw m p plSize =
     (let bufSize = plSize + EtherLen + IPv4MinLen + TCPMinLen;
          (ok, mb) = AppendMbuf (CMbuf p) bufSize in
      if \<not> ok then Some (False, m, p) else do {
      let p = p\<lparr>CMbuf := mb\<rparr>;
      m \<leftarrow> upd_Ether (\<lambda>h. h\<lparr>EtherType := SwapBytesUint16 IPV4Number\<rparr>) (Ether p) m;
      let p = ParseL3 p;
      m \<leftarrow> fillIPv4Default p (ucast (IPv4MinLen + TCPMinLen + plSize)) TCPNumber m;
      p \<leftarrow> ParseL4ForIPv4 m p;
      m \<leftarrow> upd_TCP (\<lambda>h. h\<lparr>DataOff := TCPMinDataOffset\<rparr>) (GetTCPNoCheck p) m;
      d \<leftarrow> tcp_data m (L4 p);
      let p = p\<lparr>Data := d\<rparr>;
      m \<leftarrow> clear_cksum hw p m;
      Some (True, m, p) })"

definition InitEmptyIPv4UDPPacket :: "bool \<Rightarrow> memory \<Rightarrow> Packet \<Rightarrow> u64 \<Rightarrow> gen_result" where
  "InitEmptyIPv4UDPPacket hw m p plSize =
     (let bufSize = plSize + EtherLen + IPv4MinLen + UDPLen;
          (ok, mb) = AppendMbuf (CMbuf p) bufSize in
      if \<not> ok then Some (False, m, p) else do {
      let p = p\<lparr>CMbuf := mb\<rparr>;
      m \<leftarrow> upd_Ether (\<lambda>h. h\<lparr>EtherType := SwapBytesUint16 IPV4Number\<rparr>) (Ether p) m;
      let p = ParseL3 (p\<lparr>Data := unparsed p + IPv4MinLen + UDPLen\<rparr>);
      m \<leftarrow> fillIPv4Default p (ucast (IPv4MinLen + UDPLen + plSize)) UDPNumber m;
      p \<leftarrow> ParseL4ForIPv4 m p;
      m \<leftarrow> upd_UDP (\<lambda>h. h\<lparr>DgramLen := SwapBytesUint16 (ucast (UDPLen + plSize))\<rparr>)
             (GetUDPNoCheck p) m;
      m \<leftarrow> clear_cksum hw p m;
      Some (True, m, p) })"

definition InitEmptyIPv4ICMPPacket :: "memory \<Rightarrow> Packet \<Rightarrow> u64 \<Rightarrow> gen_result" where
  "InitEmptyIPv4ICMPPacket m p plSize =
     (let bufSize = plSize + EtherLen + IPv4MinLen + ICMPLen;
          (ok, mb) = AppendMbuf (CMbuf p) bufSize in
      if \<not> ok then Some (False, m, p) else do {
      let p = p\<lparr>CMbuf := mb\<rparr>;
      m \<leftarrow> upd_Ether (\<lambda>h. h\<lparr>EtherType := SwapBytesUint16 IPV4Number\<rparr>) (Ether p) m;
      let p = ParseL3 (p\<lparr>Data := unparsed p + IPv4MinLen + ICMPLen\<rparr>);
      m \<leftarrow> fillIPv4Default p (ucast (IPv4MinLen + ICMPLen + plSize)) ICMPNumber m;
      p \<leftarrow> ParseL4ForIPv4 m p;
      Some (True, m, p) })"

definition InitEmptyIPv6TCPPacket :: "memory \<Rightarrow> Packet \<Rightarrow> u64 \<Rightarrow> gen_result" where
  "InitEmptyIPv6TCPPacket m p plSize =
     (let bufSize = plSize + EtherLen + IPv6Len + TCPMinLen;
          (ok, mb) = AppendMbuf (CMbuf p) bufSize in
      if \<not> ok then Some (False, m, p) else do {
      let p = p\<lparr>CMbuf := mb\<rparr>;
      m \<leftarrow> upd_Ether (\<lambda>h. h\<lparr>EtherType := SwapBytesUint16 IPV6Number\<rparr>) (Ether p) m;
      let p = ParseL3 p;
      m \<leftarrow> fillIPv6Default p (ucast (TCPMinLen + plSize)) TCPNumber m;
      let p = ParseL4ForIPv6 p;
      m \<leftarrow> upd_TCP (\<lambda>h. h\<lparr>DataOff := TCPMinDataOffset\<rparr>) (GetTCPNoCheck p) m;
      d \<leftarrow> tcp_data m (L4 p);
      Some (True, m, p\<lparr>Data := d\<rparr>) })"

definition InitEmptyIPv6UDPPacket :: "memory \<Rightarrow> Packet \<Rightarrow> u64 \<Rightarrow> gen_result" where
  "InitEmptyIPv6UDPPacket m p plSize =
     (let bufSize = plSize + EtherLen + IPv6Len + UDPLen;
          (ok, mb) = AppendMbuf (CMbuf p) bufSize in
      if \<not> ok then Some (False, m, p) else do {
      let p = p\<lparr>CMbuf := mb\<rparr>;
      m \<leftarrow> upd_Ether (\<lambda>h. h\<lparr>EtherType := SwapBytesUint16 IPV6Number\<rparr>) (Ether p) m;
      let p = ParseL3 (p\<lparr>Data := unparsed p + IPv6Len + UDPLen\<rparr>);
      m \<leftarrow> fillIPv6Default p (ucast (UDPLen + plSize)) UDPNumber m;
      let p = ParseL4ForIPv6 p;
      m \<leftarrow> upd_UDP (\<lambda>h. h\<lparr>DgramLen := SwapBytesUint16 (ucast (UDPLen + plSize))\<rparr>)
             (GetUDPNoCheck p) m;
      Some (True, m, p) })"

definition InitEmptyIPv6ICMPPacket :: "memory \<Rightarrow> Packet \<Rightarrow> u64 \<Rightarrow> gen_result" where
  "InitEmptyIPv6ICMPPacket m p plSize =
     (let bufSize = plSize + EtherLen + IPv6Len + ICMPLen;
          (ok, mb) = AppendMbuf (CMbuf p) bufSize in
      if \<not> ok then Some (False, m, p) else do {
      let p = p\<lparr>CMbuf := mb\<rparr>;
      m \<leftarrow> upd_Ether (\<lambda>h. h\<lparr>EtherType := SwapBytesUint16 IPV6Number\<rparr>) (Ether p) m;
      let p = ParseL3 (p\<lparr>Data := unparsed p + IPv6Len + ICMPLen\<rparr>);
      m \<leftarrow> fillIPv6Default p (ucast (ICMPLen + plSize)) ICMPv6Number m;
      Some (True, m, ParseL4ForIPv6 p) })"

section \<open>Generated packets\<close>

lemmas upd_defs = upd_Ether_def upd_IPv4_def upd_IPv6_def upd_TCP_def upd_UDP_def upd_ICMP_def
  upd_ARP_def

lemma set_twice:
  "set_IPv4 (set_IPv4 m a h) a h' = set_IPv4 m a h'"
  "valid_IPv6Hdr g \<Longrightarrow> valid_IPv6Hdr g' \<Longrightarrow> set_IPv6 (set_IPv6 m a g) a g' = set_IPv6 m a g'"
  unfolding hdr_set_defs by (simp_all add: ipv4.store_overwrite ipv6.store_overwrite)

lemma valid_updates [simp]:
  "valid_EtherHdr (e\<lparr>EtherType := x\<rparr>) = valid_EtherHdr e"
  "valid_IPv6Hdr (h\<lparr>PayloadLen := l\<rparr>) = valid_IPv6Hdr h"
  "valid_IPv6Hdr (h\<lparr>VtcFlow := v\<rparr>) = valid_IPv6Hdr h"
  "valid_IPv6Hdr (h\<lparr>Proto := q\<rparr>) = valid_IPv6Hdr h"
  "valid_IPv6Hdr (h\<lparr>HopLimits := hl\<rparr>) = valid_IPv6Hdr h"
  by (simp_all add: valid_EtherHdr_def valid_IPv6Hdr_def)

lemma fillIPv4Default_eq:
  "L3 p \<noteq> nil \<Longrightarrow> fillIPv4Default p len proto m =
     Some (set_IPv4 m (L3 p) ((IPv4_at m (L3 p))\<lparr>VersionIhl := 0x45,
       TotalLength := SwapBytesUint16 len, NextProtoID := proto, TimeToLive := 64\<rparr>))"
  by (simp add: fillIPv4Default_def upd_IPv4_def GetIPv4NoCheck_def set_twice mem_simps)

lemma fillIPv6Default_eq:
  "L3 p \<noteq> nil \<Longrightarrow> fillIPv6Default p len proto m =
     Some (set_IPv6 m (L3 p) ((IPv6_at m (L3 p))\<lparr>PayloadLen := SwapBytesUint16 len,
       VtcFlow := 0x60, Proto := proto, HopLimits := 255\<rparr>))"
  by (simp add: fillIPv6Default_def upd_IPv6_def GetIPv6NoCheck_def set_twice mem_simps)

text \<open>A packet positioned at its first byte, with room for the headers in the address space.\<close>

definition at_start :: "Packet \<Rightarrow> bool" where
  "at_start p \<longleftrightarrow> Ether p = L2 p \<and> L2 p \<noteq> nil \<and> unat (L2 p) + 240 < 2 ^ 64"

text \<open>
  What a generator of \<open>hdrs\<close> bytes of headers and \<open>n\<close> bytes of payload promises: the result
  parses to itself, the payload pointer is behind the headers, the mbuf has grown by the
  whole length, and no byte outside the headers has changed.
\<close>

definition well_generated ::
  "memory \<Rightarrow> Packet \<Rightarrow> nat \<Rightarrow> nat \<Rightarrow> memory \<Rightarrow> Packet \<Rightarrow> bool" where
  "well_generated m p hdrs n m' p' \<longleftrightarrow>
     ParseData m' p' = Some (0, p') \<and> L2 p' = L2 p \<and> Data p' = L2 p + of_nat hdrs \<and>
     mbuf_inv (CMbuf p') \<and> seg_append (hdrs + n) (mbuf_abs (CMbuf p)) = Some (mbuf_abs (CMbuf p')) \<and>
     (\<forall>x. x \<notin> region (L2 p) hdrs \<longrightarrow> m' x = m x)"

lemma AppendMbuf_room:
  assumes "mbuf_inv mb" "unat n \<le> seg_tail (mbuf_abs mb)"
  obtains mb' where "AppendMbuf mb n = (True, mb')" "mbuf_inv mb'"
    "seg_append (unat n) (mbuf_abs mb) = Some (mbuf_abs mb')"
proof -
  have "unat n < 2 ^ 16"
    using assms(2) unat_mod_small [of "buf_len mb"] by (simp add: mbuf_abs_def)
  from AppendMbuf_implements [OF assms(1) this] assms(2) show ?thesis
    by (intro that [of "snd (AppendMbuf mb n)"])
      (auto simp: implements_def seg_append_def prod_eq_iff split: if_splits)
qed

lemma AppendMbuf_no_room:
  assumes "mbuf_inv mb" "unat n > seg_tail (mbuf_abs mb)" "unat n < 2 ^ 16"
  shows "AppendMbuf mb n = (False, mb)"
  using AppendMbuf_implements [OF assms(1,3)] assms(2) by (simp add: implements_def seg_append_def)

lemma at_start_nn: "at_start p \<Longrightarrow> k \<le> 240 \<Longrightarrow> L2 p + of_nat k \<noteq> nil"
  by (rule nonnil_offset) (auto simp: at_start_def)

lemma add_small: "unat n \<le> k \<Longrightarrow> k < 2 ^ 63 \<Longrightarrow> j < 2 ^ 63 \<Longrightarrow> unat (n + of_nat j :: u64) = unat n + j"
  by (simp add: unat_add_exact unat_of_nat_small)

lemma ParseL4ForIPv4_min:
  "VersionIhl (IPv4_at m (L3 p)) = 0x45 \<Longrightarrow> L3 p \<noteq> nil \<Longrightarrow>
     ParseL4ForIPv4 m p = Some (p\<lparr>L4 := L3 p + 20\<rparr>)"
  by (simp add: ParseL4ForIPv4_def GetIPv4NoCheck_def)

lemma tcp_data_min: "DataOff (TCP_at m a) = 0x50 \<Longrightarrow> a \<noteq> nil \<Longrightarrow> tcp_data m a = Some (a + 20)"
  by (simp add: tcp_data_def)

lemma packet_same: "p\<lparr>L3 := L3 p, L4 := L4 p, Data := Data p\<rparr> = p"
  by simp

lemma ParseData_stable:
  assumes "L2 p = a" "a \<noteq> nil" "unat a + 240 < 2 ^ 64"
    and "frame_l4 (frame_at m a) = Some (k, Some kind)" "d = k + l4_len (frame_at m a) k kind"
    and "L3 p = a + 14" "L4 p = a + of_nat k" "Data p = a + of_nat d"
  shows "ParseData m p = Some (0, p)"
proof -
  have "frame_data (frame_at m a) = Some d" using assms(4,5) by (simp add: frame_data_def)
  then show ?thesis
    using ParseData_frame [of p m] assms packet_same [of p] by simp
qed

lemma frame_l4_hdr4:
  assumes "EtherType (Ether_at m a) = SwapBytesUint16 IPV4Number"
    and "VersionIhl (IPv4_at m (a + 14)) = 0x45"
    and "NextProtoID (IPv4_at m (a + 14)) = proto"
  shows "frame_l4 (frame_at m a) = Some (34, if proto = 6 then Some TCP
     else if proto = 17 then Some UDP else if proto = 1 then Some ICMP else None)"
proof -
  have "frame_type (frame_at m a) = 0x0800" using assms(1) by (simp only: EtherType_at) simp
  moreover have "frame_at m a 14 = 0x45" "frame_at m a 23 = proto"
    using assms(2,3) frame_at_shift [of m a 14 0] frame_at_shift [of m a 14 9]
    by (simp_all add: IPv4_fields_at)
  ultimately show ?thesis by (simp add: frame_l4_def)
qed

lemma frame_l4_hdr6:
  assumes "EtherType (Ether_at m a) = SwapBytesUint16 IPV6Number"
    and "Proto (IPv6_at m (a + 14)) = proto"
  shows "frame_l4 (frame_at m a) = Some (54, if proto = 6 then Some TCP
     else if proto = 17 then Some UDP else if proto = 58 then Some ICMP else None)"
proof -
  have "frame_type (frame_at m a) = 0x86dd" using assms(1) by (simp only: EtherType_at) simp
  moreover have "frame_at m a 20 = proto"
    using assms(2) frame_at_shift [of m a 14 6] by (simp add: IPv6_Proto_at)
  ultimately show ?thesis by (simp add: frame_l4_def)
qed

lemma l4_len_tcp_min:
  assumes "DataOff (TCP_at m (a + of_nat k)) = 0x50"
  shows "l4_len (frame_at m a) k TCP = 20"
  using assms frame_at_shift [of m a k 12] by (simp add: TCP_DataOff_at l4_len_def)

lemma l4_len_simps [simp]: "l4_len f k UDP = 8" "l4_len f k ICMP = 8"
  by (simp_all add: l4_len_def)

text \<open>The mbuf part of every generator.\<close>

lemma gen_append:
  assumes "mbuf_inv (CMbuf p)" "unat n + hdrs \<le> seg_tail (mbuf_abs (CMbuf p))"
  obtains mb where "AppendMbuf (CMbuf p) (n + of_nat hdrs) = (True, mb)" "mbuf_inv mb"
    "seg_append (hdrs + unat n) (mbuf_abs (CMbuf p)) = Some (mbuf_abs mb)"
proof -
  have tail: "seg_tail (mbuf_abs (CMbuf p)) < 2 ^ 16"
    using unat_mod_small [of "buf_len (CMbuf p)"] by (simp add: mbuf_abs_def)
  have len: "unat (n + of_nat hdrs) = hdrs + unat n"
    using add_small [of n "2 ^ 16" hdrs] assms(2) tail by (simp add: add.commute)
  show ?thesis
    using AppendMbuf_room [OF assms(1), of "n + of_nat hdrs"] assms(2) that
    by (metis len add.commute)
qed

lemma addr_sums:
  "x + 14 + 20 = x + (34 :: u64)" "x + 14 + 40 = x + (54 :: u64)" "x + 34 + 8 = x + (42 :: u64)"
  "x + 34 + 20 = x + (54 :: u64)" "x + 54 + 8 = x + (62 :: u64)" "x + 54 + 20 = x + (74 :: u64)"
  by simp_all

lemmas gen_simps = addr_sums Let_def upd_defs ParseL3_def unparsed_def fillIPv4Default_eq fillIPv6Default_eq
  ParseL4ForIPv4_min ParseL4ForIPv6_def mem_simps GetUDPNoCheck_def GetTCPNoCheck_def
  clear_cksum_def GetIPv4NoCheck_def tcp_data_min

lemma hdr_outside:
  "y \<notin> region a k \<Longrightarrow> valid_EtherHdr e \<Longrightarrow> 14 \<le> k \<Longrightarrow> set_Ether m a e y = m y"
  "y \<notin> region a k \<Longrightarrow> 34 \<le> k \<Longrightarrow> set_IPv4 m (a + 14) h4 y = m y"
  "y \<notin> region a k \<Longrightarrow> valid_IPv6Hdr h6 \<Longrightarrow> 54 \<le> k \<Longrightarrow> set_IPv6 m (a + 14) h6 y = m y"
  "y \<notin> region a k \<Longrightarrow> valid_ARPHdr r \<Longrightarrow> 42 \<le> k \<Longrightarrow> set_ARP m (a + 14) r y = m y"
  "y \<notin> region a k \<Longrightarrow> 54 \<le> k \<Longrightarrow> set_TCP m (a + 34) t y = m y"
  "y \<notin> region a k \<Longrightarrow> 74 \<le> k \<Longrightarrow> set_TCP m (a + 54) t y = m y"
  "y \<notin> region a k \<Longrightarrow> 42 \<le> k \<Longrightarrow> set_UDP m (a + 34) u y = m y"
  "y \<notin> region a k \<Longrightarrow> 62 \<le> k \<Longrightarrow> set_UDP m (a + 54) u y = m y"
  "y \<notin> region a k \<Longrightarrow> 42 \<le> k \<Longrightarrow> set_ICMP m (a + 34) i y = m y"
  unfolding hdr_set_defs
  by (simp_all add: view_store_outside view_store_outside0 enc_lengths)

lemma well_generated_v4I:
  assumes "at_start p" "mbuf_inv mb" "seg_append (hdrs + n) (mbuf_abs (CMbuf p)) = Some (mbuf_abs mb)"
    and "EtherType (Ether_at m' (L2 p)) = SwapBytesUint16 IPV4Number"
    and "VersionIhl (IPv4_at m' (L2 p + 14)) = 0x45"
    and "NextProtoID (IPv4_at m' (L2 p + 14)) = proto"
    and "(proto = 17 \<or> proto = 1) \<and> hdrs = 42 \<or>
         proto = 6 \<and> hdrs = 54 \<and> DataOff (TCP_at m' (L2 p + 34)) = 0x50"
    and "\<And>x. x \<notin> region (L2 p) hdrs \<Longrightarrow> m' x = m x"
    and "L2 p' = L2 p" "L3 p' = L2 p + 14" "L4 p' = L2 p + 34" "Data p' = L2 p + of_nat hdrs"
    and "CMbuf p' = mb"
  shows "well_generated m p hdrs n m' p'"
  unfolding well_generated_def
proof (intro conjI)
  show "ParseData m' p' = Some (0, p')"
    using assms(1,7,9-13) frame_l4_hdr4 [OF assms(4-6)] l4_len_tcp_min [of m' "L2 p" 34]
    by (intro ParseData_stable [of _ "L2 p" _ 34
        "if proto = 6 then TCP else if proto = 17 then UDP else ICMP" hdrs])
      (auto simp: at_start_def)
qed (use assms in simp_all)

lemma well_generated_v6I:
  assumes "at_start p" "mbuf_inv mb" "seg_append (hdrs + n) (mbuf_abs (CMbuf p)) = Some (mbuf_abs mb)"
    and "EtherType (Ether_at m' (L2 p)) = SwapBytesUint16 IPV6Number"
    and "Proto (IPv6_at m' (L2 p + 14)) = proto"
    and "(proto = 17 \<or> proto = 58) \<and> hdrs = 62 \<or>
         proto = 6 \<and> hdrs = 74 \<and> DataOff (TCP_at m' (L2 p + 54)) = 0x50"
    and "\<And>x. x \<notin> region (L2 p) hdrs \<Longrightarrow> m' x = m x"
    and "L2 p' = L2 p" "L3 p' = L2 p + 14" "L4 p' = L2 p + 54" "Data p' = L2 p + of_nat hdrs"
    and "CMbuf p' = mb"
  shows "well_generated m p hdrs n m' p'"
  unfolding well_generated_def
proof (intro conjI)
  show "ParseData m' p' = Some (0, p')"
    using assms(1,6,8-12) frame_l4_hdr6 [OF assms(4-5)] l4_len_tcp_min [of m' "L2 p" 54]
    by (intro ParseData_stable [of _ "L2 p" _ 54
        "if proto = 6 then TCP else if proto = 17 then UDP else ICMP" hdrs])
      (auto simp: at_start_def)
qed (use assms in simp_all)

lemma at_start_ptrs:
  assumes "at_start p"
  shows "L2 p \<noteq> nil" "L2 p + 14 \<noteq> nil" "L2 p + 34 \<noteq> nil" "L2 p + 54 \<noteq> nil" "Ether p = L2 p"
  using at_start_nn [OF assms, of 14] at_start_nn [OF assms, of 34] at_start_nn [OF assms, of 54]
    assms by (simp_all add: at_start_def)

lemma InitEmptyIPv4TCPPacket_ok:
  assumes "at_start p" "mbuf_inv (CMbuf p)" "unat n + 54 \<le> seg_tail (mbuf_abs (CMbuf p))"
  shows "\<exists>m' p'. InitEmptyIPv4TCPPacket hw m p n = Some (True, m', p') \<and>
     well_generated m p 54 (unat n) m' p'"
proof -
  obtain mb where mb: "AppendMbuf (CMbuf p) (n + 54) = (True, mb)" "mbuf_inv mb"
      "seg_append (54 + unat n) (mbuf_abs (CMbuf p)) = Some (mbuf_abs mb)"
    using gen_append [OF assms(2,3)] by auto
  show ?thesis
    using at_start_ptrs [OF assms(1)] mb(1)
    by (simp add: InitEmptyIPv4TCPPacket_def gen_simps)
      (simp add: well_generated_v4I [OF assms(1) mb(2,3) _ _ refl] gen_simps hdr_outside [where k = 54])
qed

lemma InitEmptyIPv4UDPPacket_ok:
  assumes "at_start p" "mbuf_inv (CMbuf p)" "unat n + 42 \<le> seg_tail (mbuf_abs (CMbuf p))"
  shows "\<exists>m' p'. InitEmptyIPv4UDPPacket hw m p n = Some (True, m', p') \<and>
     well_generated m p 42 (unat n) m' p'"
proof -
  obtain mb where mb: "AppendMbuf (CMbuf p) (n + 42) = (True, mb)" "mbuf_inv mb"
      "seg_append (42 + unat n) (mbuf_abs (CMbuf p)) = Some (mbuf_abs mb)"
    using gen_append [OF assms(2,3)] by auto
  show ?thesis
    using at_start_ptrs [OF assms(1)] mb(1)
    by (simp add: InitEmptyIPv4UDPPacket_def gen_simps)
      (simp add: well_generated_v4I [OF assms(1) mb(2,3) _ _ refl] gen_simps hdr_outside [where k = 42])
qed

lemma InitEmptyIPv4ICMPPacket_ok:
  assumes "at_start p" "mbuf_inv (CMbuf p)" "unat n + 42 \<le> seg_tail (mbuf_abs (CMbuf p))"
  shows "\<exists>m' p'. InitEmptyIPv4ICMPPacket m p n = Some (True, m', p') \<and>
     well_generated m p 42 (unat n) m' p'"
proof -
  obtain mb where mb: "AppendMbuf (CMbuf p) (n + 42) = (True, mb)" "mbuf_inv mb"
      "seg_append (42 + unat n) (mbuf_abs (CMbuf p)) = Some (mbuf_abs mb)"
    using gen_append [OF assms(2,3)] by auto
  show ?thesis
    using at_start_ptrs [OF assms(1)] mb(1)
    by (simp add: InitEmptyIPv4ICMPPacket_def gen_simps)
      (simp add: well_generated_v4I [OF assms(1) mb(2,3) _ _ refl] gen_simps hdr_outside [where k = 42])
qed

lemma InitEmptyIPv6TCPPacket_ok:
  assumes "at_start p" "mbuf_inv (CMbuf p)" "unat n + 74 \<le> seg_tail (mbuf_abs (CMbuf p))"
  shows "\<exists>m' p'. InitEmptyIPv6TCPPacket m p n = Some (True, m', p') \<and>
     well_generated m p 74 (unat n) m' p'"
proof -
  obtain mb where mb: "AppendMbuf (CMbuf p) (n + 74) = (True, mb)" "mbuf_inv mb"
      "seg_append (74 + unat n) (mbuf_abs (CMbuf p)) = Some (mbuf_abs mb)"
    using gen_append [OF assms(2,3)] by auto
  show ?thesis
    using at_start_ptrs [OF assms(1)] mb(1)
    by (simp add: InitEmptyIPv6TCPPacket_def gen_simps)
      (simp add: well_generated_v6I [OF assms(1) mb(2,3) _ refl] gen_simps hdr_outside [where k = 74])
qed

lemma InitEmptyIPv6UDPPacket_ok:
  assumes "at_start p" "mbuf_inv (CMbuf p)" "unat n + 62 \<le> seg_tail (mbuf_abs (CMbuf p))"
  shows "\<exists>m' p'. InitEmptyIPv6UDPPacket m p n = Some (True, m', p') \<and>
     well_generated m p 62 (unat n) m' p'"
proof -
  obtain mb where mb: "AppendMbuf (CMbuf p) (n + 62) = (True, mb)" "mbuf_inv mb"
      "seg_append (62 + unat n) (mbuf_abs (CMbuf p)) = Some (mbuf_abs mb)"
    using gen_append [OF assms(2,3)] by auto
  show ?thesis
    using at_start_ptrs [OF assms(1)] mb(1)
    by (simp add: InitEmptyIPv6UDPPacket_def gen_simps)
      (simp add: well_generated_v6I [OF assms(1) mb(2,3) _ refl] gen_simps hdr_outside [where k = 62])
qed

lemma InitEmptyIPv6ICMPPacket_ok:
  assumes "at_start p" "mbuf_inv (CMbuf p)" "unat n + 62 \<le> seg_tail (mbuf_abs (CMbuf p))"
  shows "\<exists>m' p'. InitEmptyIPv6ICMPPacket m p n = Some (True, m', p') \<and>
     well_generated m p 62 (unat n) m' p'"
proof -
  obtain mb where mb: "AppendMbuf (CMbuf p) (n + 62) = (True, mb)" "mbuf_inv mb"
      "seg_append (62 + unat n) (mbuf_abs (CMbuf p)) = Some (mbuf_abs mb)"
    using gen_append [OF assms(2,3)] by auto
  show ?thesis
    using at_start_ptrs [OF assms(1)] mb(1)
    by (simp add: InitEmptyIPv6ICMPPacket_def gen_simps)
      (simp add: well_generated_v6I [OF assms(1) mb(2,3) _ refl] gen_simps hdr_outside [where k = 62])
qed

text \<open>C25: InitEmptyIPv4TCPPacket with room in the mbuf succeeds and its result is well generated: it parses back to itself, the payload pointer is behind 54 bytes of headers, the mbuf has grown by headers and payload, and no byte outside the headers has changed.\<close>

theorem InitEmptyIPv4TCPPacket_generates:
  assumes "at_start p" "mbuf_inv (CMbuf p)" "unat n + 54 \<le> seg_tail (mbuf_abs (CMbuf p))"
  shows "\<exists>m' p'. InitEmptyIPv4TCPPacket hw m p n = Some (True, m', p') \<and>
     well_generated m p 54 (unat n) m' p'"
  using assms by (rule InitEmptyIPv4TCPPacket_ok)

lemma sample_packet_start:
  "at_start (sample_packet 0)" "mbuf_inv (CMbuf (sample_packet 0))"
  "seg_tail (mbuf_abs (CMbuf (sample_packet 0))) = 2048"
  by (simp_all add: at_start_def sample_packet_def sample_mbuf_def mbuf_inv_def mbuf_abs_def)

theorem InitEmptyIPv4TCPPacket_generates_witness:
  "\<exists>m' p'. InitEmptyIPv4TCPPacket True (\<lambda>_. 0) (sample_packet 0) 100 = Some (True, m', p') \<and>
     well_generated (\<lambda>_. 0) (sample_packet 0) 54 100 m' p'"
  using InitEmptyIPv4TCPPacket_generates [of "sample_packet 0" 100 True "\<lambda>_. 0"] sample_packet_start by simp

end
