(* ===== verification/Checksum.thy ===== *)
theory Checksum
  imports Packet_Gen
begin

text \<open>
  Software checksums (src/packet/checksum.go).  Sums are \<^typ>\<open>u32\<close> values with wrap-around as
  in the code.  \<^verbatim>\<open>hdr\<close> arguments are the header values the pointers refer to;
  \<open>calculateDataChecksum\<close> reads the memory.

  The specification is the one's-complement sum of RFC 1071: the sum of the big-endian
  16-bit words of a byte list, and its residue modulo 65535.
\<close>

section \<open>Model\<close>

function reduceLoop :: "u32 \<Rightarrow> u32" where
  "reduceLoop sm =
     (if sm > 0xffff then reduceLoop (drop_bit 16 sm + (sm AND 0xffff)) else sm)"
  by auto

lemma fold_parts:
  "unat (drop_bit 16 sm + (sm AND 0xffff) :: u32) = unat sm div 65536 + unat sm mod 65536"
proof -
  have a: "unat (sm AND 0xffff) = unat sm mod 65536"
  proof -
    have "sm AND 0xffff = take_bit 16 sm" by (simp add: take_bit_eq_mask mask_eq_exp_minus_1)
    then show ?thesis by (simp only: unsigned_take_bit_eq) (simp add: take_bit_eq_mod)
  qed
  have b: "unat (drop_bit 16 sm) = unat sm div 65536"
    using unat_mod_small [of sm]
    by (simp only: unsigned_drop_bit_eq) (simp add: drop_bit_eq_div take_bit_nat_eq_self)
  have "unat sm div 65536 + unat sm mod 65536 < 2 ^ 32"
    using unat_mod_small [of sm] div_mult_mod_eq [of "unat sm" 65536] by simp
  then show ?thesis using a b by (simp add: unat_add_exact)
qed

lemma fold_decreases: "65535 < n \<Longrightarrow> n div 65536 + n mod 65536 < (n :: nat)"
proof -
  assume "65535 < n"
  then have "0 < n div 65536" by (simp add: div_greater_zero_iff)
  then show ?thesis using div_mult_mod_eq [of n 65536] by linarith
qed

termination reduceLoop
  by (relation "measure unat")
    (auto simp: fold_parts word_less_nat_alt intro: fold_decreases)

declare reduceLoop.simps [simp del]

definition reduceChecksum :: "u32 \<Rightarrow> u16" where
  "reduceChecksum sm = ucast (reduceLoop sm)"

text \<open>\<open>w32\<close> is \<^verbatim>\<open>uint32(SwapBytesUint16(x))\<close>; \<open>pair32\<close> is \<^verbatim>\<open>uint32(uint16(hi)<<8|uint16(lo))\<close>.\<close>

definition w32 :: "u16 \<Rightarrow> u32" where
  "w32 x = ucast (SwapBytesUint16 x)"

definition pair32 :: "byte \<Rightarrow> byte \<Rightarrow> u32" where
  "pair32 hi lo = ucast (push_bit 8 (ucast hi) OR ucast lo :: u16)"

definition calculateDataChecksum :: "memory \<Rightarrow> addr \<Rightarrow> nat \<Rightarrow> int \<Rightarrow> u32 option" where
  "calculateDataChecksum m p len offset =
     (let uptr = p + word_of_int offset in
      if uptr = nil then None else
      let sm = fold (\<lambda>i s. s + w32 (load16 m (uptr + of_nat (2 * i)))) [0..<len div 2] 0 in
      Some (if odd len then sm + push_bit 8 (ucast (m (uptr + of_nat (len - 1)))) else sm))"

definition calculateIPv4AddrChecksum :: "IPv4Hdr \<Rightarrow> u32" where
  "calculateIPv4AddrChecksum hdr =
     w32 (ucast (drop_bit 16 (ip4_SrcAddr hdr))) + w32 (ucast (ip4_SrcAddr hdr)) +
     w32 (ucast (drop_bit 16 (ip4_DstAddr hdr))) + w32 (ucast (ip4_DstAddr hdr))"

definition calculateIPv6AddrChecksum :: "IPv6Hdr \<Rightarrow> u32" where
  "calculateIPv6AddrChecksum hdr = (let s = ip6_SrcAddr hdr; d = ip6_DstAddr hdr in
     pair32 (s ! 0) (s ! 1) + pair32 (s ! 2) (s ! 3) + pair32 (s ! 4) (s ! 5) +
     pair32 (s ! 6) (s ! 7) + pair32 (s ! 8) (s ! 9) + pair32 (s ! 10) (s ! 11) +
     pair32 (s ! 12) (s ! 13) + pair32 (s ! 14) (s ! 15) +
     pair32 (d ! 0) (d ! 1) + pair32 (d ! 2) (d ! 3) + pair32 (d ! 4) (d ! 5) +
     pair32 (d ! 6) (d ! 7) + pair32 (d ! 8) (d ! 9) + pair32 (d ! 10) (d ! 11) +
     pair32 (d ! 12) (d ! 13) + pair32 (d ! 14) (d ! 15))"

definition CalculateIPv4Checksum :: "IPv4Hdr \<Rightarrow> u16" where
  "CalculateIPv4Checksum hdr =
     NOT (reduceChecksum (push_bit 8 (ucast (VersionIhl hdr)) + ucast (TypeOfService hdr) +
       w32 (TotalLength hdr) + w32 (PacketID hdr) + w32 (FragmentOffset hdr) +
       push_bit 8 (ucast (TimeToLive hdr)) + ucast (NextProtoID hdr) +
       w32 (ucast (drop_bit 16 (ip4_SrcAddr hdr))) + w32 (ucast (ip4_SrcAddr hdr)) +
       w32 (ucast (drop_bit 16 (ip4_DstAddr hdr))) + w32 (ucast (ip4_DstAddr hdr))))"

definition calculateTCPChecksum :: "TCPHdr \<Rightarrow> u32" where
  "calculateTCPChecksum tcp =
     w32 (tcp_SrcPort tcp) + w32 (tcp_DstPort tcp) +
     w32 (ucast (drop_bit 16 (SentSeq tcp))) + w32 (ucast (SentSeq tcp)) +
     w32 (ucast (drop_bit 16 (RecvAck tcp))) + w32 (ucast (RecvAck tcp)) +
     push_bit 8 (ucast (DataOff tcp)) + ucast (tcp_Flags tcp) + w32 (RxWin tcp) + w32 (TCPUrp tcp)"

subsection \<open>Pseudo headers\<close>

definition CalculatePseudoHdrIPv4TCPCksum :: "IPv4Hdr \<Rightarrow> u16" where
  "CalculatePseudoHdrIPv4TCPCksum hdr =
     (let dataLength = SwapBytesUint16 (TotalLength hdr) - IPv4MinLen in
      reduceChecksum (calculateIPv4AddrChecksum hdr + ucast (NextProtoID hdr) + ucast dataLength))"

definition CalculatePseudoHdrIPv4UDPCksum :: "IPv4Hdr \<Rightarrow> UDPHdr \<Rightarrow> u16" where
  "CalculatePseudoHdrIPv4UDPCksum hdr udp =
     reduceChecksum (calculateIPv4AddrChecksum hdr + ucast (NextProtoID hdr) + w32 (DgramLen udp))"

definition CalculatePseudoHdrIPv6TCPCksum :: "IPv6Hdr \<Rightarrow> u16" where
  "CalculatePseudoHdrIPv6TCPCksum hdr =
     (let dataLength = SwapBytesUint16 (PayloadLen hdr) in
      reduceChecksum (calculateIPv6AddrChecksum hdr + ucast dataLength + ucast (Proto hdr)))"

definition CalculatePseudoHdrIPv6UDPCksum :: "IPv6Hdr \<Rightarrow> UDPHdr \<Rightarrow> u16" where
  "CalculatePseudoHdrIPv6UDPCksum hdr udp =
     reduceChecksum (calculateIPv6AddrChecksum hdr + ucast (Proto hdr) + w32 (DgramLen udp))"

subsection \<open>Transport checksums\<close>

definition not_zero :: "u16 \<Rightarrow> u16" where
  "not_zero retSum = (if retSum = 0 then NOT retSum else retSum)"

definition CalculateIPv4UDPChecksum :: "memory \<Rightarrow> IPv4Hdr \<Rightarrow> UDPHdr \<Rightarrow> addr \<Rightarrow> u16 option" where
  "CalculateIPv4UDPChecksum m hdr udp data = do {
     let dataLength = SwapBytesUint16 (TotalLength hdr) - IPv4MinLen;
     sm \<leftarrow> calculateDataChecksum m data (unat (dataLength - UDPLen)) 0;
     let sm = sm + (calculateIPv4AddrChecksum hdr + ucast (NextProtoID hdr) +
       w32 (DgramLen udp) + w32 (udp_SrcPort udp) + w32 (udp_DstPort udp) + w32 (DgramLen udp));
     Some (not_zero (NOT (reduceChecksum sm))) }"

definition CalculateIPv4TCPChecksum :: "memory \<Rightarrow> IPv4Hdr \<Rightarrow> TCPHdr \<Rightarrow> addr \<Rightarrow> u16 option" where
  "CalculateIPv4TCPChecksum m hdr tcp data = do {
     let dataLength = SwapBytesUint16 (TotalLength hdr) - IPv4MinLen;
     sm \<leftarrow> calculateDataChecksum m data (unat (dataLength - TCPMinLen)) 0;
     let sm = sm + (calculateIPv4AddrChecksum hdr + ucast (NextProtoID hdr) +
       ucast dataLength + calculateTCPChecksum tcp);
     Some (NOT (reduceChecksum sm)) }"

definition CalculateIPv6UDPChecksum :: "memory \<Rightarrow> IPv6Hdr \<Rightarrow> UDPHdr \<Rightarrow> addr \<Rightarrow> u16 option" where
  "CalculateIPv6UDPChecksum m hdr udp data = do {
     let dataLength = SwapBytesUint16 (PayloadLen hdr);
     sm \<leftarrow> calculateDataChecksum m data (unat (dataLength - UDPLen)) 0;
     let sm = sm + (calculateIPv6AddrChecksum hdr + w32 (DgramLen udp) + ucast (Proto hdr) +
       w32 (udp_SrcPort udp) + w32 (udp_DstPort udp) + w32 (DgramLen udp));
     Some (not_zero (NOT (reduceChecksum sm))) }"

definition CalculateIPv6TCPChecksum :: "memory \<Rightarrow> IPv6Hdr \<Rightarrow> TCPHdr \<Rightarrow> addr \<Rightarrow> u16 option" where
  "CalculateIPv6TCPChecksum m hdr tcp data = do {
     let dataLength = SwapBytesUint16 (PayloadLen hdr);
     sm \<leftarrow> calculateDataChecksum m data (unat (dataLength - TCPMinLen)) 0;
     let sm = sm + (calculateIPv6AddrChecksum hdr + ucast dataLength + ucast (Proto hdr) +
       calculateTCPChecksum tcp);
     Some (NOT (reduceChecksum sm)) }"

definition CalculateIPv4ICMPChecksum :: "memory \<Rightarrow> IPv4Hdr \<Rightarrow> ICMPHdr \<Rightarrow> addr \<Rightarrow> u16 option" where
  "CalculateIPv4ICMPChecksum m hdr icmp data = do {
     let dataLength = SwapBytesUint16 (TotalLength hdr) - IPv4MinLen - ICMPLen;
     d \<leftarrow> calculateDataChecksum m data (unat dataLength) 0;
     let sm = pair32 (icmp_Type icmp) (icmp_Code icmp) + w32 (Identifier icmp) +
       w32 (SeqNum icmp) + d;
     Some (NOT (reduceChecksum sm)) }"

definition CalculateIPv6ICMPChecksum :: "memory \<Rightarrow> IPv6Hdr \<Rightarrow> ICMPHdr \<Rightarrow> addr \<Rightarrow> u16 option" where
  "CalculateIPv6ICMPChecksum m hdr icmp data = do {
     let dataLength = SwapBytesUint16 (PayloadLen hdr);
     sm \<leftarrow> calculateDataChecksum m data (unat (dataLength - ICMPLen)) 0;
     let sm = sm + (calculateIPv6AddrChecksum hdr + ucast dataLength + ucast (Proto hdr) +
       pair32 (icmp_Type icmp) (icmp_Code icmp) + w32 (Identifier icmp) + w32 (SeqNum icmp));
     Some (NOT (reduceChecksum sm)) }"

section \<open>Specification: sums of big-endian words\<close>

fun be_sum :: "byte list \<Rightarrow> nat" where
  "be_sum [] = 0"
| "be_sum [b] = 256 * unat b"
| "be_sum (x # y # bs) = be_val x y + be_sum bs"

lemma be_sum_append: "even (length xs) \<Longrightarrow> be_sum (xs @ ys) = be_sum xs + be_sum ys"
  by (induction xs rule: be_sum.induct) auto

lemma be_sum_bound: "be_sum bs \<le> 65535 * ((length bs + 1) div 2)"
proof (induction bs rule: be_sum.induct)
  case (2 b)
  then show ?case using unat_mod_small [of b] by simp
next
  case (3 x y bs)
  then show ?case using be_val_less [of x y] by simp
qed simp

section \<open>Reduction\<close>

lemma reduceLoop_facts:
  "unat (reduceLoop s) \<le> 65535 \<and> unat (reduceLoop s) mod 65535 = unat s mod 65535
     \<and> (reduceLoop s = 0 \<longleftrightarrow> s = 0)"
proof (induction s rule: reduceLoop.induct)
  case (1 s)
  show ?case
  proof (cases "s > 0xffff")
    case False
    then show ?thesis
      by (subst (1 2 3) reduceLoop.simps) (simp add: word_less_nat_alt not_less)
  next
    case True
    let ?t = "drop_bit 16 s + (s AND 0xffff)"
    have step: "reduceLoop s = reduceLoop ?t" using True by (subst reduceLoop.simps) simp
    have n: "unat ?t = unat s div 65536 + unat s mod 65536" by (rule fold_parts)
    have s: "unat s = 65536 * (unat s div 65536) + unat s mod 65536" by simp
    have "unat ?t mod 65535 = unat s mod 65535"
    proof -
      have "unat s = unat ?t + 65535 * (unat s div 65536)" using n s by linarith
      then show ?thesis by (metis mod_mult_self2)
    qed
    moreover have "?t \<noteq> 0"
    proof -
      have "65535 < unat s" using True by (simp add: word_less_nat_alt)
      then have "0 < unat s div 65536" by (simp add: div_greater_zero_iff)
      then show ?thesis using n by (metis add_is_0 less_numeral_extra(3) unat_0)
    qed
    moreover have "s \<noteq> 0" using True by auto
    ultimately show ?thesis using 1 [OF True] unfolding step by simp
  qed
qed

lemma unat_reduceChecksum: "unat (reduceChecksum s) = unat (reduceLoop s)"
  using reduceLoop_facts [of s] by (simp add: reduceChecksum_def unat_ucast_small)

lemma reduceChecksum_mod: "unat (reduceChecksum s) mod 65535 = unat s mod 65535"
  using reduceLoop_facts [of s] by (simp add: unat_reduceChecksum)

lemma reduceChecksum_zero: "reduceChecksum s = 0 \<longleftrightarrow> s = 0"
  using reduceLoop_facts [of s] unat_reduceChecksum [of s] by (metis unat_0 unat_eq_zero)

lemma reduceChecksum_all_ones:
  assumes "unat s mod 65535 = 0" "s \<noteq> 0"
  shows "reduceChecksum s = 0xffff"
proof -
  let ?r = "unat (reduceChecksum s)"
  have "?r mod 65535 = 0" using reduceChecksum_mod assms(1) by simp
  moreover have "?r < 65536" using unat_mod_small [of "reduceChecksum s"] by simp
  moreover have "?r \<noteq> 0" using reduceChecksum_zero assms(2) by (simp add: unat_eq_0)
  ultimately have "?r = 65535" by (auto simp: mod_eq_0_iff_dvd dvd_def)
  then show ?thesis by (simp add: word_unat_eq_iff)
qed

lemma unat_NOT16: "unat (NOT w :: u16) = 65535 - unat w"
proof -
  have "NOT w = - 1 - w" by (simp add: not_eq_complement)
  moreover have "unat (- 1 :: u16) = 65535"
    by (simp add: unsigned_minus_1_eq_mask mask_eq_exp_minus_1)
  ultimately show ?thesis by (simp add: unat_sub_exact)
qed

text \<open>
  The receiver's test of RFC 1071: the one's-complement sum of all words is all ones,
  i.e. the sum is a positive multiple of 65535.
\<close>

definition internet_ok :: "byte list \<Rightarrow> bool" where
  "internet_ok bs \<longleftrightarrow> 0 < be_sum bs \<and> be_sum bs mod 65535 = 0"

lemma complement_sum:
  assumes "S < 2 ^ 32" "c = NOT (reduceChecksum (of_nat S))"
  shows "0 < S + unat c" "(S + unat c) mod 65535 = 0"
proof -
  let ?r = "unat (reduceChecksum (of_nat S))"
  have S: "unat (of_nat S :: u32) = S" using assms(1) by (simp add: unat_of_nat_small)
  have r: "?r \<le> 65535" "?r mod 65535 = S mod 65535"
    using unat_mod_small [of "reduceChecksum (of_nat S)"] reduceChecksum_mod [of "of_nat S"] S
    by simp_all
  have c: "unat c = 65535 - ?r" by (simp add: assms(2) unat_NOT16)
  show "0 < S + unat c"
    using c reduceChecksum_zero [of "of_nat S"] S by (cases "S = 0") simp_all
  have "(S + unat c) mod 65535 = (?r mod 65535 + (65535 - ?r) mod 65535) mod 65535"
    using c r(2) mod_add_eq [of S 65535 "unat c"] by simp
  also have "\<dots> = 0" using r(1) by (simp only: mod_add_eq) simp
  finally show "(S + unat c) mod 65535 = 0" .
qed

lemma internet_okI:
  assumes "be_sum bs = be_sum bs0 + unat c" "be_sum bs0 < 2 ^ 32"
    and "c = NOT (reduceChecksum (of_nat (be_sum bs0)))"
  shows "internet_ok bs"
  using complement_sum [OF assms(2,3)] by (simp add: internet_ok_def assms(1))

lemma internet_okI_not_zero:
  assumes "be_sum bs = be_sum bs0 + unat c" "be_sum bs0 < 2 ^ 32"
    and "c = not_zero (NOT (reduceChecksum (of_nat (be_sum bs0))))"
  shows "internet_ok bs"
proof -
  let ?c = "NOT (reduceChecksum (of_nat (be_sum bs0)))"
  note sum = complement_sum [OF assms(2) refl]
  have "unat c mod 65535 = unat ?c mod 65535" "0 < unat c \<or> unat c = unat ?c"
    using assms(3) unat_NOT16 [of 0] by (auto simp: not_zero_def)
  then have "(be_sum bs0 + unat c) mod 65535 = 0" "0 < be_sum bs0 + unat c"
    using sum by (metis mod_add_right_eq, auto)
  then show ?thesis by (simp add: internet_ok_def assms(1))
qed

lemma be_sum_small: "length bs < 131000 \<Longrightarrow> be_sum bs < 2 ^ 32"
  using be_sum_bound [of bs] by simp

section \<open>Fields as big-endian words\<close>

lemma le16_be: "be_val (ucast x) (ucast (drop_bit 8 x)) = unat (SwapBytesUint16 x)"
proof -
  have "un_le16 [ucast x, ucast (drop_bit 8 x)] = x"
    using le_rt(1) [of x] by (simp only: le_bytes_unfold)
  then show ?thesis using unat_SwapBytesUint16 by metis
qed

lemma w32_be: "w32 x = of_nat (be_val (ucast x) (ucast (drop_bit 8 x)))"
  by (simp add: w32_def le16_be)

lemma pair32_be: "pair32 hi lo = of_nat (be_val hi lo)"
  by (metis pair32_def or_byte_unat of_nat_unat)

lemma byte_shift_be: "push_bit 8 (ucast (hi :: byte)) = (of_nat (256 * unat hi) :: u32)"
  by (simp add: push_bit_eq_mult)

lemma byte_be: "ucast (lo :: byte) = (of_nat (unat lo) :: u32)"
  by simp

lemma halves_be:
  "w32 (ucast (drop_bit 16 x)) = of_nat (be_val (ucast (drop_bit 16 x)) (ucast (drop_bit 24 (x :: u32))))"
  "w32 (ucast x) = of_nat (be_val (ucast x) (ucast (drop_bit 8 x)))"
proof -
  have "ucast (ucast y :: u16) = (ucast y :: byte)"
    "ucast (drop_bit 8 (ucast y :: u16)) = (ucast (drop_bit 8 y) :: byte)" for y :: u32
    by (rule bit_word_eqI, auto simp: bit_simps)+
  then show "w32 (ucast (drop_bit 16 x))
      = of_nat (be_val (ucast (drop_bit 16 x)) (ucast (drop_bit 24 x)))"
    "w32 (ucast x) = of_nat (be_val (ucast x) (ucast (drop_bit 8 x)))"
    by (simp_all add: w32_be)
qed

lemma fold_add_init: "fold (\<lambda>i s. s + f i) is (a :: u32) = a + fold (\<lambda>i s. s + f i) is 0"
proof (induction "is" arbitrary: a)
  case (Cons i "is")
  show ?case using Cons [of "a + f i"] Cons [of "f i"] by (simp add: add.assoc)
qed simp

lemma calculateDataChecksum_be_sum:
  assumes "p + word_of_int off \<noteq> nil"
  shows "calculateDataChecksum m p n off = Some (of_nat (be_sum (load_bytes m (p + word_of_int off) n)))"
proof -
  let ?a = "p + word_of_int off"
  have w: "w32 (load16 m b) = of_nat (be_val (m b) (m (b + 1)))" for b
  proof -
    have "load16 m b = un_le16 [m b, m (b + 1)]"
      by (simp add: load16_def load_bytes_Suc numeral_2_eq_2)
    then show ?thesis by (metis of_nat_unat unat_SwapBytesUint16 w32_def)
  qed
  have even: "fold (\<lambda>i s. s + w32 (load16 m (b + of_nat (2 * i)))) [0..<k] 0
      = of_nat (be_sum (load_bytes m b (2 * k)))" for b k
  proof (induction k)
    case (Suc k)
    have "load_bytes m b (2 * Suc k) = load_bytes m b (2 * k) @
        [m (b + of_nat (2 * k)), m (b + of_nat (2 * k) + 1)]"
      using load_bytes_add [of m b "2 * k" 2] by (simp add: load_bytes_Suc numeral_2_eq_2)
    then show ?case using Suc by (simp add: be_sum_append w del: of_nat_mult)
  qed simp
  show ?thesis
  proof (cases "odd n")
    case False
    then have "2 * (n div 2) = n" by simp
    then show ?thesis using assms even [of ?a "n div 2"] False by (simp add: calculateDataChecksum_def)
  next
    case True
    then have n: "n = 2 * (n div 2) + 1" by simp
    then have pred: "n - 1 = 2 * (n div 2)" by simp
    have "load_bytes m ?a n = load_bytes m ?a (2 * (n div 2)) @ [m (?a + of_nat (n - 1))]"
      unfolding pred by (subst n, subst load_bytes_add) (simp add: load_bytes_Suc)
    then show ?thesis
      using assms even [of ?a "n div 2"] True
      by (simp add: calculateDataChecksum_def Let_def be_sum_append byte_shift_be)
  qed
qed

section \<open>Checksums verify\<close>

definition be16 :: "u16 \<Rightarrow> byte list" where
  "be16 x = le16 (SwapBytesUint16 x)"

definition pseudo4 :: "IPv4Hdr \<Rightarrow> u16 \<Rightarrow> byte list" where
  "pseudo4 hdr len = le32 (ip4_SrcAddr hdr) @ le32 (ip4_DstAddr hdr) @ [0, NextProtoID hdr] @ be16 len"

definition pseudo6 :: "IPv6Hdr \<Rightarrow> u16 \<Rightarrow> byte list" where
  "pseudo6 hdr len = ip6_SrcAddr hdr @ ip6_DstAddr hdr @ [0, 0] @ be16 len @ [0, 0, 0, Proto hdr]"

lemma SwapBytesUint16_0 [simp]: "SwapBytesUint16 0 = 0"
  by (simp add: SwapBytesUint16_def)

lemma be_sum_le16: "be_sum (le16 x @ bs) = unat (SwapBytesUint16 x) + be_sum bs"
  by (simp add: le_bytes_unfold le16_be)

lemma be_sum_be16: "be_sum (be16 x @ bs) = unat x + be_sum bs"
  by (simp only: be16_def be_sum_le16 SwapBytesUint16_swap)

lemma w32_unat: "w32 x = of_nat (unat (SwapBytesUint16 x))"
  by (simp add: w32_def)

lemma be_sum_le32_of_nat:
  "of_nat (be_sum (le32 x @ bs)) = w32 (ucast (drop_bit 16 x)) + w32 (ucast x) + (of_nat (be_sum bs) :: u32)"
  by (simp add: le_bytes_unfold halves_be ac_simps)

lemma of_nat_be_sum_le16: "of_nat (be_sum (le16 x @ bs)) = w32 x + (of_nat (be_sum bs) :: u32)"
  by (simp add: be_sum_le16 w32_unat)

lemma of_nat_be_sum_be16: "of_nat (be_sum (be16 x @ bs)) = ucast x + (of_nat (be_sum bs) :: u32)"
  by (simp add: be_sum_be16)

lemma of_nat_be_val: "of_nat (be_val hi lo) = push_bit 8 (ucast hi) + (ucast lo :: u32)"
  by (simp add: be_val_def byte_shift_be)

lemma w32_0 [simp]: "w32 0 = 0"
  by (simp add: w32_def)

lemmas word_sums = be_sum_le32_of_nat of_nat_be_sum_le16 of_nat_be_sum_be16 of_nat_be_val
  be_sum_le32_of_nat [where bs = "[]", simplified] of_nat_be_sum_le16 [where bs = "[]", simplified]
  of_nat_be_sum_be16 [where bs = "[]", simplified]

lemma CalculateIPv4Checksum_verifies:
  "internet_ok (enc_IPv4Hdr (hdr\<lparr>HdrChecksum := SwapBytesUint16 (CalculateIPv4Checksum hdr)\<rparr>))"
proof (rule internet_okI)
  let ?z = "enc_IPv4Hdr (hdr\<lparr>HdrChecksum := 0\<rparr>)"
  show "be_sum (enc_IPv4Hdr (hdr\<lparr>HdrChecksum := SwapBytesUint16 (CalculateIPv4Checksum hdr)\<rparr>))
      = be_sum ?z + unat (CalculateIPv4Checksum hdr)"
    by (simp add: enc_IPv4Hdr_def be_sum_append be_sum_le16)
  show "be_sum ?z < 2 ^ 32" by (rule be_sum_small) (simp add: enc_IPv4Hdr_def)
  show "CalculateIPv4Checksum hdr = NOT (reduceChecksum (of_nat (be_sum ?z)))"
    by (simp add: enc_IPv4Hdr_def CalculateIPv4Checksum_def word_sums ac_simps)
qed

lemma dataChecksum_0: "p \<noteq> nil \<Longrightarrow> calculateDataChecksum m p n 0 = Some (of_nat (be_sum (load_bytes m p n)))"
  using calculateDataChecksum_be_sum [of p 0 m n] by simp

lemma len_minus: "unat k \<le> unat (x :: u16) \<Longrightarrow> unat (x - k) = unat x - unat k"
  by (simp add: unat_sub_exact word_le_nat_alt)

lemma addr4_be_sum:
  "of_nat (be_sum (pseudo4 hdr len @ bs)) = calculateIPv4AddrChecksum hdr + ucast (NextProtoID hdr)
     + ucast len + (of_nat (be_sum bs) :: u32)"
  by (simp add: pseudo4_def word_sums calculateIPv4AddrChecksum_def)

lemma length_pseudo: "length (pseudo4 hdr len) = 12"
  "is_IPv6 (ip6_SrcAddr h6) \<Longrightarrow> is_IPv6 (ip6_DstAddr h6) \<Longrightarrow> length (pseudo6 h6 len) = 40"
  by (simp_all add: pseudo4_def pseudo6_def be16_def is_IPv6_def)

text \<open>C11: the UDP checksum over IPv4 is never zero and makes pseudo header, UDP header and data verify, for every datagram whose total length covers the headers.\<close>

theorem CalculateIPv4UDPChecksum_verifies:
  assumes "data \<noteq> nil" "unat (SwapBytesUint16 (TotalLength hdr)) = 28 + n"
  shows "\<exists>c. CalculateIPv4UDPChecksum m hdr udp data = Some c \<and> c \<noteq> 0 \<and>
    internet_ok (pseudo4 hdr (SwapBytesUint16 (DgramLen udp))
      @ enc_UDPHdr (udp\<lparr>DgramCksum := SwapBytesUint16 c\<rparr>) @ load_bytes m data n)"
proof -
  let ?pre = "pseudo4 hdr (SwapBytesUint16 (DgramLen udp))" and ?d = "load_bytes m data n"
  let ?z = "?pre @ enc_UDPHdr (udp\<lparr>DgramCksum := 0\<rparr>) @ ?d"
  let ?c = "not_zero (NOT (reduceChecksum (of_nat (be_sum ?z))))"
  have n: "unat (SwapBytesUint16 (TotalLength hdr) - 20 - 8) = n"
    using assms(2) by (simp add: len_minus)
  have n16: "n < 65536" using assms(2) unat_mod_small [of "SwapBytesUint16 (TotalLength hdr)"] by simp
  have "CalculateIPv4UDPChecksum m hdr udp data = Some ?c"
    using assms(1) n
    by (simp add: CalculateIPv4UDPChecksum_def dataChecksum_0 Let_def addr4_be_sum enc_UDPHdr_def
        word_sums w32_def ac_simps)
  moreover have "?c \<noteq> 0" by (simp add: not_zero_def)
  moreover have "internet_ok (?pre @ enc_UDPHdr (udp\<lparr>DgramCksum := SwapBytesUint16 ?c\<rparr>) @ ?d)"
  proof (rule internet_okI_not_zero [OF _ _ refl])
    show "be_sum ?z < 2 ^ 32"
      using n16 by (intro be_sum_small) (simp add: length_pseudo enc_UDPHdr_def)
  qed (simp add: be_sum_append length_pseudo enc_UDPHdr_def be_sum_le16)
  ultimately show ?thesis by blast
qed

theorem CalculateIPv4UDPChecksum_verifies_witness:
  "\<exists>c. CalculateIPv4UDPChecksum (\<lambda>_. 7) (dec_IPv4Hdr (replicate 2 0 @ [0, 31] @ replicate 16 1)) (dec_UDPHdr (replicate 8 3)) 0x100aa = Some c \<and> c \<noteq> 0"
proof -
  let ?h = "dec_IPv4Hdr (replicate 2 0 @ [0, 31] @ replicate 16 1)"
  have "unat (SwapBytesUint16 (TotalLength ?h)) = 28 + 3" by code_simp
  from CalculateIPv4UDPChecksum_verifies [where data = "0x100aa", OF _ this, of "\<lambda>_. 7"] show ?thesis by auto
qed

lemma be_sum_16:
  assumes "length s = 16"
  shows "of_nat (be_sum (s @ bs)) = pair32 (s ! 0) (s ! 1) + pair32 (s ! 2) (s ! 3)
     + pair32 (s ! 4) (s ! 5) + pair32 (s ! 6) (s ! 7) + pair32 (s ! 8) (s ! 9)
     + pair32 (s ! 10) (s ! 11) + pair32 (s ! 12) (s ! 13) + pair32 (s ! 14) (s ! 15)
     + (of_nat (be_sum bs) :: u32)"
proof -
  have "s = map ((!) s) [0..<16]" using assms by (metis map_nth)
  then have "be_sum (s @ bs) = be_sum (map ((!) s) [0..<16] @ bs)" by simp
  then show ?thesis by (simp add: upt_rec pair32_be ac_simps numeral_eq_Suc)
qed

lemma addr6_be_sum:
  assumes "valid_IPv6Hdr hdr"
  shows "of_nat (be_sum (pseudo6 hdr len @ bs)) = calculateIPv6AddrChecksum hdr + ucast len
     + ucast (Proto hdr) + (of_nat (be_sum bs) :: u32)"
  using assms
  by (simp add: pseudo6_def word_sums calculateIPv6AddrChecksum_def be_sum_16 valid_IPv6Hdr_def
      is_IPv6_def Let_def)

lemma length_pseudo6: "valid_IPv6Hdr hdr \<Longrightarrow> length (pseudo6 hdr len) = 40"
  by (simp add: length_pseudo valid_IPv6Hdr_def)

lemma pair32_split: "pair32 hi lo = push_bit 8 (ucast hi) + ucast lo"
  by (simp add: pair32_be of_nat_be_val)

lemma CalculateIPv4TCPChecksum_verifies:
  assumes "data \<noteq> nil" "unat (SwapBytesUint16 (TotalLength hdr)) = 40 + n"
  shows "\<exists>c. CalculateIPv4TCPChecksum m hdr tcp data = Some c \<and>
    internet_ok (pseudo4 hdr (SwapBytesUint16 (TotalLength hdr) - 20) @ enc_TCPHdr (tcp\<lparr>tcp_Cksum := SwapBytesUint16 c\<rparr>) @ load_bytes m data n)"
proof -
  let ?d = "load_bytes m data n"
  let ?z = "pseudo4 hdr (SwapBytesUint16 (TotalLength hdr) - 20) @ enc_TCPHdr (tcp\<lparr>tcp_Cksum := 0\<rparr>) @ ?d"
  let ?c = "NOT (reduceChecksum (of_nat (be_sum ?z)))"
  have n: "unat (SwapBytesUint16 (TotalLength hdr) - 20 - 20) = n"
    using assms(2) by (simp add: len_minus)
  have n16: "n < 65536" using assms(2) unat_mod_small [of "SwapBytesUint16 (TotalLength hdr)"] by simp
  have "CalculateIPv4TCPChecksum m hdr tcp data = Some ?c"
    using assms(1) n
    by (simp add: CalculateIPv4TCPChecksum_def dataChecksum_0 Let_def addr4_be_sum enc_TCPHdr_def
        word_sums calculateTCPChecksum_def ac_simps)
  moreover have "internet_ok (pseudo4 hdr (SwapBytesUint16 (TotalLength hdr) - 20) @ enc_TCPHdr (tcp\<lparr>tcp_Cksum := SwapBytesUint16 ?c\<rparr>) @ ?d)"
  proof (rule internet_okI [OF _ _ refl])
    show "be_sum ?z < 2 ^ 32"
      using n16 by (intro be_sum_small) (simp add: length_pseudo(1) enc_TCPHdr_def)
  qed (simp add: be_sum_append length_pseudo(1) enc_TCPHdr_def be_sum_le16)
  ultimately show ?thesis by blast
qed

text \<open>C12: the TCP checksum over IPv6 makes the 40-byte pseudo header, the TCP header and the data verify, for every segment whose payload length covers the TCP header.\<close>

theorem CalculateIPv6TCPChecksum_verifies:
  assumes "data \<noteq> nil" "unat (SwapBytesUint16 (PayloadLen hdr)) = 20 + n" "valid_IPv6Hdr hdr"
  shows "\<exists>c. CalculateIPv6TCPChecksum m hdr tcp data = Some c \<and>
    internet_ok (pseudo6 hdr (SwapBytesUint16 (PayloadLen hdr)) @ enc_TCPHdr (tcp\<lparr>tcp_Cksum := SwapBytesUint16 c\<rparr>) @ load_bytes m data n)"
proof -
  let ?d = "load_bytes m data n"
  let ?z = "pseudo6 hdr (SwapBytesUint16 (PayloadLen hdr)) @ enc_TCPHdr (tcp\<lparr>tcp_Cksum := 0\<rparr>) @ ?d"
  let ?c = "NOT (reduceChecksum (of_nat (be_sum ?z)))"
  have n: "unat (SwapBytesUint16 (PayloadLen hdr) - 20) = n"
    using assms(2) by (simp add: len_minus)
  have n16: "n < 65536" using assms(2) unat_mod_small [of "SwapBytesUint16 (PayloadLen hdr)"] by simp
  have "CalculateIPv6TCPChecksum m hdr tcp data = Some ?c"
    using assms(1) n
    by (simp add: CalculateIPv6TCPChecksum_def dataChecksum_0 Let_def addr6_be_sum [OF assms(3)] enc_TCPHdr_def
        word_sums calculateTCPChecksum_def ac_simps)
  moreover have "internet_ok (pseudo6 hdr (SwapBytesUint16 (PayloadLen hdr)) @ enc_TCPHdr (tcp\<lparr>tcp_Cksum := SwapBytesUint16 ?c\<rparr>) @ ?d)"
  proof (rule internet_okI [OF _ _ refl])
    show "be_sum ?z < 2 ^ 32"
      using n16 by (intro be_sum_small) (simp add: length_pseudo6 [OF assms(3)] enc_TCPHdr_def)
  qed (simp add: be_sum_append length_pseudo6 [OF assms(3)] enc_TCPHdr_def be_sum_le16)
  ultimately show ?thesis by blast
qed

theorem CalculateIPv6TCPChecksum_verifies_witness:
  "\<exists>c. CalculateIPv6TCPChecksum (\<lambda>_. 7) (dec_IPv6Hdr (replicate 4 0 @ [0, 23] @ replicate 34 1)) (dec_TCPHdr (replicate 20 3)) 0x100aa = Some c"
proof -
  let ?h = "dec_IPv6Hdr (replicate 4 0 @ [0, 23] @ replicate 34 1)"
  have "unat (SwapBytesUint16 (PayloadLen ?h)) = 20 + 3" "valid_IPv6Hdr ?h" by code_simp+
  from CalculateIPv6TCPChecksum_verifies [where data = "0x100aa", OF _ this, of "\<lambda>_. 7"] show ?thesis by auto
qed

lemma CalculateIPv6UDPChecksum_verifies:
  assumes "data \<noteq> nil" "unat (SwapBytesUint16 (PayloadLen hdr)) = 8 + n" "valid_IPv6Hdr hdr"
  shows "\<exists>c. CalculateIPv6UDPChecksum m hdr udp data = Some c \<and> c \<noteq> 0 \<and>
    internet_ok (pseudo6 hdr (SwapBytesUint16 (DgramLen udp)) @ enc_UDPHdr (udp\<lparr>DgramCksum := SwapBytesUint16 c\<rparr>) @ load_bytes m data n)"
proof -
  let ?d = "load_bytes m data n"
  let ?z = "pseudo6 hdr (SwapBytesUint16 (DgramLen udp)) @ enc_UDPHdr (udp\<lparr>DgramCksum := 0\<rparr>) @ ?d"
  let ?c = "not_zero (NOT (reduceChecksum (of_nat (be_sum ?z))))"
  have n: "unat (SwapBytesUint16 (PayloadLen hdr) - 8) = n"
    using assms(2) by (simp add: len_minus)
  have n16: "n < 65536" using assms(2) unat_mod_small [of "SwapBytesUint16 (PayloadLen hdr)"] by simp
  have "CalculateIPv6UDPChecksum m hdr udp data = Some ?c"
    using assms(1) n
    by (simp add: CalculateIPv6UDPChecksum_def dataChecksum_0 Let_def addr6_be_sum [OF assms(3)] enc_UDPHdr_def
        word_sums w32_def ac_simps)
  moreover have "?c \<noteq> 0" by (simp add: not_zero_def)
  moreover have "internet_ok (pseudo6 hdr (SwapBytesUint16 (DgramLen udp)) @ enc_UDPHdr (udp\<lparr>DgramCksum := SwapBytesUint16 ?c\<rparr>) @ ?d)"
  proof (rule internet_okI_not_zero [OF _ _ refl])
    show "be_sum ?z < 2 ^ 32"
      using n16 by (intro be_sum_small) (simp add: length_pseudo6 [OF assms(3)] enc_UDPHdr_def)
  qed (simp add: be_sum_append length_pseudo6 [OF assms(3)] enc_UDPHdr_def be_sum_le16)
  ultimately show ?thesis by blast
qed

lemma CalculateIPv4ICMPChecksum_verifies:
  assumes "data \<noteq> nil" "unat (SwapBytesUint16 (TotalLength hdr)) = 28 + n"
  shows "\<exists>c. CalculateIPv4ICMPChecksum m hdr icmp data = Some c \<and>
    internet_ok (enc_ICMPHdr (icmp\<lparr>icmp_Cksum := SwapBytesUint16 c\<rparr>) @ load_bytes m data n)"
proof -
  let ?d = "load_bytes m data n"
  let ?z = "enc_ICMPHdr (icmp\<lparr>icmp_Cksum := 0\<rparr>) @ ?d"
  let ?c = "NOT (reduceChecksum (of_nat (be_sum ?z)))"
  have n: "unat (SwapBytesUint16 (TotalLength hdr) - 20 - 8) = n"
    using assms(2) by (simp add: len_minus)
  have n16: "n < 65536" using assms(2) unat_mod_small [of "SwapBytesUint16 (TotalLength hdr)"] by simp
  have "CalculateIPv4ICMPChecksum m hdr icmp data = Some ?c"
    using assms(1) n
    by (simp add: CalculateIPv4ICMPChecksum_def dataChecksum_0 Let_def addr4_be_sum enc_ICMPHdr_def
        word_sums pair32_split ac_simps)
  moreover have "internet_ok (enc_ICMPHdr (icmp\<lparr>icmp_Cksum := SwapBytesUint16 ?c\<rparr>) @ ?d)"
  proof (rule internet_okI [OF _ _ refl])
    show "be_sum ?z < 2 ^ 32"
      using n16 by (intro be_sum_small) (simp add: length_pseudo(1) enc_ICMPHdr_def)
  qed (simp add: be_sum_append length_pseudo(1) enc_ICMPHdr_def be_sum_le16)
  ultimately show ?thesis by blast
qed

lemma CalculateIPv6ICMPChecksum_verifies:
  assumes "data \<noteq> nil" "unat (SwapBytesUint16 (PayloadLen hdr)) = 8 + n" "valid_IPv6Hdr hdr"
  shows "\<exists>c. CalculateIPv6ICMPChecksum m hdr icmp data = Some c \<and>
    internet_ok (pseudo6 hdr (SwapBytesUint16 (PayloadLen hdr)) @ enc_ICMPHdr (icmp\<lparr>icmp_Cksum := SwapBytesUint16 c\<rparr>) @ load_bytes m data n)"
proof -
  let ?d = "load_bytes m data n"
  let ?z = "pseudo6 hdr (SwapBytesUint16 (PayloadLen hdr)) @ enc_ICMPHdr (icmp\<lparr>icmp_Cksum := 0\<rparr>) @ ?d"
  let ?c = "NOT (reduceChecksum (of_nat (be_sum ?z)))"
  have n: "unat (SwapBytesUint16 (PayloadLen hdr) - 8) = n"
    using assms(2) by (simp add: len_minus)
  have n16: "n < 65536" using assms(2) unat_mod_small [of "SwapBytesUint16 (PayloadLen hdr)"] by simp
  have "CalculateIPv6ICMPChecksum m hdr icmp data = Some ?c"
    using assms(1) n
    by (simp add: CalculateIPv6ICMPChecksum_def dataChecksum_0 Let_def addr6_be_sum [OF assms(3)] enc_ICMPHdr_def
        word_sums pair32_split ac_simps)
  moreover have "internet_ok (pseudo6 hdr (SwapBytesUint16 (PayloadLen hdr)) @ enc_ICMPHdr (icmp\<lparr>icmp_Cksum := SwapBytesUint16 ?c\<rparr>) @ ?d)"
  proof (rule internet_okI [OF _ _ refl])
    show "be_sum ?z < 2 ^ 32"
      using n16 by (intro be_sum_small) (simp add: length_pseudo6 [OF assms(3)] enc_ICMPHdr_def)
  qed (simp add: be_sum_append length_pseudo6 [OF assms(3)] enc_ICMPHdr_def be_sum_le16)
  ultimately show ?thesis by blast
qed

text \<open>The IPv4 header with the checksum that CalculateIPv4Checksum computes stored in network order sums to all ones, the verification rule of RFC 1071, for every header.\<close>

lemma CalculateIPv4Checksum_rfc1071:
  "internet_ok (enc_IPv4Hdr (hdr\<lparr>HdrChecksum := SwapBytesUint16 (CalculateIPv4Checksum hdr)\<rparr>))"
  by (rule CalculateIPv4Checksum_verifies)

end
