(* ===== verification/Arp_Icmp6.thy ===== *)
theory Arp_Icmp6
  imports Packet_Gen
begin

text \<open>
  ARP packets (src/packet/arp.go) and ICMPv6 neighbour discovery (src/packet/icmp6.go).
\<close>

section \<open>ARP\<close>

abbreviation (input) ARPRequest :: u16 where "ARPRequest \<equiv> 1"
abbreviation (input) ARPReply :: u16 where "ARPReply \<equiv> 2"

definition bcast :: MACAddress where
  "bcast = [0xff, 0xff, 0xff, 0xff, 0xff, 0xff]"

text \<open>The format string is raw: each line ends in a backslash, an n and a newline.\<close>

abbreviation bsn :: string where "bsn \<equiv> [CHR 0x5C, CHR ''n'']"

definition ARPHdr_String :: "ARPHdr \<Rightarrow> string" where
  "ARPHdr_String hdr =
     ''    L3 protocol: ARP'' @ bsn @ nl @
     ''    HType: '' @ dec_str (unat (HType hdr)) @ bsn @ nl @
     ''    PType: '' @ dec_str (unat (PType hdr)) @ bsn @ nl @
     ''    HLen:  '' @ dec_str (unat (HLen hdr)) @ bsn @ nl @
     ''    PLen:  '' @ dec_str (unat (PLen hdr)) @ bsn @ nl @
     ''    Operation: '' @ dec_str (unat (Operation hdr)) @ bsn @ nl @
     ''    Sender MAC address: '' @ MACAddress_String (SHA hdr) @ bsn @ nl @
     ''    Sender IPv4 address: '' @ IPv4ArrayToString (SPA hdr) @ bsn @ nl @
     ''    Target MAC address: '' @ MACAddress_String (THA hdr) @ bsn @ nl @
     ''    Target IPv4 address: '' @ IPv4ArrayToString (TPA hdr) @ bsn"

definition initARPCommonData :: "memory \<Rightarrow> Packet \<Rightarrow> gen_result" where
  "initARPCommonData m p = do {
     (ok, m, p) \<leftarrow> InitEmptyARPPacket m p;
     if \<not> ok then Some (False, m, p) else do {
     let arp = GetARPNoCheck p;
     m \<leftarrow> upd_ARP (\<lambda>h. h\<lparr>HType := SwapBytesUint16 1\<rparr>) arp m;
     m \<leftarrow> upd_ARP (\<lambda>h. h\<lparr>PType := SwapBytesUint16 IPV4Number\<rparr>) arp m;
     m \<leftarrow> upd_ARP (\<lambda>h. h\<lparr>HLen := EtherAddrLen\<rparr>) arp m;
     m \<leftarrow> upd_ARP (\<lambda>h. h\<lparr>PLen := IPv4AddrLen\<rparr>) arp m;
     Some (True, m, p) }}"

text \<open>The assignments shared by the four packet kinds, in the order of the code.\<close>

definition fill_arp ::
  "u16 \<Rightarrow> MACAddress \<Rightarrow> MACAddress \<Rightarrow> IPv4Address \<Rightarrow> MACAddress \<Rightarrow> IPv4Address
     \<Rightarrow> memory \<Rightarrow> Packet \<Rightarrow> gen_result" where
  "fill_arp op dmac sha spa tha tpa m p = do {
     (ok, m, p) \<leftarrow> initARPCommonData m p;
     if \<not> ok then Some (False, m, p) else do {
     m \<leftarrow> upd_Ether (\<lambda>h. h\<lparr>SAddr := sha\<rparr>) (Ether p) m;
     m \<leftarrow> upd_Ether (\<lambda>h. h\<lparr>DAddr := dmac\<rparr>) (Ether p) m;
     let arp = GetARPNoCheck p;
     m \<leftarrow> upd_ARP (\<lambda>h. h\<lparr>Operation := SwapBytesUint16 op\<rparr>) arp m;
     m \<leftarrow> upd_ARP (\<lambda>h. h\<lparr>SHA := sha\<rparr>) arp m;
     m \<leftarrow> upd_ARP (\<lambda>h. h\<lparr>SPA := IPv4ToBytes spa\<rparr>) arp m;
     m \<leftarrow> upd_ARP (\<lambda>h. h\<lparr>THA := tha\<rparr>) arp m;
     m \<leftarrow> upd_ARP (\<lambda>h. h\<lparr>TPA := IPv4ToBytes tpa\<rparr>) arp m;
     Some (True, m, p) }}"

definition InitARPRequestPacket ::
  "memory \<Rightarrow> Packet \<Rightarrow> MACAddress \<Rightarrow> IPv4Address \<Rightarrow> IPv4Address \<Rightarrow> gen_result" where
  "InitARPRequestPacket m p sha spa tpa = fill_arp ARPRequest bcast sha spa bcast tpa m p"

definition InitARPReplyPacket ::
  "memory \<Rightarrow> Packet \<Rightarrow> MACAddress \<Rightarrow> MACAddress \<Rightarrow> IPv4Address \<Rightarrow> IPv4Address \<Rightarrow> gen_result" where
  "InitARPReplyPacket m p sha tha spa tpa = fill_arp ARPReply tha sha spa tha tpa m p"

definition InitGARPAnnouncementRequestPacket ::
  "memory \<Rightarrow> Packet \<Rightarrow> MACAddress \<Rightarrow> IPv4Address \<Rightarrow> gen_result" where
  "InitGARPAnnouncementRequestPacket m p sha spa = fill_arp ARPRequest bcast sha spa bcast spa m p"

definition InitGARPAnnouncementReplyPacket ::
  "memory \<Rightarrow> Packet \<Rightarrow> MACAddress \<Rightarrow> IPv4Address \<Rightarrow> gen_result" where
  "InitGARPAnnouncementReplyPacket m p sha spa = fill_arp ARPReply bcast sha spa bcast spa m p"

section \<open>ICMPv6 neighbour discovery\<close>

abbreviation (input) ICMPv6NDSourceLinkLayerAddress :: u8 where "ICMPv6NDSourceLinkLayerAddress \<equiv> 1"
abbreviation (input) ICMPv6NDTargetLinkLayerAddress :: u8 where "ICMPv6NDTargetLinkLayerAddress \<equiv> 2"
abbreviation (input) ICMPv6NDSolicitedFlag :: u16 where "ICMPv6NDSolicitedFlag \<equiv> 0x4000"
abbreviation (input) ICMPv6NDOverrideFlag :: u16 where "ICMPv6NDOverrideFlag \<equiv> 0x2000"
abbreviation (input) NDMessageSize :: "'a::numeral" where "NDMessageSize \<equiv> 16"
abbreviation (input) NDOptionSize :: "'a::numeral" where "NDOptionSize \<equiv> 8"

definition ipv6LinkLocalPrefix :: "byte list" where
  "ipv6LinkLocalPrefix = [0xfe, 0x80, 0, 0, 0, 0, 0, 0]"

definition ipv6LinkLocalMulticastPrefix :: "byte list" where
  "ipv6LinkLocalMulticastPrefix = [0xff, 0x02, 0, 0, 0, 0, 0, 0, 0, 0, 0, 0x01, 0xff]"

definition ipv6EtherMulticastPrefix :: "byte list" where
  "ipv6EtherMulticastPrefix = [0x33, 0x33]"

definition CalculateIPv6LinkLocalAddrForMAC :: "IPv6Address \<Rightarrow> MACAddress \<Rightarrow> IPv6Address" where
  "CalculateIPv6LinkLocalAddrForMAC llAddr mac =
     (go_copy llAddr ipv6LinkLocalPrefix)
       [8 := mac ! 0 XOR 0x02, 9 := mac ! 1, 10 := mac ! 2, 11 := 0xff, 12 := 0xfe,
        13 := mac ! 3, 14 := mac ! 4, 15 := mac ! 5]"

definition CalculateIPv6MulticastAddrForDstIP :: "IPv6Address \<Rightarrow> IPv6Address \<Rightarrow> IPv6Address" where
  "CalculateIPv6MulticastAddrForDstIP multicastAddr dstIP =
     (go_copy multicastAddr ipv6LinkLocalMulticastPrefix)
       [13 := dstIP ! 13, 14 := dstIP ! 14, 15 := dstIP ! 15]"

definition CalculateIPv6BroadcastMACForDstMulticastIP :: "MACAddress \<Rightarrow> IPv6Address \<Rightarrow> MACAddress" where
  "CalculateIPv6BroadcastMACForDstMulticastIP dstMAC dstIP =
     (go_copy dstMAC ipv6EtherMulticastPrefix)
       [2 := dstIP ! 12, 3 := dstIP ! 13, 4 := dstIP ! 14, 5 := dstIP ! 15]"

definition GetICMPv6NeighborSolicitationMessage :: "Packet \<Rightarrow> addr" where
  "GetICMPv6NeighborSolicitationMessage p = Data p"

definition GetICMPv6NeighborAdvertisementMessage :: "Packet \<Rightarrow> addr" where
  "GetICMPv6NeighborAdvertisementMessage p = Data p"

definition checkEnoughSpace :: "Packet \<Rightarrow> u64 \<Rightarrow> bool" where
  "checkEnoughSpace p space =
     (let pktStartAddr = StartAtOffset p 0;
          hdrsLen = Data p - pktStartAddr;
          packetLength = GetPacketSegmentLen p;
          dataLength = packetLength - hdrsLen - space in
      sint dataLength > 0)"

definition GetICMPv6NDSourceLinkLayerAddressOption :: "Packet \<Rightarrow> u64 \<Rightarrow> addr" where
  "GetICMPv6NDSourceLinkLayerAddressOption p msgLength =
     (if checkEnoughSpace p msgLength then Data p + msgLength else nil)"

definition GetICMPv6NDTargetLinkLayerAddressOption :: "Packet \<Rightarrow> u64 \<Rightarrow> addr" where
  "GetICMPv6NDTargetLinkLayerAddressOption p msgLength =
     (if checkEnoughSpace p msgLength then Data p + msgLength else nil)"

text \<open>Assignments of the target address of a message and of a link-layer option.\<close>

definition set_TargetAddr :: "IPv6Address \<Rightarrow> addr \<Rightarrow> memory \<Rightarrow> memory option" where
  "set_TargetAddr ip a m = do { a \<leftarrow> deref a; Some (store_bytes m a ip) }"

definition set_option :: "u8 \<Rightarrow> MACAddress \<Rightarrow> addr \<Rightarrow> memory \<Rightarrow> memory option" where
  "set_option ty mac a m = do {
     a \<leftarrow> deref a;
     Some (set_NDOption m a \<lparr>opt_Type = ty, opt_Length = NDOptionSize div 8, LinkLayerAddress = mac\<rparr>) }"

text \<open>The result of \<^verbatim>\<open>InitEmptyIPv6ICMPPacket\<close> is not tested by the code.\<close>

definition InitICMPv6NeighborSolicitationPacket ::
  "memory \<Rightarrow> Packet \<Rightarrow> MACAddress \<Rightarrow> IPv6Address \<Rightarrow> IPv6Address \<Rightarrow> (memory \<times> Packet) option" where
  "InitICMPv6NeighborSolicitationPacket m p srcMAC srcIP dstIP = do {
     (_, m, p) \<leftarrow> InitEmptyIPv6ICMPPacket m p (NDMessageSize + NDOptionSize);
     let targetMulticastAddr = CalculateIPv6MulticastAddrForDstIP (replicate 16 0) dstIP;
     m \<leftarrow> upd_Ether (\<lambda>h. h\<lparr>DAddr :=
            CalculateIPv6BroadcastMACForDstMulticastIP (DAddr h) targetMulticastAddr\<rparr>) (Ether p) m;
     m \<leftarrow> upd_Ether (\<lambda>h. h\<lparr>SAddr := srcMAC\<rparr>) (Ether p) m;
     let ipv6 = GetIPv6NoCheck p;
     m \<leftarrow> upd_IPv6 (\<lambda>h. h\<lparr>ip6_DstAddr := targetMulticastAddr\<rparr>) ipv6 m;
     m \<leftarrow> upd_IPv6 (\<lambda>h. h\<lparr>ip6_SrcAddr := srcIP\<rparr>) ipv6 m;
     let icmp = GetICMPNoCheck p;
     m \<leftarrow> upd_ICMP (\<lambda>h. h\<lparr>icmp_Type := ICMPv6NeighborSolicitation, Identifier := 0, SeqNum := 0\<rparr>) icmp m;
     p \<leftarrow> ParseL7 m (ucast ICMPv6Number) p;
     m \<leftarrow> set_TargetAddr dstIP (GetICMPv6NeighborSolicitationMessage p) m;
     m \<leftarrow> set_option ICMPv6NDSourceLinkLayerAddress srcMAC
            (GetICMPv6NDSourceLinkLayerAddressOption p NDMessageSize) m;
     Some (m, p) }"

definition InitICMPv6NeighborAdvertisementPacket ::
  "memory \<Rightarrow> Packet \<Rightarrow> MACAddress \<Rightarrow> MACAddress \<Rightarrow> IPv6Address \<Rightarrow> IPv6Address
     \<Rightarrow> (memory \<times> Packet) option" where
  "InitICMPv6NeighborAdvertisementPacket m p srcMAC dstMAC srcIP dstIP = do {
     (_, m, p) \<leftarrow> InitEmptyIPv6ICMPPacket m p (NDMessageSize + NDOptionSize);
     m \<leftarrow> upd_Ether (\<lambda>h. h\<lparr>DAddr := dstMAC\<rparr>) (Ether p) m;
     m \<leftarrow> upd_Ether (\<lambda>h. h\<lparr>SAddr := srcMAC\<rparr>) (Ether p) m;
     let ipv6 = GetIPv6NoCheck p;
     m \<leftarrow> upd_IPv6 (\<lambda>h. h\<lparr>ip6_DstAddr := dstIP\<rparr>) ipv6 m;
     m \<leftarrow> upd_IPv6 (\<lambda>h. h\<lparr>ip6_SrcAddr := srcIP\<rparr>) ipv6 m;
     let icmp = GetICMPNoCheck p;
     m \<leftarrow> upd_ICMP (\<lambda>h. h\<lparr>icmp_Type := ICMPv6NeighborAdvertisement,
            Identifier := SwapBytesUint16 (ICMPv6NDSolicitedFlag OR ICMPv6NDOverrideFlag),
            SeqNum := 0\<rparr>) icmp m;
     p \<leftarrow> ParseL7 m (ucast ICMPv6Number) p;
     m \<leftarrow> set_TargetAddr srcIP (GetICMPv6NeighborAdvertisementMessage p) m;
     m \<leftarrow> set_option ICMPv6NDTargetLinkLayerAddress srcMAC
            (GetICMPv6NDTargetLinkLayerAddressOption p NDMessageSize) m;
     Some (m, p) }"

section \<open>Generated ARP packets\<close>

lemma ARP_overwrite:
  "valid_ARPHdr r \<Longrightarrow> valid_ARPHdr r' \<Longrightarrow> set_ARP (set_ARP m a r) a r' = set_ARP m a r'"
  "valid_EtherHdr e \<Longrightarrow> valid_EtherHdr e' \<Longrightarrow> set_Ether (set_Ether m a e) a e' = set_Ether m a e'"
  unfolding hdr_set_defs by (simp_all add: arp.store_overwrite ether.store_overwrite)

lemma valid_arp_updates [simp]:
  "valid_ARPHdr (r\<lparr>HType := t\<rparr>) = valid_ARPHdr r" "valid_ARPHdr (r\<lparr>PType := t\<rparr>) = valid_ARPHdr r"
  "valid_ARPHdr (r\<lparr>HLen := l\<rparr>) = valid_ARPHdr r" "valid_ARPHdr (r\<lparr>PLen := l\<rparr>) = valid_ARPHdr r"
  "valid_ARPHdr (r\<lparr>Operation := t\<rparr>) = valid_ARPHdr r"
  by (simp_all add: valid_ARPHdr_def)

lemma valid_addr_updates [simp]:
  "is_MAC x \<Longrightarrow> valid_EtherHdr e \<Longrightarrow> valid_EtherHdr (e\<lparr>SAddr := x\<rparr>)"
  "is_MAC x \<Longrightarrow> valid_EtherHdr e \<Longrightarrow> valid_EtherHdr (e\<lparr>DAddr := x\<rparr>)"
  "is_MAC x \<Longrightarrow> valid_ARPHdr r \<Longrightarrow> valid_ARPHdr (r\<lparr>SHA := x\<rparr>)"
  "is_MAC x \<Longrightarrow> valid_ARPHdr r \<Longrightarrow> valid_ARPHdr (r\<lparr>THA := x\<rparr>)"
  "valid_ARPHdr r \<Longrightarrow> valid_ARPHdr (r\<lparr>SPA := IPv4ToBytes v\<rparr>)"
  "valid_ARPHdr r \<Longrightarrow> valid_ARPHdr (r\<lparr>TPA := IPv4ToBytes v\<rparr>)"
  "is_IPv6 y \<Longrightarrow> valid_IPv6Hdr h \<Longrightarrow> valid_IPv6Hdr (h\<lparr>ip6_DstAddr := y\<rparr>)"
  "is_IPv6 y \<Longrightarrow> valid_IPv6Hdr h \<Longrightarrow> valid_IPv6Hdr (h\<lparr>ip6_SrcAddr := y\<rparr>)"
  by (simp_all add: wf_defs IPv4ToBytes_def)

lemma load_hdr_bytes:
  "load_bytes m a 14 = enc_EtherHdr (Ether_at m a)" "load_bytes m a 28 = enc_ARPHdr (ARP_at m a)"
  unfolding hdr_at_defs view_load_def by (simp_all add: ether.enc_dec arp.enc_dec)

lemma wire_numbers:
  "le16 (SwapBytesUint16 ARPNumber) = [0x08, 0x06]" "le16 (SwapBytesUint16 IPV4Number) = [0x08, 0]"
  "le16 (SwapBytesUint16 1) = [0, 1]" "le16 (SwapBytesUint16 2) = [0, 2]"
  by code_simp+

lemma fill_arp_packet:
  assumes "at_start p" "mbuf_inv (CMbuf p)" "42 \<le> seg_tail (mbuf_abs (CMbuf p))"
    and "is_MAC sha" "is_MAC tha" "is_MAC dmac"
  shows "\<exists>m' p'. fill_arp op dmac sha spa tha tpa m p = Some (True, m', p') \<and>
    seg_append 42 (mbuf_abs (CMbuf p)) = Some (mbuf_abs (CMbuf p')) \<and>
    load_bytes m' (L2 p) 42 = dmac @ sha @ [0x08, 0x06] @
      [0, 1, 0x08, 0, 6, 4] @ le16 (SwapBytesUint16 op) @ sha @ IPv4ToBytes spa @ tha @ IPv4ToBytes tpa"
proof -
  obtain mb where mb: "AppendMbuf (CMbuf p) 42 = (True, mb)" "mbuf_inv mb"
      "seg_append 42 (mbuf_abs (CMbuf p)) = Some (mbuf_abs mb)"
    using gen_append [OF assms(2), of 0 42] assms(3) by auto
  have split: "load_bytes m' (L2 p) 42 = load_bytes m' (L2 p) 14 @ load_bytes m' (L2 p + 14) 28" for m'
    using load_bytes_add [of m' "L2 p" 14 28] by simp
  show ?thesis
    using at_start_ptrs [OF assms(1)] mb assms(4-6)
    by (simp add: fill_arp_def initARPCommonData_def InitEmptyARPPacket_def gen_simps
        GetARPNoCheck_def ARP_overwrite split load_hdr_bytes)
      (simp add: enc_EtherHdr_def enc_ARPHdr_def wire_numbers)
qed

section \<open>Generated neighbour discovery packets\<close>

lemma bytes_above:
  assumes "length bs = 16"
  shows "Ether_at (store_bytes m (a + 62) bs) a = Ether_at m a"
    "IPv6_at (store_bytes m (a + 62) bs) (a + 14) = IPv6_at m (a + 14)"
    "ICMP_at (store_bytes m (a + 62) bs) (a + 54) = ICMP_at m (a + 54)"
  unfolding hdr_at_defs using assms
    view_above0 [of 14 62 "\<lambda>x. x" bs dec_EtherHdr m a]
    view_above [of 14 40 62 "\<lambda>x. x" bs dec_IPv6Hdr m a]
    view_above [of 54 8 62 "\<lambda>x. x" bs dec_ICMPHdr m a]
  by (simp_all add: view_store_def)

lemma option_above:
  assumes "valid_NDOption o1"
  shows "Ether_at (set_NDOption m (a + 78) o1) a = Ether_at m a"
    "IPv6_at (set_NDOption m (a + 78) o1) (a + 14) = IPv6_at m (a + 14)"
    "ICMP_at (set_NDOption m (a + 78) o1) (a + 54) = ICMP_at m (a + 54)"
  unfolding hdr_at_defs hdr_set_defs using assms
  by (simp_all add: view_above view_above0 enc_lengths)

lemma option_above_target:
  "valid_NDOption o1 \<Longrightarrow>
     load_bytes (set_NDOption m (a + 78) o1) (a + 62) 16 = load_bytes m (a + 62) 16"
  unfolding hdr_set_defs using view_above [of 62 16 78 enc_NDOption o1 "\<lambda>x. x" m a]
  by (simp add: enc_lengths view_load_def)

lemma multicast_addr:
  "length dstIP = 16 \<Longrightarrow> CalculateIPv6MulticastAddrForDstIP (replicate 16 0) dstIP =
     ipv6LinkLocalMulticastPrefix @ drop 13 dstIP"
  by (auto simp: CalculateIPv6MulticastAddrForDstIP_def go_copy_def ipv6LinkLocalMulticastPrefix_def
      numeral_eq_Suc length_Suc_conv)

lemma multicast_mac:
  "length mac = 6 \<Longrightarrow> length dstIP = 16 \<Longrightarrow>
   CalculateIPv6BroadcastMACForDstMulticastIP mac (ipv6LinkLocalMulticastPrefix @ drop 13 dstIP) =
     [0x33, 0x33, 0xff] @ drop 13 dstIP"
  by (auto simp: CalculateIPv6BroadcastMACForDstMulticastIP_def go_copy_def
      ipv6LinkLocalMulticastPrefix_def ipv6EtherMulticastPrefix_def numeral_eq_Suc length_Suc_conv)

lemma link_local_addr:
  "length ll = 16 \<Longrightarrow> length mac = 6 \<Longrightarrow> CalculateIPv6LinkLocalAddrForMAC ll mac =
     [0xfe, 0x80, 0, 0, 0, 0, 0, 0, mac ! 0 XOR 0x02, mac ! 1, mac ! 2, 0xff, 0xfe,
      mac ! 3, mac ! 4, mac ! 5]"
  by (auto simp: CalculateIPv6LinkLocalAddrForMAC_def go_copy_def ipv6LinkLocalPrefix_def
      numeral_eq_Suc length_Suc_conv)

text \<open>A packet buffer with nothing in it yet, positioned at its first byte.\<close>

lemma nd_room:
  assumes "data_len (CMbuf p) = 0" "mbuf_inv (CMbuf p)" "86 \<le> seg_tail (mbuf_abs (CMbuf p))"
  obtains mb where "AppendMbuf (CMbuf p) 86 = (True, mb)" "data_len mb = 86"
proof -
  obtain mb where mb: "AppendMbuf (CMbuf p) 86 = (True, mb)"
    using gen_append [OF assms(2), of 24 62] assms(3) by auto
  then have "data_len mb = 86" using assms(1) by (auto simp: AppendMbuf_def split: if_splits)
  with mb show ?thesis using that by blast
qed

lemma nd_space:
  assumes "data_len (CMbuf p) = 86" "Data p = L2 p + 62"
  shows "checkEnoughSpace p 16"
proof -
  have "GetPacketSegmentLen p - (Data p - StartAtOffset p 0) - 16 = 8"
    using assms by (simp add: GetPacketSegmentLen_def GetDataLenMbuf_def StartAtOffset_def)
  then show ?thesis unfolding checkEnoughSpace_def Let_def by (simp only:) simp
qed

lemma DAddr_length [simp]: "length (DAddr (Ether_at m a)) = 6"
  using hdr_valid(1) [of m a] by (simp add: valid_EtherHdr_def is_MAC_def)

lemma nd_offsets:
  "x + 62 + 16 = x + (78 :: u64)"
  by simp

lemmas nd_simps = nd_offsets gen_simps multicast_addr multicast_mac is_IPv6_def GetIPv6NoCheck_def
  GetICMPNoCheck_def ParseL7_def set_TargetAddr_def set_option_def
  GetICMPv6NeighborSolicitationMessage_def GetICMPv6NeighborAdvertisementMessage_def
  GetICMPv6NDSourceLinkLayerAddressOption_def GetICMPv6NDTargetLinkLayerAddressOption_def
  nd_space ARP_overwrite bytes_above option_above option_above_target valid_NDOption_def

text \<open>C27: InitICMPv6NeighborSolicitationPacket on an empty mbuf builds the neighbour solicitation of RFC 4861: solicited-node multicast addresses at both layers, hop limit 255, ICMPv6 type 135, the target address and the source link-layer address option, 86 bytes in all.\<close>

theorem NeighborSolicitation_packet:
  assumes "at_start p" "mbuf_inv (CMbuf p)" "data_len (CMbuf p) = 0"
    and "86 \<le> seg_tail (mbuf_abs (CMbuf p))"
    and "is_MAC srcMAC" "is_IPv6 srcIP" "is_IPv6 dstIP"
  shows "\<exists>m' p'. InitICMPv6NeighborSolicitationPacket m p srcMAC srcIP dstIP = Some (m', p') \<and>
    Ether_at m' (L2 p) = \<lparr>DAddr = [0x33, 0x33, 0xff] @ drop 13 dstIP, SAddr = srcMAC,
      EtherType = SwapBytesUint16 IPV6Number\<rparr> \<and>
    ip6_SrcAddr (IPv6_at m' (L2 p + 14)) = srcIP \<and>
    ip6_DstAddr (IPv6_at m' (L2 p + 14)) = ipv6LinkLocalMulticastPrefix @ drop 13 dstIP \<and>
    Proto (IPv6_at m' (L2 p + 14)) = ICMPv6Number \<and> HopLimits (IPv6_at m' (L2 p + 14)) = 255 \<and>
    PayloadLen (IPv6_at m' (L2 p + 14)) = SwapBytesUint16 32 \<and>
    icmp_Type (ICMP_at m' (L2 p + 54)) = 135 \<and>
    load_bytes m' (L2 p + 62) 16 = dstIP \<and>
    NDOption_at m' (L2 p + 78) = \<lparr>opt_Type = 1, opt_Length = 1, LinkLayerAddress = srcMAC\<rparr> \<and>
    data_len (CMbuf p') = 86"
proof -
  obtain mb where mb: "AppendMbuf (CMbuf p) 86 = (True, mb)" "data_len mb = 86"
    using nd_room [OF assms(3,2,4)] by blast
  have nn: "L2 p + 62 \<noteq> nil" "L2 p + 78 \<noteq> nil"
    using at_start_nn [OF assms(1), of 62] at_start_nn [OF assms(1), of 78] by simp_all
  have mac: "is_MAC ([0x33, 0x33, 0xff] @ drop 13 dstIP)" and
    ip: "is_IPv6 (ipv6LinkLocalMulticastPrefix @ drop 13 dstIP)"
    using assms(7) by (simp_all add: is_MAC_def is_IPv6_def ipv6LinkLocalMulticastPrefix_def)
  show ?thesis
    using at_start_ptrs [OF assms(1)] mb assms(5-7) nn mac ip
    by (simp add: InitICMPv6NeighborSolicitationPacket_def InitEmptyIPv6ICMPPacket_def nd_simps)
qed

theorem NeighborSolicitation_packet_witness:
  "\<exists>m' p'. InitICMPv6NeighborSolicitationPacket (\<lambda>_. 0) (sample_packet 0) [2, 0, 0, 0, 0, 1] (replicate 16 1) (replicate 16 2)
     = Some (m', p') \<and> data_len (CMbuf p') = 86"
  using NeighborSolicitation_packet [of "sample_packet 0" "[2, 0, 0, 0, 0, 1]" "replicate 16 1" "replicate 16 2" "\<lambda>_. 0"]
    sample_packet_start by (auto simp: is_MAC_def is_IPv6_def sample_packet_def sample_mbuf_def)

lemma NeighborAdvertisement_packet:
  assumes "at_start p" "mbuf_inv (CMbuf p)" "data_len (CMbuf p) = 0"
    and "86 \<le> seg_tail (mbuf_abs (CMbuf p))"
    and "is_MAC srcMAC" "is_MAC dstMAC" "is_IPv6 srcIP" "is_IPv6 dstIP"
  shows "\<exists>m' p'. InitICMPv6NeighborAdvertisementPacket m p srcMAC dstMAC srcIP dstIP = Some (m', p') \<and>
    Ether_at m' (L2 p) = \<lparr>DAddr = dstMAC, SAddr = srcMAC, EtherType = SwapBytesUint16 IPV6Number\<rparr> \<and>
    ip6_SrcAddr (IPv6_at m' (L2 p + 14)) = srcIP \<and> ip6_DstAddr (IPv6_at m' (L2 p + 14)) = dstIP \<and>
    Proto (IPv6_at m' (L2 p + 14)) = ICMPv6Number \<and> HopLimits (IPv6_at m' (L2 p + 14)) = 255 \<and>
    PayloadLen (IPv6_at m' (L2 p + 14)) = SwapBytesUint16 32 \<and>
    icmp_Type (ICMP_at m' (L2 p + 54)) = 136 \<and>
    SwapBytesUint16 (Identifier (ICMP_at m' (L2 p + 54))) = 0x6000 \<and>
    load_bytes m' (L2 p + 62) 16 = srcIP \<and>
    NDOption_at m' (L2 p + 78) = \<lparr>opt_Type = 2, opt_Length = 1, LinkLayerAddress = srcMAC\<rparr> \<and>
    data_len (CMbuf p') = 86"
proof -
  obtain mb where mb: "AppendMbuf (CMbuf p) 86 = (True, mb)" "data_len mb = 86"
    using nd_room [OF assms(3,2,4)] by blast
  have nn: "L2 p + 62 \<noteq> nil" "L2 p + 78 \<noteq> nil"
    using at_start_nn [OF assms(1), of 62] at_start_nn [OF assms(1), of 78] by simp_all
  show ?thesis
    using at_start_ptrs [OF assms(1)] mb assms(5-8) nn
    by (simp add: InitICMPv6NeighborAdvertisementPacket_def InitEmptyIPv6ICMPPacket_def nd_simps)
qed

text \<open>InitARPReplyPacket lays down exactly the 42 bytes of an Ethernet frame with an ARP reply, field by field in network order, and extends the mbuf by 42 bytes.\<close>

lemma ARPReply_frame:
  assumes "at_start p" "mbuf_inv (CMbuf p)" "42 \<le> seg_tail (mbuf_abs (CMbuf p))"
    and "is_MAC sha" "is_MAC tha"
  shows "\<exists>m' p'. InitARPReplyPacket m p sha tha spa tpa = Some (True, m', p') \<and>
    seg_append 42 (mbuf_abs (CMbuf p)) = Some (mbuf_abs (CMbuf p')) \<and>
    load_bytes m' (L2 p) 42 = tha @ sha @ [0x08, 0x06] @
      [0, 1, 0x08, 0, 6, 4] @ [0, 2] @ sha @ IPv4ToBytes spa @ tha @ IPv4ToBytes tpa"
  using fill_arp_packet [OF assms(1-5) assms(5), where op = ARPReply and m = m] by (simp add: InitARPReplyPacket_def wire_numbers)

end
