(* ===== verification/Responder.thy ===== *)
theory Responder
  imports Checksum Arp_Icmp6
begin

text \<open>
  The packet responder of src/app/test-sniffer/lcores.go: what \<^verbatim>\<open>LcoreFunc\<close> does with one
  received mbuf.  The packet is answered in place; the result tells whether it is
  transmitted or released.  Printing of metadata is left out.
\<close>

section \<open>The model\<close>

datatype verdict = Transmit | Release

type_synonym answer = "(verdict \<times> memory) option"

definition rx_packet :: "Mbuf \<Rightarrow> Packet" where
  "rx_packet mb = \<lparr>L2 = nil, L3 = nil, L4 = nil, Data = nil, OuterL2 = nil, OuterL3 = nil, OuterL4 = nil,
     OuterEther = nil, OuterIPv4Hdr = nil, OuterUDPHdr = nil, VxlanHeader = nil, Overlay = False,
     Ether = nil, CMbuf = mb, Next_pkt = nil\<rparr>"

definition responder_mac :: MACAddress where
  "responder_mac = [0x0a, 0x58, 0xda, 0x97, 0x5a, 0x6f]"

definition swap_macs :: "EtherHdr \<Rightarrow> EtherHdr" where
  "swap_macs h = h\<lparr>SAddr := DAddr h, DAddr := SAddr h\<rparr>"

definition swap_ip4 :: "IPv4Hdr \<Rightarrow> IPv4Hdr" where
  "swap_ip4 h = h\<lparr>ip4_SrcAddr := ip4_DstAddr h, ip4_DstAddr := ip4_SrcAddr h\<rparr>"

definition swap_ip6 :: "IPv6Hdr \<Rightarrow> IPv6Hdr" where
  "swap_ip6 h = h\<lparr>ip6_SrcAddr := ip6_DstAddr h, ip6_DstAddr := ip6_SrcAddr h\<rparr>"

definition swap_ports :: "UDPHdr \<Rightarrow> UDPHdr" where
  "swap_ports h = h\<lparr>udp_SrcPort := udp_DstPort h, udp_DstPort := udp_SrcPort h\<rparr>"

definition answer_arp :: "Packet \<Rightarrow> memory \<Rightarrow> answer" where
  "answer_arp p m = do {
     arp \<leftarrow> GetARP m p;
     arp \<leftarrow> deref arp;
     if Operation (ARP_at m arp) \<noteq> SwapBytesUint16 ARPRequest then Some (Release, m) else do {
     let tmp = SHA (ARP_at m arp);
     m \<leftarrow> upd_ARP (\<lambda>h. h\<lparr>Operation := SwapBytesUint16 ARPReply, SHA := responder_mac\<rparr>) arp m;
     m \<leftarrow> upd_Ether (\<lambda>h. h\<lparr>SAddr := SHA (ARP_at m arp)\<rparr>) (GetEther p) m;
     m \<leftarrow> upd_ARP (\<lambda>h. h\<lparr>THA := tmp, SPA := TPA h, TPA := SPA h\<rparr>) arp m;
     Some (Transmit, m) }}"

definition answer_ipv4 :: "Packet \<Rightarrow> memory \<Rightarrow> answer" where
  "answer_ipv4 p m = do {
     ipv4 \<leftarrow> GetIPv4 m p;
     m \<leftarrow> upd_IPv4 swap_ip4 ipv4 m;
     let proto = NextProtoID (IPv4_at m ipv4);
     (v, m) \<leftarrow>
       (if proto = ICMPNumber then do {
          icmp \<leftarrow> GetICMPForIPv4 m p;
          icmp \<leftarrow> deref icmp;
          if icmp_Type (ICMP_at m icmp) \<noteq> ICMPTypeEchoRequest then Some (Release, m) else do {
          m \<leftarrow> upd_ICMP (\<lambda>h. h\<lparr>icmp_Type := ICMPTypeEchoResponse\<rparr>) icmp m;
          c \<leftarrow> CalculateIPv4ICMPChecksum m (IPv4_at m ipv4) (ICMP_at m icmp) (Data p);
          m \<leftarrow> upd_ICMP (\<lambda>h. h\<lparr>icmp_Cksum := SwapBytesUint16 c\<rparr>) icmp m;
          Some (Transmit, m) }}
        else if proto = UDPNumber then do {
          udp \<leftarrow> GetUDPForIPv4 m p;
          m \<leftarrow> upd_UDP swap_ports udp m;
          Some (Transmit, m) }
        else Some (Release, m));
     if v = Release then Some (Release, m) else do {
     m \<leftarrow> upd_IPv4 (\<lambda>h. h\<lparr>HdrChecksum := SwapBytesUint16 (CalculateIPv4Checksum (IPv4_at m ipv4))\<rparr>) ipv4 m;
     Some (Transmit, m) }}"

definition answer_solicitation :: "Packet \<Rightarrow> addr \<Rightarrow> addr \<Rightarrow> memory \<Rightarrow> answer" where
  "answer_solicitation p ipv6 icmp m = do {
     p \<leftarrow> ParseL7 m (ucast ICMPv6Number) p;
     sol \<leftarrow> deref (GetICMPv6NeighborSolicitationMessage p);
     let rawTargetIP = load_bytes m sol 16;
     m \<leftarrow> upd_ICMP (\<lambda>h. h\<lparr>icmp_Type := ICMPv6NeighborAdvertisement,
            Identifier := SwapBytesUint16 (ICMPv6NDSolicitedFlag OR ICMPv6NDOverrideFlag)\<rparr>) icmp m;
     m \<leftarrow> upd_IPv6 (\<lambda>h. h\<lparr>ip6_SrcAddr := rawTargetIP\<rparr>) (GetIPv6NoCheck p) m;
     m \<leftarrow> upd_Ether (\<lambda>h. h\<lparr>SAddr := responder_mac\<rparr>) (GetEther p) m;
     m \<leftarrow> set_TargetAddr rawTargetIP (GetICMPv6NeighborAdvertisementMessage p) m;
     m \<leftarrow> set_option ICMPv6NDTargetLinkLayerAddress responder_mac
            (GetICMPv6NDTargetLinkLayerAddressOption p NDMessageSize) m;
     c \<leftarrow> CalculateIPv6ICMPChecksum m (IPv6_at m ipv6) (ICMP_at m icmp) (Data p);
     m \<leftarrow> upd_ICMP (\<lambda>h. h\<lparr>icmp_Cksum := SwapBytesUint16 c\<rparr>) icmp m;
     Some (Transmit, m) }"

definition answer_ipv6 :: "Packet \<Rightarrow> memory \<Rightarrow> answer" where
  "answer_ipv6 p m = do {
     ipv6 \<leftarrow> GetIPv6 m p;
     m \<leftarrow> upd_IPv6 swap_ip6 (GetIPv6NoCheck p) m;
     let proto = Proto (IPv6_at m ipv6);
     if proto = ICMPv6Number then do {
       icmp \<leftarrow> GetICMPForIPv6 m p;
       icmp \<leftarrow> deref icmp;
       let icmp6Type = icmp_Type (ICMP_at m icmp);
       if icmp6Type = ICMPv6TypeEchoRequest then do {
         m \<leftarrow> upd_ICMP (\<lambda>h. h\<lparr>icmp_Type := ICMPv6TypeEchoResponse\<rparr>) icmp m;
         c \<leftarrow> CalculateIPv6ICMPChecksum m (IPv6_at m ipv6) (ICMP_at m icmp) (Data p);
         m \<leftarrow> upd_ICMP (\<lambda>h. h\<lparr>icmp_Cksum := SwapBytesUint16 c\<rparr>) icmp m;
         Some (Transmit, m) }
       else if icmp6Type = ICMPv6NeighborSolicitation then answer_solicitation p ipv6 icmp m
       else if icmp6Type = ICMPv6TypeRouterSolicitation then Some (Release, m)
       else Some (Transmit, m) }
     else if proto = UDPNumber then do {
       udp \<leftarrow> GetUDPForIPv6 m p;
       m \<leftarrow> upd_UDP swap_ports udp m;
       Some (Transmit, m) }
     else Some (Release, m) }"

definition answer_outer :: "Packet \<Rightarrow> memory \<Rightarrow> memory option" where
  "answer_outer p m =
     (if Overlay p then do {
        m \<leftarrow> upd_Ether swap_macs (OuterEther p) m;
        m \<leftarrow> upd_IPv4 swap_ip4 (OuterIPv4Hdr p) m;
        upd_UDP (\<lambda>h. h\<lparr>DgramCksum := 0\<rparr>) (OuterUDPHdr p) m }
      else Some m)"

text \<open>One iteration of the loop over a burst, after and with the parsing of the packet.\<close>

definition answer_packet :: "Packet \<Rightarrow> memory \<Rightarrow> answer" where
  "answer_packet p m = do {
     let ether = GetEther p;
     m \<leftarrow> upd_Ether swap_macs ether m;
     let et = EtherType (Ether_at m ether);
     (v, m) \<leftarrow>
       (if et = SwapBytesUint16 ARPNumber then answer_arp p m
        else if et = SwapBytesUint16 IPV4Number then answer_ipv4 p m
        else if et = SwapBytesUint16 IPV6Number then answer_ipv6 p m
        else Some (Transmit, m));
     if v = Release then Some (Release, m) else do {
     m \<leftarrow> answer_outer p m;
     Some (Transmit, m) }}"

definition respond :: "Mbuf \<Rightarrow> memory \<Rightarrow> answer" where
  "respond mb m = do {
     (_, p) \<leftarrow> VxlanDecap m (rx_packet mb);
     (_, p) \<leftarrow> ParseData m p;
     answer_packet p m }"

fun process_burst :: "Mbuf list \<Rightarrow> memory \<Rightarrow> (verdict list \<times> memory) option" where
  "process_burst [] m = Some ([], m)"
| "process_burst (mb # mbs) m = do {
     (v, m) \<leftarrow> respond mb m;
     (vs, m) \<leftarrow> process_burst mbs m;
     Some (v # vs, m) }"

section \<open>Parsed frames\<close>

lemma respond_parsed:
  assumes "Mbuf_L2 mb = a" "a \<noteq> nil" "unat a + 240 < 2 ^ 64" "vxlan_at (frame_at m a) = None"
  obtains p where "respond mb m = answer_packet p m" "L2 p = a" "L3 p = a + 14" "\<not> Overlay p"
    "\<forall>k kind. frame_l4 (frame_at m a) = Some (k, kind) \<longrightarrow> L4 p = a + of_nat k"
    "\<forall>d. frame_data (frame_at m a) = Some d \<longrightarrow> Data p = a + of_nat d"
proof -
  obtain q where q: "VxlanDecap m (rx_packet mb) = Some (-1, q)" "L2 q = a" "\<not> Overlay q"
    using VxlanDecap_not_vxlan [OF _ assms(2-4), of "rx_packet mb"] assms(1) by (auto simp: rx_packet_def)
  have data: "ParseData m q = Some (
    if frame_data (frame_at m a) = None then -1 else 0,
    q\<lparr>L3 := a + 14,
      L4 := (case frame_l4 (frame_at m a) of None \<Rightarrow> L4 q | Some (k, _) \<Rightarrow> a + of_nat k),
      Data := (case frame_data (frame_at m a) of None \<Rightarrow> Data q | Some d \<Rightarrow> a + of_nat d)\<rparr>)"
    using ParseData_frame [of q m, unfolded q(2)] assms(2,3) by simp
  show thesis
    by (rule that [of "q\<lparr>L3 := a + 14,
      L4 := (case frame_l4 (frame_at m a) of None \<Rightarrow> L4 q | Some (k, _) \<Rightarrow> a + of_nat k),
      Data := (case frame_data (frame_at m a) of None \<Rightarrow> Data q | Some d \<Rightarrow> a + of_nat d)\<rparr>"])
      (use q data in \<open>auto simp: respond_def\<close>)
qed

lemma swap_macs_valid [simp]: "valid_EtherHdr h \<Longrightarrow> valid_EtherHdr (swap_macs h)"
  by (simp add: swap_macs_def valid_EtherHdr_def)

lemma swap_macs_type [simp]: "EtherType (swap_macs h) = EtherType h"
  by (simp add: swap_macs_def)

lemma mac_valid [simp]: "is_MAC responder_mac"
  by (simp add: responder_mac_def is_MAC_def)

section \<open>ARP\<close>

definition arp_reply :: "ARPHdr \<Rightarrow> ARPHdr" where
  "arp_reply h = h\<lparr>Operation := SwapBytesUint16 ARPReply, SHA := responder_mac,
     THA := SHA h, SPA := TPA h, TPA := SPA h\<rparr>"

lemma valid_arp_upd:
  "valid_ARPHdr h \<Longrightarrow> valid_ARPHdr (h\<lparr>Operation := x, SHA := responder_mac\<rparr>)"
  "valid_ARPHdr h \<Longrightarrow> valid_ARPHdr (arp_reply h)"
  using mac_valid by (simp_all add: valid_ARPHdr_def arp_reply_def)

lemma valid_eth_upd: "valid_EtherHdr h \<Longrightarrow> valid_EtherHdr (h\<lparr>SAddr := responder_mac\<rparr>)"
  using mac_valid by (simp add: valid_EtherHdr_def)

lemma answer_packet_arp:
  assumes "L2 p = a" "L3 p = a + 14" "\<not> Overlay p" "a \<noteq> nil" "a + 14 \<noteq> nil"
    "EtherType (Ether_at m a) = SwapBytesUint16 ARPNumber"
  defines "e \<equiv> swap_macs (Ether_at m a)" and "h \<equiv> ARP_at m (a + 14)"
  shows "answer_packet p m = (
    if Operation h = SwapBytesUint16 ARPRequest
    then Some (Transmit, set_ARP (set_Ether (set_ARP (set_Ether m a e)
         (a + 14) (h\<lparr>Operation := SwapBytesUint16 ARPReply, SHA := responder_mac\<rparr>))
         a (e\<lparr>SAddr := responder_mac\<rparr>)) (a + 14) (arp_reply h))
    else Some (Release, set_Ether m a e))"
proof -
  have v: "valid_EtherHdr e" "valid_ARPHdr h"
    "valid_ARPHdr (h\<lparr>Operation := SwapBytesUint16 ARPReply, SHA := responder_mac\<rparr>)"
    "valid_EtherHdr (e\<lparr>SAddr := responder_mac\<rparr>)"
    unfolding e_def h_def using mac_valid by (simp_all add: valid_eth_upd valid_arp_upd)
  have t: "EtherType e = SwapBytesUint16 ARPNumber" using assms(6) by (simp add: e_def)
  show ?thesis
    using assms(1-5) v t
    by (auto simp: answer_packet_def GetEther_def upd_Ether_def e_def [symmetric] mem_simps answer_arp_def
        GetARP_def h_def [symmetric] upd_ARP_def answer_outer_def arp_reply_def Let_def)
qed

lemma respond_arp:
  assumes "Mbuf_L2 mb = a" "a \<noteq> nil" "unat a + 240 < 2 ^ 64" "frame_type (frame_at m a) = 0x0806"
  shows "if Operation (ARP_at m (a + 14)) = SwapBytesUint16 ARPRequest
    then (\<exists>m'. respond mb m = Some (Transmit, m') \<and>
      Ether_at m' a = (Ether_at m a)\<lparr>DAddr := SAddr (Ether_at m a), SAddr := responder_mac\<rparr> \<and>
      ARP_at m' (a + 14) = arp_reply (ARP_at m (a + 14)) \<and> (\<forall>y. y \<notin> region a 42 \<longrightarrow> m' y = m y))
    else (\<exists>m'. respond mb m = Some (Release, m'))"
proof -
  have nv: "vxlan_at (frame_at m a) = None" using assms(4) by (simp add: vxlan_at_def frame_l4_def)
  obtain p where p: "respond mb m = answer_packet p m" "L2 p = a" "L3 p = a + 14" "\<not> Overlay p"
    by (rule respond_parsed [OF assms(1-3) nv])
  have t: "EtherType (Ether_at m a) = SwapBytesUint16 ARPNumber"
    using assms(4) by (simp add: EtherType_at)
  have nn: "a + 14 \<noteq> nil" using nonnil_offset [of a 14] assms(2,3) by simp
  let ?e = "swap_macs (Ether_at m a)" and ?h = "ARP_at m (a + 14)"
  have v: "valid_EtherHdr ?e" "valid_ARPHdr (arp_reply ?h)" "valid_EtherHdr (?e\<lparr>SAddr := responder_mac\<rparr>)"
    "valid_ARPHdr (?h\<lparr>Operation := SwapBytesUint16 ARPReply, SHA := responder_mac\<rparr>)"
    by (simp_all add: valid_arp_upd valid_eth_upd)
  have out: "set_ARP (set_Ether (set_ARP (set_Ether m a ?e) (a + 14) h1) a e1) (a + 14) h2 y = m y"
    if "y \<notin> region a 42" "valid_ARPHdr h1" "valid_ARPHdr h2" "valid_EtherHdr e1" for y h1 h2 e1
    using that v unfolding hdr_set_defs
    by (simp add: view_store_outside [where k = 42] view_store_outside0 [where k = 42] enc_lengths)
  let ?m = "set_ARP (set_Ether (set_ARP (set_Ether m a ?e)
         (a + 14) (?h\<lparr>Operation := SwapBytesUint16 ARPReply, SHA := responder_mac\<rparr>))
         a (?e\<lparr>SAddr := responder_mac\<rparr>)) (a + 14) (arp_reply ?h)"
  have eth: "Ether_at ?m a = (Ether_at m a)\<lparr>DAddr := SAddr (Ether_at m a), SAddr := responder_mac\<rparr>"
    using v by (simp add: mem_simps) (simp add: swap_macs_def)
  have arp: "ARP_at ?m (a + 14) = arp_reply ?h" using v by (simp add: mem_simps)
  have m: "\<forall>y. y \<notin> region a 42 \<longrightarrow> ?m y = m y" using out v by blast
  show ?thesis
    unfolding p(1) answer_packet_arp [OF p(2-4) assms(2) nn t] using eth arp m by simp
qed

section \<open>Ping\<close>

lemma answer_packet_icmp:
  assumes "L2 p = a" "L3 p = a + 14" "L4 p = a + 34" "Data p = a + 42" "\<not> Overlay p"
    "a \<noteq> nil" "a + 14 \<noteq> nil" "a + 34 \<noteq> nil" "a + 42 \<noteq> nil"
    "EtherType (Ether_at m a) = SwapBytesUint16 IPV4Number"
    "NextProtoID (IPv4_at m (a + 14)) = ICMPNumber" "icmp_Type (ICMP_at m (a + 34)) = ICMPTypeEchoRequest"
    "unat (SwapBytesUint16 (TotalLength (IPv4_at m (a + 14)))) = 28 + n"
  defines "e \<equiv> swap_macs (Ether_at m a)" and "h \<equiv> swap_ip4 (IPv4_at m (a + 14))"
    and "i \<equiv> (ICMP_at m (a + 34))\<lparr>icmp_Type := ICMPTypeEchoResponse\<rparr>"
  shows "\<exists>c. answer_packet p m = Some (Transmit,
      set_IPv4 (set_ICMP (set_ICMP (set_IPv4 (set_Ether m a e) (a + 14) h) (a + 34) i) (a + 34) (i\<lparr>icmp_Cksum := SwapBytesUint16 c\<rparr>))
        (a + 14) (h\<lparr>HdrChecksum := SwapBytesUint16 (CalculateIPv4Checksum h)\<rparr>)) \<and>
    internet_ok (enc_ICMPHdr (i\<lparr>icmp_Cksum := SwapBytesUint16 c\<rparr>) @ load_bytes m (a + 42) n)"
proof -
  let ?m = "set_ICMP (set_IPv4 (set_Ether m a e) (a + 14) h) (a + 34) i"
  have v: "valid_EtherHdr e" by (simp add: e_def)
  have t: "EtherType e = SwapBytesUint16 IPV4Number" using assms(10) by (simp add: e_def)
  have n: "n \<le> 65535" using assms(13) unat_mod_small [of "SwapBytesUint16 (TotalLength (IPv4_at m (a + 14)))"] by simp
  have hf: "NextProtoID h = ICMPNumber" "TotalLength h = TotalLength (IPv4_at m (a + 14))"
    using assms(11) by (simp_all add: h_def swap_ip4_def)
  obtain c where c: "CalculateIPv4ICMPChecksum ?m h i (a + 42) = Some c"
    "internet_ok (enc_ICMPHdr (i\<lparr>icmp_Cksum := SwapBytesUint16 c\<rparr>) @ load_bytes ?m (a + 42) n)"
    using CalculateIPv4ICMPChecksum_verifies [of "a + 42" h n ?m i] assms(9,13) hf(2) by auto
  have "load_bytes ?m (a + 42) n = load_bytes m (a + 42) n" using n v by (simp add: mem_simps)
  moreover have "answer_packet p m = Some (Transmit,
      set_IPv4 (set_ICMP ?m (a + 34) (i\<lparr>icmp_Cksum := SwapBytesUint16 c\<rparr>)) (a + 14)
        (h\<lparr>HdrChecksum := SwapBytesUint16 (CalculateIPv4Checksum h)\<rparr>))"
    using assms(1-9,12) v t c(1) hf(1)
    by (simp add: answer_packet_def GetEther_def upd_Ether_def e_def [symmetric] mem_simps answer_ipv4_def
        GetIPv4_def upd_IPv4_def h_def [symmetric] GetICMPForIPv4_def GetIPv4NoCheck_def upd_ICMP_def
        i_def [symmetric] answer_outer_def Let_def swapped_numbers)
  ultimately show ?thesis using c(2) by auto
qed

text \<open>An ICMP echo request in an IPv4 packet without options and \<open>n\<close> bytes of ICMP data.\<close>

definition echo_request :: "frame \<Rightarrow> nat \<Rightarrow> bool" where
  "echo_request f n \<longleftrightarrow> frame_type f = 0x0800 \<and> f 14 = 0x45 \<and> f 23 = 1 \<and> f 34 = 8
     \<and> be_val (f 16) (f 17) = 28 + n"

lemma echo_fields:
  "icmp_Type (ICMP_at m (a + 34)) = frame_at m a 34"
  "NextProtoID (IPv4_at m (a + 14)) = frame_at m a 23"
  "unat (SwapBytesUint16 (TotalLength (IPv4_at m (a + 14)))) = be_val (frame_at m a 16) (frame_at m a 17)"
proof -
  have "TotalLength (IPv4_at m (a + 14)) = un_le16 [frame_at m (a + 14) 2, frame_at m (a + 14) 3]"
    by (simp add: IPv4_at_def view_load_def dec_IPv4Hdr_def slice2_load_bytes)
  then show "unat (SwapBytesUint16 (TotalLength (IPv4_at m (a + 14)))) = be_val (frame_at m a 16) (frame_at m a 17)"
    using frame_at_shift [of m a 14] by (simp only: unat_SwapBytesUint16) simp
qed (use frame_at_shift [of m a 14] frame_at_shift [of m a 34] in
  \<open>simp_all add: ICMP_at_def IPv4_fields_at view_load_def dec_ICMPHdr_def load_bytes_frame\<close>)

lemma echo_offsets:
  assumes "echo_request f n"
  shows "frame_l4 f = Some (34, Some ICMP)" "frame_data f = Some 42" "vxlan_at f = None"
  using assms by (simp_all add: echo_request_def frame_l4_def frame_data_def l4_len_def vxlan_at_def)

lemma echo_bytes:
  assumes "n \<le> 65535" "i = ICMP_at m (a + 34)"
  shows "load_bytes m (a + 34) (8 + n) = enc_ICMPHdr i @ load_bytes m (a + 42) n"
  using assms(2) by (simp add: load_bytes_add hdr_bytes add.assoc)

lemma respond_ping:
  assumes "Mbuf_L2 mb = a" "a \<noteq> nil" "unat a + 240 < 2 ^ 64" "echo_request (frame_at m a) n"
  shows "\<exists>m'. respond mb m = Some (Transmit, m') \<and> Ether_at m' a = swap_macs (Ether_at m a) \<and>
    (\<exists>s. IPv4_at m' (a + 14) = (swap_ip4 (IPv4_at m (a + 14)))\<lparr>HdrChecksum := s\<rparr>) \<and>
    internet_ok (load_bytes m' (a + 14) 20) \<and>
    (\<exists>s. ICMP_at m' (a + 34) = (ICMP_at m (a + 34))\<lparr>icmp_Type := 0, icmp_Cksum := s\<rparr>) \<and>
    internet_ok (load_bytes m' (a + 34) (8 + n)) \<and>
    (\<forall>y. y \<notin> region a 42 \<longrightarrow> m' y = m y) \<and> load_bytes m' (a + 42) n = load_bytes m (a + 42) n"
proof -
  note off = echo_offsets [OF assms(4)]
  obtain p where p: "respond mb m = answer_packet p m" "L2 p = a" "L3 p = a + 14" "\<not> Overlay p"
    "\<forall>k kind. frame_l4 (frame_at m a) = Some (k, kind) \<longrightarrow> L4 p = a + of_nat k"
    "\<forall>d. frame_data (frame_at m a) = Some d \<longrightarrow> Data p = a + of_nat d"
    by (rule respond_parsed [OF assms(1-3) off(3)])
  have l4: "L4 p = a + 34" "Data p = a + 42" using p(5,6) off by simp_all
  have nn: "a + 14 \<noteq> nil" "a + 34 \<noteq> nil" "a + 42 \<noteq> nil"
    using nonnil_offset [of a 14] nonnil_offset [of a 34] nonnil_offset [of a 42] assms(2,3) by simp_all
  have t: "EtherType (Ether_at m a) = SwapBytesUint16 IPV4Number"
    "NextProtoID (IPv4_at m (a + 14)) = ICMPNumber" "icmp_Type (ICMP_at m (a + 34)) = ICMPTypeEchoRequest"
    "unat (SwapBytesUint16 (TotalLength (IPv4_at m (a + 14)))) = 28 + n"
    using assms(4) by (simp_all add: echo_request_def EtherType_at echo_fields)
  have n: "n \<le> 65535" using t(4) unat_mod_small [of "SwapBytesUint16 (TotalLength (IPv4_at m (a + 14)))"] by simp
  let ?e = "swap_macs (Ether_at m a)" and ?h = "swap_ip4 (IPv4_at m (a + 14))"
    and ?i = "(ICMP_at m (a + 34))\<lparr>icmp_Type := ICMPTypeEchoResponse\<rparr>"
  let ?h' = "?h\<lparr>HdrChecksum := SwapBytesUint16 (CalculateIPv4Checksum ?h)\<rparr>"
  obtain c where c: "answer_packet p m = Some (Transmit,
      set_IPv4 (set_ICMP (set_ICMP (set_IPv4 (set_Ether m a ?e) (a + 14) ?h) (a + 34) ?i) (a + 34)
        (?i\<lparr>icmp_Cksum := SwapBytesUint16 c\<rparr>)) (a + 14) ?h')"
    "internet_ok (enc_ICMPHdr (?i\<lparr>icmp_Cksum := SwapBytesUint16 c\<rparr>) @ load_bytes m (a + 42) n)"
    using answer_packet_icmp [OF p(2,3) l4 p(4) assms(2) nn t] by blast
  let ?i' = "?i\<lparr>icmp_Cksum := SwapBytesUint16 c\<rparr>"
  define m' where "m' = set_IPv4 (set_ICMP (set_ICMP (set_IPv4 (set_Ether m a ?e) (a + 14) ?h) (a + 34) ?i)
    (a + 34) ?i') (a + 14) ?h'"
  have v: "valid_EtherHdr ?e" by simp
  have at: "Ether_at m' a = ?e" "IPv4_at m' (a + 14) = ?h'" "ICMP_at m' (a + 34) = ?i'"
    "load_bytes m' (a + 42) n = load_bytes m (a + 42) n"
    using v n by (simp_all add: m'_def mem_simps)
  have "internet_ok (load_bytes m' (a + 14) 20)"
    unfolding hdr_bytes(2) at(2) by (rule CalculateIPv4Checksum_verifies)
  moreover have "internet_ok (load_bytes m' (a + 34) (8 + n))"
    using c(2) echo_bytes [OF n at(3) [symmetric]] at(4) by simp
  moreover have "m' y = m y" if "y \<notin> region a 42" for y
    using that v unfolding m'_def by (simp add: hdr_outside [where k = 42])
  ultimately show ?thesis
    using p(1) c(1) at by (intro exI [of _ m']) (auto simp: m'_def [symmetric])
qed

text \<open>C1: an ICMP echo request in an IPv4 packet without options, received outside any tunnel, is transmitted back as the echo reply: Ethernet and IPv4 addresses are exchanged, the ICMP type is 0, both checksums verify in the sense of RFC 1071, the ICMP data and all memory outside the three headers are unchanged.\<close>

theorem respond_ping_reply:
  assumes "Mbuf_L2 mb = a" "a \<noteq> nil" "unat a + 240 < 2 ^ 64" "echo_request (frame_at m a) n"
  shows "\<exists>m'. respond mb m = Some (Transmit, m') \<and> Ether_at m' a = swap_macs (Ether_at m a) \<and>
    (\<exists>s. IPv4_at m' (a + 14) = (swap_ip4 (IPv4_at m (a + 14)))\<lparr>HdrChecksum := s\<rparr>) \<and>
    internet_ok (load_bytes m' (a + 14) 20) \<and>
    (\<exists>s. ICMP_at m' (a + 34) = (ICMP_at m (a + 34))\<lparr>icmp_Type := 0, icmp_Cksum := s\<rparr>) \<and>
    internet_ok (load_bytes m' (a + 34) (8 + n)) \<and>
    (\<forall>y. y \<notin> region a 42 \<longrightarrow> m' y = m y) \<and> load_bytes m' (a + 42) n = load_bytes m (a + 42) n"
  using assms by (rule respond_ping)

definition ping_memory :: memory where
  "ping_memory = (\<lambda>_. 0)(0x1008c := 8, 0x1008e := 0x45, 0x10091 := 28, 0x10097 := 1, 0x100a2 := 8)"

lemma ping_memory_request: "echo_request (frame_at ping_memory 0x10080) 0"
  by (simp add: echo_request_def frame_at_def ping_memory_def frame_type_def be_val_def)

theorem respond_ping_reply_witness:
  "echo_request (frame_at ping_memory 0x10080) 0 \<and>
   (\<exists>m'. respond (sample_mbuf 42) ping_memory = Some (Transmit, m') \<and> internet_ok (load_bytes m' 0x100a2 8))"
  using respond_ping_reply [where mb = "sample_mbuf 42" and a = "0x10080" and m = ping_memory and n = 0] ping_memory_request
  by (auto simp: sample_mbuf_def Mbuf_L2_def)

text \<open>C2: an ARP frame is answered when it is a request and released otherwise: the answer goes to the requester's hardware address, carries the reply opcode, the responder's hardware address as sender, the requester as target and the exchanged protocol addresses, and no byte outside the frame changes.\<close>

theorem respond_arp_reply:
  assumes "Mbuf_L2 mb = a" "a \<noteq> nil" "unat a + 240 < 2 ^ 64" "frame_type (frame_at m a) = 0x0806"
  shows "if Operation (ARP_at m (a + 14)) = SwapBytesUint16 ARPRequest
    then (\<exists>m'. respond mb m = Some (Transmit, m') \<and>
      Ether_at m' a = (Ether_at m a)\<lparr>DAddr := SAddr (Ether_at m a), SAddr := responder_mac\<rparr> \<and>
      ARP_at m' (a + 14) = arp_reply (ARP_at m (a + 14)) \<and> (\<forall>y. y \<notin> region a 42 \<longrightarrow> m' y = m y))
    else (\<exists>m'. respond mb m = Some (Release, m'))"
  using assms by (rule respond_arp)

theorem respond_arp_reply_witness:
  "\<exists>m'. respond (sample_mbuf 42) ((\<lambda>_. 0)(0x1008c := 8, 0x1008d := 6, 0x10095 := 1)) = Some (Transmit, m') \<and>
     SHA (ARP_at m' 0x1008e) = responder_mac"
proof -
  let ?m = "(\<lambda>_. 0)(0x1008c := 8, 0x1008d := 6, 0x10095 := 1) :: memory"
  have t: "frame_type (frame_at ?m 0x10080) = 0x0806" by (simp add: frame_type_def frame_at_def be_val_def)
  have "Operation (ARP_at ?m 0x1008e) = SwapBytesUint16 ARPRequest" by code_simp
  then show ?thesis
    using respond_arp_reply [OF _ _ _ t, of "sample_mbuf 42"]
    by (auto simp: sample_mbuf_def Mbuf_L2_def arp_reply_def)
qed

end
