(* ===== verification/Common_Set.thy ===== *)
theory Common_Set
  imports Fmt
begin

text \<open>
  Sets of integers (src/common/set.go).  The interface \<^verbatim>\<open>Set\<close> is the locale \<open>int_set\<close>;
  \<^verbatim>\<open>Map\<close>, a sorted slice searched by \<^verbatim>\<open>sort.SearchInts\<close>, interprets it.  \<^verbatim>\<open>copySet\<close> is
  written against the interface, as in the code, and its correctness is proved in the
  locale.  Its loop has an explicit bound on the number of iterations, since it does not
  end when the source has a negative member.
\<close>

section \<open>The interface\<close>

text \<open>
  \<open>copySet_loop fuel\<close> makes at most \<open>fuel\<close> tests of the loop condition; \<^term>\<open>None\<close> means
  that the loop is still running.
\<close>

fun copySet_loop ::
  "(int \<Rightarrow> 's \<Rightarrow> 's) \<Rightarrow> (int \<Rightarrow> bool) \<Rightarrow> nat \<Rightarrow> nat \<Rightarrow> int \<Rightarrow> nat \<Rightarrow> 's \<Rightarrow> ('s \<times> nat) option" where
  "copySet_loop set1 src_IsSet src_Count 0 i n dst = None"
| "copySet_loop set1 src_IsSet src_Count (Suc fuel) i n dst =
     (if n < src_Count then
        (if src_IsSet i
         then copySet_loop set1 src_IsSet src_Count fuel (i + 1) (n + 1) (set1 i dst)
         else copySet_loop set1 src_IsSet src_Count fuel (i + 1) n dst)
      else Some (dst, n))"

definition copySet ::
  "(int \<Rightarrow> 's \<Rightarrow> 's) \<Rightarrow> (int \<Rightarrow> bool) \<Rightarrow> nat \<Rightarrow> nat \<Rightarrow> 's \<Rightarrow> ('s \<times> nat) option" where
  "copySet set1 src_IsSet src_Count fuel dst = copySet_loop set1 src_IsSet src_Count fuel 0 0 dst"

locale int_set =
  fixes IsSet1 :: "'s \<Rightarrow> int \<Rightarrow> bool"
    and Set1 :: "int \<Rightarrow> 's \<Rightarrow> 's"
    and Count1 :: "'s \<Rightarrow> nat"
    and inv :: "'s \<Rightarrow> bool"
  assumes inv_Set: "inv s \<Longrightarrow> inv (Set1 n s)"
    and IsSet_Set: "inv s \<Longrightarrow> IsSet1 (Set1 n s) k \<longleftrightarrow> k = n \<or> IsSet1 s k"
    and finite_members: "inv s \<Longrightarrow> finite {k. IsSet1 s k}"
    and Count_card: "inv s \<Longrightarrow> Count1 s = card {k. IsSet1 s k}"
begin

lemma Count_Set: "inv s \<Longrightarrow> Count1 (Set1 n s) = (if IsSet1 s n then Count1 s else Count1 s + 1)"
proof -
  assume s: "inv s"
  have "{k. IsSet1 (Set1 n s) k} = insert n {k. IsSet1 s k}" using s by (auto simp: IsSet_Set)
  then show ?thesis
    using s by (simp add: Count_card inv_Set finite_members card_insert_if)
qed

lemma Set_commute_members:
  "inv s \<Longrightarrow> IsSet1 (Set1 a (Set1 b s)) k = IsSet1 (Set1 b (Set1 a s)) k"
  by (auto simp: IsSet_Set inv_Set)

lemma fold_Set: "inv s \<Longrightarrow> inv (fold Set1 ns s) \<and> (IsSet1 (fold Set1 ns s) k \<longleftrightarrow> k \<in> set ns \<or> IsSet1 s k)"
  by (induction ns arbitrary: s) (auto simp: IsSet_Set inv_Set)

text \<open>Members below \<open>i\<close> have been copied and counted when the loop reaches \<open>i\<close>.\<close>

lemma copySet_loop_correct:
  assumes "finite A" "\<And>k. k \<in> A \<Longrightarrow> 0 \<le> k \<and> k < b" "inv dst" "0 \<le> i" "i \<le> b"
    and "n = card {k \<in> A. k < i}" "nat (b - i) < fuel"
  shows "\<exists>dst'. copySet_loop Set1 (\<lambda>k. k \<in> A) (card A) fuel i n dst = Some (dst', card A) \<and> inv dst' \<and>
    (\<forall>k. IsSet1 dst' k \<longleftrightarrow> (k \<in> A \<and> i \<le> k) \<or> IsSet1 dst k)"
  using assms(3-7)
proof (induction fuel arbitrary: i n dst)
  case (Suc fuel)
  have fin: "finite {k \<in> A. k < i}" using assms(1) by simp
  have le: "n \<le> card A" unfolding Suc.prems(4) by (rule card_mono [OF assms(1)]) auto
  have next_card: "card {k \<in> A. k < i + 1} = (if i \<in> A then n + 1 else n)"
  proof -
    have "{k \<in> A. k < i + 1} = (if i \<in> A then insert i {k \<in> A. k < i} else {k \<in> A. k < i})"
      by (auto simp: order_le_less)
    then show ?thesis using fin Suc.prems(4) by simp
  qed
  show ?case
  proof (cases "n < card A")
    case False
    then have "{k \<in> A. k < i} = A"
      using le Suc.prems(4) assms(1) by (intro card_subset_eq) auto
    then have "k \<notin> A \<or> \<not> i \<le> k" for k by (metis (no_types, lifting) mem_Collect_eq not_le)
    then show ?thesis using False le Suc.prems(1) by (auto intro: exI [of _ dst])
  next
    case True
    then have "i < b"
    proof (rule_tac ccontr)
      assume "n < card A" "\<not> i < b"
      then have "{k \<in> A. k < i} = A" using assms(2) by force
      then show False using True Suc.prems(4) by simp
    qed
    then have bnd: "0 \<le> i + 1" "i + 1 \<le> b" "nat (b - (i + 1)) < fuel"
      using Suc.prems(2,5) by auto
    show ?thesis
    proof (cases "i \<in> A")
      case in_A: True
      have "n + 1 = card {k \<in> A. k < i + 1}" using in_A next_card by simp
      from Suc.IH [OF inv_Set [OF Suc.prems(1)] bnd(1,2) this bnd(3)]
      show ?thesis using True in_A Suc.prems(1) by (auto simp: IsSet_Set) (metis add1_zle_eq order_le_less)
    next
      case not_A: False
      have "n = card {k \<in> A. k < i + 1}" using not_A next_card by simp
      from Suc.IH [OF Suc.prems(1) bnd(1,2) this bnd(3)]
      obtain dst' where d: "copySet_loop Set1 (\<lambda>k. k \<in> A) (card A) fuel (i + 1) n dst = Some (dst', card A)"
        "inv dst'" "\<And>k. IsSet1 dst' k \<longleftrightarrow> (k \<in> A \<and> i + 1 \<le> k) \<or> IsSet1 dst k" by auto
      have "k \<in> A \<Longrightarrow> i + 1 \<le> k \<longleftrightarrow> i \<le> k" for k using not_A by (cases "k = i") auto
      then show ?thesis using d True not_A by auto
    qed
  qed
qed simp

lemma copySet_correct:
  assumes "inv src" "inv dst" "\<And>k. IsSet1 src k \<Longrightarrow> 0 \<le> k \<and> k < b" "nat b < fuel" "0 \<le> b"
  shows "\<exists>dst'. copySet Set1 (IsSet1 src) (Count1 src) fuel dst = Some (dst', Count1 src) \<and> inv dst' \<and>
    (\<forall>k. IsSet1 dst' k \<longleftrightarrow> IsSet1 src k \<or> IsSet1 dst k)"
proof -
  have "{k \<in> {k. IsSet1 src k}. k < 0} = {}" using assms(3) by (auto simp: not_less [symmetric])
  then show ?thesis
    using copySet_loop_correct [of "{k. IsSet1 src k}" b dst 0 0 fuel] assms finite_members
    by (auto simp: copySet_def Count_card)
qed

text \<open>A negative member is never visited, so its count is never reached.\<close>

lemma copySet_loop_stuck:
  assumes "finite A" "neg \<in> A" "neg < 0" "0 \<le> i" "n = card {k \<in> A. 0 \<le> k \<and> k < i}"
  shows "copySet_loop Set1 (\<lambda>k. k \<in> A) (card A) fuel i n dst = None"
  using assms(4,5)
proof (induction fuel arbitrary: i n dst)
  case (Suc fuel)
  have lt: "n < card A"
  proof -
    have "neg \<notin> {k \<in> A. 0 \<le> k \<and> k < i}" using assms(3) by simp
    then have "{k \<in> A. 0 \<le> k \<and> k < i} \<subset> A" using assms(2) by blast
    then show ?thesis unfolding Suc.prems(2) using assms(1) by (rule psubset_card_mono [rotated])
  qed
  have c: "card {k \<in> A. 0 \<le> k \<and> k < i + 1} = (if i \<in> A then n + 1 else n)"
  proof -
    have "{k \<in> A. 0 \<le> k \<and> k < i + 1} =
        (if i \<in> A then insert i {k \<in> A. 0 \<le> k \<and> k < i} else {k \<in> A. 0 \<le> k \<and> k < i})"
      using Suc.prems(1) by (auto simp: order_le_less)
    then show ?thesis using assms(1) Suc.prems(2) by simp
  qed
  have "copySet_loop Set1 (\<lambda>k. k \<in> A) (card A) fuel (i + 1) (if i \<in> A then n + 1 else n) d = None" for d
    using Suc.prems(1) by (intro Suc.IH c [symmetric]) simp
  then show ?case using lt by (cases "i \<in> A") simp_all
qed simp

lemma copySet_stuck:
  assumes "inv src" "IsSet1 src neg" "neg < 0"
  shows "copySet Set1 (IsSet1 src) (Count1 src) fuel dst = None"
  using copySet_loop_stuck [of "{k. IsSet1 src k}" neg 0 0 fuel dst] assms finite_members
  by (simp add: copySet_def Count_card)

end

section \<open>Map\<close>

record Map =
  map_array :: "int list"

text \<open>\<^verbatim>\<open>sort.Search\<close>: the binary search of the Go library on the indices \<open>i\<close> to \<open>j\<close>.\<close>

function search_loop :: "(nat \<Rightarrow> bool) \<Rightarrow> nat \<Rightarrow> nat \<Rightarrow> nat" where
  "search_loop f i j =
     (if i < j then
        let h = (i + j) div 2 in
        if \<not> f h then search_loop f (h + 1) j else search_loop f i h
      else i)"
  by auto
termination
  by (relation "measure (\<lambda>(f, i, j). j - i)") auto

declare search_loop.simps [simp del]

definition SearchInts :: "int list \<Rightarrow> int \<Rightarrow> nat" where
  "SearchInts a x = search_loop (\<lambda>k. a ! k \<ge> x) 0 (length a)"

definition Map_find :: "Map \<Rightarrow> int \<Rightarrow> nat \<times> bool" where
  "Map_find m n =
     (let k = SearchInts (map_array m) n in
      (k, k < length (map_array m) \<and> map_array m ! k = n))"

definition Map_Set :: "int \<Rightarrow> Map \<Rightarrow> Map" where
  "Map_Set n m =
     (let (k, ok) = Map_find m n in
      if \<not> ok then
        let a = map_array m @ [n];
            a = take (k + 1) a @ go_copy (drop (k + 1) a) (drop k a)
        in m\<lparr>map_array := a[k := n]\<rparr>
      else m)"

definition Map_IsSet :: "Map \<Rightarrow> int \<Rightarrow> bool" where
  "Map_IsSet m n = snd (Map_find m n)"

definition Map_Zero :: "Map \<Rightarrow> Map" where
  "Map_Zero m = m\<lparr>map_array := take 0 (map_array m)\<rparr>"

definition Map_Count :: "Map \<Rightarrow> nat" where
  "Map_Count m = length (map_array m)"

subsection \<open>Search\<close>

lemma search_loop_props:
  assumes "i \<le> j" "\<And>a b. a \<le> b \<Longrightarrow> b < j \<Longrightarrow> f a \<Longrightarrow> f b" "\<And>k. k < i \<Longrightarrow> \<not> f k"
  shows "i \<le> search_loop f i j \<and> search_loop f i j \<le> j \<and> (\<forall>k < search_loop f i j. \<not> f k)
    \<and> (search_loop f i j < j \<longrightarrow> f (search_loop f i j))"
  using assms
proof (induction f i j rule: search_loop.induct)
  case (1 f i j)
  show ?case
  proof (cases "i < j")
    case False
    then show ?thesis using "1.prems" by (subst (1 2 3 4 5) search_loop.simps) simp
  next
    case lt: True
    let ?h = "(i + j) div 2"
    have h: "i \<le> ?h" "?h < j" using lt by auto
    show ?thesis
    proof (cases "f ?h")
      case True
      have step: "search_loop f i j = search_loop f i ?h"
        using lt True by (subst search_loop.simps) (simp add: Let_def)
      have "i \<le> search_loop f i ?h \<and> search_loop f i ?h \<le> ?h \<and> (\<forall>k < search_loop f i ?h. \<not> f k)
        \<and> (search_loop f i ?h < ?h \<longrightarrow> f (search_loop f i ?h))"
        by (rule "1.IH"(2) [OF lt refl]) (use True h "1.prems" in auto)
      then show ?thesis unfolding step using h True
        by (cases "search_loop f i ?h < ?h") auto
    next
      case False
      have step: "search_loop f i j = search_loop f (?h + 1) j"
        using lt False by (subst search_loop.simps) (simp add: Let_def)
      have low: "\<not> f k" if "k < ?h + 1" for k
        using that False "1.prems"(2) [of k ?h] h by auto
      have "?h + 1 \<le> search_loop f (?h + 1) j \<and> search_loop f (?h + 1) j \<le> j
        \<and> (\<forall>k < search_loop f (?h + 1) j. \<not> f k)
        \<and> (search_loop f (?h + 1) j < j \<longrightarrow> f (search_loop f (?h + 1) j))"
        by (rule "1.IH"(1) [OF lt refl False]) (use h "1.prems"(2) low in auto)
      then show ?thesis unfolding step using h by auto
    qed
  qed
qed

definition Map_inv :: "Map \<Rightarrow> bool" where
  "Map_inv m \<longleftrightarrow> sorted_wrt (<) (map_array m)"

lemma SearchInts_props:
  assumes "sorted_wrt (<) a"
  shows "SearchInts a x \<le> length a" "\<And>i. i < SearchInts a x \<Longrightarrow> a ! i < x"
    "\<And>i. SearchInts a x \<le> i \<Longrightarrow> i < length a \<Longrightarrow> x \<le> a ! i"
proof -
  have mono: "a ! i \<le> a ! j" if "i \<le> j" "j < length a" for i j
    using assms that by (cases "i = j") (auto simp: sorted_wrt_iff_nth_less intro: less_imp_le)
  let ?k = "SearchInts a x"
  have "?k \<le> length a \<and> (\<forall>i < ?k. \<not> x \<le> a ! i) \<and> (?k < length a \<longrightarrow> x \<le> a ! ?k)"
    using search_loop_props [of 0 "length a" "\<lambda>k. x \<le> a ! k"] mono
    unfolding SearchInts_def by (meson less_zeroE order_trans zero_le)
  then show "?k \<le> length a" "\<And>i. i < ?k \<Longrightarrow> a ! i < x"
    "\<And>i. ?k \<le> i \<Longrightarrow> i < length a \<Longrightarrow> x \<le> a ! i"
    using mono by (auto simp: not_le) (metis order_le_less_trans order_trans)
qed

lemma Map_IsSet_iff: "Map_inv m \<Longrightarrow> Map_IsSet m n \<longleftrightarrow> n \<in> set (map_array m)"
proof
  assume inv: "Map_inv m" and "n \<in> set (map_array m)"
  then obtain i where i: "i < length (map_array m)" "map_array m ! i = n" by (auto simp: in_set_conv_nth)
  note props = SearchInts_props [OF inv [unfolded Map_inv_def], where x = n]
  have "SearchInts (map_array m) n \<le> i" using props(2) [of i] i by force
  moreover have "\<not> SearchInts (map_array m) n < i"
    using props(3) [of "SearchInts (map_array m) n"] i inv
    unfolding Map_inv_def sorted_wrt_iff_nth_less by (metis leD le_refl order_less_trans)
  ultimately show "Map_IsSet m n" using i by (simp add: Map_IsSet_def Map_find_def Let_def)
next
  assume "Map_IsSet m n"
  then show "n \<in> set (map_array m)"
    unfolding Map_IsSet_def Map_find_def Let_def by (metis nth_mem snd_conv)
qed

lemma Map_Set_array:
  assumes "Map_inv m" "n \<notin> set (map_array m)"
  shows "map_array (Map_Set n m) = take (SearchInts (map_array m) n) (map_array m) @ n #
     drop (SearchInts (map_array m) n) (map_array m)"
proof -
  let ?a = "map_array m" and ?k = "SearchInts (map_array m) n"
  have k: "?k \<le> length ?a" using SearchInts_props(1) assms(1) by (simp add: Map_inv_def)
  have no: "\<not> (?k < length ?a \<and> ?a ! ?k = n)" using assms(2) by (metis nth_mem)
  have "(take (?k + 1) (?a @ [n]) @ go_copy (drop (?k + 1) (?a @ [n])) (drop ?k (?a @ [n])))[?k := n]
      = take ?k ?a @ n # drop ?k ?a"
  proof -
    define xs ys where "xs = take ?k ?a" and "ys = drop ?k ?a"
    have "?a = xs @ ys" "length xs = ?k" using k by (simp_all add: xs_def ys_def)
    then show ?thesis
      by (cases ys) (simp_all add: go_copy_def list_update_append flip: xs_def ys_def)
  qed
  then show ?thesis using no by (simp add: Map_Set_def Map_find_def Let_def)
qed

lemma Map_Set_set: "Map_inv m \<Longrightarrow> set (map_array (Map_Set n m)) = insert n (set (map_array m))"
proof (cases "n \<in> set (map_array m)")
  case True
  moreover assume "Map_inv m"
  ultimately have "Map_Set n m = m"
    using Map_IsSet_iff [of m n] by (simp add: Map_Set_def Map_IsSet_def case_prod_beta)
  then show ?thesis using True by auto
next
  case False
  moreover assume "Map_inv m"
  ultimately show ?thesis by (simp add: Map_Set_array) (metis append_take_drop_id set_append)
qed

lemma Map_Set_inv: "Map_inv m \<Longrightarrow> Map_inv (Map_Set n m)"
proof (cases "n \<in> set (map_array m)")
  case True
  moreover assume "Map_inv m"
  ultimately show ?thesis
    using Map_IsSet_iff [of m n] by (simp add: Map_Set_def Map_IsSet_def case_prod_beta)
next
  case False
  assume inv: "Map_inv m"
  let ?a = "map_array m" and ?k = "SearchInts (map_array m) n"
  note props = SearchInts_props [OF inv [unfolded Map_inv_def], where x = n]
  have lo: "x < n" if "x \<in> set (take ?k ?a)" for x
  proof -
    obtain i where "i < ?k" "x = ?a ! i"
      using \<open>x \<in> set (take ?k ?a)\<close> by (metis in_set_conv_nth length_take min_less_iff_conj nth_take)
    then show ?thesis using props(2) by simp
  qed
  have hi: "n < x" if "x \<in> set (drop ?k ?a)" for x
  proof -
    obtain i where "?k + i < length ?a" "x = ?a ! (?k + i)"
      using \<open>x \<in> set (drop ?k ?a)\<close> by (auto simp: in_set_conv_nth less_diff_conv add.commute)
    then have "n \<le> x" using props(3) [of "?k + i"] by simp
    moreover have "x \<noteq> n" using False in_set_dropD [OF \<open>x \<in> set (drop ?k ?a)\<close>] by metis
    ultimately show ?thesis by simp
  qed
  have "sorted_wrt (<) (take ?k ?a @ drop ?k ?a)" using inv by (simp add: Map_inv_def)
  then have "sorted_wrt (<) (take ?k ?a @ n # drop ?k ?a)"
    unfolding sorted_wrt_append using lo hi by auto
  then show ?thesis unfolding Map_inv_def Map_Set_array [OF inv False] .
qed

interpretation map_set: int_set Map_IsSet Map_Set Map_Count Map_inv
proof
  fix s n k
  assume inv: "Map_inv s"
  then show "Map_inv (Map_Set n s)" by (rule Map_Set_inv)
  show "Map_IsSet (Map_Set n s) k \<longleftrightarrow> k = n \<or> Map_IsSet s k"
    using inv by (simp add: Map_IsSet_iff Map_Set_inv Map_Set_set)
  show "finite {k. Map_IsSet s k}" using inv by (simp add: Map_IsSet_iff)
  show "Map_Count s = card {k. Map_IsSet s k}"
    using inv strict_sorted_iff [of "map_array s"]
    by (simp add: Map_IsSet_iff Map_Count_def Map_inv_def distinct_card)
qed

section \<open>NewMap\<close>

text \<open>
  The dynamic types \<^verbatim>\<open>NewMap\<close> accepts: nil, a \<^verbatim>\<open>Set\<close>, a map with integer keys (its keys in
  some order), a slice or array, and a plain integer.
\<close>

datatype newmap_arg =
    ArgNil
  | ArgSet "int \<Rightarrow> bool" nat
  | ArgKeys "int list"
  | ArgSlice "int list"
  | ArgInt int

definition empty_Map :: Map where
  "empty_Map = \<lparr>map_array = []\<rparr>"

definition NewMap :: "nat \<Rightarrow> newmap_arg \<Rightarrow> Map option" where
  "NewMap fuel arg = (case arg of
     ArgNil \<Rightarrow> Some empty_Map
   | ArgSet isSet count \<Rightarrow> map_option fst (copySet Map_Set isSet count fuel empty_Map)
   | ArgKeys ks \<Rightarrow> Some (fold Map_Set ks empty_Map)
   | ArgSlice xs \<Rightarrow> Some (fold Map_Set xs empty_Map)
   | ArgInt n \<Rightarrow> Some (Map_Set n empty_Map))"

lemma empty_Map_inv [simp]: "Map_inv empty_Map"
  by (simp add: Map_inv_def empty_Map_def)

lemma empty_Map_IsSet [simp]: "\<not> Map_IsSet empty_Map k"
  by (simp add: Map_IsSet_iff) (simp add: empty_Map_def)

lemma NewMap_list:
  "\<exists>m. NewMap fuel (ArgSlice xs) = Some m \<and> Map_inv m \<and> set (map_array m) = set xs"
proof -
  have "Map_inv (fold Map_Set xs empty_Map)"
    "Map_IsSet (fold Map_Set xs empty_Map) k \<longleftrightarrow> k \<in> set xs" for k
    using map_set.fold_Set [of empty_Map xs k] by simp_all
  then show ?thesis by (auto simp: NewMap_def Map_IsSet_iff)
qed

section \<open>Hexadecimal text\<close>

definition hexMap :: string where
  "hexMap = ''0123456789abcdef''"

definition getHexByte :: "nat \<Rightarrow> char option" where
  "getHexByte n = (if n < length hexMap then Some (hexMap ! n) else None)"

fun index_of :: "char \<Rightarrow> string \<Rightarrow> nat \<Rightarrow> nat" where
  "index_of c [] i = 0"
| "index_of c (x # xs) i = (if x = c then i else index_of c xs (i + 1))"

definition getHexIndex :: "char \<Rightarrow> nat" where
  "getHexIndex c = index_of c hexMap 0"

text \<open>Go's division truncates toward zero; \<^verbatim>\<open>n&3\<close> is the residue modulo 4 for either sign.\<close>

definition go_div :: "int \<Rightarrow> int \<Rightarrow> int" where
  "go_div a b = (if a < 0 then - ((- a) div b) else a div b)"

definition hex_pad :: "int \<Rightarrow> string \<Rightarrow> string" where
  "hex_pad i out =
     (if i \<ge> int (length out)
      then replicate (nat (i - int (length out) + 1)) (CHR ''0'') @ out else out)"

definition hex_put :: "int \<Rightarrow> nat \<Rightarrow> string \<Rightarrow> string option" where
  "hex_put i r out =
     (let k = int (length out) - 1 - i in
      if 0 \<le> k \<and> k < int (length out)
      then do { c \<leftarrow> getHexByte (getHexIndex (out ! nat k) OR 2 ^ r); Some (out[nat k := c]) }
      else None)"

definition hex_step :: "int \<Rightarrow> string \<Rightarrow> string option" where
  "hex_step n out =
     (let i = go_div n 4; r = nat (n mod 4) in hex_put i r (hex_pad i out))"

fun hex_loop :: "int list \<Rightarrow> string \<Rightarrow> string option" where
  "hex_loop [] out = Some out"
| "hex_loop (n # a) out = do { out \<leftarrow> hex_step n out; hex_loop a out }"

definition hex :: "int list \<Rightarrow> string option" where
  "hex a = hex_loop a []"

definition Map_String :: "Map \<Rightarrow> string option" where
  "Map_String m = hex (map_array m)"

text \<open>The set of numbers a string of hexadecimal digits denotes.\<close>

definition hex_members :: "string \<Rightarrow> nat set" where
  "hex_members out = {k. k div 4 < length out \<and> bit (getHexIndex (rev out ! (k div 4))) (k mod 4)}"

definition hex_ok :: "string \<Rightarrow> bool" where
  "hex_ok out \<longleftrightarrow> set out \<subseteq> set hexMap"

lemma hexMap_index: "d < 16 \<Longrightarrow> getHexIndex (hexMap ! d) = d"
proof -
  have "\<forall>d \<in> {..<16}. getHexIndex (hexMap ! d) = d" by code_simp
  then show "d < 16 \<Longrightarrow> getHexIndex (hexMap ! d) = d" by simp
qed

lemma getHexIndex_less: "getHexIndex c < 16"
  by (simp add: getHexIndex_def hexMap_def)

lemma getHexIndex_0 [simp]: "getHexIndex (CHR ''0'') = 0"
  by code_simp

lemma length_hexMap: "length hexMap = 16"
  by (simp add: hexMap_def)

lemma or_less_16: "(a :: nat) < 16 \<Longrightarrow> r < 4 \<Longrightarrow> a OR 2 ^ r < 16"
proof -
  have "\<forall>a \<in> {..<16 :: nat}. \<forall>r \<in> {..<4}. a OR 2 ^ r < 16" by code_simp
  then show "a < 16 \<Longrightarrow> r < 4 \<Longrightarrow> a OR 2 ^ r < 16" by simp
qed

lemma hex_members_pad: "hex_members (replicate j (CHR ''0'') @ out) = hex_members out"
proof -
  have "x \<in> hex_members (replicate j (CHR ''0'') @ out) \<longleftrightarrow> x \<in> hex_members out" for x
    by (cases "x div 4 < length out") (auto simp: hex_members_def nth_append)
  then show ?thesis by blast
qed

lemma hex_members_update:
  assumes "i < length out" "r < 4"
  shows "hex_members (out[length out - 1 - i := hexMap ! (getHexIndex (out ! (length out - 1 - i)) OR 2 ^ r)])
    = insert (4 * i + r) (hex_members out)"
proof -
  define k where "k = length out - 1 - i"
  define d where "d = getHexIndex (out ! k) OR 2 ^ r"
  have d: "getHexIndex (hexMap ! d) = d"
    by (simp add: d_def hexMap_index or_less_16 getHexIndex_less assms(2))
  have upd: "rev (out[k := c]) = (rev out)[i := c]" for c
    using assms(1) by (simp add: rev_update k_def)
  have at: "rev out ! i = out ! k" using assms(1) by (simp add: rev_nth k_def)
  have "x \<in> hex_members (out[k := hexMap ! d]) \<longleftrightarrow> x = 4 * i + r \<or> x \<in> hex_members out" for x
  proof (cases "x div 4 = i")
    case True
    then have "x mod 4 = r \<longleftrightarrow> x = 4 * i + r"
      by (metis add_left_cancel mult_div_mod_eq)
    then show ?thesis
      using True assms(1) d at by (auto simp: hex_members_def upd d_def bit_or_iff bit_exp_iff)
  next
    case False
    then show ?thesis using assms by (auto simp: hex_members_def upd)
  qed
  then show ?thesis unfolding k_def [symmetric] d_def [symmetric] by auto
qed

lemma hex_put_eq:
  assumes "i < length out" "r < 4"
  shows "hex_put (int i) r out =
    Some (out[length out - 1 - i := hexMap ! (getHexIndex (out ! (length out - 1 - i)) OR 2 ^ r)])"
proof -
  have "nat (int (length out) - 1 - int i) = length out - 1 - i" using assms(1) by linarith
  moreover have "getHexIndex (out ! (length out - 1 - i)) OR 2 ^ r < length hexMap"
    using assms(2) by (simp add: or_less_16 getHexIndex_less length_hexMap)
  ultimately show ?thesis using assms(1) by (simp add: hex_put_def Let_def getHexByte_def)
qed

lemma hex_step_members:
  assumes "0 \<le> n" "hex_ok out"
  shows "\<exists>out'. hex_step n out = Some out' \<and> hex_members out' = insert (nat n) (hex_members out)
    \<and> hex_ok out'"
proof -
  let ?i = "nat n div 4" and ?r = "nat n mod 4" and ?out = "hex_pad (int (nat n div 4)) out"
  have len: "?i < length ?out" by (auto simp: hex_pad_def)
  have "go_div n 4 = int ?i" "nat (n mod 4) = ?r"
    using assms by (simp_all add: go_div_def nat_div_distrib nat_mod_distrib)
  then have step: "hex_step n out = hex_put (int ?i) ?r ?out" by (simp add: hex_step_def Let_def)
  have mem: "hex_members ?out = hex_members out" by (simp add: hex_pad_def hex_members_pad)
  have ok: "hex_ok ?out" using assms(2) by (auto simp: hex_pad_def hex_ok_def hexMap_def)
  have "hexMap ! d \<in> set hexMap" if "d < 16" for d
    using that by (intro nth_mem) (simp add: length_hexMap)
  then have "hex_ok (?out[k := hexMap ! (getHexIndex (?out ! k) OR 2 ^ ?r)])" for k
    using ok unfolding hex_ok_def by (meson getHexIndex_less mod_less_divisor or_less_16
        set_update_subsetI zero_less_numeral)
  then show ?thesis
    using step hex_put_eq [OF len, of ?r] hex_members_update [OF len, of ?r] mem by simp
qed

lemma hex_loop_members:
  assumes "\<forall>n \<in> set a. 0 \<le> n" "hex_ok out"
  shows "\<exists>out'. hex_loop a out = Some out' \<and> hex_members out' = nat ` set a \<union> hex_members out
    \<and> hex_ok out'"
  using assms
proof (induction a arbitrary: out)
  case (Cons n a)
  then obtain out1 where o: "hex_step n out = Some out1"
    "hex_members out1 = insert (nat n) (hex_members out)" "hex_ok out1"
    using hex_step_members [of n out] by auto
  then show ?case using Cons.IH [of out1] Cons.prems by auto
qed simp

lemma hex_members_of:
  assumes "\<forall>n \<in> set a. 0 \<le> n"
  obtains out where "hex a = Some out" "hex_members out = nat ` set a" "hex_ok out"
  using hex_loop_members [OF assms, of "[]"] by (auto simp: hex_def hex_members_def hex_ok_def)

end
