(* ===== verification/Lcores.thy ===== *)
theory Lcores
  imports Common_Set Errors "HOL-Library.Multiset"
begin

text \<open>
  Logical CPU cores: reading of CPU maps and NUMA nodes (src/lcore/lcore.go,
  src/lcore/lcore_linux.go) and lists of core ids with their range notation
  (src/util/lcores.go).
\<close>

section \<open>CPU maps\<close>

abbreviation (input) NumaNodeAny :: int where "NumaNodeAny \<equiv> -1"

definition errInvalidMap :: go_error where
  "errInvalidMap = ErrMsg ''invalid cpu map''"

definition lcore_hexMap :: "char \<rightharpoonup> nat" where
  "lcore_hexMap = [CHR ''0'' \<mapsto> 0x0, CHR ''1'' \<mapsto> 0x1, CHR ''2'' \<mapsto> 0x2, CHR ''4'' \<mapsto> 0x4,
     CHR ''8'' \<mapsto> 0x8, CHR ''3'' \<mapsto> 0x3, CHR ''5'' \<mapsto> 0x5, CHR ''6'' \<mapsto> 0x6,
     CHR ''9'' \<mapsto> 0x9, CHR ''a'' \<mapsto> 0xa, CHR ''c'' \<mapsto> 0xc, CHR ''7'' \<mapsto> 0x7,
     CHR ''b'' \<mapsto> 0xb, CHR ''d'' \<mapsto> 0xd, CHR ''e'' \<mapsto> 0xe, CHR ''f'' \<mapsto> 0xf]"

text \<open>The first word of the input, as \<^verbatim>\<open>bufio.ScanWords\<close> finds it (ASCII white space).\<close>

definition is_space :: "char \<Rightarrow> bool" where
  "is_space c \<longleftrightarrow> c \<in> {CHR '' '', CHR 0x09, CHR 0x0A, CHR 0x0B, CHR 0x0C, CHR 0x0D}"

definition first_word :: "string \<Rightarrow> string" where
  "first_word s = takeWhile (\<lambda>c. \<not> is_space c) (dropWhile is_space s)"

definition digit_cores :: "nat \<Rightarrow> nat \<Rightarrow> nat list" where
  "digit_cores i n =
     (if n AND 0x1 \<noteq> 0 then [4 * i] else []) @ (if n AND 0x2 \<noteq> 0 then [4 * i + 1] else []) @
     (if n AND 0x4 \<noteq> 0 then [4 * i + 2] else []) @ (if n AND 0x8 \<noteq> 0 then [4 * i + 3] else [])"

text \<open>The loop runs from the last digit to the first: over the reversed word.\<close>

fun read_loop :: "string \<Rightarrow> nat \<Rightarrow> nat list \<Rightarrow> go_error + nat list" where
  "read_loop [] i cores = Inr cores"
| "read_loop (c # cs) i cores = (case lcore_hexMap c of
     None \<Rightarrow> Inl errInvalidMap
   | Some n \<Rightarrow> read_loop cs (i + 1) (cores @ digit_cores i n))"

text \<open>A reader is the text it delivers, or the error the scanner meets.\<close>

definition readCPUHexMap :: "go_error + string \<Rightarrow> go_error + nat list" where
  "readCPUHexMap b = (case b of
     Inl e \<Rightarrow> Inl e
   | Inr s \<Rightarrow> read_loop (rev (first_word s)) 0 [])"

text \<open>
  \<open>files ! n\<close> is what opening and reading \<^verbatim>\<open>/sys/devices/system/node/node<n>/cpumap\<close> gives;
  the first index that does not exist is the length.  An open error other than ENOENT and
  an invalid map are panics.
\<close>

datatype cpumap_file = OpenError go_error | CpuMap "go_error + string"

fun load_loop :: "cpumap_file list \<Rightarrow> nat \<Rightarrow> (nat \<rightharpoonup> int) \<Rightarrow> nat \<Rightarrow> ((nat \<rightharpoonup> int) \<times> nat) option" where
  "load_loop [] n nodeMap maxLcoreID = Some (nodeMap, maxLcoreID)"
| "load_loop (OpenError e # fs) n nodeMap maxLcoreID = None"
| "load_loop (CpuMap b # fs) n nodeMap maxLcoreID = (case readCPUHexMap b of
     Inl e \<Rightarrow> None
   | Inr cores \<Rightarrow>
       load_loop fs (n + 1) (fold (\<lambda>c m. m(c \<mapsto> int n)) cores nodeMap) (fold max cores maxLcoreID))"

definition loadCPUMap :: "cpumap_file list \<Rightarrow> int list option" where
  "loadCPUMap files = do {
     (nodeMap, maxLcoreID) \<leftarrow> load_loop files 0 Map.empty 0;
     Some (map (\<lambda>l. case nodeMap l of Some node \<Rightarrow> node | None \<Rightarrow> 0) [0..<maxLcoreID + 1]) }"

definition getNumaNode :: "int list \<Rightarrow> nat \<Rightarrow> int" where
  "getNumaNode lcore2node id0 = (if id0 < length lcore2node then lcore2node ! id0 else NumaNodeAny)"

definition NumaNode :: "int list \<Rightarrow> nat \<Rightarrow> int" where
  "NumaNode lcore2node id0 = getNumaNode lcore2node id0"

section \<open>Lists of cores\<close>

type_synonym LcoresList = "nat list"

definition LcoresList_Len :: "LcoresList \<Rightarrow> nat" where
  "LcoresList_Len l = length l"

definition LcoresList_Swap :: "LcoresList \<Rightarrow> nat \<Rightarrow> nat \<Rightarrow> LcoresList option" where
  "LcoresList_Swap l i j =
     (if i < length l \<and> j < length l then Some (l[i := l ! j, j := l ! i]) else None)"

definition LcoresList_Less :: "LcoresList \<Rightarrow> nat \<Rightarrow> nat \<Rightarrow> bool option" where
  "LcoresList_Less l i j = (if i < length l \<and> j < length l then Some (l ! i < l ! j) else None)"

text \<open>\<^verbatim>\<open>sort.Sort\<close> on numbers: the ascending permutation.\<close>

definition LcoresList_Sort :: "LcoresList \<Rightarrow> LcoresList" where
  "LcoresList_Sort l = sort l"

definition Dup :: "LcoresList \<Rightarrow> LcoresList" where
  "Dup l = LcoresList_Sort ([] @ l)"

definition rangeStr :: "LcoresList \<Rightarrow> nat \<Rightarrow> nat \<Rightarrow> string" where
  "rangeStr l prev nxt =
     (if prev = nxt then dec_str (l ! prev) else dec_str (l ! prev) @ ''-'' @ dec_str (l ! nxt))"

function str_loop :: "LcoresList \<Rightarrow> nat \<Rightarrow> nat \<Rightarrow> nat \<Rightarrow> string list \<Rightarrow> nat \<times> nat \<times> string list" where
  "str_loop l i prev nxt s =
     (if i < length l then
        if l ! i = l ! (i - 1) then str_loop l (i + 1) prev nxt s
        else if l ! i - l ! (i - 1) = 1 then str_loop l (i + 1) prev i s
        else str_loop l (i + 1) i i (s @ [rangeStr l prev nxt])
      else (prev, nxt, s))"
  by auto
termination
  by (relation "measure (\<lambda>(l, i, _). length l - i)") auto

declare str_loop.simps [simp del]

definition LcoresList_String :: "LcoresList \<Rightarrow> string" where
  "LcoresList_String l0 =
     (if LcoresList_Len l0 = 0 then '''' else
      let l = Dup l0; (prev, nxt, s) = str_loop l 1 0 0 []
      in join '','' (s @ [rangeStr l prev nxt]))"

definition LcoresList_Equal :: "LcoresList \<Rightarrow> LcoresList \<Rightarrow> bool" where
  "LcoresList_Equal l0 other0 =
     (let l = Dup l0; other = Dup other0 in
      if length l \<noteq> length other then False
      else list_all (\<lambda>i. l ! i = other ! i) [0..<length l])"

section \<open>Round trip of CPU maps\<close>

lemma lcore_hexMap_digit: "c \<in> set hexMap \<Longrightarrow> lcore_hexMap c = Some (getHexIndex c)"
proof -
  have "\<forall>c \<in> set hexMap. lcore_hexMap c = Some (getHexIndex c)" by code_simp
  then show "c \<in> set hexMap \<Longrightarrow> lcore_hexMap c = Some (getHexIndex c)" by blast
qed

lemma lcore_hexMap_comma: "lcore_hexMap (CHR '','') = None"
  by (simp add: lcore_hexMap_def)

lemma and_exp_bit: "(d :: nat) AND 2 ^ k \<noteq> 0 \<longleftrightarrow> bit d k"
  unfolding bit_iff_and_push_bit_not_eq_0 push_bit_of_1 ..

lemma digit_cores_eq: "digit_cores i d = map (\<lambda>r. 4 * i + r) (filter (bit d) [0..<4])"
proof -
  have b: "(d AND 0x1 \<noteq> 0) = bit d 0" "(d AND 0x2 \<noteq> 0) = bit d 1"
      "(d AND 0x4 \<noteq> 0) = bit d 2" "(d AND 0x8 \<noteq> 0) = bit d 3"
    using and_exp_bit [of d 0] and_exp_bit [of d 1] and_exp_bit [of d 2] and_exp_bit [of d 3]
    by (simp_all only: power_0 power_one_right) simp_all
  have "[0..<4] = [0, 1, 2, 3 :: nat]" by code_simp
  then show ?thesis
    unfolding digit_cores_def by (simp only: b) simp
qed

lemma read_loop_digits:
  assumes "set cs \<subseteq> set hexMap"
  shows "read_loop cs i cores = Inr (cores @
    concat (map (\<lambda>j. map (\<lambda>r. 4 * (i + j) + r) (filter (bit (getHexIndex (cs ! j))) [0..<4])) [0..<length cs]))"
  using assms
proof (induction cs arbitrary: i cores)
  case (Cons c cs)
  have "[0..<length (c # cs)] = 0 # map Suc [0..<length cs]"
    by (simp add: map_Suc_upt upt_conv_Cons del: upt_Suc)
  then show ?case
    using Cons lcore_hexMap_digit [of c] digit_cores_eq [of i "getHexIndex c"]
    by (simp add: o_def add.left_commute add.assoc del: upt_Suc)
qed simp

lemma sorted_concat_blocks:
  assumes "\<And>j x. j < n \<Longrightarrow> x \<in> set (f j) \<Longrightarrow> 4 * j \<le> x \<and> x < 4 * j + 4"
    and "\<And>j. j < n \<Longrightarrow> sorted_wrt (<) (f j)"
  shows "sorted_wrt (<) (concat (map f [0..<n]) :: nat list)"
  using assms
proof (induction n)
  case (Suc n)
  have "x < y" if x: "x \<in> set (concat (map f [0..<n]))" and y: "y \<in> set (f n)" for x y
  proof -
    obtain j where "j < n" "x \<in> set (f j)" using x by auto
    then show ?thesis using Suc.prems(1) [of j x] Suc.prems(1) [of n y] y by auto
  qed
  then show ?case using Suc by (simp add: sorted_wrt_append)
qed simp

lemma read_loop_members:
  assumes "hex_ok out"
  shows "\<exists>cores. read_loop (rev out) 0 [] = Inr cores \<and> sorted_wrt (<) cores \<and> set cores = hex_members out"
proof -
  let ?f = "\<lambda>j. map (\<lambda>r. 4 * j + r) (filter (bit (getHexIndex (rev out ! j))) [0..<4])"
  have "read_loop (rev out) 0 [] = Inr (concat (map ?f [0..<length out]))"
    using read_loop_digits [of "rev out" 0 "[]"] assms by (simp add: hex_ok_def)
  moreover have "sorted_wrt (<) (concat (map ?f [0..<length out]))"
    by (rule sorted_concat_blocks) (auto simp: sorted_wrt_map sorted_wrt_filter)
  moreover have "set (concat (map ?f [0..<length out])) = hex_members out"
  proof -
    have "x \<in> set (concat (map ?f [0..<length out])) \<longleftrightarrow> x \<in> hex_members out" for x
    proof
      assume "x \<in> hex_members out"
      then have "x div 4 < length out" "x = 4 * (x div 4) + x mod 4"
        "bit (getHexIndex (rev out ! (x div 4))) (x mod 4)" by (simp_all add: hex_members_def)
      then show "x \<in> set (concat (map ?f [0..<length out]))"
        by (auto intro!: bexI [of _ "x div 4"] image_eqI [of _ _ "x mod 4"])
    qed (auto simp: hex_members_def)
    then show ?thesis by blast
  qed
  ultimately show ?thesis by blast
qed

lemma first_word_digits: "hex_ok out \<Longrightarrow> first_word out = out"
proof -
  have "\<forall>c \<in> set hexMap. \<not> is_space c" by code_simp
  moreover assume "hex_ok out"
  ultimately have "\<forall>c \<in> set out. \<not> is_space c" by (auto simp: hex_ok_def)
  then show ?thesis
    by (cases out) (auto simp: first_word_def)
qed

text \<open>C32: reading the hexadecimal text that Map.String prints for a set of non-negative core numbers gives the members back in ascending order.\<close>

theorem Map_String_readCPUHexMap:
  assumes "Map_inv m" "\<forall>n \<in> set (map_array m). 0 \<le> n"
  shows "\<exists>out. Map_String m = Some out \<and> readCPUHexMap (Inr out) = Inr (map nat (map_array m))"
proof -
  obtain out where out: "hex (map_array m) = Some out" "hex_members out = nat ` set (map_array m)" "hex_ok out"
    using hex_members_of [OF assms(2)] by blast
  obtain cores where cores: "read_loop (rev out) 0 [] = Inr cores" "sorted_wrt (<) cores"
      "set cores = hex_members out"
    using read_loop_members [OF out(3)] by blast
  have "sorted_wrt (<) (map nat (map_array m))"
    unfolding sorted_wrt_map
    by (rule sorted_wrt_mono_rel [OF _ assms(1) [unfolded Map_inv_def]]) (use assms(2) in auto)
  then have "cores = map nat (map_array m)"
    using cores(2,3) out(2) by (intro strict_sorted_equal) auto
  then show ?thesis
    using out cores(1) first_word_digits by (simp add: Map_String_def readCPUHexMap_def)
qed

theorem Map_String_readCPUHexMap_witness:
  "\<exists>out. Map_String \<lparr>map_array = [0, 5, 33]\<rparr> = Some out \<and> readCPUHexMap (Inr out) = Inr [0, 5, 33]"
  using Map_String_readCPUHexMap [of "\<lparr>map_array = [0, 5, 33]\<rparr>"] by (simp add: Map_inv_def)

lemma read_loop_invalid:
  "\<exists>c \<in> set cs. lcore_hexMap c = None \<Longrightarrow> read_loop cs i cores = Inl errInvalidMap"
  by (induction cs arbitrary: i cores) (auto split: option.splits)

text \<open>
  The kernel writes CPU maps of more than 32 cores in groups separated by commas.
\<close>

text \<open>A CPU map whose first word contains a comma, as the kernel writes it for more than 32 CPUs, is refused as invalid.\<close>

lemma readCPUHexMap_comma:
  assumes "CHR '','' \<in> set (first_word s)"
  shows "readCPUHexMap (Inr s) = Inl errInvalidMap"
  using assms lcore_hexMap_comma
  by (auto simp: readCPUHexMap_def intro!: read_loop_invalid bexI [of _ "CHR '','' "])

section \<open>NUMA nodes\<close>

definition cores_of :: "cpumap_file \<Rightarrow> nat set" where
  "cores_of f = (case f of OpenError e \<Rightarrow> {} | CpuMap b \<Rightarrow>
     (case readCPUHexMap b of Inl e \<Rightarrow> {} | Inr cores \<Rightarrow> set cores))"

definition readable :: "cpumap_file \<Rightarrow> bool" where
  "readable f = (case f of OpenError e \<Rightarrow> False | CpuMap b \<Rightarrow>
     (case readCPUHexMap b of Inl e \<Rightarrow> False | Inr cores \<Rightarrow> True))"

lemma fold_upd: "fold (\<lambda>c m. m(c \<mapsto> v)) cores nm k = (if k \<in> set cores then Some v else nm k)"
  by (induction cores arbitrary: nm) auto

lemma fold_max: "y \<le> (z :: nat) \<Longrightarrow> y \<le> fold max xs z"
  by (induction xs arbitrary: z) auto

lemma fold_max_mem: "x \<in> set xs \<Longrightarrow> (x :: nat) \<le> fold max xs z"
  by (induction xs arbitrary: z) (auto intro: fold_max)

lemma load_loop_nodes:
  assumes "\<forall>f \<in> set fs. readable f"
  shows "\<exists>nm mx. load_loop fs n nm0 mx0 = Some (nm, mx) \<and> mx0 \<le> mx \<and>
    (\<forall>j < length fs. \<forall>c \<in> cores_of (fs ! j). c \<le> mx) \<and>
    (\<forall>c. (\<forall>j < length fs. c \<notin> cores_of (fs ! j)) \<longrightarrow> nm c = nm0 c) \<and>
    (\<forall>c j. j < length fs \<longrightarrow> c \<in> cores_of (fs ! j) \<longrightarrow>
      (\<forall>i < length fs. j < i \<longrightarrow> c \<notin> cores_of (fs ! i)) \<longrightarrow> nm c = Some (int (n + j)))"
  using assms
proof (induction fs arbitrary: n nm0 mx0)
  case (Cons f fs)
  then obtain b cores where f: "f = CpuMap b" "readCPUHexMap b = Inr cores"
    by (auto simp: readable_def split: cpumap_file.splits sum.splits)
  have cf: "cores_of f = set cores" using f by (simp add: cores_of_def)
  obtain nm mx where ih: "load_loop fs (n + 1) (fold (\<lambda>c m. m(c \<mapsto> int n)) cores nm0) (fold max cores mx0)
      = Some (nm, mx)" "fold max cores mx0 \<le> mx"
    "\<forall>j < length fs. \<forall>c \<in> cores_of (fs ! j). c \<le> mx"
    "\<forall>c. (\<forall>j < length fs. c \<notin> cores_of (fs ! j)) \<longrightarrow> nm c = (fold (\<lambda>c m. m(c \<mapsto> int n)) cores nm0) c"
    "\<forall>c j. j < length fs \<longrightarrow> c \<in> cores_of (fs ! j) \<longrightarrow>
      (\<forall>i < length fs. j < i \<longrightarrow> c \<notin> cores_of (fs ! i)) \<longrightarrow> nm c = Some (int (n + 1 + j))"
    using Cons.IH [of "n + 1" "fold (\<lambda>c m. m(c \<mapsto> int n)) cores nm0" "fold max cores mx0"] Cons.prems
    by auto
  have "mx0 \<le> mx" using ih(2) fold_max [of mx0 mx0 cores] by simp
  moreover have "\<forall>j < length (f # fs). \<forall>c \<in> cores_of ((f # fs) ! j). c \<le> mx"
    using ih(2,3) cf fold_max_mem [of _ cores mx0] by (auto simp: nth_Cons split: nat.splits) (meson order_trans)
  moreover have "nm c = nm0 c" if "\<forall>j < length (f # fs). c \<notin> cores_of ((f # fs) ! j)" for c
    using that ih(4) cf by (auto simp: fold_upd All_less_Suc2)
  moreover have "nm c = Some (int (n + j))"
    if "j < length (f # fs)" "c \<in> cores_of ((f # fs) ! j)"
      "\<forall>i < length (f # fs). j < i \<longrightarrow> c \<notin> cores_of ((f # fs) ! i)" for c j
    using that ih(4,5) cf by (cases j) (auto simp: fold_upd All_less_Suc2)
  ultimately show ?case using f ih(1) by auto
qed simp

text \<open>After the CPU maps of all nodes have been read, NumaNode of a core that is listed for exactly one node is that node.\<close>

lemma NumaNode_of_core:
  assumes "\<forall>f \<in> set files. readable f" "j < length files" "c \<in> cores_of (files ! j)"
    and "\<forall>i < length files. i \<noteq> j \<longrightarrow> c \<notin> cores_of (files ! i)"
  shows "\<exists>l. loadCPUMap files = Some l \<and> NumaNode l c = int j"
proof -
  obtain nm mx where l: "load_loop files 0 Map.empty 0 = Some (nm, mx)"
    "\<forall>j < length files. \<forall>c \<in> cores_of (files ! j). c \<le> mx"
    "\<forall>c j. j < length files \<longrightarrow> c \<in> cores_of (files ! j) \<longrightarrow>
      (\<forall>i < length files. j < i \<longrightarrow> c \<notin> cores_of (files ! i)) \<longrightarrow> nm c = Some (int (0 + j))"
    using load_loop_nodes [OF assms(1), of 0 Map.empty 0] by blast
  have "nm c = Some (int j)" using l(3) assms(2-4) by auto
  moreover have "c \<le> mx" using l(2) assms(2,3) by blast
  ultimately show ?thesis
    using l(1) by (simp add: loadCPUMap_def NumaNode_def getNumaNode_def del: upt_Suc)
qed

section \<open>Range notation\<close>

text \<open>The reading of the notation: comma-separated numbers and ranges.\<close>

definition range_of :: "string \<Rightarrow> nat set" where
  "range_of w = (case split_on (CHR ''-'') w of
     [a] \<Rightarrow> {read_dec a}
   | [a, b] \<Rightarrow> {read_dec a..read_dec b}
   | _ \<Rightarrow> {})"

definition cores_in :: "string \<Rightarrow> nat set" where
  "cores_in s = (\<Union>w \<in> set (split_on (CHR '','') s). range_of w)"

lemma range_of_rangeStr:
  "l ! prev \<le> l ! nxt \<Longrightarrow> range_of (rangeStr l prev nxt) = {l ! prev..l ! nxt}"
  by (auto simp: range_of_def rangeStr_def split_on_word split_on_append)

lemma rangeStr_no_comma: "CHR '','' \<notin> set (rangeStr l prev nxt)"
  by (simp add: rangeStr_def)

text \<open>
  At index \<open>i\<close> the pending range runs from \<open>l ! prev\<close> to \<open>l ! (i - 1)\<close> and the ranges
  written so far denote the elements before \<open>prev\<close>.
\<close>

definition str_inv :: "LcoresList \<Rightarrow> nat \<Rightarrow> nat \<Rightarrow> nat \<Rightarrow> string list \<Rightarrow> bool" where
  "str_inv l i prev nxt s \<longleftrightarrow> sorted l \<and> 0 < i \<and> i \<le> length l \<and> prev \<le> nxt \<and> nxt < i \<and>
     l ! nxt = l ! (i - 1) \<and> {l ! prev..l ! (i - 1)} = set (slice prev (i - prev) l) \<and>
     (\<Union>w \<in> set s. range_of w) = set (take prev l) \<and> (\<forall>w \<in> set s. CHR '','' \<notin> set w)"

lemma slice_extend: "prev \<le> i \<Longrightarrow> i < length l \<Longrightarrow>
    set (slice prev (Suc i - prev) l) = insert (l ! i) (set (slice prev (i - prev) l))"
  by (simp add: slice_def Suc_diff_le take_Suc_conv_app_nth)

lemma take_slice: "prev \<le> i \<Longrightarrow> set (take prev l) \<union> set (slice prev (i - prev) l) = set (take i l)"
  by (metis slice_def le_add_diff_inverse set_append take_add)

lemma str_inv_step:
  assumes inv: "str_inv l i prev nxt s" and i: "i < length l"
  shows "l ! i = l ! (i - 1) \<Longrightarrow> str_inv l (i + 1) prev nxt s"
    and "l ! i - l ! (i - 1) = 1 \<Longrightarrow> str_inv l (i + 1) prev i s"
    and "l ! i \<noteq> l ! (i - 1) \<Longrightarrow> l ! i - l ! (i - 1) \<noteq> 1 \<Longrightarrow>
      str_inv l (i + 1) i i (s @ [rangeStr l prev nxt])"
proof -
  have prev: "prev \<le> i" "prev < i" using inv by (auto simp: str_inv_def)
  have last: "l ! (i - 1) \<in> set (slice prev (i - prev) l)"
  proof -
    have "l ! prev \<le> l ! (i - 1)"
      using inv i prev by (intro sorted_nth_mono) (auto simp: str_inv_def)
    then have "l ! (i - 1) \<in> {l ! prev..l ! (i - 1)}" by simp
    moreover have "{l ! prev..l ! (i - 1)} = set (slice prev (i - prev) l)"
      using inv by (auto simp only: str_inv_def)
    ultimately show ?thesis by blast
  qed
  note ext = slice_extend [OF prev(1) i]
  show "str_inv l (i + 1) prev nxt s" if "l ! i = l ! (i - 1)"
  proof -
    have "set (slice prev (Suc i - prev) l) = set (slice prev (i - prev) l)"
      using ext last that by (simp add: insert_absorb)
    then show ?thesis using inv i that by (simp add: str_inv_def)
  qed
  show "str_inv l (i + 1) prev i s" if "l ! i - l ! (i - 1) = 1"
  proof -
    have "l ! i = Suc (l ! (i - 1))" using that by simp
    moreover have "l ! prev \<le> l ! (i - 1)"
      using inv i prev by (intro sorted_nth_mono) (auto simp: str_inv_def)
    ultimately have "{l ! prev..l ! i} = insert (l ! i) {l ! prev..l ! (i - 1)}" by auto
    then have "{l ! prev..l ! i} = set (slice prev (Suc i - prev) l)"
      using ext inv by (simp add: str_inv_def)
    then show ?thesis using inv i prev by (simp add: str_inv_def)
  qed
  show "str_inv l (i + 1) i i (s @ [rangeStr l prev nxt])"
    if "l ! i \<noteq> l ! (i - 1)" "l ! i - l ! (i - 1) \<noteq> 1"
  proof -
    have "l ! prev \<le> l ! nxt" using inv i by (auto simp: str_inv_def intro: sorted_nth_mono)
    then have "range_of (rangeStr l prev nxt) = set (slice prev (i - prev) l)"
      using inv by (simp add: range_of_rangeStr str_inv_def)
    moreover have "set (slice i (Suc i - i) l) = {l ! i}"
      using slice_extend [of i i l] i by (simp add: slice_def)
    ultimately show ?thesis
      using inv i take_slice [OF prev(1), of l] rangeStr_no_comma by (auto simp: str_inv_def)
  qed
qed

lemma str_loop_inv:
  "str_inv l i prev nxt s \<Longrightarrow> str_loop l i prev nxt s = (prev', nxt', s') \<Longrightarrow>
     str_inv l (length l) prev' nxt' s'"
proof (induction l i prev nxt s rule: str_loop.induct)
  case (1 l i prev nxt s)
  show ?case
  proof (cases "i < length l")
    case False
    then show ?thesis using "1.prems" by (subst (asm) str_loop.simps) (auto simp: str_inv_def)
  next
    case True
    then show ?thesis
      using "1.IH" "1.prems" str_inv_step [OF "1.prems"(1) True]
      by (subst (asm) (2) str_loop.simps) (auto split: if_splits)
  qed
qed

text \<open>The text of a list of lcores, read as comma-separated numbers and ranges, denotes exactly the lcores of the list, in whatever order and with whatever repetitions they are given.\<close>

lemma LcoresList_String_denotes:
  assumes "l \<noteq> []"
  shows "cores_in (LcoresList_String l) = set l"
proof -
  let ?l = "sort l"
  obtain prev nxt s where loop: "str_loop ?l 1 0 0 [] = (prev, nxt, s)" by (metis prod_cases3)
  have "str_inv ?l 1 0 0 []"
    using assms slice_extend [of 0 0 ?l] by (auto simp: str_inv_def slice_def Suc_le_eq)
  from str_loop_inv [OF this loop] have inv: "str_inv ?l (length ?l) prev nxt s" .
  let ?ws = "s @ [rangeStr ?l prev nxt]"
  have "LcoresList_String l = join [CHR '',''] ?ws"
    using assms loop by (simp add: LcoresList_String_def LcoresList_Len_def Dup_def LcoresList_Sort_def)
  moreover have "split_on (CHR '','') (join [CHR '',''] ?ws) = ?ws"
    using inv rangeStr_no_comma by (intro split_on_join) (auto simp: str_inv_def)
  moreover have "?l ! prev \<le> ?l ! nxt" using inv by (auto simp: str_inv_def intro: sorted_nth_mono)
  moreover have "{?l ! prev..?l ! nxt} = set (slice prev (length ?l - prev) ?l)"
      "(\<Union>w \<in> set s. range_of w) = set (take prev ?l)"
    using inv by (simp_all add: str_inv_def)
  ultimately have "cores_in (LcoresList_String l) =
      set (take prev ?l) \<union> set (slice prev (length ?l - prev) ?l)"
    by (simp add: cores_in_def range_of_rangeStr Un_commute)
  also have "\<dots> = set l" using take_slice [of prev "length ?l" ?l] inv by (simp add: str_inv_def)
  finally show ?thesis .
qed

lemma nth_compare:
  "length xs = length ys \<and> list_all (\<lambda>i. xs ! i = ys ! i) [0..<length xs] \<longleftrightarrow> xs = ys"
  by (auto simp: list_all_iff intro: nth_equalityI)

lemma LcoresList_Equal_iff: "LcoresList_Equal l other \<longleftrightarrow> mset l = mset other"
proof -
  have "LcoresList_Equal l other \<longleftrightarrow> sort l = sort other"
    using nth_compare [of "sort l" "sort other"]
    by (auto simp: LcoresList_Equal_def Dup_def LcoresList_Sort_def Let_def)
  also have "\<dots> \<longleftrightarrow> mset l = mset other" by (metis mset_sort properties_for_sort sorted_sort)
  finally show ?thesis .
qed

end
