(* ===== verification/Ethdev_Stats.thy ===== *)
theory Ethdev_Stats
  imports Errors
begin

text \<open>
  Device statistics (src/ethdev/stats.go): deltas of the basic counters, of the extended
  counters and the table of their names.  The DPDK queries are arguments.
\<close>

section \<open>Basic counters\<close>

text \<open>
  A \<^verbatim>\<open>Stats\<close> is viewed as the array \<^verbatim>\<open>statsAsU64\<close> of its 64-bit words; its first eight words
  are the fields of \<^verbatim>\<open>GoStats\<close>.
\<close>

type_synonym Stats = "u64 list"

record GoStats =
  Ipackets :: u64
  Opackets :: u64
  Ibytes :: u64
  Obytes :: u64
  Imissed :: u64
  Ierrors :: u64
  Oerrors :: u64
  RxNoMbuf :: u64

definition Cast :: "Stats \<Rightarrow> GoStats" where
  "Cast s = \<lparr>Ipackets = s ! 0, Opackets = s ! 1, Ibytes = s ! 2, Obytes = s ! 3,
     Imissed = s ! 4, Ierrors = s ! 5, Oerrors = s ! 6, RxNoMbuf = s ! 7\<rparr>"

text \<open>\<^verbatim>\<open>Diff\<close> writes an entry of \<^verbatim>\<open>delta\<close> only where the counter has grown from a nonzero value.\<close>

definition Diff :: "Stats \<Rightarrow> Stats \<Rightarrow> Stats \<Rightarrow> Stats" where
  "Diff cur src d = fold (\<lambda>i d. if src ! i < cur ! i \<and> src ! i \<noteq> 0 then d[i := cur ! i - src ! i] else d)
     [0..<length cur] d"

section \<open>Queries\<close>

definition StatsGet :: "rte_errnos \<Rightarrow> int \<times> Stats \<Rightarrow> Stats \<times> error" where
  "StatsGet c rc = (snd rc, err c 0 [fst rc])"

text \<open>
  \<open>get_names k\<close> is \<^verbatim>\<open>rte_eth_xstats_get_names\<close> with room for \<open>k\<close> names: the number of counters
  (or an error) and the names it writes.
\<close>

definition XstatNames :: "rte_errnos \<Rightarrow> (nat \<Rightarrow> int \<times> string list) \<Rightarrow> string list \<times> error" where
  "XstatNames c get_names =
     (let n = fst (get_names 0) in
      if n \<le> 0 then ([], err c 0 [n]) else (snd (get_names (nat n)), None))"

text \<open>The loop of \<^verbatim>\<open>XstatNameIDs\<close> over the names; \<open>idByName\<close> is \<^verbatim>\<open>rte_eth_xstats_get_id_by_name\<close>.\<close>

fun name_ids_loop ::
    "rte_errnos \<Rightarrow> (string \<Rightarrow> int \<times> u64) \<Rightarrow> string list \<Rightarrow> (u64 \<Rightarrow> string option)
      \<Rightarrow> (u64 \<Rightarrow> string option) option \<times> error" where
  "name_ids_loop c idByName [] m = (Some m, None)"
| "name_ids_loop c idByName (x # xs) m =
     (let (rc, i) = idByName x in
      case err c 0 [rc] of
        Some e \<Rightarrow> (None, Some e)
      | None \<Rightarrow> if m i \<noteq> None then (None, Some OsErrExist)
                else name_ids_loop c idByName xs (m(i \<mapsto> x)))"

definition XstatNameIDs ::
    "rte_errnos \<Rightarrow> (nat \<Rightarrow> int \<times> string list) \<Rightarrow> (string \<Rightarrow> int \<times> u64)
      \<Rightarrow> (u64 \<Rightarrow> string option) option \<times> error" where
  "XstatNameIDs c get_names idByName = (case XstatNames c get_names of
     (_, Some e) \<Rightarrow> (None, Some e)
   | (ns, None) \<Rightarrow> name_ids_loop c idByName ns (\<lambda>_. None))"

definition XstatGetByID :: "rte_errnos \<Rightarrow> int \<Rightarrow> int \<times> error" where
  "XstatGetByID c rc = (if rc < 0 then (0, err c 0 [rc]) else (rc, None))"

definition XstatsGet :: "rte_errnos \<Rightarrow> int \<Rightarrow> int \<times> error" where
  "XstatsGet c n = IntOrErr c n"

section \<open>Extended counters\<close>

record Xstat =
  Index :: u64
  xValue :: u64

fun searchXstat :: "Xstat list \<Rightarrow> u64 \<Rightarrow> nat option" where
  "searchXstat [] idx = None"
| "searchXstat (x # xs) idx = (if Index x = idx then Some 0 else map_option Suc (searchXstat xs idx))"

definition xstat_old :: "Xstat list \<Rightarrow> Xstat \<Rightarrow> Xstat list \<times> Xstat" where
  "xstat_old old d = (case searchXstat old (Index d) of
     None \<Rightarrow> (old @ [d], d\<lparr>xValue := 0\<rparr>)
   | Some n \<Rightarrow>
      let f = xValue (old ! n); old' = old[n := (old ! n)\<lparr>xValue := xValue d\<rparr>] in
      if 0 < f \<and> f < xValue d then (old', d\<lparr>xValue := xValue d - f\<rparr>)
      else (old', d\<lparr>xValue := 0\<rparr>))"

definition xstat_delta :: "Xstat list \<Rightarrow> Xstat \<Rightarrow> Xstat list" where
  "xstat_delta delta d = (case searchXstat delta (Index d) of
     None \<Rightarrow> delta @ [d]
   | Some k \<Rightarrow> delta[k := (delta ! k)\<lparr>xValue := xValue d\<rparr>])"

fun XstatDiff :: "Xstat list \<Rightarrow> Xstat list \<Rightarrow> Xstat list \<Rightarrow> Xstat list \<times> Xstat list" where
  "XstatDiff [] old delta = (old, delta)"
| "XstatDiff (d # ds) old delta =
     (let (old', d') = xstat_old old d in XstatDiff ds old' (xstat_delta delta d'))"

section \<open>Properties\<close>

lemma Diff_fold:
  assumes "distinct is" "\<forall>i \<in> set is. i < length d"
  shows "length (fold (\<lambda>i d. if P i then d[i := f i] else d) is d) = length d \<and>
    (\<forall>j < length d. fold (\<lambda>i d. if P i then d[i := f i] else d) is d ! j
      = (if j \<in> set is \<and> P j then f j else d ! j))"
  using assms
proof (induction "is" arbitrary: d)
  case (Cons i "is")
  show ?case
    using Cons.IH [of "if P i then d[i := f i] else d"] Cons.prems
    by (auto simp: nth_list_update split: if_splits)
qed simp

lemma Diff_nth:
  assumes "length d = length cur" "i < length cur"
  shows "Diff cur src d ! i = (if src ! i < cur ! i \<and> src ! i \<noteq> 0 then cur ! i - src ! i else d ! i)"
  using assms Diff_fold [of "[0..<length cur]" d "\<lambda>i. src ! i < cur ! i \<and> src ! i \<noteq> 0" "\<lambda>i. cur ! i - src ! i"]
  by (simp add: Diff_def)

text \<open>Tables of extended counters as finite maps; the first entry for an index counts.\<close>

definition xmap :: "Xstat list \<Rightarrow> u64 \<Rightarrow> u64 option" where
  "xmap xs = map_of (map (\<lambda>x. (Index x, xValue x)) xs)"

lemma xmap_simps: "xmap [] = (\<lambda>_. None)" "xmap (x # xs) = (xmap xs)(Index x \<mapsto> xValue x)"
  by (simp_all add: xmap_def fun_eq_iff)

lemma search_None: "searchXstat xs i = None \<longleftrightarrow> xmap xs i = None"
  by (induction xs) (auto simp: xmap_simps)

lemma search_Some:
  "searchXstat xs i = Some n \<Longrightarrow>
    n < length xs \<and> Index (xs ! n) = i \<and> xmap xs i = Some (xValue (xs ! n)) \<and>
    xmap (xs[n := (xs ! n)\<lparr>xValue := v\<rparr>]) = (xmap xs)(i \<mapsto> v) \<and>
    map Index (xs[n := (xs ! n)\<lparr>xValue := v\<rparr>]) = map Index xs"
proof (induction xs arbitrary: n)
  case (Cons x xs)
  then show ?case by (cases n) (auto simp: xmap_simps fun_upd_twist split: if_splits)
qed simp

lemma xmap_append: "xmap xs i = None \<Longrightarrow> Index x = i \<Longrightarrow> xmap (xs @ [x]) = (xmap xs)(i \<mapsto> xValue x)"
  by (induction xs) (auto simp: xmap_simps fun_upd_twist split: if_splits)

text \<open>The delta of one counter: zero unless it has grown from a nonzero value.\<close>

definition growth :: "u64 option \<Rightarrow> u64 \<Rightarrow> u64" where
  "growth old v = (case old of Some f \<Rightarrow> if 0 < f \<and> f < v then v - f else 0 | None \<Rightarrow> 0)"

lemma xstat_old_map:
  "xstat_old old d = (old', d') \<Longrightarrow>
    xmap old' = (xmap old)(Index d \<mapsto> xValue d) \<and> Index d' = Index d \<and>
    xValue d' = growth (xmap old (Index d)) (xValue d)"
  using search_None [of old "Index d"] search_Some [of old "Index d"]
  by (auto simp: xstat_old_def growth_def xmap_append Let_def split: option.splits if_splits)

lemma xstat_delta_map: "xmap (xstat_delta delta d) = (xmap delta)(Index d \<mapsto> xValue d)"
  using search_None [of delta "Index d"] search_Some [of delta "Index d"]
  by (auto simp: xstat_delta_def xmap_append split: option.split)

lemma XstatDiff_map:
  assumes "distinct (map Index incoming)" "XstatDiff incoming old delta = (old', delta')"
  shows "xmap old' i = (case xmap incoming i of Some v \<Rightarrow> Some v | None \<Rightarrow> xmap old i) \<and>
    xmap delta' i = (case xmap incoming i of Some v \<Rightarrow> Some (growth (xmap old i) v) | None \<Rightarrow> xmap delta i)"
  using assms
proof (induction incoming old delta rule: XstatDiff.induct)
  case (1 old delta)
  then show ?case by (simp add: xmap_simps)
next
  case (2 d ds old delta)
  obtain old1 d1 where o: "xstat_old old d = (old1, d1)" by (cases "xstat_old old d")
  have fresh: "xmap ds (Index d) = None"
    using "2.prems"(1) by (auto simp: xmap_def map_of_eq_None_iff image_image)
  show ?case
    using "2.IH" [OF o [symmetric]] "2.prems" o xstat_old_map [OF o] fresh
    by (cases "i = Index d") (auto simp: xmap_simps xstat_delta_map split: option.split)
qed

lemma name_ids_ok:
  assumes "name_ids_loop c idByName xs m = (Some m', None)"
  shows "distinct (map (snd \<circ> idByName) xs) \<and> (\<forall>x \<in> set xs. fst (idByName x) = 0 \<and> m' (snd (idByName x)) = Some x)
    \<and> (\<forall>i. i \<notin> snd ` idByName ` set xs \<longrightarrow> m' i = m i) \<and> (\<forall>x \<in> set xs. m (snd (idByName x)) = None)"
  using assms
proof (induction xs arbitrary: m)
  case (Cons x xs)
  obtain rc i where id: "idByName x = (rc, i)" by (cases "idByName x")
  have h: "rc = 0" "m i = None" "name_ids_loop c idByName xs (m(i \<mapsto> x)) = (Some m', None)"
    using Cons.prems id by (auto simp: err_def IntToErr_def split: option.splits if_splits)
  note ih = Cons.IH [OF h(3)]
  have "i \<notin> snd ` idByName ` set xs" using ih by (auto split: if_splits)
  then show ?case using ih h id by (auto split: if_splits)
qed simp

lemma name_ids_total:
  assumes "\<forall>x \<in> set xs. fst (idByName x) = 0" "distinct (map (snd \<circ> idByName) xs)"
    "\<forall>x \<in> set xs. m (snd (idByName x)) = None"
  shows "\<exists>m'. name_ids_loop c idByName xs m = (Some m', None)"
  using assms
proof (induction xs arbitrary: m)
  case (Cons x xs)
  obtain i where id: "idByName x = (0, i)" using Cons.prems(1) by (cases "idByName x") auto
  have "\<forall>y \<in> set xs. (m(i \<mapsto> x)) (snd (idByName y)) = None"
    using Cons.prems(2,3) id by (auto simp: image_iff)
  then have "\<exists>m'. name_ids_loop c idByName xs (m(i \<mapsto> x)) = (Some m', None)"
    using Cons.prems(1,2) by (intro Cons.IH) auto
  then show ?case using Cons.prems(3) id by (simp add: err_def IntToErr_def)
qed simp

text \<open>C38: XstatDiff, read through tables as maps from counter index to value, updates the old table to the incoming values and the delta table to the growth of each counter (zero for a new counter, for one that was zero and for one that has not grown), and leaves every other index alone.\<close>

theorem XstatDiff_refines:
  assumes "distinct (map Index incoming)" "XstatDiff incoming old delta = (old', delta')"
  shows "xmap old' i = (case xmap incoming i of Some v \<Rightarrow> Some v | None \<Rightarrow> xmap old i) \<and>
    xmap delta' i = (case xmap incoming i of Some v \<Rightarrow> Some (growth (xmap old i) v) | None \<Rightarrow> xmap delta i)"
  using assms by (rule XstatDiff_map)

theorem XstatDiff_refines_witness:
  "xmap (snd (XstatDiff [\<lparr>Index = 1, xValue = 9\<rparr>, \<lparr>Index = 2, xValue = 5\<rparr>] [\<lparr>Index = 1, xValue = 4\<rparr>] [])) 1 = Some 5"
  using XstatDiff_refines [of "[\<lparr>Index = 1, xValue = 9\<rparr>, \<lparr>Index = 2, xValue = 5\<rparr>]" "[\<lparr>Index = 1, xValue = 4\<rparr>]" "[]", OF _ prod.collapse [symmetric], of 1]
  by (simp add: xmap_def growth_def)

end
