(* ===== verification/Sniffer.thy ===== *)
theory Sniffer
  imports Lcores Ethdev_Stats
begin

text \<open>
  The test-sniffer application around the responder: assignment of receive queues to lcores
  (src/app/test-sniffer/lcores.go), reporting of statistics (src/app/test-sniffer/stats.go),
  offload masks and flow-control modes (src/app/test-sniffer/port.go, util.go).
\<close>

section \<open>Queues and lcores\<close>

record PortQueue =
  Pid :: nat
  RxQid :: nat
  TxQid :: nat

text \<open>Go maps from sockets to lcore lists and from lcores to queues.\<close>

definition dissectLcores :: "(nat \<Rightarrow> nat) \<Rightarrow> nat list \<Rightarrow> nat \<Rightarrow> nat list option" where
  "dissectLcores LcoreToSocket ls =
     fold (\<lambda>lcore table. let socket = LcoreToSocket lcore in
       case table socket of
         None \<Rightarrow> table(socket \<mapsto> [lcore])
       | Some affine \<Rightarrow> table(socket \<mapsto> affine @ [lcore])) ls (\<lambda>_. None)"

text \<open>What the code asks of a port: its queue count (or an error) and its socket.\<close>

record port_info =
  InfoGet :: "go_error + nat"
  SocketID :: int

type_synonym dist_state = "(nat \<Rightarrow> nat list option) \<times> (nat \<Rightarrow> PortQueue option)"

text \<open>The loop over the queues of a port takes one lcore after another.\<close>

fun acquire :: "nat \<Rightarrow> nat \<Rightarrow> nat \<Rightarrow> nat \<Rightarrow> nat list \<Rightarrow> dist_state \<Rightarrow> dist_state" where
  "acquire pid socket i (Suc n) (lcore # ls) (lcoreMap, table) =
     acquire pid socket (Suc i) n ls
       (lcoreMap(socket \<mapsto> ls), table(lcore \<mapsto> \<lparr>Pid = pid, RxQid = i, TxQid = 0\<rparr>))"
| "acquire pid socket i n ls st = st"

definition distributeQueuesPort ::
    "(nat \<Rightarrow> port_info) \<Rightarrow> nat \<Rightarrow> dist_state \<Rightarrow> go_error + dist_state" where
  "distributeQueuesPort info pid st = (case InfoGet (info pid) of
     Inl e \<Rightarrow> Inl e
   | Inr nrx \<Rightarrow>
      let socket = SocketID (info pid) in
      if socket < 0 then Inl OsErrInvalid
      else (case fst st (nat socket) of
         None \<Rightarrow> Inl OsErrNotExist
       | Some ls \<Rightarrow>
          if nrx = 0 then Inl OsErrClosed
          else if nrx > length ls
          then Inl (ErrMsg (''pid='' @ dec_str pid @ '' nrx='' @ dec_str nrx @ '' cannot run on '' @
                 dec_str (length ls) @ '' lcores''))
          else Inr (acquire pid (nat socket) 0 nrx ls st)))"

fun distribute_loop :: "(nat \<Rightarrow> port_info) \<Rightarrow> nat list \<Rightarrow> dist_state \<Rightarrow> go_error + dist_state" where
  "distribute_loop info [] st = Inr st"
| "distribute_loop info (pid # pids) st = (case distributeQueuesPort info pid st of
     Inl e \<Rightarrow> Inl e
   | Inr st' \<Rightarrow> distribute_loop info pids st')"

definition DistributeQueues ::
    "(nat \<Rightarrow> nat) \<Rightarrow> (nat \<Rightarrow> port_info) \<Rightarrow> nat list \<Rightarrow> nat list \<Rightarrow> go_error + (nat \<Rightarrow> PortQueue option)" where
  "DistributeQueues LcoreToSocket info ports ls =
     (case distribute_loop info ports (dissectLcores LcoreToSocket ls, \<lambda>_. None) of
        Inl e \<Rightarrow> Inl e
      | Inr st \<Rightarrow> Inr (snd st))"

definition queuesSeq :: "nat \<Rightarrow> u16 list" where
  "queuesSeq n = map of_nat [0..<n]"

section \<open>Offload masks\<close>

function ctz_loop :: "u64 \<Rightarrow> nat \<Rightarrow> nat" where
  "ctz_loop x i = (if x = 0 \<or> bit x 0 then i else ctz_loop (drop_bit 1 x) (Suc i))"
  by auto
termination
proof (relation "measure (\<lambda>(x, i). unat x)")
  fix x :: u64 and i
  assume "\<not> (x = 0 \<or> bit x 0)"
  then have "0 < unat x" by (simp add: unat_gt_0)
  then show "((drop_bit 1 x, Suc i), x, i) \<in> measure (\<lambda>(x, i). unat x)"
    by (simp add: drop_bit_eq_div unat_div)
qed simp

definition ctzll :: "u64 \<Rightarrow> u64" where
  "ctzll x = (if x = 0 then 64 else of_nat (ctz_loop x 0))"

text \<open>The shift to the left ends because the highest set bit moves up.\<close>

fun clz_loop :: "nat \<Rightarrow> u64 \<Rightarrow> nat \<Rightarrow> nat option" where
  "clz_loop 0 x i = None"
| "clz_loop (Suc fuel) x i =
     (if x AND 0x8000000000000000 = 0 then clz_loop fuel (push_bit 1 x) (Suc i) else Some i)"

definition clzll :: "u64 \<Rightarrow> u64 option" where
  "clzll x = (if x = 0 then Some 64 else map_option of_nat (clz_loop 64 x 0))"

fun offload_loop :: "u64 \<Rightarrow> nat \<Rightarrow> u64 \<Rightarrow> string \<Rightarrow> string" where
  "offload_loop offloads 0 single ret = ret"
| "offload_loop offloads (Suc n) single ret =
     offload_loop offloads n (push_bit 1 single)
       (if offloads AND single \<noteq> 0 then ret @ '' '' @ dec_str (unat single) else ret)"

definition printTXOffloads :: "u64 \<Rightarrow> string option" where
  "printTXOffloads offloads =
     (if offloads = 0 then Some [] else do {
      let begin = unat (ctzll offloads);
      c \<leftarrow> clzll offloads;
      let end' = 64 - unat c;
      Some (offload_loop offloads (end' - begin) (push_bit begin 1) []) })"

section \<open>Reporting\<close>

text \<open>
  \<^verbatim>\<open>Report\<close> for the basic counters of the ports, in order.  \<open>counters\<close> are the amounts
  added to the Prometheus counters of a port so far; \<^verbatim>\<open>diffStats\<close> is one variable for all ports.
\<close>

record portStat =
  prevStats :: Stats
  curStats :: Stats
  counters :: "nat list"
  prevVals :: "u64 list"
  curVals :: "u64 list"
  xcounters :: "nat list"

definition add_counters :: "Stats \<Rightarrow> nat list \<Rightarrow> nat list" where
  "add_counters d cs = map2 (\<lambda>delta c. if delta > 0 then c + unat delta else c) (take 8 d) cs"

definition add_xcounters :: "u64 list \<Rightarrow> u64 list \<Rightarrow> nat list \<Rightarrow> nat list" where
  "add_xcounters prev cur cs =
     map2 (\<lambda>(p, c) k. if p < c then k + unat (c - p) else k) (zip prev cur) cs"

definition report_port ::
    "rte_errnos \<Rightarrow> int \<times> Stats \<Rightarrow> int \<times> u64 list \<Rightarrow> Stats \<Rightarrow> portStat
      \<Rightarrow> error \<times> Stats \<times> portStat" where
  "report_port c stats xstats diffStats ps =
     (case StatsGet c stats of (cur, e) \<Rightarrow>
      let ps = ps\<lparr>curStats := cur\<rparr> in
      if e \<noteq> None then (e, diffStats, ps) else
      let diffStats = Diff (curStats ps) (prevStats ps) diffStats;
          ps = ps\<lparr>counters := add_counters diffStats (counters ps),
                  prevStats := curStats ps, curStats := prevStats ps\<rparr>;
          ps = ps\<lparr>curVals := snd xstats\<rparr> in
      (case XstatGetByID c (fst xstats) of
         (_, Some e) \<Rightarrow> (Some e, diffStats, ps)
       | (_, None) \<Rightarrow> (None, diffStats,
           ps\<lparr>xcounters := add_xcounters (prevVals ps) (curVals ps) (xcounters ps),
              prevVals := curVals ps, curVals := prevVals ps\<rparr>)))"

fun report_loop ::
    "rte_errnos \<Rightarrow> (nat \<Rightarrow> int \<times> Stats) \<Rightarrow> (nat \<Rightarrow> int \<times> u64 list) \<Rightarrow> nat \<Rightarrow> Stats \<Rightarrow> portStat list
      \<Rightarrow> error \<times> portStat list" where
  "report_loop c stats xstats i d [] = (None, [])"
| "report_loop c stats xstats i d (ps # pss) =
     (case report_port c (stats i) (xstats i) d ps of
        (Some e, d', ps') \<Rightarrow> (Some e, ps' # pss)
      | (None, d', ps') \<Rightarrow>
          let (e, rest) = report_loop c stats xstats (Suc i) d' pss in (e, ps' # rest))"

definition Report ::
    "rte_errnos \<Rightarrow> nat \<Rightarrow> (nat \<Rightarrow> int \<times> Stats) \<Rightarrow> (nat \<Rightarrow> int \<times> u64 list) \<Rightarrow> portStat list
      \<Rightarrow> error \<times> portStat list" where
  "Report c words stats xstats ports = report_loop c stats xstats 0 (replicate words 0) ports"

section \<open>Flow control modes\<close>

text \<open>\<^verbatim>\<open>fcModes\<close> with the numbers of the DPDK header as arguments; iteration is in some order.\<close>

definition fcModes :: "u32 \<Rightarrow> u32 \<Rightarrow> u32 \<Rightarrow> u32 \<Rightarrow> (string \<times> u32) list" where
  "fcModes FcNone FcRxPause FcTxPause FcFull =
     [(''none'', FcNone), (''rxpause'', FcRxPause), (''txpause'', FcTxPause), (''full'', FcFull)]"

definition FcModeFlag_Set :: "(string \<times> u32) list \<Rightarrow> (string \<Rightarrow> string) \<Rightarrow> string \<Rightarrow> u32 \<times> error" where
  "FcModeFlag_Set modes ToLower s = (case map_of modes (ToLower s) of
     Some mode \<Rightarrow> (mode, None)
   | None \<Rightarrow> (0, Some (ErrMsg (''invalid Flow Control mode: '' @ s))))"

definition FcModeFlag_String :: "(string \<times> u32) list \<Rightarrow> u32 \<Rightarrow> string" where
  "FcModeFlag_String modes mode = (case List.find (\<lambda>(_, m). m = mode) modes of
     Some (desc, _) \<Rightarrow> desc
   | None \<Rightarrow> ''mode='' @ dec_str (unat mode))"

section \<open>Every queue runs on one lcore\<close>

lemma dissect_fold:
  "fold (\<lambda>lcore table. let socket = f lcore in
       case table socket of
         None \<Rightarrow> table(socket \<mapsto> [lcore])
       | Some affine \<Rightarrow> table(socket \<mapsto> affine @ [lcore])) ls t s =
   (case (t s, filter (\<lambda>l. f l = s) ls) of
      (None, []) \<Rightarrow> None | (None, xs) \<Rightarrow> Some xs | (Some ys, xs) \<Rightarrow> Some (ys @ xs))"
proof (induction ls arbitrary: t)
  case (Cons l ls)
  then show ?case by (auto simp: Let_def split: option.splits list.splits)
qed (simp split: option.split)

lemma dissectLcores_spec:
  "dissectLcores f ls s = (let xs = filter (\<lambda>l. f l = s) ls in if xs = [] then None else Some xs)"
  unfolding dissectLcores_def dissect_fold by (simp add: Let_def split: list.split)

lemma acquire_map:
  "n \<le> length ls \<Longrightarrow> n \<noteq> 0 \<Longrightarrow> fst (acquire pid socket i n ls st) = (fst st)(socket \<mapsto> drop n ls)"
proof (induction pid socket i n ls st rule: acquire.induct)
  case (1 pid socket i n lcore ls lcoreMap table)
  then show ?case by (cases "n = 0") auto
qed auto

lemma acquire_other: "l \<notin> set (take n ls) \<Longrightarrow> snd (acquire pid socket i n ls st) l = snd st l"
  by (induction pid socket i n ls st rule: acquire.induct) auto

lemma acquire_new:
  "j < n \<Longrightarrow> n \<le> length ls \<Longrightarrow> distinct ls \<Longrightarrow>
    snd (acquire pid socket i n ls st) (ls ! j) = Some \<lparr>Pid = pid, RxQid = i + j, TxQid = 0\<rparr>"
proof (induction pid socket i n ls st arbitrary: j rule: acquire.induct)
  case (1 pid socket i n lcore ls lcoreMap table)
  show ?case
  proof (cases j)
    case 0
    have "lcore \<notin> set (take n ls)" using "1.prems"(3) by (auto dest: in_set_takeD)
    then show ?thesis using 0 by (simp add: acquire_other)
  next
    case (Suc k)
    then show ?thesis using 1 by simp
  qed
qed auto

text \<open>The state of the distribution after the ports in \<open>ps\<close>.\<close>

definition assigned :: "(nat \<Rightarrow> PortQueue option) \<Rightarrow> nat \<Rightarrow> nat \<Rightarrow> nat \<Rightarrow> bool" where
  "assigned table l pid q \<longleftrightarrow> (\<exists>pq. table l = Some pq \<and> Pid pq = pid \<and> RxQid pq = q)"

definition dist_ok :: "(nat \<Rightarrow> nat) \<Rightarrow> (nat \<Rightarrow> port_info) \<Rightarrow> nat list \<Rightarrow> nat set \<Rightarrow> dist_state \<Rightarrow> bool" where
  "dist_ok f info ls ps st \<longleftrightarrow>
     (\<forall>s xs. fst st s = Some xs \<longrightarrow> distinct xs \<and> (\<forall>l \<in> set xs. l \<in> set ls \<and> f l = s \<and> snd st l = None)) \<and>
     (\<forall>l pid q. assigned (snd st) l pid q \<longrightarrow> l \<in> set ls \<and> pid \<in> ps \<and> f l = nat (SocketID (info pid)) \<and>
        (\<exists>n. InfoGet (info pid) = Inr n \<and> q < n)) \<and>
     (\<forall>pid \<in> ps. \<forall>n q. InfoGet (info pid) = Inr n \<and> q < n \<longrightarrow> (\<exists>!l. assigned (snd st) l pid q))"

lemma dist_okD:
  assumes "dist_ok f info ls ps st"
  shows "fst st s = Some xs \<Longrightarrow> distinct xs"
    "fst st s = Some xs \<Longrightarrow> l \<in> set xs \<Longrightarrow> l \<in> set ls \<and> f l = s \<and> snd st l = None"
    "assigned (snd st) l pid q \<Longrightarrow> l \<in> set ls \<and> pid \<in> ps \<and> f l = nat (SocketID (info pid)) \<and>
        (\<exists>n. InfoGet (info pid) = Inr n \<and> q < n)"
    "pid \<in> ps \<Longrightarrow> InfoGet (info pid) = Inr n \<Longrightarrow> q < n \<Longrightarrow> \<exists>!l. assigned (snd st) l pid q"
proof -
  note D = assms [unfolded dist_ok_def]
  show "fst st s = Some xs \<Longrightarrow> distinct xs" using conjunct1 [OF D] by blast
  show "fst st s = Some xs \<Longrightarrow> l \<in> set xs \<Longrightarrow> l \<in> set ls \<and> f l = s \<and> snd st l = None"
    using conjunct1 [OF D] by blast
  show "assigned (snd st) l pid q \<Longrightarrow> l \<in> set ls \<and> pid \<in> ps \<and> f l = nat (SocketID (info pid)) \<and>
        (\<exists>n. InfoGet (info pid) = Inr n \<and> q < n)"
    using conjunct1 [OF conjunct2 [OF D]] by blast
  show "pid \<in> ps \<Longrightarrow> InfoGet (info pid) = Inr n \<Longrightarrow> q < n \<Longrightarrow> \<exists>!l. assigned (snd st) l pid q"
    using conjunct2 [OF conjunct2 [OF D]] by (simp only: Ball_def)
qed

lemma acquire_assigned:
  assumes "n \<le> length xs" "distinct xs" "\<forall>l \<in> set xs. snd st l = None"
  shows "assigned (snd (acquire pid socket 0 n xs st)) l p q \<longleftrightarrow>
    (p = pid \<and> q < n \<and> l = xs ! q) \<or> assigned (snd st) l p q"
proof (cases "l \<in> set (take n xs)")
  case True
  then obtain j where j: "j < n" "l = xs ! j" using assms(1) by (auto simp: in_set_conv_nth)
  have "snd st l = None" using True assms(3) by (auto dest: in_set_takeD)
  moreover have "q < n \<Longrightarrow> xs ! j = xs ! q \<longleftrightarrow> q = j" using assms(1,2) j(1) by (auto simp: nth_eq_iff_index_eq)
  ultimately show ?thesis
    using acquire_new [OF j(1) assms(1,2), of pid socket 0 st] j by (auto simp: assigned_def)
next
  case False
  then have "q < n \<Longrightarrow> l \<noteq> xs ! q" using assms(1) by (auto simp: in_set_conv_nth)
  then show ?thesis using acquire_other [OF False] by (simp add: assigned_def) blast
qed

lemma distribute_step:
  assumes "dist_ok f info ls ps st" "pid \<notin> ps" "distributeQueuesPort info pid st = Inr st'"
  shows "dist_ok f info ls (insert pid ps) st'"
proof -
  obtain n xs where n: "InfoGet (info pid) = Inr n" and sock: "SocketID (info pid) \<ge> 0"
    and xs: "fst st (nat (SocketID (info pid))) = Some xs" and len: "n \<noteq> 0" "n \<le> length xs"
    and st': "st' = acquire pid (nat (SocketID (info pid))) 0 n xs st"
    using assms(3) by (auto simp: distributeQueuesPort_def Let_def split: sum.splits option.splits if_splits)
  note D = dist_okD [OF assms(1)]
  have dx: "distinct xs" and free: "\<forall>l \<in> set xs. snd st l = None" using D(1,2) [OF xs] by blast+
  note A = acquire_assigned [OF len(2) dx free, of pid "nat (SocketID (info pid))", folded st']
  have map': "fst st' = (fst st)(nat (SocketID (info pid)) \<mapsto> drop n xs)"
    using acquire_map [OF len(2,1)] st' by blast
  show ?thesis
    unfolding dist_ok_def
  proof (intro conjI allI impI ballI)
    fix s ys assume s: "fst st' s = Some ys"
    show "distinct ys" using s map' dx D(1) by (auto split: if_splits)
    fix l assume l: "l \<in> set ys"
    have old: "l \<in> set ls" "f l = s" "snd st l = None" "l \<notin> set (take n xs)"
    proof -
      have "(s = nat (SocketID (info pid)) \<and> ys = drop n xs) \<or> (s \<noteq> nat (SocketID (info pid)) \<and> fst st s = Some ys)"
        using s map' by (auto split: if_splits)
      then show "l \<in> set ls" "f l = s" "snd st l = None" "l \<notin> set (take n xs)"
        using D(2) [OF xs] D(2) [of s ys l] l set_take_disj_set_drop_if_distinct [OF dx, of n n]
        by (auto dest: in_set_dropD in_set_takeD)
    qed
    then show "l \<in> set ls" "f l = s" "snd st' l = None"
      using acquire_other [OF old(4)] st' by auto
  next
    fix l p q assume "assigned (snd st') l p q"
    then have "(p = pid \<and> q < n \<and> l = xs ! q) \<or> assigned (snd st) l p q" using A by blast
    then show "l \<in> set ls" "p \<in> insert pid ps" "f l = nat (SocketID (info p))"
      "\<exists>n. InfoGet (info p) = Inr n \<and> q < n"
      using D(2) [OF xs, of "xs ! q"] D(3) [of l p q] len n by auto
  next
    fix p k q assume p: "p \<in> insert pid ps" and k: "InfoGet (info p) = Inr k \<and> q < k"
    show "\<exists>!l. assigned (snd st') l p q"
    proof (cases "p = pid")
      case True
      then have "assigned (snd st') l p q \<longleftrightarrow> l = xs ! q" for l
        using A [of l p q] D(3) [of l pid q] assms(2) k n by auto
      then show ?thesis by simp
    next
      case False
      then have "assigned (snd st') l p q \<longleftrightarrow> assigned (snd st) l p q" for l using A by blast
      then show ?thesis using D(4) [of p k q] p False k by simp
    qed
  qed
qed

lemma distribute_loop_ok:
  "dist_ok f info ls ps st \<Longrightarrow> distinct pids \<Longrightarrow> set pids \<inter> ps = {} \<Longrightarrow>
    distribute_loop info pids st = Inr st' \<Longrightarrow> dist_ok f info ls (ps \<union> set pids) st'"
proof (induction pids arbitrary: ps st)
  case (Cons pid pids)
  obtain st1 where s1: "distributeQueuesPort info pid st = Inr st1" "distribute_loop info pids st1 = Inr st'"
    using Cons.prems(4) by (auto split: sum.splits)
  have "dist_ok f info ls (insert pid ps) st1"
    using distribute_step [OF Cons.prems(1) _ s1(1)] Cons.prems(3) by simp
  then show ?case using Cons.IH [of "insert pid ps" st1] Cons.prems(2,3) s1(2) by simp
qed simp

lemma dissect_ok:
  assumes "distinct ls"
  shows "dist_ok f info ls {} (dissectLcores f ls, \<lambda>_. None)"
  using assms by (auto simp: dist_ok_def dissectLcores_spec assigned_def Let_def split: if_splits)

lemma DistributeQueues_ok:
  assumes "distinct ports" "distinct ls" "DistributeQueues f info ports ls = Inr table"
  shows "\<forall>l pid q. assigned table l pid q \<longrightarrow> l \<in> set ls \<and> pid \<in> set ports \<and>
      f l = nat (SocketID (info pid)) \<and> (\<exists>n. InfoGet (info pid) = Inr n \<and> q < n)"
    "\<forall>pid \<in> set ports. \<forall>n q. InfoGet (info pid) = Inr n \<and> q < n \<longrightarrow> (\<exists>!l. assigned table l pid q)"
proof -
  obtain st where st: "distribute_loop info ports (dissectLcores f ls, \<lambda>_. None) = Inr st" "table = snd st"
    using assms(3) by (auto simp: DistributeQueues_def split: sum.splits)
  have "dist_ok f info ls (set ports) st"
    using distribute_loop_ok [OF dissect_ok [OF assms(2)] assms(1) _ st(1)] by simp
  then show "\<forall>l pid q. assigned table l pid q \<longrightarrow> l \<in> set ls \<and> pid \<in> set ports \<and>
      f l = nat (SocketID (info pid)) \<and> (\<exists>n. InfoGet (info pid) = Inr n \<and> q < n)"
    "\<forall>pid \<in> set ports. \<forall>n q. InfoGet (info pid) = Inr n \<and> q < n \<longrightarrow> (\<exists>!l. assigned table l pid q)"
    unfolding dist_ok_def st(2) by blast+
qed

section \<open>Bit scans\<close>

declare ctz_loop.simps [simp del]

lemma ctz_loop_spec:
  assumes "bit x j" "\<forall>k < j. \<not> bit x k"
  shows "ctz_loop x i = i + j"
  using assms
proof (induction j arbitrary: x i)
  case 0
  then show ?case by (subst ctz_loop.simps) simp
next
  case (Suc j)
  have "x \<noteq> 0" "\<not> bit x 0" using Suc.prems by auto
  moreover have "bit (drop_bit 1 x) j" "\<forall>k < j. \<not> bit (drop_bit 1 x) k"
    using Suc.prems by (auto simp: bit_simps)
  ultimately show ?case using Suc.IH [of "drop_bit 1 x" "Suc i"] by (subst ctz_loop.simps) simp
qed

lemma lowest_bit:
  assumes "x \<noteq> (0 :: u64)"
  obtains j where "j < 64" "bit x j" "\<forall>k < j. \<not> bit x k"
proof -
  have ex: "\<exists>n. bit x n" using assms by (metis bit_0_eq bot_apply bot_bool_def bit_eqI)
  let ?j = "LEAST n. bit x n"
  have "bit x ?j" using ex by (rule LeastI_ex)
  moreover have "?j < 64" using bit_imp_le_length [OF calculation] by simp
  moreover have "\<forall>k < ?j. \<not> bit x k" using not_less_Least by blast
  ultimately show thesis using that by blast
qed

lemma highest_bit:
  assumes "x \<noteq> (0 :: u64)"
  obtains h where "h < 64" "bit x h" "\<forall>k > h. \<not> bit x k"
proof -
  have fin: "finite {n. bit x n}"
    by (rule finite_subset [of _ "{..<64}"]) (auto dest: bit_imp_le_length)
  have ne: "{n. bit x n} \<noteq> {}" using assms by (metis Collect_empty_eq bit_0_eq bot_apply bot_bool_def bit_eqI)
  let ?h = "Max {n. bit x n}"
  have b: "bit x ?h" using Max_in [OF fin ne] by simp
  have "k \<le> ?h" if "bit x k" for k using Max_ge [OF fin, of k] that by simp
  then have "\<forall>k > ?h. \<not> bit x k" using leD by blast
  moreover have "?h < 64" using bit_imp_le_length [OF b] by simp
  ultimately show thesis using that [of ?h] b by blast
qed

lemma and_bit: "b < 64 \<Longrightarrow> x AND push_bit b 1 = 0 \<longleftrightarrow> \<not> bit x b" for x :: u64
proof -
  assume b: "b < 64"
  have "x AND push_bit b 1 = (if bit x b then push_bit b 1 else 0)"
    by (rule bit_word_eqI) (auto simp: bit_simps)
  moreover have "push_bit b (1 :: u64) \<noteq> 0" using b by simp
  ultimately show ?thesis by simp
qed

lemma top_bit: "x AND 0x8000000000000000 = 0 \<longleftrightarrow> \<not> bit x 63" for x :: u64
  using and_bit [of 63 x] by (simp add: push_bit_eq_mult)

lemma bit_shl: "bit (push_bit 1 x) k \<longleftrightarrow> 0 < k \<and> k < 64 \<and> bit x (k - 1)" for x :: u64
  using bit_push_bit_iff [of 1 x k] by (auto simp: possible_bit_word)

lemma clz_loop_spec:
  assumes "h < 64" "bit x h" "\<forall>k > h. \<not> bit x k" "63 - h < fuel"
  shows "clz_loop fuel x i = Some (i + (63 - h))"
  using assms
proof (induction fuel arbitrary: x h i)
  case (Suc fuel)
  show ?case
  proof (cases "h = 63")
    case True
    then show ?thesis using Suc.prems(2) by (simp add: top_bit)
  next
    case False
    have "bit (push_bit 1 x) (Suc h)" "\<forall>k > Suc h. \<not> bit (push_bit 1 x) k"
      using Suc.prems(1-3) False unfolding bit_shl by auto
    then have "clz_loop fuel (push_bit 1 x) (Suc i) = Some (Suc i + (63 - Suc h))"
      using Suc.IH [of "Suc h"] Suc.prems(1,4) False by simp
    moreover have "\<not> bit x 63" using Suc.prems(1,3) False by simp
    moreover have "Suc (i + (63 - Suc h)) = i + (63 - h)" using Suc.prems(1) False by simp
    ultimately show ?thesis by (simp add: top_bit)
  qed
qed simp

lemma offload_loop_spec:
  assumes "b + n \<le> 64"
  shows "offload_loop x n (push_bit b 1) ret =
    ret @ concat (map (\<lambda>k. '' '' @ dec_str (2 ^ k)) (filter (bit x) [b..<b + n]))"
  using assms
proof (induction n arbitrary: b ret)
  case (Suc n)
  have set: "x AND push_bit b 1 \<noteq> 0 \<longleftrightarrow> bit x b" using and_bit [of b x] Suc.prems by simp
  have pow: "unat (push_bit b 1 :: u64) = 2 ^ b"
    using Suc.prems power_strict_increasing [of b 64 "2 :: nat"] unat_of_nat [of "2 ^ b", where 'a = 64] by (simp add: push_bit_eq_mult)
  have shift: "push_bit 1 (push_bit b 1) = (push_bit (Suc b) 1 :: u64)" by simp
  have step: "offload_loop x (Suc n) (push_bit b 1) ret = offload_loop x n (push_bit (Suc b) 1)
      (if bit x b then ret @ '' '' @ dec_str (2 ^ b) else ret)"
    by (simp only: offload_loop.simps set pow shift)
  have range: "[b..<b + Suc n] = b # [Suc b..<Suc b + n]" by (simp add: upt_conv_Cons)
  have "Suc b + n \<le> 64" using Suc.prems by simp
  note ih = Suc.IH [OF this]
  show ?case
    unfolding step range ih by (simp only: filter.simps if_distrib [of "map _"]) (simp del: upt_Suc)
qed simp

lemma printTXOffloads_spec:
  "printTXOffloads x = Some (concat (map (\<lambda>k. '' '' @ dec_str (2 ^ k)) (filter (bit x) [0..<64])))"
proof (cases "x = 0")
  case True
  then show ?thesis by (simp add: printTXOffloads_def)
next
  case False
  obtain j where j: "j < 64" "bit x j" "\<forall>k < j. \<not> bit x k" by (rule lowest_bit [OF False])
  obtain h where h: "h < 64" "bit x h" "\<forall>k > h. \<not> bit x k" by (rule highest_bit [OF False])
  have jh: "j \<le> h" using j(3) h(2) not_le_imp_less by blast
  have c: "ctzll x = of_nat j" using ctz_loop_spec [OF j(2,3)] False by (simp add: ctzll_def)
  have l: "clzll x = Some (of_nat (63 - h))" using clz_loop_spec [OF h, of 64 0] False by (simp add: clzll_def)
  have u: "unat (of_nat j :: u64) = j" "unat (of_nat (63 - h) :: u64) = 63 - h"
    using j(1) by (simp_all add: unat_of_nat del: of_nat_diff)
  have split: "[0..<64] = [0..<j] @ [j..<Suc h] @ [Suc h..<64]"
    using jh h(1) upt_add_eq_append [of 0 j "64 - j"] upt_add_eq_append [of j "Suc h" "64 - Suc h"] by simp
  have e1: "filter (bit x) [0..<j] = []" using j(3) by (simp add: filter_empty_conv)
  have e2: "filter (bit x) [Suc h..<64] = []" using h(3) by (simp add: filter_empty_conv)
  have "filter (bit x) [0..<64] = filter (bit x) [j..<Suc h]"
    unfolding split using e1 e2 by simp
  moreover have "j + (64 - (63 - h) - j) = Suc h" using jh h(1) by simp
  ultimately show ?thesis
    using offload_loop_spec [of j "64 - (63 - h) - j" x "[]"] False c l u jh h(1)
    by (simp add: printTXOffloads_def Let_def del: of_nat_diff)
qed

text \<open>When DistributeQueues succeeds, every receive queue of every port runs on exactly one lcore, every assigned lcore is one of the given ones, serves a queue that exists and is on the NUMA node of its port.\<close>

lemma DistributeQueues_assigns:
  assumes "distinct ports" "distinct ls" "DistributeQueues f info ports ls = Inr table"
  shows "(\<forall>l pid q. assigned table l pid q \<longrightarrow> l \<in> set ls \<and> pid \<in> set ports \<and>
      f l = nat (SocketID (info pid)) \<and> (\<exists>n. InfoGet (info pid) = Inr n \<and> q < n)) \<and>
    (\<forall>pid \<in> set ports. \<forall>n q. InfoGet (info pid) = Inr n \<and> q < n \<longrightarrow> (\<exists>!l. assigned table l pid q))"
  using DistributeQueues_ok [OF assms] by blast

text \<open>printTXOffloads returns, for every 64-bit mask, the decimal values of its set bits in ascending order, each after a space; in particular its loops and those of ctzll and clzll end.\<close>

lemma printTXOffloads_lists_bits:
  "printTXOffloads x = Some (concat (map (\<lambda>k. '' '' @ dec_str (2 ^ k)) (filter (bit x) [0..<64])))"
  by (rule printTXOffloads_spec)

end
