(* ===== verification/Packet_Edit.thy ===== *)
theory Packet_Edit
  imports Packet_Gen
begin

text \<open>
  Insertion and removal of bytes inside a packet (src/packet/packet.go,
  \<^verbatim>\<open>EncapsulateHead\<close> to \<^verbatim>\<open>PacketBytesChange\<close>).  Each loop of byte assignments is a
  \<^const>\<open>move_bytes\<close> over the addresses in the order the code visits them.
\<close>

definition EncapsulateHead :: "int \<Rightarrow> memory \<Rightarrow> Packet \<Rightarrow> u64 \<Rightarrow> u64 \<Rightarrow> gen_result" where
  "EncapsulateHead pss m p start len =
     (let (ok, mb) = PrependMbuf pss (CMbuf p) len in
      if \<not> ok then Some (False, m, p) else do {
      let p = p\<lparr>CMbuf := mb, Ether := Ether p - len\<rparr>;
      m \<leftarrow> move_bytes m (map (\<lambda>i. (StartAtOffset p (of_nat i), StartAtOffset p (of_nat i + len)))
             [0..<unat start]);
      Some (True, m, p) })"

definition EncapsulateTail :: "memory \<Rightarrow> Packet \<Rightarrow> u64 \<Rightarrow> u64 \<Rightarrow> gen_result" where
  "EncapsulateTail m p start len =
     (let (ok, mb) = AppendMbuf (CMbuf p) len in
      if \<not> ok then Some (False, m, p) else do {
      let p = p\<lparr>CMbuf := mb\<rparr>;
      let packetLength = GetPacketLen p;
      m \<leftarrow> move_bytes m (map (\<lambda>i. (StartAtOffset p (word_of_int i),
                                  StartAtOffset p (word_of_int i - len)))
             (rev [sint (start + len)..sint (packetLength - 1)]));
      Some (True, m, p) })"

definition DecapsulateHead :: "memory \<Rightarrow> Packet \<Rightarrow> u64 \<Rightarrow> u64 \<Rightarrow> gen_result" where
  "DecapsulateHead m p start len =
     (let (ok, mb) = AdjMbuf (CMbuf p) len in
      if \<not> ok then Some (False, m, p) else do {
      let p = p\<lparr>CMbuf := mb\<rparr>;
      m \<leftarrow> move_bytes m (map (\<lambda>i. (StartAtOffset p (word_of_int i + len),
                                  StartAtOffset p (word_of_int i)))
             (rev [0..sint (start - 1)]));
      Some (True, m, p\<lparr>Ether := Ether p + len\<rparr>) })"

definition DecapsulateTail :: "memory \<Rightarrow> Packet \<Rightarrow> u64 \<Rightarrow> u64 \<Rightarrow> gen_result" where
  "DecapsulateTail m p start len =
     (let packetLength = GetPacketLen p; (ok, mb) = TrimMbuf (CMbuf p) len in
      if \<not> ok then Some (False, m, p) else do {
      let p = p\<lparr>CMbuf := mb\<rparr>;
      m \<leftarrow> move_bytes m (map (\<lambda>i. (StartAtOffset p (of_nat i), StartAtOffset p (of_nat i + len)))
             [unat start..<unat packetLength]);
      Some (True, m, p) })"

text \<open>The loop of \<^verbatim>\<open>PacketBytesChange\<close> writes given bytes; the bound is computed with wrap-around.\<close>

fun write_bytes :: "memory \<Rightarrow> addr \<Rightarrow> byte list \<Rightarrow> memory option" where
  "write_bytes m a [] = Some m"
| "write_bytes m a (b # bs) = (if a = nil then None else write_bytes (m(a := b)) (a + 1) bs)"

definition PacketBytesChange :: "memory \<Rightarrow> Packet \<Rightarrow> u64 \<Rightarrow> byte list \<Rightarrow> gen_result" where
  "PacketBytesChange m p start bytes =
     (let len = of_nat (length bytes) in
      if start + len > GetPacketLen p then Some (False, m, p)
      else do { m \<leftarrow> write_bytes m (StartAtOffset p start) bytes; Some (True, m, p) })"

section \<open>Packet contents\<close>

text \<open>
  A packet whose \<^verbatim>\<open>L2\<close> pointer is the start of the data of its mbuf, with the mbuf's
  buffer inside the address space and away from the nil address.
\<close>

definition attached :: "Packet \<Rightarrow> bool" where
  "attached p \<longleftrightarrow> L2 p = Mbuf_L2 (CMbuf p) \<and> mbuf_inv (CMbuf p) \<and> buf_addr (CMbuf p) \<noteq> nil
     \<and> unat (buf_addr (CMbuf p)) + 2 ^ 18 < 2 ^ 64"

definition content :: "memory \<Rightarrow> Packet \<Rightarrow> byte list" where
  "content m p = Mbuf_Data m (CMbuf p)"

lemma length_content [simp]: "length (content m p) = unat (data_len (CMbuf p))"
  by (simp add: content_def Mbuf_Data_def)

lemma attached_L2:
  assumes "attached p"
  shows "unat (L2 p) + 2 ^ 17 < 2 ^ 64" "L2 p \<noteq> nil"
proof -
  let ?b = "buf_addr (CMbuf p)" and ?o = "data_off (CMbuf p)"
  have o: "unat (ucast ?o :: u64) = unat ?o" "unat ?o < 65536"
    using unat_mod_small [of ?o] by (simp_all add: unat_ucast_small)
  then have "unat (L2 p) = unat ?b + unat ?o"
    using assms by (simp add: attached_def Mbuf_L2_def unat_add_exact)
  moreover have "0 < unat ?b" using assms by (simp add: attached_def unat_gt_0)
  ultimately show "unat (L2 p) + 2 ^ 17 < 2 ^ 64" "L2 p \<noteq> nil"
    using assms o by (auto simp: attached_def)
qed

lemma content_nth:
  "attached p \<Longrightarrow> i < unat (data_len (CMbuf p)) \<Longrightarrow> content m p ! i = m (L2 p + of_nat i)"
  by (simp add: content_def Mbuf_Data_def attached_def Mbuf_L2_def)

lemma attached_offset_inject:
  assumes "attached p" "i < 2 ^ 17" "j < 2 ^ 17"
  shows "L2 p + of_nat i = L2 p + of_nat j \<longleftrightarrow> i = j"
  using assms by (simp add: of_nat_word_inj)

lemma attached_offset_nonnil: "attached p \<Longrightarrow> i < 2 ^ 17 \<Longrightarrow> L2 p + of_nat i \<noteq> nil"
  using attached_L2 [of p] by (intro nonnil_offset) simp_all

lemma move_offsets:
  assumes "attached p" "\<And>i. i \<in> set is \<Longrightarrow> F i < 2 ^ 17 \<and> G i < 2 ^ 17"
    and "sorted_wrt (\<lambda>i j. F i \<noteq> F j \<and> F i \<noteq> G j) is"
  obtains m' where
    "move_bytes m (map (\<lambda>i. (L2 p + of_nat (F i), L2 p + of_nat (G i))) is) = Some m'"
    "\<And>i. i \<in> set is \<Longrightarrow> m' (L2 p + of_nat (F i)) = m (L2 p + of_nat (G i))"
    "\<And>k. k < 2 ^ 17 \<Longrightarrow> k \<notin> F ` set is \<Longrightarrow> m' (L2 p + of_nat k) = m (L2 p + of_nat k)"
proof -
  let ?ps = "map (\<lambda>i. (L2 p + of_nat (F i), L2 p + of_nat (G i))) is"
  have "nil \<notin> fst ` set ?ps" "nil \<notin> snd ` set ?ps"
    using assms(2) attached_offset_nonnil [OF assms(1)] by (auto simp: image_iff)
  then obtain m' where m': "move_bytes m ?ps = Some m'" using move_bytes_defined by blast
  have "sorted_wrt (\<lambda>i j. L2 p + of_nat (F i) \<noteq> L2 p + of_nat (F j) \<and>
      L2 p + of_nat (F i) \<noteq> L2 p + of_nat (G j)) is"
    using assms(3) by (rule sorted_wrt_mono_rel [rotated])
      (use assms(2) attached_offset_inject [OF assms(1)] in blast)
  then have nc: "no_clobber ?ps" by (rule no_clobber_map)
  have "m' (L2 p + of_nat (F i)) = m (L2 p + of_nat (G i))" if "i \<in> set is" for i
    using move_bytes_moved [OF m' nc] that by auto
  moreover have "m' (L2 p + of_nat k) = m (L2 p + of_nat k)" if "k < 2 ^ 17" "k \<notin> F ` set is" for k
  proof (rule move_bytes_other [OF m'])
    show "L2 p + of_nat k \<notin> fst ` set ?ps"
      using that assms(2) attached_offset_inject [OF assms(1) that(1)]
      by (fastforce simp: image_iff)
  qed
  ultimately show ?thesis using that m' by blast
qed

lemma rev_upt_desc: "sorted_wrt (\<lambda>i j. i \<noteq> j \<and> i \<noteq> j - l) (rev [a..<b :: nat])"
  unfolding sorted_wrt_rev by (rule sorted_wrt_mono_rel [OF _ sorted_wrt_upt]) auto

lemma upt_asc: "sorted_wrt (\<lambda>i j. i \<noteq> j \<and> i \<noteq> j + l) [a..<b :: nat]"
  by (rule sorted_wrt_mono_rel [OF _ sorted_wrt_upt]) auto

lemma rev_upt_desc2: "sorted_wrt (\<lambda>i j. i + l \<noteq> j + l \<and> i + l \<noteq> j) (rev [a..<b :: nat])"
  unfolding sorted_wrt_rev by (rule sorted_wrt_mono_rel [OF _ sorted_wrt_upt]) auto

section \<open>Contents after an edit\<close>

lemma GetPacketLen_inv: "mbuf_inv (CMbuf p) \<Longrightarrow> unat (GetPacketLen p) = unat (data_len (CMbuf p))"
  using unat_mod_small [of "data_len (CMbuf p)"]
  by (simp add: GetPacketLen_def GetPktLenMbuf_def mbuf_inv_def unat_ucast_small)

lemma data_len_small: "unat (data_len mb) < 65536"
  using unat_mod_small [of "data_len mb"] by simp

lemma AppendMbuf_fields: "AppendMbuf mb n = (True, mb') \<Longrightarrow>
    buf_addr mb' = buf_addr mb \<and> data_off mb' = data_off mb"
  by (auto simp: AppendMbuf_def split: if_splits)

lemma content_eqI:
  assumes "attached p'" "length ys = unat (data_len (CMbuf p'))"
    and "\<And>i. i < length ys \<Longrightarrow> m' (L2 p' + of_nat i) = ys ! i"
  shows "content m' p' = ys"
  by (rule nth_equalityI) (simp_all add: assms content_nth)

text \<open>EncapsulateTail opens a gap of the given length at the given offset: the bytes in front of it keep their place and the bytes behind it follow the gap, for every packet with enough tail room.\<close>

lemma EncapsulateTail_content:
  assumes "attached p" "unat start \<le> unat (data_len (CMbuf p))"
    and "unat len \<le> seg_tail (mbuf_abs (CMbuf p))"
  shows "\<exists>m' p' gap. EncapsulateTail m p start len = Some (True, m', p') \<and> attached p' \<and>
    length gap = unat len \<and>
    content m' p' = take (unat start) (content m p) @ gap @ drop (unat start) (content m p)"
proof -
  let ?s = "unat start" and ?l = "unat len" and ?d = "unat (data_len (CMbuf p))"
  have inv: "mbuf_inv (CMbuf p)" using assms(1) by (simp add: attached_def)
  obtain mb where mb: "AppendMbuf (CMbuf p) len = (True, mb)" "mbuf_inv mb"
      "seg_append ?l (mbuf_abs (CMbuf p)) = Some (mbuf_abs mb)"
    using AppendMbuf_room [OF inv assms(3)] by blast
  let ?p = "p\<lparr>CMbuf := mb\<rparr>"
  have dl: "unat (data_len mb) = ?d + ?l"
    using mb(3) by (auto simp: seg_append_def mbuf_abs_def split: if_splits)
  have sm: "?d + ?l < 65536" using dl data_len_small [of mb] by simp
  have att: "attached ?p"
    using assms(1) mb AppendMbuf_fields [OF mb(1)] by (simp add: attached_def Mbuf_L2_def)
  have sl: "unat (start + len) = ?s + ?l" using assms(2) sm by (simp add: unat_add_exact)
  have pl: "unat (GetPacketLen ?p) = ?d + ?l" using GetPacketLen_inv [of ?p] mb(2) dl by simp
  have idx: "rev [sint (start + len)..sint (GetPacketLen ?p - 1)] = map int (rev [?s + ?l..<?d + ?l])"
    using sl pl sm assms(2) int_upto_upt [of "?s + ?l" "?d + ?l"]
    by (simp add: sint_small sint_pred rev_map)
  have loop: "map (\<lambda>i. (StartAtOffset ?p (word_of_int i), StartAtOffset ?p (word_of_int i - len)))
      (rev [sint (start + len)..sint (GetPacketLen ?p - 1)])
    = map (\<lambda>i. (L2 ?p + of_nat i, L2 ?p + of_nat (i - ?l))) (rev [?s + ?l..<?d + ?l])"
    unfolding idx by (auto simp: StartAtOffset_def of_nat_diff)
  have bnd: "i < 2 ^ 17 \<and> i - ?l < 2 ^ 17" if "i \<in> set (rev [?s + ?l..<?d + ?l])" for i
    using that sm by auto
  obtain m' where m': "move_bytes m (map (\<lambda>i. (L2 ?p + of_nat i, L2 ?p + of_nat (i - ?l)))
        (rev [?s + ?l..<?d + ?l])) = Some m'"
    and moved: "\<And>i. i \<in> set (rev [?s + ?l..<?d + ?l]) \<Longrightarrow>
        m' (L2 ?p + of_nat i) = m (L2 ?p + of_nat (i - ?l))"
    and kept: "\<And>k. k < 2 ^ 17 \<Longrightarrow> k \<notin> (\<lambda>i. i) ` set (rev [?s + ?l..<?d + ?l]) \<Longrightarrow>
        m' (L2 ?p + of_nat k) = m (L2 ?p + of_nat k)"
    using move_offsets [where m = m, OF att bnd rev_upt_desc] by blast
  let ?gap = "map (\<lambda>i. m (L2 p + of_nat i)) [?s..<?s + ?l]"
  have "content m' ?p = take ?s (content m p) @ ?gap @ drop ?s (content m p)"
  proof (rule content_eqI [OF att])
    fix i assume "i < length (take ?s (content m p) @ ?gap @ drop ?s (content m p))"
    then have i: "i < ?d + ?l" using assms(2) by simp
    show "m' (L2 ?p + of_nat i) = (take ?s (content m p) @ ?gap @ drop ?s (content m p)) ! i"
      using i sm assms(1,2) moved [of i] kept [of i]
      by (cases "i < ?s + ?l") (auto simp: nth_append content_nth)
  qed (use assms(2) dl in simp)
  then show ?thesis
    using mb(1) att m' by (intro exI [of _ m'] exI [of _ ?p] exI [of _ ?gap])
      (simp add: EncapsulateTail_def loop)
qed

lemma sample_packet_attached: "attached (sample_packet n)" if "unat n \<le> 2048"
  using that unat_mod_small [of n]
  by (simp add: attached_def sample_packet_def sample_mbuf_def Mbuf_L2_def mbuf_inv_def unat_ucast_small)

lemma small_len: "unat (len :: u64) \<le> unat (data_len mb) \<Longrightarrow> unat len < 2 ^ 16"
  using data_len_small [of mb] by simp

lemma DecapsulateTail_content:
  assumes "attached p" "unat start + unat len \<le> unat (data_len (CMbuf p))"
  shows "\<exists>m' p'. DecapsulateTail m p start len = Some (True, m', p') \<and> attached p' \<and>
    content m' p' = take (unat start) (content m p) @ drop (unat start + unat len) (content m p)"
proof -
  let ?s = "unat start" and ?l = "unat len" and ?d = "unat (data_len (CMbuf p))"
  have inv: "mbuf_inv (CMbuf p)" using assms(1) by (simp add: attached_def)
  obtain mb where mb: "TrimMbuf (CMbuf p) len = (True, mb)" "mbuf_inv mb"
      "unat (data_len mb) = ?d - ?l" "buf_addr mb = buf_addr (CMbuf p)" "data_off mb = data_off (CMbuf p)"
    using TrimMbuf_implements [OF inv small_len [of len "CMbuf p"]] assms(2)
    by (auto simp: TrimMbuf_def implements_def seg_trim_def mbuf_abs_def split: if_splits)
  let ?p = "p\<lparr>CMbuf := mb\<rparr>"
  have att: "attached ?p" using assms(1) mb by (simp add: attached_def Mbuf_L2_def)
  have pl: "unat (GetPacketLen p) = ?d" using GetPacketLen_inv [OF inv] .
  have bnd: "i < 2 ^ 17 \<and> i + ?l < 2 ^ 17" if "i \<in> set [?s..<?d]" for i
    using that assms(2) data_len_small [of "CMbuf p"] by simp
  obtain m' where m': "move_bytes m (map (\<lambda>i. (L2 ?p + of_nat i, L2 ?p + of_nat (i + ?l))) [?s..<?d])
        = Some m'"
    and moved: "\<And>i. i \<in> set [?s..<?d] \<Longrightarrow> m' (L2 ?p + of_nat i) = m (L2 ?p + of_nat (i + ?l))"
    and kept: "\<And>k. k < 2 ^ 17 \<Longrightarrow> k \<notin> (\<lambda>i. i) ` set [?s..<?d] \<Longrightarrow>
        m' (L2 ?p + of_nat k) = m (L2 ?p + of_nat k)"
    using move_offsets [where m = m, OF att bnd upt_asc] by blast
  have "content m' ?p = take ?s (content m p) @ drop (?s + ?l) (content m p)"
  proof (rule content_eqI [OF att])
    fix i assume "i < length (take ?s (content m p) @ drop (?s + ?l) (content m p))"
    then have i: "i < ?d - ?l" using assms(2) by simp
    show "m' (L2 ?p + of_nat i) = (take ?s (content m p) @ drop (?s + ?l) (content m p)) ! i"
      using i assms moved [of i] kept [of i] data_len_small [of "CMbuf p"]
      by (cases "i < ?s") (auto simp: nth_append content_nth add.commute)
  qed (use assms(2) mb(3) in simp)
  then show ?thesis
    using mb(1) att m' by (intro exI [of _ m'] exI [of _ ?p])
      (simp add: DecapsulateTail_def StartAtOffset_def pl)
qed

text \<open>DecapsulateHead removes the given bytes and moves the front of the packet forward: the contents are those of before without the removed range, and the packet starts that many bytes later.\<close>

lemma DecapsulateHead_content:
  assumes "attached p" "unat start + unat len \<le> unat (data_len (CMbuf p))"
  shows "\<exists>m' p'. DecapsulateHead m p start len = Some (True, m', p') \<and>
    Ether p' = Ether p + len \<and> Mbuf_L2 (CMbuf p') = L2 p + len \<and>
    content m' p' = take (unat start) (content m p) @ drop (unat start + unat len) (content m p)"
proof -
  let ?s = "unat start" and ?l = "unat len" and ?d = "unat (data_len (CMbuf p))"
  have inv: "mbuf_inv (CMbuf p)" using assms(1) by (simp add: attached_def)
  have sm: "?l < 2 ^ 16" using small_len [of len "CMbuf p"] assms(2) by simp
  obtain mb where mb: "AdjMbuf (CMbuf p) len = (True, mb)" "mbuf_inv mb"
      "unat (data_len mb) = ?d - ?l" "buf_addr mb = buf_addr (CMbuf p)"
      "unat (data_off mb) = unat (data_off (CMbuf p)) + ?l"
    using AdjMbuf_implements [OF inv sm] assms(2)
    by (auto simp: AdjMbuf_def implements_def seg_adj_def mbuf_abs_def split: if_splits)
  have start: "Mbuf_L2 mb = L2 p + of_nat ?l"
  proof -
    have "ucast (data_off mb) = (of_nat (unat (data_off mb)) :: addr)" by simp
    then show ?thesis using assms(1) mb(4,5)
      by (simp add: Mbuf_L2_def attached_def add.assoc)
  qed
  have idx: "rev [0..sint (start - 1)] = map int (rev [0..<?s])"
    using int_upto_upt [of 0 ?s] assms(2) data_len_small [of "CMbuf p"]
    by (simp add: sint_pred rev_map)
  have bnd: "i + ?l < 2 ^ 17 \<and> i < 2 ^ 17" if "i \<in> set (rev [0..<?s])" for i
    using that assms(2) data_len_small [of "CMbuf p"] by simp
  obtain m' where m': "move_bytes m (map (\<lambda>i. (L2 p + of_nat (i + ?l), L2 p + of_nat i))
        (rev [0..<?s])) = Some m'"
    and moved: "\<And>i. i \<in> set (rev [0..<?s]) \<Longrightarrow> m' (L2 p + of_nat (i + ?l)) = m (L2 p + of_nat i)"
    and kept: "\<And>k. k < 2 ^ 17 \<Longrightarrow> k \<notin> (\<lambda>i. i + ?l) ` set (rev [0..<?s]) \<Longrightarrow>
        m' (L2 p + of_nat k) = m (L2 p + of_nat k)"
    using move_offsets [where m = m, OF assms(1) bnd rev_upt_desc2] by blast
  let ?p = "p\<lparr>CMbuf := mb, Ether := Ether p + len\<rparr>"
  have "content m' ?p = take ?s (content m p) @ drop (?s + ?l) (content m p)"
  proof (rule nth_equalityI)
    fix i assume "i < length (content m' ?p)"
    then have i: "i < ?d - ?l" using mb(3) by simp
    have "content m' ?p ! i = m' (L2 p + of_nat (i + ?l))"
      using i mb(3) start by (simp add: content_def Mbuf_Data_def Mbuf_L2_def ac_simps)
    then show "content m' ?p ! i = (take ?s (content m p) @ drop (?s + ?l) (content m p)) ! i"
      using i assms moved [of i] kept [of "i + ?l"] data_len_small [of "CMbuf p"]
      by (cases "i < ?s") (auto simp: nth_append content_nth ac_simps)
  qed (use assms(2) mb(3) in simp)
  moreover have "DecapsulateHead m p start len = Some (True, m', ?p)"
    using mb(1) m' by (simp add: DecapsulateHead_def StartAtOffset_def idx o_def)
  ultimately show ?thesis using start by (intro exI [of _ m'] exI [of _ ?p]) simp
qed

text \<open>
  \<^verbatim>\<open>EncapsulateHead\<close> computes its addresses from \<^verbatim>\<open>L2\<close>, which stays at the old start of the
  packet: the bytes moved are those behind \<^verbatim>\<open>L2\<close>, and the new room in front keeps what the
  head room held.
\<close>

text \<open>C28: EncapsulateHead does not insert the room it announces: its addresses are computed from L2, which still points to the old start, so the new front of the packet is what the head room held and the bytes in front of the insertion point are overwritten by the bytes behind them.\<close>

theorem EncapsulateHead_content:
  assumes "attached p" "unat start + unat len \<le> unat (data_len (CMbuf p))"
    and "unat len \<le> unat (data_off (CMbuf p))" "0 \<le> pss"
    and "nat pss + unat len \<le> unat (data_off (CMbuf p))"
  shows "\<exists>m' p'. EncapsulateHead pss m p start len = Some (True, m', p') \<and> L2 p' = L2 p \<and>
    content m' p' = load_bytes m (L2 p - len) (unat len)
      @ slice (unat len) (unat start) (content m p) @ drop (unat start) (content m p)"
proof -
  let ?s = "unat start" and ?l = "unat len" and ?d = "unat (data_len (CMbuf p))"
  have inv: "mbuf_inv (CMbuf p)" using assms(1) by (simp add: attached_def)
  have sm: "?l < 2 ^ 16" using small_len [of len "CMbuf p"] assms(2) by simp
  obtain mb where mb: "PrependMbuf pss (CMbuf p) len = (True, mb)" "mbuf_inv mb"
      "unat (data_len mb) = ?d + ?l" "buf_addr mb = buf_addr (CMbuf p)"
      "unat (data_off mb) = unat (data_off (CMbuf p)) - ?l"
    using PrependMbuf_implements [OF inv sm assms(4)] assms(5)
    by (auto simp: PrependMbuf_def implements_def seg_prepend_def mbuf_abs_def split: if_splits)
  have start: "Mbuf_L2 mb = L2 p - of_nat ?l"
  proof -
    have "ucast (data_off mb) = (of_nat (unat (data_off mb)) :: addr)" by simp
    then show ?thesis using assms(1,3) mb(4,5)
      by (simp add: Mbuf_L2_def attached_def of_nat_diff)
  qed
  have bnd: "i < 2 ^ 17 \<and> i + ?l < 2 ^ 17" if "i \<in> set [0..<?s]" for i
    using that assms(2) data_len_small [of "CMbuf p"] by simp
  have sdl: "?s + ?l < 65536" using assms(2) data_len_small [of "CMbuf p"] by simp
  obtain m' where m': "move_bytes m (map (\<lambda>i. (L2 p + of_nat i, L2 p + of_nat (i + ?l))) [0..<?s])
        = Some m'"
    and moved: "\<And>i. i \<in> set [0..<?s] \<Longrightarrow> m' (L2 p + of_nat i) = m (L2 p + of_nat (i + ?l))"
    and kept: "\<And>k. k < 2 ^ 17 \<Longrightarrow> k \<notin> (\<lambda>i. i) ` set [0..<?s] \<Longrightarrow>
        m' (L2 p + of_nat k) = m (L2 p + of_nat k)"
    using move_offsets [where m = m, OF assms(1) bnd upt_asc] by blast
  have below: "m' (L2 p - len + of_nat i) = m (L2 p - len + of_nat i)" if "i < ?l" for i
  proof (rule move_bytes_other [OF m'])
    have "L2 p - len + of_nat i \<noteq> L2 p + of_nat j" if "j < ?s" for j
    proof
      assume "L2 p - len + of_nat i = L2 p + of_nat j"
      then have "(of_nat i :: addr) = of_nat (j + ?l)" by (simp add: algebra_simps)
      then show False using \<open>i < ?l\<close> \<open>j < ?s\<close> sdl
        of_nat_word_inj [of i "j + ?l", where 'a = 64] by simp
    qed
    then show "L2 p - len + of_nat i \<notin> fst ` set (map (\<lambda>i. (L2 p + of_nat i, L2 p + of_nat (i + ?l))) [0..<?s])"
      by (simp add: image_iff)
  qed
  let ?p = "p\<lparr>CMbuf := mb, Ether := Ether p - len\<rparr>"
  have "content m' ?p = load_bytes m (L2 p - len) ?l @ slice ?l ?s (content m p) @ drop ?s (content m p)"
    (is "_ = ?new")
  proof (rule nth_equalityI)
    fix i assume "i < length (content m' ?p)"
    then have i: "i < ?d + ?l" using mb(3) by simp
    have c: "content m' ?p ! i = m' (L2 p - len + of_nat i)"
      using i mb(3) start by (simp add: content_def Mbuf_Data_def Mbuf_L2_def)
    show "content m' ?p ! i = ?new ! i"
    proof (cases "i < ?l")
      case True
      then show ?thesis using c below by (simp add: nth_append)
    next
      case False
      then obtain j where j: "i = ?l + j" by (metis le_add_diff_inverse not_le)
      have "content m' ?p ! i = m' (L2 p + of_nat j)" using c j by simp
      then show ?thesis using i j assms moved [of j] kept [of j] data_len_small [of "CMbuf p"]
        by (cases "j < ?s") (auto simp: nth_append content_nth ac_simps)
    qed
  qed (use assms(2) mb(3) in simp)
  moreover have "EncapsulateHead pss m p start len = Some (True, m', ?p)"
    using mb(1) m' by (simp add: EncapsulateHead_def StartAtOffset_def)
  ultimately show ?thesis by (intro exI [of _ m'] exI [of _ ?p]) simp
qed

theorem EncapsulateHead_content_witness:
  "\<exists>m' p'. EncapsulateHead 0 (\<lambda>_. 0) (sample_packet 60) 14 4 = Some (True, m', p') \<and>
     content m' p' = load_bytes (\<lambda>_. 0) (L2 (sample_packet 60) - 4) 4
       @ slice 4 14 (content (\<lambda>_. 0) (sample_packet 60)) @ drop 14 (content (\<lambda>_. 0) (sample_packet 60))"
  using EncapsulateHead_content [OF sample_packet_attached [of 60], of 14 4 0 "\<lambda>_. 0"]
  by (auto simp: sample_packet_def sample_mbuf_def)

lemma write_bytes_store:
  assumes "\<And>i. i < length bs \<Longrightarrow> a + of_nat i \<noteq> nil"
  shows "write_bytes m a bs = Some (store_bytes m a bs)"
  using assms
proof (induction bs arbitrary: m a)
  case (Cons b bs)
  have "a \<noteq> nil" using Cons.prems [of 0] by simp
  moreover have "a + 1 + of_nat i \<noteq> nil" if "i < length bs" for i
    using Cons.prems [of "Suc i"] that by (simp add: add.assoc)
  ultimately show ?case using Cons.IH [of "a + 1"] by simp
qed simp

lemma PacketBytesChange_content:
  assumes "attached p" "unat start + length bytes \<le> unat (data_len (CMbuf p))"
  shows "\<exists>m'. PacketBytesChange m p start bytes = Some (True, m', p) \<and>
    content m' p = take (unat start) (content m p) @ bytes
      @ drop (unat start + length bytes) (content m p)"
proof -
  let ?s = "unat start" and ?n = "length bytes" and ?d = "unat (data_len (CMbuf p))"
  have inv: "mbuf_inv (CMbuf p)" using assms(1) by (simp add: attached_def)
  have n: "unat (of_nat ?n :: u64) = ?n"
    using assms(2) data_len_small [of "CMbuf p"] by (simp add: unat_of_nat_small)
  then have "unat (start + of_nat ?n) = ?s + ?n"
    using assms(2) data_len_small [of "CMbuf p"] by (simp add: unat_add_exact)
  then have guard: "\<not> start + of_nat ?n > GetPacketLen p"
    using assms(2) GetPacketLen_inv [OF inv] by (simp add: word_less_nat_alt)
  let ?a = "L2 p + start" and ?m = "store_bytes m (L2 p + start) bytes"
  have a: "?a + of_nat i = L2 p + of_nat (?s + i)" for i by (simp add: add.assoc)
  have "?a + of_nat i \<noteq> nil" if "i < ?n" for i
    unfolding a using that assms(2) data_len_small [of "CMbuf p"]
    by (intro attached_offset_nonnil [OF assms(1)]) simp
  then have "write_bytes m ?a bytes = Some ?m" by (rule write_bytes_store)
  moreover have "content ?m p = take ?s (content m p) @ bytes @ drop (?s + ?n) (content m p)"
  proof (rule content_eqI [OF assms(1)])
    fix i assume "i < length (take ?s (content m p) @ bytes @ drop (?s + ?n) (content m p))"
    then have i: "i < ?d" using assms(2) by simp
    show "?m (L2 p + of_nat i) = (take ?s (content m p) @ bytes @ drop (?s + ?n) (content m p)) ! i"
    proof (cases "?s \<le> i \<and> i < ?s + ?n")
      case True
      then have "?m (L2 p + of_nat i) = bytes ! (i - ?s)"
        using store_bytes_nth [of "i - ?s" bytes m ?a] assms(2) data_len_small [of "CMbuf p"] a [of "i - ?s"]
        by auto
      then show ?thesis using True assms(2) by (auto simp: nth_append)
    next
      case False
      have "L2 p + of_nat i \<notin> region ?a ?n"
        using False i assms data_len_small [of "CMbuf p"] attached_offset_inject [OF assms(1)]
        by (auto simp: in_region a simp del: of_nat_add)
      then show ?thesis using False i assms
        by (auto simp: nth_append content_nth store_bytes_other)
    qed
  qed (use assms(2) in simp)
  ultimately show ?thesis using guard by (simp add: PacketBytesChange_def StartAtOffset_def)
qed

end
