(* ===== verification/Ring.thy ===== *)
theory Ring
  imports Errors Memory
begin

text \<open>
  Package ring (src/ring/ring.go, src/ring/enqueue.go, src/ring/dequeue.go,
  src/ring/common.go).  The DPDK ring is not part of the repository: its operations are the
  fields of \<open>rte_ring\<close>, in the three flavours default, multi and single producer or
  consumer, acting on a ring state \<open>'r\<close>.
\<close>

datatype sync = Def | Multi | Single

record 'r rte_ring =
  enqueue_bulk :: "sync \<Rightarrow> addr list \<Rightarrow> 'r \<Rightarrow> (u32 \<times> u32) \<times> 'r"
  enqueue_burst :: "sync \<Rightarrow> addr list \<Rightarrow> 'r \<Rightarrow> (u32 \<times> u32) \<times> 'r"
  dequeue_bulk :: "sync \<Rightarrow> addr list \<Rightarrow> 'r \<Rightarrow> (u32 \<times> u32) \<times> addr list \<times> 'r"
  dequeue_burst :: "sync \<Rightarrow> addr list \<Rightarrow> 'r \<Rightarrow> (u32 \<times> u32) \<times> addr list \<times> 'r"

section \<open>Enqueue and dequeue\<close>

text \<open>\<^verbatim>\<open>args\<close> takes the address of the first element: an empty slice panics.\<close>

definition args :: "addr list \<Rightarrow> addr list option" where
  "args obj = (if obj = [] then None else Some obj)"

definition EnqueueBulk :: "'r rte_ring \<Rightarrow> sync \<Rightarrow> addr list \<Rightarrow> 'r \<Rightarrow> ((u32 \<times> u32) \<times> 'r) option" where
  "EnqueueBulk C sy obj r = map_option (\<lambda>a. enqueue_bulk C sy a r) (args obj)"

definition EnqueueBurst :: "'r rte_ring \<Rightarrow> sync \<Rightarrow> addr list \<Rightarrow> 'r \<Rightarrow> ((u32 \<times> u32) \<times> 'r) option" where
  "EnqueueBurst C sy obj r = map_option (\<lambda>a. enqueue_burst C sy a r) (args obj)"

definition DequeueBulk ::
    "'r rte_ring \<Rightarrow> sync \<Rightarrow> addr list \<Rightarrow> 'r \<Rightarrow> ((u32 \<times> u32) \<times> addr list \<times> 'r) option" where
  "DequeueBulk C sy obj r = map_option (\<lambda>a. dequeue_bulk C sy a r) (args obj)"

definition DequeueBurst ::
    "'r rte_ring \<Rightarrow> sync \<Rightarrow> addr list \<Rightarrow> 'r \<Rightarrow> ((u32 \<times> u32) \<times> addr list \<times> 'r) option" where
  "DequeueBurst C sy obj r = map_option (\<lambda>a. dequeue_burst C sy a r) (args obj)"

definition Enqueue :: "'r rte_ring \<Rightarrow> sync \<Rightarrow> addr \<Rightarrow> 'r \<Rightarrow> (bool \<times> 'r) option" where
  "Enqueue C sy obj r = do {
     ((n, _), r') \<leftarrow> EnqueueBulk C sy [obj] r;
     Some (n \<noteq> 0, r') }"

definition Dequeue :: "'r rte_ring \<Rightarrow> sync \<Rightarrow> 'r \<Rightarrow> ((addr \<times> bool) \<times> 'r) option" where
  "Dequeue C sy r = do {
     ((n, _), objs, r') \<leftarrow> DequeueBulk C sy [nil] r;
     (if objs = [] then None else Some ((hd objs, n \<noteq> 0), r')) }"

section \<open>Creation\<close>

record ringConf =
  cname :: string
  socket :: int
  align :: u32
  flags :: u32

type_synonym Option = "ringConf \<Rightarrow> ringConf"

definition OptAlign :: "u64 \<Rightarrow> Option" where
  "OptAlign a rc = rc\<lparr>align := ucast a\<rparr>"

definition OptSocket :: "u64 \<Rightarrow> Option" where
  "OptSocket s rc = rc\<lparr>socket := sint (ucast s :: u32)\<rparr>"

definition OptFlag :: "u64 \<Rightarrow> Option" where
  "OptFlag f rc = rc\<lparr>flags := flags rc OR ucast f\<rparr>"

definition makeOpts :: "int \<Rightarrow> string \<Rightarrow> Option list \<Rightarrow> ringConf" where
  "makeOpts SOCKET_ID_ANY name opts =
     fold (\<lambda>f rc. f rc) opts \<lparr>cname = name, socket = SOCKET_ID_ANY, align = 0, flags = 0\<rparr>"

text \<open>
  The C functions used for creation, on a world \<open>'w\<close>: a result that is nil comes with
  \<^verbatim>\<open>rte_errno\<close>.
\<close>

record 'w ring_api =
  SOCKET_ID_ANY :: int
  rte_ring_create :: "string \<Rightarrow> u32 \<Rightarrow> int \<Rightarrow> u32 \<Rightarrow> 'w \<Rightarrow> (int + addr) \<times> 'w"
  rte_ring_init :: "addr \<Rightarrow> string \<Rightarrow> u32 \<Rightarrow> u32 \<Rightarrow> 'w \<Rightarrow> int \<times> 'w"
  rte_ring_get_memsize :: "u32 \<Rightarrow> int"
  rte_zmalloc_socket :: "string \<Rightarrow> u64 \<Rightarrow> u32 \<Rightarrow> int \<Rightarrow> 'w \<Rightarrow> addr \<times> 'w"
  rte_free :: "addr \<Rightarrow> 'w \<Rightarrow> 'w"

definition Create ::
    "rte_errnos \<Rightarrow> 'w ring_api \<Rightarrow> string \<Rightarrow> u64 \<Rightarrow> Option list \<Rightarrow> 'w \<Rightarrow> (addr \<times> error) \<times> 'w" where
  "Create c A name count opts w =
     (let rc = makeOpts (SOCKET_ID_ANY A) name opts in
      case rte_ring_create A (cname rc) (ucast count) (socket rc) (flags rc) w of
        (Inl e, w') \<Rightarrow> ((nil, RteErrno c e), w')
      | (Inr r, w') \<Rightarrow> ((r, None), w'))"

definition Ring_Init ::
    "rte_errnos \<Rightarrow> 'w ring_api \<Rightarrow> addr \<Rightarrow> string \<Rightarrow> u64 \<Rightarrow> Option list \<Rightarrow> 'w \<Rightarrow> error \<times> 'w" where
  "Ring_Init c A r name count opts w =
     (let rc = makeOpts (SOCKET_ID_ANY A) name opts;
          (n, w') = rte_ring_init A r (cname rc) (ucast count) (flags rc) w
      in (IntToErr c n, w'))"

definition GetMemSize :: "rte_errnos \<Rightarrow> 'w ring_api \<Rightarrow> u64 \<Rightarrow> int \<times> error" where
  "GetMemSize c A count = IntOrErr c (rte_ring_get_memsize A (ucast count))"

definition NewEAL ::
    "rte_errnos \<Rightarrow> 'w ring_api \<Rightarrow> string \<Rightarrow> u64 \<Rightarrow> Option list \<Rightarrow> 'w \<Rightarrow> (addr \<times> error) \<times> 'w" where
  "NewEAL c A name count opts w =
     (case GetMemSize c A count of
        (_, Some e) \<Rightarrow> ((nil, Some e), w)
      | (msize, None) \<Rightarrow>
          let rc = makeOpts (SOCKET_ID_ANY A) name opts;
              (r, w1) = rte_zmalloc_socket A (cname rc) (of_int msize) (align rc) (socket rc) w in
          if r = nil then ((nil, Some ENOMEM), w1)
          else (case Ring_Init c A r name count opts w1 of
                  (Some e, w2) \<Rightarrow> ((nil, Some e), rte_free A r w2)
                | (None, w2) \<Rightarrow> ((r, None), w2)))"

section \<open>What the DPDK ring promises\<close>

text \<open>
  The documented behaviour of \<^verbatim>\<open>rte_ring\<close> seen by one caller: a bounded FIFO queue.  Bulk
  operations move all objects or none, burst operations as many as possible; the second
  result is the space, or the number of entries, that remains.
\<close>

definition ring_contract :: "'r rte_ring \<Rightarrow> ('r \<Rightarrow> addr list) \<Rightarrow> ('r \<Rightarrow> nat) \<Rightarrow> bool" where
  "ring_contract C contents capacity \<longleftrightarrow>
     (\<forall>r. length (contents r) \<le> capacity r \<and> capacity r < 2 ^ 32) \<and>
     (\<forall>sy xs r n free r'. enqueue_bulk C sy xs r = ((n, free), r') \<longrightarrow>
        capacity r' = capacity r \<and>
        (if length (contents r) + length xs \<le> capacity r
         then n = of_nat (length xs) \<and> contents r' = contents r @ xs
         else n = 0 \<and> contents r' = contents r) \<and>
        unat free = capacity r - length (contents r')) \<and>
     (\<forall>sy xs r n free r'. enqueue_burst C sy xs r = ((n, free), r') \<longrightarrow>
        capacity r' = capacity r \<and>
        (let k = min (length xs) (capacity r - length (contents r)) in
         n = of_nat k \<and> contents r' = contents r @ take k xs) \<and>
        unat free = capacity r - length (contents r')) \<and>
     (\<forall>sy xs r n avail ys r'. dequeue_bulk C sy xs r = ((n, avail), ys, r') \<longrightarrow>
        capacity r' = capacity r \<and>
        (if length xs \<le> length (contents r)
         then n = of_nat (length xs) \<and> ys = take (length xs) (contents r) \<and>
              contents r' = drop (length xs) (contents r)
         else n = 0 \<and> ys = xs \<and> contents r' = contents r) \<and>
        unat avail = length (contents r')) \<and>
     (\<forall>sy xs r n avail ys r'. dequeue_burst C sy xs r = ((n, avail), ys, r') \<longrightarrow>
        capacity r' = capacity r \<and>
        (let k = min (length xs) (length (contents r)) in
         n = of_nat k \<and> ys = take k (contents r) @ drop k xs \<and> contents r' = drop k (contents r)) \<and>
        unat avail = length (contents r'))"

lemma contract_enqueue:
  assumes "ring_contract C contents capacity" "enqueue_bulk C sy xs r = ((n, free), r')"
  shows "capacity r' = capacity r"
    "if length (contents r) + length xs \<le> capacity r
     then n = of_nat (length xs) \<and> contents r' = contents r @ xs
     else n = 0 \<and> contents r' = contents r"
  using assms unfolding ring_contract_def by meson+

lemma contract_dequeue:
  assumes "ring_contract C contents capacity" "dequeue_bulk C sy xs r = ((n, avail), ys, r')"
  shows "capacity r' = capacity r"
    "if length xs \<le> length (contents r)
     then n = of_nat (length xs) \<and> ys = take (length xs) (contents r) \<and> contents r' = drop (length xs) (contents r)
     else n = 0 \<and> ys = xs \<and> contents r' = contents r"
  using assms unfolding ring_contract_def by meson+

lemma Enqueue_spec:
  assumes "ring_contract C contents capacity"
  shows "\<exists>r'. Enqueue C sy obj r = Some (length (contents r) < capacity r, r') \<and>
    capacity r' = capacity r \<and>
    contents r' = (if length (contents r) < capacity r then contents r @ [obj] else contents r)"
proof -
  obtain n free r' where e: "enqueue_bulk C sy [obj] r = ((n, free), r')"
    by (metis prod.exhaust_sel)
  then show ?thesis
    using contract_enqueue [OF assms e]
    by (auto simp: Enqueue_def EnqueueBulk_def args_def split: if_splits)
qed

lemma Dequeue_spec:
  assumes "ring_contract C contents capacity"
  shows "\<exists>r'. Dequeue C sy r = Some (case contents r of [] \<Rightarrow> (nil, False) | x # _ \<Rightarrow> (x, True), r') \<and>
    capacity r' = capacity r \<and> contents r' = tl (contents r)"
proof -
  obtain n avail ys r' where e: "dequeue_bulk C sy [nil] r = ((n, avail), ys, r')"
    by (metis prod.exhaust_sel)
  show ?thesis
    using contract_dequeue [OF assms e] e
    by (cases "contents r") (auto simp: Dequeue_def DequeueBulk_def args_def drop_Suc)
qed

section \<open>Traffic through a ring\<close>

datatype ring_op = Put sync addr | Get sync

text \<open>Runs the operations; collects what was accepted and what came out.\<close>

fun ring_run :: "'r rte_ring \<Rightarrow> ring_op list \<Rightarrow> 'r \<Rightarrow> (addr list \<times> addr list \<times> 'r) option" where
  "ring_run C [] r = Some ([], [], r)"
| "ring_run C (Put sy x # ops) r = do {
     (ok, r1) \<leftarrow> Enqueue C sy x r;
     (ins, outs, r2) \<leftarrow> ring_run C ops r1;
     Some (if ok then x # ins else ins, outs, r2) }"
| "ring_run C (Get sy # ops) r = do {
     ((x, ok), r1) \<leftarrow> Dequeue C sy r;
     (ins, outs, r2) \<leftarrow> ring_run C ops r1;
     Some (ins, if ok then x # outs else outs, r2) }"

lemma ring_run_fifo:
  assumes "ring_contract C contents capacity"
  shows "\<exists>ins outs r'. ring_run C ops r = Some (ins, outs, r') \<and> contents r @ ins = outs @ contents r'
    \<and> length (contents r') \<le> capacity r"
proof (induction ops arbitrary: r)
  case Nil
  then show ?case using assms by (simp add: ring_contract_def)
next
  case (Cons op ops)
  show ?case
  proof (cases op)
    case (Put sy x)
    obtain r1 where e: "Enqueue C sy x r = Some (length (contents r) < capacity r, r1)" "capacity r1 = capacity r"
      "contents r1 = (if length (contents r) < capacity r then contents r @ [x] else contents r)"
      using Enqueue_spec [OF assms] by blast
    obtain ins outs r2 where "ring_run C ops r1 = Some (ins, outs, r2)" "contents r1 @ ins = outs @ contents r2"
      "length (contents r2) \<le> capacity r1"
      using Cons.IH [of r1] by auto
    then show ?thesis using e Put by (auto split: if_splits)
  next
    case (Get sy)
    obtain r1 where e: "Dequeue C sy r = Some (case contents r of [] \<Rightarrow> (nil, False) | x # _ \<Rightarrow> (x, True), r1)"
      "capacity r1 = capacity r" "contents r1 = tl (contents r)"
      using Dequeue_spec [OF assms] by blast
    obtain ins outs r2 where "ring_run C ops r1 = Some (ins, outs, r2)" "contents r1 @ ins = outs @ contents r2"
      "length (contents r2) \<le> capacity r1"
      using Cons.IH [of r1] by auto
    then show ?thesis using e Get by (cases "contents r") auto
  qed
qed

text \<open>A queue that meets the contract: a list with a capacity of seven entries.\<close>

definition list_put :: "nat \<Rightarrow> addr list \<Rightarrow> addr list \<Rightarrow> (u32 \<times> u32) \<times> addr list" where
  "list_put k xs q = ((of_nat k, of_nat (7 - (length q + k))), q @ take k xs)"

definition list_get :: "nat \<Rightarrow> addr list \<Rightarrow> addr list \<Rightarrow> (u32 \<times> u32) \<times> addr list \<times> addr list" where
  "list_get k xs q = ((of_nat k, of_nat (length q - k)), take k q @ drop k xs, drop k q)"

definition list_ring :: "addr list rte_ring" where
  "list_ring = \<lparr>
     enqueue_bulk = (\<lambda>_ xs r. let q = take 7 r in
       list_put (if length q + length xs \<le> 7 then length xs else 0) xs q),
     enqueue_burst = (\<lambda>_ xs r. let q = take 7 r in list_put (min (length xs) (7 - length q)) xs q),
     dequeue_bulk = (\<lambda>_ xs r. let q = take 7 r in
       list_get (if length xs \<le> length q then length xs else 0) xs q),
     dequeue_burst = (\<lambda>_ xs r. let q = take 7 r in list_get (min (length xs) (length q)) xs q)\<rparr>"

lemma list_ring_contract: "ring_contract list_ring (take 7) (\<lambda>_. 7)"
proof -
  have small: "k \<le> 7 \<Longrightarrow> unat (of_nat k :: u32) = k" for k by (simp add: unat_of_nat)
  show ?thesis
    unfolding ring_contract_def list_ring_def list_put_def list_get_def
    by (auto simp: Let_def small min_def take_Cons' simp del: of_nat_diff of_nat_add)
qed

section \<open>Creation does not leak\<close>

text \<open>
  Live allocations as the EAL heap counts them: \<^verbatim>\<open>rte_zmalloc_socket\<close> adds its result,
  \<^verbatim>\<open>rte_free\<close> removes it, initializing a ring allocates nothing.
\<close>

definition heap_contract :: "'w ring_api \<Rightarrow> ('w \<Rightarrow> addr set) \<Rightarrow> bool" where
  "heap_contract A live \<longleftrightarrow>
     (\<forall>n sz al so w p w'. rte_zmalloc_socket A n sz al so w = (p, w') \<longrightarrow>
        (if p = nil then live w' = live w else p \<notin> live w \<and> live w' = insert p (live w))) \<and>
     (\<forall>p w. live (rte_free A p w) = live w - {p}) \<and>
     (\<forall>r n ct fl w rc w'. rte_ring_init A r n ct fl w = (rc, w') \<longrightarrow> live w' = live w)"

lemma heap_laws:
  assumes "heap_contract A live"
  shows "rte_zmalloc_socket A n sz al so w = (p, w') \<Longrightarrow>
      (if p = nil then live w' = live w else p \<notin> live w \<and> live w' = insert p (live w))"
    and "live (rte_free A p w) = live w - {p}"
    and "rte_ring_init A r n ct fl w = (rc, w') \<Longrightarrow> live w' = live w"
  using assms unfolding heap_contract_def by meson+

lemma NewEAL_heap:
  assumes "heap_contract A live" "NewEAL c A name count opts w = ((r, e), w')"
  shows "if e = None then r \<noteq> nil \<and> r \<notin> live w \<and> live w' = insert r (live w)
     else r = nil \<and> live w' = live w"
proof -
  note H = heap_laws [OF assms(1)]
  obtain msize me where m: "GetMemSize c A count = (msize, me)" by (cases "GetMemSize c A count")
  show ?thesis
  proof (cases me)
    case (Some x)
    then show ?thesis using assms(2) m by (auto simp: NewEAL_def)
  next
    case None
    let ?rc = "makeOpts (SOCKET_ID_ANY A) name opts"
    obtain p w1 where p: "rte_zmalloc_socket A (cname ?rc) (of_int msize) (align ?rc) (socket ?rc) w = (p, w1)"
      by (metis prod.exhaust_sel)
    have live1: "if p = nil then live w1 = live w else p \<notin> live w \<and> live w1 = insert p (live w)"
      by (rule H(1) [OF p])
    obtain ie w2 where i: "Ring_Init c A p name count opts w1 = (ie, w2)"
      by (cases "Ring_Init c A p name count opts w1")
    have live2: "live w2 = live w1"
    proof -
      obtain n w3 where n: "rte_ring_init A p (cname ?rc) (ucast count) (flags ?rc) w1 = (n, w3)"
        by (metis prod.exhaust_sel)
      then have "w2 = w3" using i by (simp add: Ring_Init_def Let_def)
      then show ?thesis using H(3) [OF n] by simp
    qed
    have res: "((r, e), w') = (if p = nil then ((nil, Some ENOMEM), w1)
        else (case ie of Some x \<Rightarrow> ((nil, Some x), rte_free A p w2) | None \<Rightarrow> ((p, None), w2)))"
      using assms(2) m None p i by (cases ie) (auto simp: NewEAL_def Let_def split: if_splits)
    have free: "live (rte_free A p w2) = live w2 - {p}" by (rule H(2))
    show ?thesis
      using res live1 live2 free by (cases ie) (auto split: if_splits)
  qed
qed

lemma makeOpts_flags: "flags (makeOpts any name (map OptFlag fs)) = fold (\<lambda>f a. a OR ucast f) fs 0"
proof -
  have "flags (fold (\<lambda>f rc. f rc) (map OptFlag fs) rc) = fold (\<lambda>f a. a OR ucast f) fs (flags rc)" for rc
    by (induction fs arbitrary: rc) (simp_all add: OptFlag_def)
  then show ?thesis by (simp add: makeOpts_def)
qed

text \<open>Through any sequence of single-object enqueues and dequeues in any flavour, what comes out of a ring and what is left in it is what was in it followed by what was accepted, in order and without loss or duplication, and the ring never exceeds its capacity.\<close>

lemma ring_is_fifo:
  assumes "ring_contract C contents capacity"
  shows "\<exists>ins outs r'. ring_run C ops r = Some (ins, outs, r') \<and> contents r @ ins = outs @ contents r'
    \<and> length (contents r') \<le> capacity r"
  using assms by (rule ring_run_fifo)

text \<open>NewEAL either returns a ring that is a fresh allocation, or returns an error and leaves the EAL heap as it was, freeing the block when the initialization of the ring fails.\<close>

lemma NewEAL_does_not_leak:
  assumes "heap_contract A live" "NewEAL c A name count opts w = ((r, e), w')"
  shows "if e = None then r \<noteq> nil \<and> r \<notin> live w \<and> live w' = insert r (live w)
     else r = nil \<and> live w' = live w"
  using assms by (rule NewEAL_heap)

definition failing_api :: "addr set ring_api" where
  "failing_api = \<lparr>SOCKET_ID_ANY = -1, rte_ring_create = (\<lambda>_ _ _ _ w. (Inl 12, w)), rte_ring_init = (\<lambda>_ _ _ _ w. (-22, w)),
     rte_ring_get_memsize = (\<lambda>_. 64), rte_zmalloc_socket = (\<lambda>_ _ _ _ w. if 0x1000 \<in> w then (nil, w) else (0x1000, insert 0x1000 w)),
     rte_free = (\<lambda>p w. w - {p})\<rparr>"

end
