(* ===== verification/Splitter.thy ===== *)
theory Splitter
  imports Errors Fmt
begin

text \<open>
  Word splitting with quotes (src/common/parse.go) and the parsing of EAL command lines
  (\<^verbatim>\<open>parseCmd\<close> of src/eal/parse.go).  Text is a sequence of bytes, one character each, in which
  runes are encoded as UTF-8; a rune is its number.  Go's \<^verbatim>\<open>utf8.DecodeRune\<close>,
  \<^verbatim>\<open>bytes.IndexFunc\<close>, \<^verbatim>\<open>unicode.IsSpace\<close> and \<^verbatim>\<open>bufio.Scanner\<close> with its buffer of at most 64 KiB
  are modelled first.
\<close>

section \<open>Runes\<close>

abbreviation code :: "char \<Rightarrow> nat" where
  "code c \<equiv> of_char c"

definition between :: "nat \<Rightarrow> char \<Rightarrow> nat \<Rightarrow> bool" where
  "between lo c hi \<longleftrightarrow> lo \<le> code c \<and> code c \<le> hi"

definition RuneError :: nat where
  "RuneError = 0xFFFD"

text \<open>The rune at the start of the data and its width; a byte that begins no rune is an error of width one.\<close>

fun DecodeRune :: "string \<Rightarrow> nat \<times> nat" where
  "DecodeRune [] = (RuneError, 0)"
| "DecodeRune (c0 # cs) =
     (if code c0 < 0x80 then (code c0, 1)
      else if between 0xC2 c0 0xDF then
        (case cs of c1 # _ \<Rightarrow> if between 0x80 c1 0xBF then (64 * (code c0 mod 32) + code c1 mod 64, 2) else (RuneError, 1)
         | _ \<Rightarrow> (RuneError, 1))
      else if between 0xE0 c0 0xEF then
        (case cs of c1 # c2 # _ \<Rightarrow>
           if between (if code c0 = 0xE0 then 0xA0 else 0x80) c1 (if code c0 = 0xED then 0x9F else 0xBF) \<and> between 0x80 c2 0xBF
           then (4096 * (code c0 mod 16) + 64 * (code c1 mod 64) + code c2 mod 64, 3) else (RuneError, 1)
         | _ \<Rightarrow> (RuneError, 1))
      else if between 0xF0 c0 0xF4 then
        (case cs of c1 # c2 # c3 # _ \<Rightarrow>
           if between (if code c0 = 0xF0 then 0x90 else 0x80) c1 (if code c0 = 0xF4 then 0x8F else 0xBF) \<and>
              between 0x80 c2 0xBF \<and> between 0x80 c3 0xBF
           then (262144 * (code c0 mod 8) + 4096 * (code c1 mod 64) + 64 * (code c2 mod 64) + code c3 mod 64, 4) else (RuneError, 1)
         | _ \<Rightarrow> (RuneError, 1))
      else (RuneError, 1))"

lemma DecodeRune_width: "0 < snd (DecodeRune (c # cs))"
  by (simp split: list.split)

declare DecodeRune.simps(2) [simp del]

text \<open>\<^verbatim>\<open>bytes.IndexFunc\<close> and \<^verbatim>\<open>bytes.IndexRune\<close>: the index of a byte; \<^term>\<open>None\<close> is the result -1.\<close>

function IndexFunc :: "(nat \<Rightarrow> bool) \<Rightarrow> string \<Rightarrow> nat option" where
  "IndexFunc f [] = None"
| "IndexFunc f (c # cs) = (let (r, wid) = DecodeRune (c # cs) in
     if f r then Some 0 else map_option ((+) wid) (IndexFunc f (drop wid (c # cs))))"
  by pat_completeness auto
termination
proof (relation "measure (\<lambda>(f, cs). length cs)")
  fix f :: "nat \<Rightarrow> bool" and c cs x r wid
  assume "x = DecodeRune (c # cs)" "(r, wid) = x"
  then have "0 < wid" using DecodeRune_width [of c cs] by (metis snd_conv)
  then show "((f, drop wid (c # cs)), f, c # cs) \<in> measure (\<lambda>(f, cs). length cs)" by simp
qed simp

definition IndexRune :: "string \<Rightarrow> nat \<Rightarrow> nat option" where
  "IndexRune data r = IndexFunc (\<lambda>x. x = r) data"

text \<open>\<^verbatim>\<open>unicode.IsSpace\<close>: the white space of Latin-1 and the runes of category Z and property Pattern\_White\_Space.\<close>

definition unicode_IsSpace :: "nat \<Rightarrow> bool" where
  "unicode_IsSpace r \<longleftrightarrow> r \<in> {0x09, 0x0A, 0x0B, 0x0C, 0x0D, 0x20, 0x85, 0xA0, 0x1680, 0x2028, 0x2029, 0x202F, 0x205F, 0x3000}
     \<or> 0x2000 \<le> r \<and> r \<le> 0x200A"

section \<open>The splitter (src/common/parse.go)\<close>

record Splitter =
  IsSpace :: "nat \<Rightarrow> bool"
  IsQuote :: "nat \<Rightarrow> nat option"
  AllowOpenQuote :: bool

definition DefaultSplitter :: Splitter where
  "DefaultSplitter = \<lparr>
     IsSpace = unicode_IsSpace,
     IsQuote = (\<lambda>r. if r = 0x22 then Some 0x22 else if r = 0x27 then Some 0x27 else None),
     AllowOpenQuote = False\<rparr>"

definition isSpaceOrQuote :: "Splitter \<Rightarrow> nat \<Rightarrow> bool" where
  "isSpaceOrQuote s r \<longleftrightarrow> IsQuote s r \<noteq> None \<or> IsSpace s r"

text \<open>
  The loop of the split function on the rest of the token, the data behind its first \<open>n\<close> bytes.  \<open>Space k wid\<close>: the
  token ends before the white space at \<open>k\<close>, which is \<open>wid\<close> bytes wide; \<open>NoMore quoted\<close>: the data is exhausted.
  Behind a closing quote the code steps on by the width of the opening one, which can leave the data:
  \<open>OutOfRange\<close> is the panic of slicing there.
\<close>

datatype scan_end = Space nat nat | NoMore bool | OutOfRange

lemma IndexFunc_bound: "IndexFunc f cs = Some k \<Longrightarrow> k < length cs"
proof (induction f cs arbitrary: k rule: IndexFunc.induct)
  case (2 f c cs)
  obtain r wid where d: "DecodeRune (c # cs) = (r, wid)" by fastforce
  show ?case
  proof (cases "f r")
    case False
    then obtain j where "IndexFunc f (drop wid (c # cs)) = Some j" "k = wid + j" using "2.prems" d by auto
    then show ?thesis using "2.IH" [OF d [symmetric] refl False] by fastforce
  qed (use "2.prems" d in simp)
qed simp

function split_loop :: "Splitter \<Rightarrow> string \<Rightarrow> nat \<Rightarrow> scan_end" where
  "split_loop s rest n = (case IndexFunc (isSpaceOrQuote s) rest of
     None \<Rightarrow> NoMore False
   | Some k \<Rightarrow> (let (r, wid) = DecodeRune (drop k rest) in
      (case IsQuote s r of
         Some q \<Rightarrow>
          (case IndexRune (drop (k + wid) rest) q of
             None \<Rightarrow> NoMore True
           | Some j \<Rightarrow> if length rest < k + wid + j + wid then OutOfRange
                       else split_loop s (drop (k + wid + j + wid) rest) (n + k + wid + j + wid))
       | None \<Rightarrow> Space (n + k) wid)))"
  by auto
termination
proof (relation "measure (\<lambda>(s, rest, n). length rest)")
  fix s :: Splitter and rest :: string and n k x r wid q j
  assume k: "IndexFunc (isSpaceOrQuote s) rest = Some k" and x: "x = DecodeRune (drop k rest)" "(r, wid) = x"
  have "k < length rest" using IndexFunc_bound [OF k] .
  then obtain c cs where "drop k rest = c # cs" by (cases "drop k rest") auto
  then have "0 < wid" using x DecodeRune_width [of c cs] by (metis snd_conv)
  then show "((s, drop (k + wid + j + wid) rest, n + k + wid + j + wid), s, rest, n) \<in> measure (\<lambda>(s, rest, n). length rest)"
    using \<open>k < length rest\<close> by simp
qed simp

declare split_loop.simps [simp del]

text \<open>The generated split function: advance, token and error.\<close>

definition SplitFunc :: "Splitter \<Rightarrow> string \<Rightarrow> bool \<Rightarrow> (nat \<times> string option \<times> error) option" where
  "SplitFunc s data0 atEOF = (case IndexFunc (\<lambda>r. \<not> IsSpace s r) data0 of
     None \<Rightarrow> Some (length data0, None, None)
   | Some n \<Rightarrow>
      let advance = n; data = drop n data0 in
      (case split_loop s data 0 of
         OutOfRange \<Rightarrow> None
       | Space k wid \<Rightarrow> Some (advance + k + wid, Some (take k data), None)
       | NoMore quoted \<Rightarrow>
          if \<not> atEOF then Some (advance, None, None)
          else if \<not> quoted \<or> AllowOpenQuote s then Some (advance + length data, Some data, None)
          else Some (advance + length data, Some data, Some ErrOpenQuote)))"

section \<open>The scanner of package bufio\<close>

text \<open>
  The buffer has \<open>cap\<close> bytes; \<open>pend\<close> are the unread ones, which begin at \<open>start\<close>, and \<open>rest\<close> is what is left of the
  string that is read.  Before it reads, the scanner moves the unread bytes to the front when the buffer is used up or
  mostly consumed, and doubles a full buffer, from 4096 bytes up to the limit.
\<close>

definition MaxScanTokenSize :: nat where
  "MaxScanTokenSize = 65536"

definition ErrTooLong :: go_error where
  "ErrTooLong = ErrMsg ''bufio.Scanner: token too long''"

definition refill :: "nat \<Rightarrow> nat \<Rightarrow> string \<Rightarrow> string \<Rightarrow> go_error + (nat \<times> nat \<times> string \<times> string \<times> bool)" where
  "refill cap start pend rest =
     (let start = (if 0 < start \<and> (start + length pend = cap \<or> cap div 2 < start) then 0 else start) in
      if start + length pend = cap \<and> MaxScanTokenSize \<le> cap then Inl ErrTooLong
      else let (cap, start) = (if start + length pend = cap
              then (min (if 2 * cap = 0 then 4096 else 2 * cap) MaxScanTokenSize, 0) else (cap, start));
            n = min (cap - (start + length pend)) (length rest)
        in if n = 0 \<and> rest \<noteq> [] then Inl (ErrMsg ''multiple Read calls return no data or error'')
           else Inr (cap, start, pend @ take n rest, drop n rest, rest = []))"

text \<open>A read takes at least one byte, or finds the end.\<close>

lemma refill_cases:
  assumes "refill cap start pend rest = Inr (cap1, start1, pend1, rest1, eof1)"
  obtains n where "pend1 = pend @ take n rest" "rest1 = drop n rest" "eof1 \<longleftrightarrow> rest = []" "n \<noteq> 0 \<or> rest = []" "n \<le> length rest"
proof -
  define start' where "start' = (if 0 < start \<and> (start + length pend = cap \<or> cap div 2 < start) then 0 else start)"
  define cs where "cs = (if start' + length pend = cap
      then (min (if 2 * cap = 0 then 4096 else 2 * cap) MaxScanTokenSize, 0) else (cap, start'))"
  define n where "n = min (fst cs - (snd cs + length pend)) (length rest)"
  have "refill cap start pend rest =
      (if start' + length pend = cap \<and> MaxScanTokenSize \<le> cap then Inl ErrTooLong
       else if n = 0 \<and> rest \<noteq> [] then Inl (ErrMsg ''multiple Read calls return no data or error'')
       else Inr (fst cs, snd cs, pend @ take n rest, drop n rest, rest = []))"
    unfolding refill_def Let_def start'_def [symmetric] cs_def [symmetric] n_def case_prod_unfold by (rule refl)
  moreover have "n \<le> length rest" by (simp add: n_def)
  ultimately show thesis using assms by (intro that [of n]) (auto split: if_splits)
qed

text \<open>
  All calls of \<^verbatim>\<open>Scan\<close>: the tokens, and \<^verbatim>\<open>Err\<close>.  An empty token without an advance, which the split function never
  returns, would be returned again and again, here \<^term>\<open>None\<close>.
\<close>

function Scan_all :: "Splitter \<Rightarrow> nat \<Rightarrow> nat \<Rightarrow> string \<Rightarrow> string \<Rightarrow> bool \<Rightarrow> (string list \<times> error) option" where
  "Scan_all s cap start pend rest eof =
     (case (if pend \<noteq> [] \<or> eof then SplitFunc s pend eof else Some (0, None, None)) of
        None \<Rightarrow> None
      | Some (adv, tok, Some e) \<Rightarrow> Some ([], Some e)
      | Some (adv, tok, None) \<Rightarrow>
          if length pend < adv then Some ([], Some (ErrMsg ''bufio.Scanner: SplitFunc returns advance count beyond input''))
          else (case tok of
             Some t \<Rightarrow> if adv = 0 then None
               else map_option (\<lambda>(ts, e). (t # ts, e)) (Scan_all s cap (start + adv) (drop adv pend) rest eof)
           | None \<Rightarrow> if eof then Some ([], None)
               else (case refill cap (start + adv) (drop adv pend) rest of
                  Inl e \<Rightarrow> Some ([], Some e)
                | Inr (cap, start, pend, rest, eof) \<Rightarrow> Scan_all s cap start pend rest eof)))"
  by auto
termination
proof (relation "measure (\<lambda>(s, cap, start, pend, rest, eof). length pend + 2 * length rest + (if eof then 0 else 1))")
  fix s :: Splitter and cap start adv :: nat and pend rest :: string and eof x2 x2a x2b y tok t
  assume "\<not> length pend < adv" "adv \<noteq> 0"
  then show "((s, cap, start + adv, drop adv pend, rest, eof), s, cap, start, pend, rest, eof) \<in>
      measure (\<lambda>(s, cap, start, pend, rest, eof). length pend + 2 * length rest + (if eof then 0 else 1))" by auto
next
  fix s :: Splitter and cap start adv :: nat and pend rest :: string
    and eof x2 x2a x2b y tok t z1 cap1 z2 start1 z3 pend1 z4 rest1 eof1
  assume "\<not> eof" "refill cap (start + adv) (drop adv pend) rest = Inr t" "(cap1, z1) = t" "(start1, z2) = z1"
    "(pend1, z3) = z2" "(rest1, eof1) = z3"
  then have "refill cap (start + adv) (drop adv pend) rest = Inr (cap1, start1, pend1, rest1, eof1)" by auto
  then obtain n where "pend1 = drop adv pend @ take n rest" "rest1 = drop n rest" "eof1 \<longleftrightarrow> rest = []"
      "n \<noteq> 0 \<or> rest = []" "n \<le> length rest"
    by (rule refill_cases)
  then show "((s, cap1, start1, pend1, rest1, eof1), s, cap, start, pend, rest, eof) \<in>
      measure (\<lambda>(s, cap, start, pend, rest, eof). length pend + 2 * length rest + (if eof then 0 else 1))"
    using \<open>\<not> eof\<close> by (cases "rest = []") auto
qed simp

declare Scan_all.simps [simp del]

section \<open>Command lines (src/eal/parse.go)\<close>

definition parseCmd :: "string \<Rightarrow> (string list \<times> error) option" where
  "parseCmd input = Scan_all DefaultSplitter 0 0 [] input False"

text \<open>\<^verbatim>\<open>Init\<close> of package eal is an argument.\<close>

definition InitCmd :: "(string list \<Rightarrow> int \<times> error) \<Rightarrow> string \<Rightarrow> (int \<times> error) option" where
  "InitCmd Init input = map_option (\<lambda>(argv, e). case e of Some e \<Rightarrow> (0, Some e) | None \<Rightarrow> Init argv) (parseCmd input)"

section \<open>ASCII text\<close>

definition ascii :: "char \<Rightarrow> bool" where
  "ascii c \<longleftrightarrow> code c < 0x80"

definition white :: "Splitter \<Rightarrow> char \<Rightarrow> bool" where
  "white s c \<longleftrightarrow> ascii c \<and> IsSpace s (code c)"

lemma DecodeRune_ascii: "ascii c \<Longrightarrow> DecodeRune (c # cs) = (code c, 1)"
  by (simp add: ascii_def DecodeRune.simps(2))

lemma IndexFunc_ascii:
  "ascii c \<Longrightarrow> IndexFunc f (c # cs) = (if f (code c) then Some 0 else map_option Suc (IndexFunc f cs))"
  by (cases "IndexFunc f cs") (simp_all add: DecodeRune_ascii)

declare IndexFunc.simps(2) [simp del]

lemma IndexFunc_skip:
  "\<forall>c \<in> set w. ascii c \<and> \<not> f (code c) \<Longrightarrow> IndexFunc f (w @ r) = map_option ((+) (length w)) (IndexFunc f r)"
  by (induction w; cases "IndexFunc f r") (auto simp: IndexFunc_ascii)

lemma IndexFunc_none: "\<forall>c \<in> set w. ascii c \<and> \<not> f (code c) \<Longrightarrow> IndexFunc f w = None"
  using IndexFunc_skip [of w f "[]"] by simp

section \<open>Tokens\<close>

text \<open>
  A token is a sequence of plain runs and quoted pieces; its text keeps the quotes.  The
  opening and closing quotes of a piece are related by \<^const>\<open>IsQuote\<close>.
\<close>

datatype piece = Plain string | Quoted char char string

fun piece_text :: "piece \<Rightarrow> string" where
  "piece_text (Plain w) = w"
| "piece_text (Quoted q q' w) = q # w @ [q']"

fun piece_ok :: "Splitter \<Rightarrow> piece \<Rightarrow> bool" where
  "piece_ok s (Plain w) \<longleftrightarrow> w \<noteq> [] \<and> (\<forall>c \<in> set w. ascii c \<and> \<not> isSpaceOrQuote s (code c))"
| "piece_ok s (Quoted q q' w) \<longleftrightarrow> IsQuote s (code q) = Some (code q') \<and> ascii q \<and> ascii q' \<and>
     (\<forall>c \<in> set w. ascii c \<and> c \<noteq> q')"

definition token_text :: "piece list \<Rightarrow> string" where
  "token_text ps = concat (map piece_text ps)"

definition token_ok :: "Splitter \<Rightarrow> piece list \<Rightarrow> bool" where
  "token_ok s ps \<longleftrightarrow> ps \<noteq> [] \<and> (\<forall>p \<in> set ps. piece_ok s p)"

definition disjoint_classes :: "Splitter \<Rightarrow> bool" where
  "disjoint_classes s \<longleftrightarrow> (\<forall>r. IsSpace s r \<longrightarrow> IsQuote s r = None)"

lemma DefaultSplitter_classes: "disjoint_classes DefaultSplitter"
  by (auto simp: disjoint_classes_def DefaultSplitter_def unicode_IsSpace_def)

lemma split_loop_plain:
  assumes "\<forall>c \<in> set w. ascii c \<and> \<not> isSpaceOrQuote s (code c)"
  shows "split_loop s (w @ r) n = split_loop s r (n + length w)"
  by (subst (1 2) split_loop.simps)
    (auto simp: IndexFunc_skip [OF assms] Let_def ac_simps split: option.splits prod.splits)

lemma split_loop_open:
  assumes "IsQuote s (code q) = Some (code q')" "ascii q"
  shows "split_loop s (q # r) n = (case IndexRune r (code q') of None \<Rightarrow> NoMore True
    | Some j \<Rightarrow> if length r < j + 1 then OutOfRange else split_loop s (drop (j + 1) r) (n + j + 2))"
  using assms by (subst split_loop.simps)
    (simp add: IndexFunc_ascii isSpaceOrQuote_def DecodeRune_ascii split: option.split)

lemma IndexRune_skip:
  assumes "\<forall>c \<in> set w. ascii c \<and> c \<noteq> q"
  shows "IndexRune (w @ r) (code q) = map_option ((+) (length w)) (IndexRune r (code q))"
  unfolding IndexRune_def by (rule IndexFunc_skip) (use assms in auto)

lemma split_loop_quoted:
  assumes "piece_ok s (Quoted q q' w)"
  shows "split_loop s ((q # w @ [q']) @ r) n = split_loop s r (n + length w + 2)"
proof -
  have "IndexRune (w @ q' # r) (code q') = Some (length w)"
    using assms by (subst IndexRune_skip) (auto simp: IndexRune_def IndexFunc_ascii)
  then show ?thesis using assms by (simp add: split_loop_open)
qed

lemma split_loop_piece:
  "piece_ok s p \<Longrightarrow> split_loop s (piece_text p @ r) n = split_loop s r (n + length (piece_text p))"
  using split_loop_plain split_loop_quoted by (cases p) auto

lemma split_loop_token:
  assumes "\<forall>p \<in> set ps. piece_ok s p"
  shows "split_loop s (token_text ps @ r) n = split_loop s r (n + length (token_text ps))"
  using assms
proof (induction ps arbitrary: n)
  case (Cons p ps)
  have "split_loop s (piece_text p @ token_text ps @ r) n
      = split_loop s (token_text ps @ r) (n + length (piece_text p))"
    using Cons.prems split_loop_piece by simp
  then show ?case using Cons by (simp add: token_text_def add.assoc)
qed (simp add: token_text_def)

lemma split_loop_space:
  "white s c \<Longrightarrow> disjoint_classes s \<Longrightarrow> split_loop s (c # r) n = Space n 1"
  by (subst split_loop.simps)
    (auto simp: isSpaceOrQuote_def white_def disjoint_classes_def IndexFunc_ascii DecodeRune_ascii)

lemma split_loop_end: "split_loop s [] n = NoMore False"
  by (subst split_loop.simps) simp

text \<open>A token that is cut off anywhere has no end.\<close>

lemma split_loop_cut:
  "\<forall>p \<in> set ps. piece_ok s p \<Longrightarrow> token_text ps = t1 @ t2 \<Longrightarrow> \<exists>b. split_loop s t1 n = NoMore b"
proof (induction ps arbitrary: t1 n)
  case Nil
  then show ?case by (intro exI [of _ False]) (simp add: token_text_def split_loop_end)
next
  case (Cons p ps)
  have "piece_text p @ token_text ps = t1 @ t2" using Cons.prems(2) by (simp add: token_text_def)
  then consider us where "t1 = piece_text p @ us" "token_text ps = us @ t2"
    | us where "piece_text p = t1 @ us" "us \<noteq> []"
    by (fastforce simp: append_eq_append_conv2)
  then show ?case
  proof cases
    case (1 us)
    then show ?thesis using Cons split_loop_piece [of s p] by simp
  next
    case (2 us)
    have p: "piece_ok s p" using Cons.prems(1) by simp
    show ?thesis
    proof (cases p)
      case (Plain w)
      then have "\<forall>c \<in> set t1. ascii c \<and> \<not> isSpaceOrQuote s (code c)" using p 2 by auto
      then show ?thesis using split_loop_plain [of t1 s "[]"] by (intro exI [of _ False]) (simp add: split_loop_end)
    next
      case (Quoted q q' w)
      show ?thesis
      proof (cases t1)
        case (Cons c v)
        then have v: "c = q" "v @ us = w @ [q']" using 2 Quoted by auto
        then have "set v \<subseteq> set w" using \<open>us \<noteq> []\<close> by (auto simp: append_eq_append_conv2 append_eq_Cons_conv)
        then have "\<forall>c \<in> set v. ascii c \<and> c \<noteq> q'" using p Quoted by auto
        then have "IndexRune v (code q') = None"
          using IndexRune_skip [of v q' "[]"] by (simp add: IndexRune_def)
        then show ?thesis using p Quoted Cons v(1) by (intro exI [of _ True]) (simp add: split_loop_open)
      next
        case Nil
        then show ?thesis by (intro exI [of _ False]) (simp add: split_loop_end)
      qed
    qed
  qed
qed

lemma token_head:
  assumes "token_ok s ps" "disjoint_classes s"
  obtains c cs where "token_text ps = c # cs" "ascii c" "\<not> IsSpace s (code c)"
proof -
  obtain p ps' where ps: "ps = p # ps'" using assms by (cases ps) (auto simp: token_ok_def)
  have quote: "\<not> IsSpace s r" if "IsQuote s r = Some x" for r x
    using assms(2) that unfolding disjoint_classes_def by (metis option.distinct(1))
  have "piece_ok s p" using assms ps by (simp add: token_ok_def)
  then obtain c cs where "piece_text p = c # cs" "ascii c" "\<not> IsSpace s (code c)"
    using quote by (cases p) (auto simp: isSpaceOrQuote_def neq_Nil_conv)
  then show thesis using ps that by (simp add: token_text_def)
qed

section \<open>Splitting\<close>

lemma SplitFunc_spaces: "\<forall>c \<in> set sp. white s c \<Longrightarrow> SplitFunc s sp b = Some (length sp, None, None)"
  by (simp add: SplitFunc_def IndexFunc_none white_def)

lemma SplitFunc_at:
  assumes "\<forall>c \<in> set sp. white s c" "ascii c" "\<not> IsSpace s (code c)"
  shows "SplitFunc s (sp @ c # d) b = (case split_loop s (c # d) 0 of
      OutOfRange \<Rightarrow> None
    | Space k wid \<Rightarrow> Some (length sp + k + wid, Some (take k (c # d)), None)
    | NoMore quoted \<Rightarrow>
        if \<not> b then Some (length sp, None, None)
        else Some (length sp + length (c # d), Some (c # d), if \<not> quoted \<or> AllowOpenQuote s then None else Some ErrOpenQuote))"
proof -
  have "IndexFunc (\<lambda>r. \<not> IsSpace s r) (sp @ c # d) = Some (length sp)"
    using assms by (subst IndexFunc_skip) (auto simp: white_def IndexFunc_ascii)
  then show ?thesis by (simp add: SplitFunc_def Let_def split: scan_end.split)
qed

lemma SplitFunc_token_space:
  assumes "disjoint_classes s" "token_ok s t" "\<forall>c \<in> set sp. white s c" "white s c"
  shows "SplitFunc s (sp @ token_text t @ c # x) b = Some (length sp + length (token_text t) + 1, Some (token_text t), None)"
proof -
  obtain d ds where d: "token_text t = d # ds" "ascii d" "\<not> IsSpace s (code d)" by (rule token_head [OF assms(2,1)])
  have "split_loop s (token_text t @ c # x) 0 = Space (length (token_text t)) 1"
    using split_loop_token [of t s "c # x" 0] assms by (simp add: token_ok_def split_loop_space)
  then show ?thesis using SplitFunc_at [OF assms(3) d(2,3), of "ds @ c # x" b] d(1) by simp
qed

lemma SplitFunc_token_end:
  assumes "disjoint_classes s" "token_ok s t" "\<forall>c \<in> set sp. white s c"
  shows "SplitFunc s (sp @ token_text t) True = Some (length sp + length (token_text t), Some (token_text t), None)"
proof -
  obtain d ds where d: "token_text t = d # ds" "ascii d" "\<not> IsSpace s (code d)" by (rule token_head [OF assms(2,1)])
  have "split_loop s (token_text t) 0 = NoMore False"
    using split_loop_token [of t s "[]" 0] assms(2) by (simp add: token_ok_def split_loop_end)
  then show ?thesis using SplitFunc_at [OF assms(3) d(2,3), of ds True] d(1) by simp
qed

text \<open>An incomplete token: only the white space in front of it is consumed.\<close>

lemma SplitFunc_cut:
  assumes "disjoint_classes s" "token_ok s t" "\<forall>c \<in> set sp. white s c" "token_text t = t1 @ t2"
  shows "SplitFunc s (sp @ t1) False = Some (length sp, None, None)"
proof (cases t1)
  case Nil
  then show ?thesis using SplitFunc_spaces [OF assms(3)] by simp
next
  case (Cons c d)
  obtain e ds where d: "token_text t = e # ds" "ascii e" "\<not> IsSpace s (code e)" by (rule token_head [OF assms(2,1)])
  obtain b where "split_loop s t1 0 = NoMore b" using split_loop_cut [of t s t1 t2 0] assms(2,4) by (auto simp: token_ok_def)
  then show ?thesis using SplitFunc_at [OF assms(3) d(2,3), of d False] d(1) assms(4) Cons by simp
qed

section \<open>Scanning a line\<close>

text \<open>
  A command line: each token after some white space, with at least one space between
  tokens.  Behind them may stand, after white space, the text of a token with an opening quote whose partner never
  follows; \<open>line_end\<close> is that text, or nothing, with the error it leads to.
\<close>

fun line_of :: "(string \<times> piece list) list \<Rightarrow> string" where
  "line_of [] = []"
| "line_of ((sp, t) # ts) = sp @ token_text t @ line_of ts"

fun line_ok :: "Splitter \<Rightarrow> (string \<times> piece list) list \<Rightarrow> bool" where
  "line_ok s [] \<longleftrightarrow> True"
| "line_ok s ((sp, t) # ts) \<longleftrightarrow> (\<forall>c \<in> set sp. white s c) \<and> token_ok s t \<and> line_ok s ts
     \<and> (\<forall>u \<in> set ts. fst u \<noteq> [])"

definition unclosed :: "Splitter \<Rightarrow> string \<Rightarrow> bool" where
  "unclosed s e \<longleftrightarrow> (\<exists>ps q q' w. e = token_text ps @ q # w \<and> (\<forall>p \<in> set ps. piece_ok s p) \<and> piece_ok s (Quoted q q' w))"

definition line_end :: "Splitter \<Rightarrow> string \<Rightarrow> error \<Rightarrow> bool" where
  "line_end s e er \<longleftrightarrow> (if e = [] then er = None else unclosed s e \<and> er = Some ErrOpenQuote)"

text \<open>Text that is part of a token.\<close>

definition in_token :: "Splitter \<Rightarrow> string \<Rightarrow> bool" where
  "in_token s y \<longleftrightarrow> (\<exists>ps t2. token_ok s ps \<and> token_text ps = y @ t2)"

lemma in_token_text: "token_ok s t \<Longrightarrow> in_token s (token_text t)"
  by (auto simp: in_token_def)

lemma unclosed_in_token: "unclosed s e \<Longrightarrow> in_token s e"
  unfolding unclosed_def in_token_def
proof (elim exE conjE)
  fix ps q q' w assume "e = token_text ps @ q # w" "\<forall>p \<in> set ps. piece_ok s p" "piece_ok s (Quoted q q' w)"
  then show "\<exists>ps t2. token_ok s ps \<and> token_text ps = e @ t2"
    by (intro exI [of _ "ps @ [Quoted q q' w]"] exI [of _ "[q']"]) (auto simp: token_ok_def token_text_def)
qed

lemma SplitFunc_prefix:
  assumes "disjoint_classes s" "\<forall>c \<in> set sp. white s c" "in_token s y \<or> y = []" "sp @ y = pend @ x"
  shows "SplitFunc s pend False = Some (min (length pend) (length sp), None, None)"
proof -
  consider us where "sp = pend @ us" | t1 where "pend = sp @ t1" "y = t1 @ x"
    using assms(4) by (auto simp: append_eq_append_conv2)
  then show ?thesis
  proof cases
    case (1 us)
    then show ?thesis using SplitFunc_spaces [of pend s False] assms(2) by simp
  next
    case (2 t1)
    show ?thesis
    proof (cases "y = []")
      case True
      then show ?thesis using 2 SplitFunc_spaces [OF assms(2)] by simp
    next
      case False
      then obtain ps t2 where "token_ok s ps" "token_text ps = t1 @ (x @ t2)"
        using assms(3) 2(2) by (auto simp: in_token_def)
      from SplitFunc_cut [OF assms(1) this(1) assms(2) this(2)] show ?thesis using 2(1) by simp
    qed
  qed
qed

lemma SplitFunc_unclosed:
  assumes "disjoint_classes s" "\<not> AllowOpenQuote s" "\<forall>c \<in> set sp. white s c" "unclosed s e"
  shows "SplitFunc s (sp @ e) True = Some (length sp + length e, Some e, Some ErrOpenQuote)"
proof -
  obtain ps q q' w where e: "e = token_text ps @ q # w" "\<forall>p \<in> set ps. piece_ok s p" "piece_ok s (Quoted q q' w)"
    using assms(4) by (auto simp: unclosed_def)
  have tok: "token_ok s (ps @ [Quoted q q' w])" using e by (auto simp: token_ok_def)
  obtain d ds where d: "token_text (ps @ [Quoted q q' w]) = d # ds" "ascii d" "\<not> IsSpace s (code d)"
    by (rule token_head [OF tok assms(1)])
  have "e @ [q'] = d # ds" "e \<noteq> []" using d(1) e(1) by (simp_all add: token_text_def)
  then obtain ds' where ds': "e = d # ds'" by (cases e) auto
  have "IndexRune w (code q') = None"
    using IndexRune_skip [of w q' "[]"] e(3) by (simp add: IndexRune_def)
  then have "split_loop s e 0 = NoMore True"
    using split_loop_token [OF e(2), of "q # w" 0] e(1,3) by (simp add: split_loop_open)
  then show ?thesis using SplitFunc_at [OF assms(3) d(2,3), of ds' True] ds' assms(2) by simp
qed

lemma refill_room:
  assumes "start + length pend \<le> cap" "cap \<le> MaxScanTokenSize" "length pend < MaxScanTokenSize"
  shows "\<exists>cap' start' n. refill cap start pend rest = Inr (cap', start', pend @ take n rest, drop n rest, rest = []) \<and>
    start' + length (pend @ take n rest) \<le> cap' \<and> cap' \<le> MaxScanTokenSize \<and> (n \<noteq> 0 \<or> rest = [])"
proof -
  define st where "st = (if 0 < start \<and> (start + length pend = cap \<or> cap div 2 < start) then 0 else start)"
  define cs where "cs = (if st + length pend = cap
      then (min (if 2 * cap = 0 then 4096 else 2 * cap) MaxScanTokenSize, 0) else (cap, st))"
  define n where "n = min (fst cs - (snd cs + length pend)) (length rest)"
  have full: "st = 0" if "st + length pend = cap" using that assms(1) by (auto simp: st_def split: if_splits)
  have st: "st + length pend \<le> cap" using assms(1) by (auto simp: st_def)
  have small: "\<not> (st + length pend = cap \<and> MaxScanTokenSize \<le> cap)" using full assms(3) by auto
  have cs: "snd cs + length pend < fst cs" "fst cs \<le> MaxScanTokenSize"
    using st full assms(2,3) by (auto simp: cs_def MaxScanTokenSize_def)
  have eq: "refill cap start pend rest =
      (if st + length pend = cap \<and> MaxScanTokenSize \<le> cap then Inl ErrTooLong
       else if n = 0 \<and> rest \<noteq> [] then Inl (ErrMsg ''multiple Read calls return no data or error'')
       else Inr (fst cs, snd cs, pend @ take n rest, drop n rest, rest = []))"
    unfolding refill_def Let_def st_def [symmetric] cs_def [symmetric] n_def case_prod_unfold by (rule refl)
  have n: "n \<noteq> 0 \<or> rest = []" "snd cs + length pend + n \<le> fst cs" using cs(1) by (auto simp: n_def)
  then show ?thesis using eq small cs(2)
    by (intro exI [of _ "fst cs"] exI [of _ "snd cs"] exI [of _ n]) (auto simp: min_def)
qed

lemma Scan_token:
  assumes "SplitFunc s pend eof = Some (adv, Some t, None)" "0 < adv" "adv \<le> length pend"
  shows "Scan_all s cap start pend rest eof =
    map_option (\<lambda>(ts, e). (t # ts, e)) (Scan_all s cap (start + adv) (drop adv pend) rest eof)"
proof -
  have "pend \<noteq> []" using assms(2,3) by auto
  then show ?thesis using assms by (subst Scan_all.simps) (simp add: not_less)
qed

lemma Scan_more:
  assumes "SplitFunc s pend False = Some (adv, None, None)" "adv \<le> length pend"
    and "start + length pend \<le> cap" "cap \<le> MaxScanTokenSize" "length (drop adv pend) < MaxScanTokenSize"
  shows "\<exists>cap' start' n. Scan_all s cap start pend rest False =
      Scan_all s cap' start' (drop adv pend @ take n rest) (drop n rest) (rest = []) \<and>
    start' + length (drop adv pend @ take n rest) \<le> cap' \<and> cap' \<le> MaxScanTokenSize \<and> (n \<noteq> 0 \<or> rest = [])"
proof -
  have "start + adv + length (drop adv pend) \<le> cap" using assms(2,3) by simp
  then obtain cap' start' n where r: "refill cap (start + adv) (drop adv pend) rest =
        Inr (cap', start', drop adv pend @ take n rest, drop n rest, rest = [])"
      "start' + length (drop adv pend @ take n rest) \<le> cap'" "cap' \<le> MaxScanTokenSize" "n \<noteq> 0 \<or> rest = []"
    using refill_room assms(4,5) by metis
  have "(if pend \<noteq> [] \<or> False then SplitFunc s pend False else Some (0, None, None)) = Some (adv, None, None)"
    using assms(1,2) by auto
  then have "Scan_all s cap start pend rest False =
      Scan_all s cap' start' (drop adv pend @ take n rest) (drop n rest) (rest = [])"
    using assms(2) r(1) by (subst Scan_all.simps) (simp add: not_less)
  then show ?thesis using r by blast
qed

text \<open>The rest of a line behind a token begins with white space, and is a line again without it.\<close>

lemma line_rest:
  assumes "line_ok s ts" "\<forall>u \<in> set ts. fst u \<noteq> []" "\<forall>c \<in> set sp. white s c" "e = [] \<or> sp \<noteq> []"
    and "line_of ts @ sp @ e = c # r"
  shows "white s c" and "\<exists>ts' sp'. map (token_text \<circ> snd) ts' = map (token_text \<circ> snd) ts \<and> line_ok s ts' \<and>
      (\<forall>c \<in> set sp'. white s c) \<and> (ts' = [] \<or> e = [] \<or> sp' \<noteq> []) \<and> r = line_of ts' @ sp' @ e \<and> map snd ts' = map snd ts"
proof -
  have "white s c \<and> (\<exists>ts' sp'. map (token_text \<circ> snd) ts' = map (token_text \<circ> snd) ts \<and> line_ok s ts' \<and>
      (\<forall>c \<in> set sp'. white s c) \<and> (ts' = [] \<or> e = [] \<or> sp' \<noteq> []) \<and> r = line_of ts' @ sp' @ e \<and> map snd ts' = map snd ts)"
  proof (cases ts)
    case Nil
    then obtain sp' where "sp = c # sp'" using assms(4,5) by (cases sp) auto
    then show ?thesis using Nil assms(3,5) by (intro conjI exI [of _ "[]"] exI [of _ sp']) auto
  next
    case (Cons a ts1)
    obtain v t where a: "a = (v, t)" by (cases a)
    obtain w where w: "v = c # w" using assms(2,5) Cons a by (cases v) auto
    then show ?thesis using assms Cons a
      by (intro conjI exI [of _ "(w, t) # ts1"] exI [of _ sp]) auto
  qed
  then show "white s c" and "\<exists>ts' sp'. map (token_text \<circ> snd) ts' = map (token_text \<circ> snd) ts \<and> line_ok s ts' \<and>
      (\<forall>c \<in> set sp'. white s c) \<and> (ts' = [] \<or> e = [] \<or> sp' \<noteq> []) \<and> r = line_of ts' @ sp' @ e \<and> map snd ts' = map snd ts"
    by blast+
qed

lemma Scan_line:
  assumes s: "disjoint_classes s" "\<not> AllowOpenQuote s"
  shows "start + length pend \<le> cap \<Longrightarrow> cap \<le> MaxScanTokenSize \<Longrightarrow> (eof \<Longrightarrow> rest = []) \<Longrightarrow>
    line_ok s ts \<Longrightarrow> \<forall>c \<in> set sp. white s c \<Longrightarrow> line_end s e er \<Longrightarrow> ts = [] \<or> e = [] \<or> sp \<noteq> [] \<Longrightarrow>
    pend @ rest = line_of ts @ sp @ e \<Longrightarrow> \<forall>u \<in> set ts. length (token_text (snd u)) < MaxScanTokenSize \<Longrightarrow>
    length e < MaxScanTokenSize \<Longrightarrow>
    Scan_all s cap start pend rest eof = Some (map (token_text \<circ> snd) ts, er)"
proof (induction "length pend + 2 * length rest + (if eof then 0 else 1)" arbitrary: cap start pend rest eof ts sp rule: less_induct)
  case less
  note IH = less.hyps
  note P = less.prems
  \<comment> \<open>One more read, with a line that has lost some white space in front.\<close>
  have more: ?case
    if eof: "\<not> eof" and w: "\<forall>c \<in> set w. white s c" and y: "in_token s y \<or> y = []" "length y < MaxScanTokenSize"
      and pre: "w @ y = pend @ x"
      and next': "\<And>j. j \<le> length w \<Longrightarrow> \<exists>ts' sp'. map (token_text \<circ> snd) ts' = map (token_text \<circ> snd) ts \<and> line_ok s ts' \<and>
          (\<forall>c \<in> set sp'. white s c) \<and> (ts' = [] \<or> e = [] \<or> sp' \<noteq> []) \<and> drop j (line_of ts @ sp @ e) = line_of ts' @ sp' @ e \<and>
          (\<forall>u \<in> set ts'. length (token_text (snd u)) < MaxScanTokenSize)" for w y x
  proof -
    let ?a = "min (length pend) (length w)"
    have split: "SplitFunc s pend False = Some (?a, None, None)" by (rule SplitFunc_prefix [OF s(1) w y(1) pre])
    have "length (drop ?a pend) \<le> length y" using arg_cong [OF pre, of length] by simp
    then have short: "length (drop ?a pend) < MaxScanTokenSize" using y(2) by simp
    obtain cap' start' n where r: "Scan_all s cap start pend rest False =
        Scan_all s cap' start' (drop ?a pend @ take n rest) (drop n rest) (rest = [])"
      "start' + length (drop ?a pend @ take n rest) \<le> cap'" "cap' \<le> MaxScanTokenSize" "n \<noteq> 0 \<or> rest = []"
      using Scan_more [OF split min.cobounded1 P(1,2) short, of rest] by blast
    obtain ts' sp' where n: "map (token_text \<circ> snd) ts' = map (token_text \<circ> snd) ts" "line_ok s ts'" "\<forall>c \<in> set sp'. white s c"
        "ts' = [] \<or> e = [] \<or> sp' \<noteq> []" "drop ?a (line_of ts @ sp @ e) = line_of ts' @ sp' @ e"
        "\<forall>u \<in> set ts'. length (token_text (snd u)) < MaxScanTokenSize"
      using next' [of ?a] by auto
    have line: "(drop ?a pend @ take n rest) @ drop n rest = line_of ts' @ sp' @ e"
      using arg_cong [OF P(8), of "drop ?a"] n(5) by simp
    have less: "length (drop ?a pend @ take n rest) + 2 * length (drop n rest) + (if rest = [] then 0 else 1)
        < length pend + 2 * length rest + (if eof then 0 else 1)"
      using eof r(4) by (cases rest) (auto simp: min_def)
    have "Scan_all s cap' start' (drop ?a pend @ take n rest) (drop n rest) (rest = []) = Some (map (token_text \<circ> snd) ts', er)"
      by (rule IH [OF less r(2,3) _ n(2,3) P(6) n(4) line n(6) P(10)]) simp
    then show ?thesis using r(1) n(1) eof by simp
  qed
  show ?case
  proof (cases ts)
    case Nil
    show ?thesis
    proof (cases eof)
      case True
      then have pend: "pend = sp @ e" using P(3,8) Nil by simp
      show ?thesis
      proof (cases "e = []")
        case e: True
        then have "SplitFunc s pend True = Some (length pend, None, None)" using SplitFunc_spaces [OF P(5)] pend by simp
        then show ?thesis using True Nil P(6) e by (subst Scan_all.simps) (simp add: line_end_def)
      next
        case False
        then have "SplitFunc s pend True = Some (length sp + length e, Some e, Some ErrOpenQuote)" "er = Some ErrOpenQuote"
          using SplitFunc_unclosed [OF s P(5)] P(6) pend by (simp_all add: line_end_def)
        then show ?thesis using True Nil by (subst Scan_all.simps) simp
      qed
    next
      case False
      have y: "in_token s e \<or> e = []" using P(6) unclosed_in_token by (auto simp: line_end_def split: if_splits)
      show ?thesis
      proof (rule more [OF False P(5) y P(10)])
        show "sp @ e = pend @ rest" using P(8) Nil by simp
        show "\<exists>ts' sp'. map (token_text \<circ> snd) ts' = map (token_text \<circ> snd) ts \<and> line_ok s ts' \<and>
          (\<forall>c \<in> set sp'. white s c) \<and> (ts' = [] \<or> e = [] \<or> sp' \<noteq> []) \<and> drop j (line_of ts @ sp @ e) = line_of ts' @ sp' @ e \<and>
          (\<forall>u \<in> set ts'. length (token_text (snd u)) < MaxScanTokenSize)" if "j \<le> length sp" for j
          using that P(5) Nil by (intro exI [of _ "[]"] exI [of _ "drop j sp"]) (auto dest: in_set_dropD)
      qed
    qed
  next
    case (Cons a ts1)
    obtain w t where a: "a = (w, t)" by (cases a)
    have w: "\<forall>c \<in> set w. white s c" and t: "token_ok s t" and ts1: "line_ok s ts1" "\<forall>u \<in> set ts1. fst u \<noteq> []"
      using P(4) Cons a by auto
    have len: "length (token_text t) < MaxScanTokenSize" using P(9) Cons a by simp
    let ?R = "line_of ts1 @ sp @ e"
    have D: "pend @ rest = w @ token_text t @ ?R" using P(8) Cons a by simp
    show ?thesis
    proof (cases "length pend \<le> length w + length (token_text t) \<and> (\<not> eof)")
      case True
      then obtain x where x: "w @ token_text t = pend @ x"
        using D by (metis append.assoc append_eq_append_conv_if append_take_drop_id length_append)
      show ?thesis
      proof (rule more [OF _ w _ len x])
        show "\<not> eof" "in_token s (token_text t) \<or> token_text t = []" using True in_token_text [OF t] by auto
        show "\<exists>ts' sp'. map (token_text \<circ> snd) ts' = map (token_text \<circ> snd) ts \<and> line_ok s ts' \<and>
          (\<forall>c \<in> set sp'. white s c) \<and> (ts' = [] \<or> e = [] \<or> sp' \<noteq> []) \<and> drop j (line_of ts @ sp @ e) = line_of ts' @ sp' @ e \<and>
          (\<forall>u \<in> set ts'. length (token_text (snd u)) < MaxScanTokenSize)" if "j \<le> length w" for j
          using that P(4,5,7,9) Cons a
          by (intro exI [of _ "(drop j w, t) # ts1"] exI [of _ sp]) (auto dest: in_set_dropD)
      qed
    next
      case False
      have "length (w @ token_text t) \<le> length pend"
        using False P(3) arg_cong [OF D, of length] by (cases eof) auto
      then obtain pr where pr: "pend = (w @ token_text t) @ pr"
        using D by (metis append.assoc append_eq_append_conv_if append_take_drop_id)
      have R: "pr @ rest = ?R" using D pr by simp
      obtain d ds where d: "token_text t = d # ds" by (rule token_head [OF t s(1)])
      have e: "e = [] \<or> sp \<noteq> []" using P(7) Cons by simp
      show ?thesis
      proof (cases pr)
        case Nil
        then have ef: "eof" using False pr by auto
        then have z: "?R = []" "rest = []" using R Nil P(3) by auto
        have "ts1 = []" using z(1) ts1(2) by (cases ts1) auto
        have "Scan_all s cap (start + length pend) [] [] True = Some ([], None)"
          using SplitFunc_spaces [of "[]" s True] by (subst Scan_all.simps) simp
        moreover have "SplitFunc s pend True = Some (length pend, Some (token_text t), None)"
          using SplitFunc_token_end [OF s(1) t w] pr Nil by simp
        ultimately show ?thesis
          using Scan_token [of s pend True "length pend" "token_text t" cap start rest] pr d z P(6) Cons a ef \<open>ts1 = []\<close>
          by (simp add: line_end_def)
      next
        case c: (Cons c x)
        let ?a = "length w + length (token_text t) + 1"
        have "?R = c # (x @ rest)" using R c by simp
        note lr = line_rest [OF ts1 P(5) e this]
        obtain ts' sp' where n: "map (token_text \<circ> snd) ts' = map (token_text \<circ> snd) ts1" "line_ok s ts'"
            "\<forall>c \<in> set sp'. white s c" "ts' = [] \<or> e = [] \<or> sp' \<noteq> []" "x @ rest = line_of ts' @ sp' @ e" "map snd ts' = map snd ts1"
          using lr(2) by blast
        have "snd ` set ts' = snd ` set ts1" using arg_cong [OF n(6), of set] by simp
        then have small: "\<forall>u \<in> set ts'. length (token_text (snd u)) < MaxScanTokenSize"
          using P(9) Cons by (metis image_iff list.set_intros(2))
        have drop: "drop ?a pend = x" using pr c by simp
        have less: "length x + 2 * length rest + (if eof then 0 else 1) < length pend + 2 * length rest + (if eof then 0 else 1)"
          using pr c by simp
        have room: "start + ?a + length x \<le> cap" using P(1) pr c by simp
        have "Scan_all s cap (start + ?a) x rest eof = Some (map (token_text \<circ> snd) ts', er)"
          by (rule IH [OF less room P(2,3) n(2,3) P(6) n(4,5) small P(10)])
        moreover have "SplitFunc s pend eof = Some (?a, Some (token_text t), None)"
          using SplitFunc_token_space [OF s(1) t w lr(1)] pr c by simp
        ultimately show ?thesis
          using Scan_token [of s pend eof ?a "token_text t" cap start rest] drop pr c n(1) Cons a by simp
      qed
    qed
  qed
qed

lemma parseCmd_line:
  assumes "line_ok DefaultSplitter ts" "\<forall>c \<in> set sp. white DefaultSplitter c" "line_end DefaultSplitter e er"
    and "ts = [] \<or> e = [] \<or> sp \<noteq> []" "\<forall>u \<in> set ts. length (token_text (snd u)) < MaxScanTokenSize" "length e < MaxScanTokenSize"
  shows "parseCmd (line_of ts @ sp @ e) = Some (map (token_text \<circ> snd) ts, er)"
  unfolding parseCmd_def
  by (rule Scan_line [OF DefaultSplitter_classes _ _ _ _ assms(1-4) _ assms(5,6)]) (simp_all add: DefaultSplitter_def)

text \<open>C31: parsing a command line of ASCII words, each a sequence of plain runs and quoted pieces shorter than the 64 KiB of bufio.Scanner and separated by white space, returns exactly the texts of the words, with quotes kept, and no error; this holds for any amount of white space, also at the end, and wherever the reads of the scanner cut the line. (Text outside ASCII is modelled, with the full unicode.IsSpace over UTF-8, but not part of this claim.)\<close>

theorem parseCmd_tokens:
  assumes "line_ok DefaultSplitter ts" "\<forall>c \<in> set sp. white DefaultSplitter c"
    and "\<forall>u \<in> set ts. length (token_text (snd u)) < 65536"
  shows "parseCmd (line_of ts @ sp) = Some (map (token_text \<circ> snd) ts, None)"
  using parseCmd_line [OF assms(1,2), of "[]" None] assms(3) by (simp add: line_end_def MaxScanTokenSize_def)

theorem parseCmd_tokens_witness:
  "parseCmd (''app -c '' @ [CHR 0x27] @ ''a b'' @ [CHR 0x27] @ '' '') = Some ([''app'', ''-c'', [CHR 0x27] @ ''a b'' @ [CHR 0x27]], None)"
proof -
  let ?ts = "[([], [Plain ''app'']), ('' '', [Plain ''-c'']), ('' '', [Quoted (CHR 0x27) (CHR 0x27) ''a b''])]"
  have "line_ok DefaultSplitter ?ts" "\<forall>c \<in> set '' ''. white DefaultSplitter c"
    "\<forall>u \<in> set ?ts. length (token_text (snd u)) < 65536"
    by (simp_all add: token_ok_def token_text_def white_def ascii_def isSpaceOrQuote_def DefaultSplitter_def unicode_IsSpace_def)
  from parseCmd_tokens [OF this] show ?thesis by (simp add: token_text_def)
qed

text \<open>A quote that is never closed makes parseCmd fail with ErrOpenQuote after the words in front of it, and InitCmd then returns the error without initializing EAL.\<close>

lemma parseCmd_open_quote:
  assumes "line_ok DefaultSplitter ts" "\<forall>c \<in> set sp. white DefaultSplitter c" "sp \<noteq> []" "unclosed DefaultSplitter e"
    and "\<forall>u \<in> set ts. length (token_text (snd u)) < 65536" "length e < 65536"
  shows "parseCmd (line_of ts @ sp @ e) = Some (map (token_text \<circ> snd) ts, Some ErrOpenQuote) \<and>
    InitCmd Init (line_of ts @ sp @ e) = Some (0, Some ErrOpenQuote)"
proof -
  have "e \<noteq> []" using assms(4) by (auto simp: unclosed_def)
  then have "parseCmd (line_of ts @ sp @ e) = Some (map (token_text \<circ> snd) ts, Some ErrOpenQuote)"
    using parseCmd_line [OF assms(1,2), of e "Some ErrOpenQuote"] assms(3-6) by (simp add: line_end_def MaxScanTokenSize_def)
  then show ?thesis by (simp add: InitCmd_def)
qed

text \<open>White space outside ASCII separates words too: the no-break space U+00A0.\<close>

lemma parseCmd_no_break_space: "parseCmd [CHR ''a'', CHR 0xC2, CHR 0xA0, CHR ''b''] = Some ([''a'', ''b''], None)"
  by (simp add: parseCmd_def Scan_all.simps refill_def MaxScanTokenSize_def SplitFunc_def split_loop.simps IndexFunc.simps(2)
    DecodeRune.simps(2) between_def IndexRune_def isSpaceOrQuote_def DefaultSplitter_def unicode_IsSpace_def RuneError_def Let_def)

end
