(* ===== verification/Eal.thy ===== *)
theory Eal
  imports Errors Splitter
begin

text \<open>
  Package eal (src/eal/eal.go, src/eal/init.go, src/eal/init_once.go): launching the
  per-lcore listeners, sending jobs to them and stopping them.

  Every goroutine action that can block is one event of \<open>eal_do\<close>, which is \<^term>\<open>None\<close>
  while the action is blocked: a send to a full job channel, a reply to a full error channel,
  a receive from an empty one.  Interleavings are sequences of events.  Job and error
  channels are FIFO buffers of fixed capacity; the error channels that the package makes
  itself are all buffered, as are those of this model.  The lcore function of a job acts on
  the context it is given and may panic with a value, here its printed form.
\<close>

section \<open>State\<close>

record 'v LcoreCtx =
  Value :: 'v
  ctx_done :: bool

type_synonym chan_id = nat

record 'v lcoreJob =
  fn :: "'v LcoreCtx \<Rightarrow> 'v LcoreCtx \<times> string option"
  ret :: "chan_id option"

datatype phase = Launching | Idle | Replying "chan_id option" error | Stopped

record 'v lcore =
  ctx :: "'v LcoreCtx"
  ch :: "'v lcoreJob list"
  phase :: phase

record err_chan =
  cap :: nat
  buf :: "error list"

text \<open>
  The process: the contexts of \<^verbatim>\<open>goEAL\<close>, the error channels, the counter of the wait group of
  \<^verbatim>\<open>Init\<close> and whether a panic has ended the process.  The last four fields are histories:
  jobs sent to an lcore, jobs run there with their result, errors put into a channel and
  errors taken out of it.
\<close>

record 'v eal =
  lcores :: "nat \<Rightarrow> 'v lcore option"
  chans :: "chan_id \<Rightarrow> err_chan option"
  wg :: int
  crashed :: bool
  sent :: "nat \<Rightarrow> 'v lcoreJob list"
  ran :: "nat \<Rightarrow> ('v lcoreJob \<times> error) list"
  answers :: "chan_id \<Rightarrow> error list"
  taken :: "chan_id \<Rightarrow> error list"

definition lcoreJobsBuffer :: nat where
  "lcoreJobsBuffer = 32"

section \<open>Running a job\<close>

text \<open>
  \<^verbatim>\<open>panicCatcher\<close> turns a panic into \<^verbatim>\<open>ErrLcorePanic\<close>; without \<^verbatim>\<open>PanicAsErr\<close> the job is called
  directly and a panic ends the process, which is \<^term>\<open>None\<close>.
\<close>

definition panicCatcher ::
    "nat \<Rightarrow> ('v LcoreCtx \<Rightarrow> 'v LcoreCtx \<times> string option) \<Rightarrow> 'v LcoreCtx \<Rightarrow> 'v LcoreCtx \<times> error" where
  "panicCatcher LcoreID f c =
     (let (c', r) = f c in (c', map_option (ErrLcorePanic LcoreID) r))"

definition run_job :: "bool \<Rightarrow> nat \<Rightarrow> 'v lcoreJob \<Rightarrow> 'v LcoreCtx \<Rightarrow> ('v LcoreCtx \<times> error) option" where
  "run_job PanicAsErr LcoreID job c =
     (if PanicAsErr then Some (panicCatcher LcoreID (fn job) c)
      else (case fn job c of (c', None) \<Rightarrow> Some (c', None) | (c', Some r) \<Rightarrow> None))"

section \<open>Events\<close>

datatype 'v event =
    MakeChan chan_id nat
  | Launch nat
  | Send nat "'v lcoreJob"
  | Run nat
  | Reply nat
  | Recv chan_id

definition put_err :: "chan_id \<Rightarrow> error \<Rightarrow> 'v eal \<Rightarrow> 'v eal option" where
  "put_err c e s = (case chans s c of
     None \<Rightarrow> None
   | Some q \<Rightarrow> if length (buf q) < cap q
       then Some (s\<lparr>chans := (chans s)(c \<mapsto> q\<lparr>buf := buf q @ [e]\<rparr>),
                    answers := (answers s)(c := answers s c @ [e])\<rparr>)
       else None)"

text \<open>The send of \<^verbatim>\<open>ExecOnLcoreAsync\<close>.\<close>

definition ExecOnLcoreAsync :: "nat \<Rightarrow> 'v lcoreJob \<Rightarrow> 'v eal \<Rightarrow> 'v eal option" where
  "ExecOnLcoreAsync lcoreID job s = (case lcores s lcoreID of
     Some l \<Rightarrow> if length (ch l) < lcoreJobsBuffer
       then Some (s\<lparr>lcores := (lcores s)(lcoreID \<mapsto> l\<lparr>ch := ch l @ [job]\<rparr>),
                    sent := (sent s)(lcoreID := sent s lcoreID @ [job])\<rparr>)
       else None
   | None \<Rightarrow> (case ret job of
       None \<Rightarrow> Some s
     | Some c \<Rightarrow> put_err c (Some ErrLcoreInvalid) s))"

text \<open>
  One round of \<^verbatim>\<open>lcoreFuncListener\<close> is a \<open>Run\<close>, which takes the job and calls it, and a
  \<open>Reply\<close>, which sends the error and leaves the loop when the context is done.
\<close>

definition listener_run :: "bool \<Rightarrow> nat \<Rightarrow> 'v eal \<Rightarrow> 'v eal option" where
  "listener_run PanicAsErr lid s = (case lcores s lid of
     None \<Rightarrow> None
   | Some l \<Rightarrow> (case (phase l, ch l) of
       (Idle, job # jobs) \<Rightarrow> (case run_job PanicAsErr lid job (ctx l) of
          None \<Rightarrow> Some (s\<lparr>crashed := True\<rparr>)
        | Some (c, e) \<Rightarrow>
            Some (s\<lparr>lcores := (lcores s)(lid \<mapsto> l\<lparr>ctx := c, ch := jobs, phase := Replying (ret job) e\<rparr>),
                    ran := (ran s)(lid := ran s lid @ [(job, e)])\<rparr>))
     | _ \<Rightarrow> None))"

definition listener_reply :: "nat \<Rightarrow> 'v eal \<Rightarrow> 'v eal option" where
  "listener_reply lid s = (case lcores s lid of
     None \<Rightarrow> None
   | Some l \<Rightarrow> (case phase l of
       Replying r e \<Rightarrow>
         (let s' = s\<lparr>lcores := (lcores s)(lid \<mapsto> l\<lparr>phase := (if ctx_done (ctx l) then Stopped else Idle)\<rparr>)\<rparr>
          in case r of None \<Rightarrow> Some s' | Some c \<Rightarrow> put_err c e s')
     | _ \<Rightarrow> None))"

definition listener_start :: "nat \<Rightarrow> 'v eal \<Rightarrow> 'v eal option" where
  "listener_start lid s = (case lcores s lid of
     None \<Rightarrow> None
   | Some l \<Rightarrow> if phase l = Launching
       then Some (s\<lparr>lcores := (lcores s)(lid \<mapsto> l\<lparr>phase := Idle\<rparr>), wg := wg s - 1\<rparr>) else None)"

definition recv :: "chan_id \<Rightarrow> 'v eal \<Rightarrow> (error \<times> 'v eal) option" where
  "recv c s = (case chans s c of
     None \<Rightarrow> None
   | Some q \<Rightarrow> (case buf q of
       [] \<Rightarrow> None
     | e # es \<Rightarrow> Some (e, s\<lparr>chans := (chans s)(c \<mapsto> q\<lparr>buf := es\<rparr>),
                            taken := (taken s)(c := taken s c @ [e])\<rparr>)))"

definition make_chan :: "chan_id \<Rightarrow> nat \<Rightarrow> 'v eal \<Rightarrow> 'v eal option" where
  "make_chan c n s = (if chans s c = None
     then Some (s\<lparr>chans := (chans s)(c \<mapsto> \<lparr>cap = n, buf = []\<rparr>)\<rparr>) else None)"

fun eal_do :: "bool \<Rightarrow> 'v event \<Rightarrow> 'v eal \<Rightarrow> 'v eal option" where
  "eal_do p ev s = (if crashed s then None else (case ev of
     MakeChan c n \<Rightarrow> make_chan c n s
   | Launch lid \<Rightarrow> listener_start lid s
   | Send lid job \<Rightarrow> ExecOnLcoreAsync lid job s
   | Run lid \<Rightarrow> listener_run p lid s
   | Reply lid \<Rightarrow> listener_reply lid s
   | Recv c \<Rightarrow> map_option snd (recv c s)))"

fun eal_run :: "bool \<Rightarrow> 'v event list \<Rightarrow> 'v eal \<Rightarrow> 'v eal option" where
  "eal_run p [] s = Some s"
| "eal_run p (ev # evs) s = (case eal_do p ev s of None \<Rightarrow> None | Some s' \<Rightarrow> eal_run p evs s')"

inductive eal_step :: "bool \<Rightarrow> 'v eal \<Rightarrow> 'v eal \<Rightarrow> bool" for p where
  step: "eal_do p ev s = Some s' \<Longrightarrow> eal_step p s s'"

section \<open>Lcores and Init\<close>

text \<open>
  \<^verbatim>\<open>rte_get_next_lcore(i, skip_main, 0)\<close> is an argument; the iteration ends when it returns
  \<^verbatim>\<open>RTE_MAX_LCORE\<close> or more.  Nothing in the code bounds the iteration, so that not
  returning is \<^term>\<open>None\<close>.
\<close>

partial_function (option) lcores_loop :: "(u32 \<Rightarrow> u32) \<Rightarrow> u32 \<Rightarrow> u32 \<Rightarrow> nat list option" where
  "lcores_loop rte_get_next RTE_MAX_LCORE i =
     (let j = rte_get_next i in
      if j < RTE_MAX_LCORE
      then Option.bind (lcores_loop rte_get_next RTE_MAX_LCORE j) (\<lambda>out. Some (unat j # out))
      else Some [])"

declare lcores_loop.simps [code]

definition getLcores :: "(u32 \<Rightarrow> int \<Rightarrow> u32) \<Rightarrow> u32 \<Rightarrow> int \<Rightarrow> nat list option" where
  "getLcores rte_get_next_lcore RTE_MAX_LCORE skipMain =
     lcores_loop (\<lambda>i. rte_get_next_lcore i skipMain) RTE_MAX_LCORE (NOT 0)"

definition Lcores :: "(u32 \<Rightarrow> int \<Rightarrow> u32) \<Rightarrow> u32 \<Rightarrow> nat list option" where
  "Lcores rte_get_next_lcore m = getLcores rte_get_next_lcore m 0"

definition LcoresWorker :: "(u32 \<Rightarrow> int \<Rightarrow> u32) \<Rightarrow> u32 \<Rightarrow> nat list option" where
  "LcoresWorker rte_get_next_lcore m = getLcores rte_get_next_lcore m 1"

text \<open>\<^verbatim>\<open>Sockets\<close> panics when a socket index has no id.\<close>

definition Sockets :: "nat \<Rightarrow> (nat \<Rightarrow> int) \<Rightarrow> nat list option" where
  "Sockets rte_socket_count rte_socket_id_by_idx =
     those (map (\<lambda>i. if rte_socket_id_by_idx i < 0 then None else Some (nat (rte_socket_id_by_idx i)))
       [0..<rte_socket_count])"

definition new_ctx :: "'v \<Rightarrow> 'v lcore" where
  "new_ctx v = \<lparr>ctx = \<lparr>Value = v, ctx_done = False\<rparr>, ch = [], phase = Launching\<rparr>"

text \<open>
  \<^verbatim>\<open>ealLaunch\<close> stores a fresh context for every lcore; the remote launch that follows lets
  every listener start, in any order.  \<open>v\<close> is the initial (nil) context value.
\<close>

definition ealLaunch :: "'v \<Rightarrow> nat list \<Rightarrow> 'v eal \<Rightarrow> 'v eal" where
  "ealLaunch v ids s = s\<lparr>lcores := fold (\<lambda>lid m. m(lid \<mapsto> new_ctx v)) ids (lcores s)\<rparr>"

definition ealInit :: "rte_errnos \<Rightarrow> (string list \<Rightarrow> int \<times> int) \<Rightarrow> string list \<Rightarrow> int \<times> error" where
  "ealInit errnos rte_eal_init args =
     (let (n, rte_errno) = rte_eal_init args in
      if n < 0 then (n, RteErrno errnos rte_errno) else (n, None))"

text \<open>
  The goroutine of \<^verbatim>\<open>Init\<close> up to the launch of the listeners; \<open>Init\<close> itself returns once the
  wait group is down to zero (\<open>Init_returns\<close>).
\<close>

definition Init_start ::
    "rte_errnos \<Rightarrow> (string list \<Rightarrow> int \<times> int) \<Rightarrow> nat list \<Rightarrow> nat \<Rightarrow> 'v \<Rightarrow> string list \<Rightarrow> 'v eal
      \<Rightarrow> (int \<times> error) \<times> 'v eal" where
  "Init_start errnos rte_eal_init ids LcoreCount v args s =
     (let s1 = s\<lparr>wg := 1\<rparr>; (n, e) = ealInit errnos rte_eal_init args in
      if e \<noteq> None then ((n, e), s1\<lparr>wg := wg s1 - 1\<rparr>)
      else ((n, e), ealLaunch v ids (s1\<lparr>wg := wg s1 + (int LcoreCount - 1)\<rparr>)))"

definition Init_returns :: "'v eal \<Rightarrow> bool" where
  "Init_returns s \<longleftrightarrow> wg s = 0"

section \<open>Blocking calls\<close>

text \<open>
  \<^verbatim>\<open>ExecOnLcore\<close> makes a channel with one slot, sends the job and receives; \<open>sched\<close> is what
  the other goroutines do in between.
\<close>

definition ExecOnLcore ::
    "bool \<Rightarrow> chan_id \<Rightarrow> 'v event list \<Rightarrow> nat \<Rightarrow> ('v LcoreCtx \<Rightarrow> 'v LcoreCtx \<times> string option)
      \<Rightarrow> 'v eal \<Rightarrow> (error \<times> 'v eal) option" where
  "ExecOnLcore p c sched lcoreID f s =
     Option.bind (eal_run p ([MakeChan c 1, Send lcoreID \<lparr>fn = f, ret = Some c\<rparr>] @ sched) s) (\<lambda>s'.
       if crashed s' then None else recv c s')"

definition ExecOnMain ::
    "bool \<Rightarrow> nat \<Rightarrow> chan_id \<Rightarrow> 'v event list \<Rightarrow> ('v LcoreCtx \<Rightarrow> 'v LcoreCtx \<times> string option)
      \<Rightarrow> 'v eal \<Rightarrow> (error \<times> 'v eal) option" where
  "ExecOnMain p GetMainLcore c sched f s = ExecOnLcore p c sched GetMainLcore f s"

definition stop_job :: "chan_id \<Rightarrow> 'v lcoreJob" where
  "stop_job c = \<lparr>fn = (\<lambda>x. (x\<lparr>ctx_done := True\<rparr>, None)), ret = Some c\<rparr>"

text \<open>The events of \<^verbatim>\<open>StopLcores\<close> itself: the sends, then one receive per lcore.\<close>

definition StopLcores :: "bool \<Rightarrow> chan_id \<Rightarrow> nat list \<Rightarrow> 'v event list \<Rightarrow> 'v eal \<Rightarrow> 'v eal option" where
  "StopLcores p c ids sched s =
     eal_run p (MakeChan c (length ids) # map (\<lambda>lid. Send lid (stop_job c)) ids @ sched
       @ replicate (length ids) (Recv c)) s"

section \<open>Guarded initialization\<close>

text \<open>\<^verbatim>\<open>InitOnce\<close>: \<^term>\<open>None\<close> is the panic; the flag stays unset then.\<close>

definition InitOnce :: "(string list \<Rightarrow> 'w \<Rightarrow> (int \<times> error) \<times> 'w) \<Rightarrow> string list \<Rightarrow> bool \<times> 'w
    \<Rightarrow> (bool \<times> 'w) option" where
  "InitOnce Init args = (\<lambda>(already, w).
     if already then Some (True, w)
     else (case Init args w of ((n, None), w') \<Rightarrow> Some (True, w') | ((n, Some e), w') \<Rightarrow> None))"

definition SafeEALArgs :: "string \<Rightarrow> string \<Rightarrow> int \<Rightarrow> string list" where
  "SafeEALArgs random cmdname n =
     [cmdname, ''--lcores'', ''(0-'' @ int_str (n - 1) @ '')@0'',
      ''--file-prefix'', ''_'' @ random, ''--vdev'', ''net_null0'', ''-m'', ''128'',
      ''--no-huge'', ''--no-pci'', ''--main-lcore'', ''0'']"

definition InitOnceSafe :: "(string list \<Rightarrow> 'w \<Rightarrow> (int \<times> error) \<times> 'w) \<Rightarrow> string \<Rightarrow> string \<Rightarrow> int
    \<Rightarrow> bool \<times> 'w \<Rightarrow> (bool \<times> 'w) option" where
  "InitOnceSafe Init random cmdname n = InitOnce Init (SafeEALArgs random cmdname n)"

section \<open>Jobs run in order, once each\<close>

text \<open>
  What holds in every state: the jobs sent to an lcore are those it has run followed by those
  in its channel, in that order; the channel never holds more than its buffer; the values put
  into an error channel are those received followed by those it holds.
\<close>

definition eal_inv :: "'v eal \<Rightarrow> bool" where
  "eal_inv s \<longleftrightarrow>
     (\<forall>lid l. lcores s lid = Some l \<longrightarrow>
        length (ch l) \<le> lcoreJobsBuffer \<and>
        (\<not> crashed s \<longrightarrow> sent s lid = map fst (ran s lid) @ ch l)) \<and>
     (\<forall>c q. chans s c = Some q \<longrightarrow> length (buf q) \<le> cap q \<and> answers s c = taken s c @ buf q) \<and>
     (\<forall>c. chans s c = None \<longrightarrow> answers s c = [] \<and> taken s c = [])"

lemmas eal_defs = make_chan_def listener_start_def ExecOnLcoreAsync_def listener_run_def
  listener_reply_def recv_def put_err_def

lemma put_err_cases:
  assumes "put_err c e s = Some s'"
  obtains q where "chans s c = Some q" "length (buf q) < cap q"
    "s' = s\<lparr>chans := (chans s)(c \<mapsto> q\<lparr>buf := buf q @ [e]\<rparr>),
           answers := (answers s)(c := answers s c @ [e])\<rparr>"
  using assms by (auto simp: put_err_def split: option.splits if_splits)

lemma put_err_inv: "eal_inv s \<Longrightarrow> put_err c e s = Some s' \<Longrightarrow> eal_inv s'"
  by (elim put_err_cases) (auto simp: eal_inv_def)

lemma set_phase_inv:
  "eal_inv s \<Longrightarrow> lcores s lid = Some l \<Longrightarrow>
   eal_inv (s\<lparr>lcores := (lcores s)(lid \<mapsto> l\<lparr>phase := x\<rparr>)\<rparr>)"
  by (auto simp: eal_inv_def)

lemma listener_reply_inv:
  assumes "eal_inv s" "listener_reply lid s = Some s'"
  shows "eal_inv s'"
  using assms(2) put_err_inv [OF set_phase_inv [OF assms(1)]] set_phase_inv [OF assms(1)]
  by (auto simp: listener_reply_def Let_def split: option.splits phase.splits)

lemma ExecOnLcoreAsync_inv:
  assumes "eal_inv s" "ExecOnLcoreAsync lid job s = Some s'"
  shows "eal_inv s'"
  using assms put_err_inv [OF assms(1)]
  by (auto simp: ExecOnLcoreAsync_def eal_inv_def split: option.splits if_splits)

lemma listener_run_cases:
  assumes "listener_run p lid s = Some s'"
  obtains (crash) l job jobs where "lcores s lid = Some l" "phase l = Idle" "ch l = job # jobs"
      "run_job p lid job (ctx l) = None" "s' = s\<lparr>crashed := True\<rparr>"
    | (ran) l job jobs c e where "lcores s lid = Some l" "phase l = Idle" "ch l = job # jobs"
      "run_job p lid job (ctx l) = Some (c, e)"
      "s' = s\<lparr>lcores := (lcores s)(lid \<mapsto> l\<lparr>ctx := c, ch := jobs, phase := Replying (ret job) e\<rparr>),
             ran := (ran s)(lid := ran s lid @ [(job, e)])\<rparr>"
proof -
  obtain l job jobs where l: "lcores s lid = Some l" "phase l = Idle" "ch l = job # jobs"
    using assms by (auto simp: listener_run_def split: option.splits phase.splits list.splits)
  show thesis
  proof (cases "run_job p lid job (ctx l)")
    case None
    then show thesis using crash [OF l] l assms by (simp add: listener_run_def)
  next
    case (Some r)
    then show thesis using ran [OF l] l assms by (cases r) (simp add: listener_run_def)
  qed
qed

lemma listener_run_inv:
  assumes "eal_inv s" "listener_run p lid s = Some s'"
  shows "eal_inv s'"
  using assms(2)
proof (cases rule: listener_run_cases)
  case (crash l job jobs)
  then show ?thesis using assms(1) by (simp add: eal_inv_def)
next
  case (ran l job jobs c e)
  have "length (job # jobs) \<le> lcoreJobsBuffer" "\<not> crashed s \<Longrightarrow> sent s lid = map fst (eal.ran s lid) @ job # jobs"
    using assms(1) ran(1,3) unfolding eal_inv_def by metis+
  then show ?thesis using assms(1) ran by (auto simp: eal_inv_def)
qed

lemma eal_do_inv:
  assumes "eal_inv s" "eal_do p ev s = Some s'"
  shows "eal_inv s'"
proof (cases ev)
  case (MakeChan c n)
  then show ?thesis using assms by (auto simp: eal_inv_def make_chan_def split: if_splits)
next
  case (Launch lid)
  then show ?thesis using assms
    by (auto simp: eal_inv_def listener_start_def split: if_splits option.splits)
next
  case (Send lid job)
  then show ?thesis using assms ExecOnLcoreAsync_inv [OF assms(1)] by (auto split: if_splits)
next
  case (Run lid)
  then show ?thesis using assms listener_run_inv [OF assms(1)] by (auto split: if_splits)
next
  case (Reply lid)
  then show ?thesis using assms listener_reply_inv [OF assms(1)] by (auto split: if_splits)
next
  case (Recv c)
  obtain q e es where q: "chans s c = Some q" "buf q = e # es"
    and s': "s' = s\<lparr>chans := (chans s)(c \<mapsto> q\<lparr>buf := es\<rparr>), taken := (taken s)(c := taken s c @ [e])\<rparr>"
    using assms(2) Recv by (auto simp: recv_def split: if_splits option.splits list.splits)
  have "length (e # es) \<le> cap q" "answers s c = taken s c @ e # es"
    using assms(1) q unfolding eal_inv_def by metis+
  then show ?thesis using assms(1) s' by (auto simp: eal_inv_def)
qed

lemma eal_run_inv: "eal_inv s \<Longrightarrow> eal_run p evs s = Some s' \<Longrightarrow> eal_inv s'"
  by (induction evs arbitrary: s) (auto simp del: eal_do.simps split: option.splits intro: eal_do_inv)

text \<open>Every answer stems from a job that was run with that result or from an invalid lcore.\<close>

definition result_of :: "'v eal \<Rightarrow> nat \<Rightarrow> chan_id option \<Rightarrow> error \<Rightarrow> bool" where
  "result_of s lid r e \<longleftrightarrow> (\<exists>job. ret job = r \<and> (job, e) \<in> set (ran s lid))"

definition answers_justified :: "'v eal \<Rightarrow> bool" where
  "answers_justified s \<longleftrightarrow>
     (\<forall>c. \<forall>e \<in> set (answers s c). e = Some ErrLcoreInvalid \<or> (\<exists>lid. result_of s lid (Some c) e)) \<and>
     (\<forall>lid l r e. lcores s lid = Some l \<longrightarrow> phase l = Replying r e \<longrightarrow> result_of s lid r e)"

lemma justifiedD:
  assumes "answers_justified s"
  shows "e \<in> set (answers s c) \<Longrightarrow> e = Some ErrLcoreInvalid \<or> (\<exists>lid. result_of s lid (Some c) e)"
    and "lcores s lid = Some l \<Longrightarrow> phase l = Replying r e \<Longrightarrow> result_of s lid r e"
  using assms unfolding answers_justified_def by blast+

lemma result_of_mono: "set (ran s lid) \<subseteq> set (ran s' lid) \<Longrightarrow> result_of s lid r e \<Longrightarrow> result_of s' lid r e"
  unfolding result_of_def by blast

lemma result_of_same: "ran s' = ran s \<Longrightarrow> result_of s' = result_of s"
  by (auto simp: result_of_def fun_eq_iff)

text \<open>Steps that leave the histories alone and start no reply.\<close>

lemma justified_frame:
  assumes "answers_justified s" "answers s' = answers s" "ran s' = ran s"
    and "\<And>lid l r e. lcores s' lid = Some l \<Longrightarrow> phase l = Replying r e \<Longrightarrow>
           \<exists>l'. lcores s lid = Some l' \<and> phase l' = Replying r e"
  shows "answers_justified s'"
  unfolding answers_justified_def result_of_same [OF assms(3)] assms(2)
  using justifiedD [OF assms(1)] assms(4) by meson

lemma justified_put:
  assumes "answers_justified s" "put_err c e s = Some s'"
    "e = Some ErrLcoreInvalid \<or> (\<exists>lid. result_of s lid (Some c) e)"
  shows "answers_justified s'"
  using assms(2)
proof (cases rule: put_err_cases)
  case (1 q)
  have "ran s' = ran s" using 1(3) by simp
  note same = result_of_same [OF this]
  have same: "result_of s' = result_of s" "lcores s' = lcores s"
    "answers s' = (answers s)(c := answers s c @ [e])"
    using same 1(3) by simp_all
  have "x = Some ErrLcoreInvalid \<or> (\<exists>lid. result_of s lid (Some d) x)" if x: "x \<in> set (answers s' d)" for d x
  proof -
    consider "x \<in> set (answers s d)" | "d = c" "x = e" using x same(3) by (auto split: if_splits)
    then show ?thesis using justifiedD(1) [OF assms(1)] assms(3) by cases blast+
  qed
  then show ?thesis
    unfolding answers_justified_def same(1,2) using justifiedD(2) [OF assms(1)] by blast
qed

lemma justified_reply:
  assumes "answers_justified s" "listener_reply lid s = Some s'"
  shows "answers_justified s'"
proof -
  obtain l r e where l: "lcores s lid = Some l" "phase l = Replying r e"
    using assms(2) by (auto simp: listener_reply_def split: option.splits phase.splits)
  define t where "t = s\<lparr>lcores := (lcores s)(lid \<mapsto> l\<lparr>phase := (if ctx_done (ctx l) then Stopped else Idle)\<rparr>)\<rparr>"
  have t: "answers_justified t"
    by (rule justified_frame [OF assms(1)]) (auto simp: t_def split: if_splits)
  have res: "result_of t lid r e"
    using justifiedD(2) [OF assms(1) l] result_of_same [of t s] by (simp add: t_def)
  have "(case r of None \<Rightarrow> Some t | Some c \<Rightarrow> put_err c e t) = Some s'"
    using assms(2) l unfolding listener_reply_def t_def Let_def by simp
  then show ?thesis using t res justified_put [OF t, of _ e s'] by (cases r) auto
qed

lemma justified_run:
  assumes "answers_justified s" "listener_run p lid s = Some s'"
  shows "answers_justified s'"
  using assms(2)
proof (cases rule: listener_run_cases)
  case (crash l job jobs)
  show ?thesis by (rule justified_frame [OF assms(1)]) (auto simp: crash)
next
  case (ran l job jobs c e)
  have mono: "result_of s i r x \<Longrightarrow> result_of s' i r x" for i r x
    by (rule result_of_mono) (use ran(5) in auto)
  have new: "result_of s' lid (ret job) e" using ran(5) by (auto simp: result_of_def)
  have "result_of s' i r x" if "lcores s' i = Some k" "phase k = Replying r x" for i k r x
    using that ran(5) new mono justifiedD(2) [OF assms(1), of i k] by (cases "i = lid") auto
  moreover have "answers s' = answers s" using ran(5) by simp
  ultimately show ?thesis
    unfolding answers_justified_def using justifiedD(1) [OF assms(1)] mono by metis
qed

lemma justified_send:
  assumes "answers_justified s" "ExecOnLcoreAsync lid job s = Some s'"
  shows "answers_justified s'"
proof (cases "lcores s lid")
  case None
  then show ?thesis using assms justified_put [OF assms(1)]
    by (auto simp: ExecOnLcoreAsync_def split: option.splits)
next
  case (Some l)
  then have "s' = s\<lparr>lcores := (lcores s)(lid \<mapsto> l\<lparr>ch := ch l @ [job]\<rparr>), sent := (sent s)(lid := sent s lid @ [job])\<rparr>"
    using assms(2) by (simp add: ExecOnLcoreAsync_def split: if_splits)
  then show ?thesis using Some
    by (intro justified_frame [OF assms(1)]) (auto split: if_splits)
qed

lemma eal_do_justified:
  assumes "answers_justified s" "eal_do p ev s = Some s'"
  shows "answers_justified s'"
proof (cases ev)
  case (Send lid job)
  then show ?thesis using assms justified_send [OF assms(1)] by (auto split: if_splits)
next
  case (Run lid)
  then show ?thesis using assms justified_run [OF assms(1)] by (auto split: if_splits)
next
  case (Reply lid)
  then show ?thesis using assms justified_reply [OF assms(1)] by (auto split: if_splits)
next
  case (Launch lid)
  then show ?thesis using assms(2)
    by (intro justified_frame [OF assms(1)]) (auto simp: listener_start_def split: if_splits option.splits)
next
  case (MakeChan c n)
  then show ?thesis using assms(2)
    by (intro justified_frame [OF assms(1)]) (auto simp: make_chan_def split: if_splits)
next
  case (Recv c)
  then show ?thesis using assms(2)
    by (intro justified_frame [OF assms(1)]) (auto simp: recv_def split: if_splits option.splits list.splits)
qed

lemma eal_run_justified:
  "answers_justified s \<Longrightarrow> eal_run p evs s = Some s' \<Longrightarrow> answers_justified s'"
  by (induction evs arbitrary: s)
    (auto simp del: eal_do.simps split: option.splits intro: eal_do_justified)

text \<open>The state before \<^verbatim>\<open>Init\<close>.\<close>

definition eal_empty :: "'v eal" where
  "eal_empty = \<lparr>lcores = (\<lambda>_. None), chans = (\<lambda>_. None), wg = 0, crashed = False,
     sent = (\<lambda>_. []), ran = (\<lambda>_. []), answers = (\<lambda>_. []), taken = (\<lambda>_. [])\<rparr>"

lemma fold_ctx: "fold (\<lambda>lid m. m(lid \<mapsto> x)) ids m i = (if i \<in> set ids then Some x else m i)"
  by (induction ids arbitrary: m) auto

lemma ealLaunch_inv:
  "eal_inv (ealLaunch v ids (eal_empty\<lparr>wg := n\<rparr>))"
  "answers_justified (ealLaunch v ids (eal_empty\<lparr>wg := n\<rparr>))"
  by (auto simp: eal_inv_def answers_justified_def ealLaunch_def fold_ctx eal_empty_def new_ctx_def
      split: if_splits)

section \<open>Init waits for every listener\<close>

text \<open>
  While the listeners start, the wait group counts those that have not: with one context per
  lcore that DPDK counts, \<^verbatim>\<open>Init\<close> returns only when all of them serve jobs.
\<close>

definition launching :: "'v eal \<Rightarrow> nat set" where
  "launching s = {lid. \<exists>l. lcores s lid = Some l \<and> phase l = Launching}"

definition wg_inv :: "'v eal \<Rightarrow> bool" where
  "wg_inv s \<longleftrightarrow> finite (launching s) \<and> wg s = int (card (launching s))"

lemma launching_frame:
  assumes "wg_inv s" "wg s' = wg s" "\<And>lid. map_option phase (lcores s' lid) = Some Launching
      \<longleftrightarrow> map_option phase (lcores s lid) = Some Launching"
  shows "wg_inv s'"
proof -
  have "launching s' = launching s" using assms(3) by (simp add: launching_def)
  then show ?thesis using assms(1,2) by (simp add: wg_inv_def)
qed

lemma put_err_fields:
  "put_err c e s = Some s' \<Longrightarrow> wg s' = wg s \<and> lcores s' = lcores s \<and> crashed s' = crashed s"
  by (elim put_err_cases) simp

lemma listener_start_wg:
  assumes "wg_inv s" "listener_start lid s = Some s'"
  shows "wg_inv s'"
proof -
  obtain l where l: "lcores s lid = Some l" "phase l = Launching"
    and s': "s' = s\<lparr>lcores := (lcores s)(lid \<mapsto> l\<lparr>phase := Idle\<rparr>), wg := wg s - 1\<rparr>"
    using assms(2) by (auto simp: listener_start_def split: option.splits if_splits)
  have "launching s' = launching s - {lid}" using l s' by (auto simp: launching_def)
  moreover have "lid \<in> launching s" using l by (auto simp: launching_def)
  moreover have "int (card (launching s - {lid})) = int (card (launching s)) - 1"
    using \<open>lid \<in> launching s\<close> assms(1) card_Suc_Diff1 [of "launching s" lid] by (simp add: wg_inv_def)
  ultimately show ?thesis using assms(1) s' by (simp add: wg_inv_def)
qed

lemma listener_reply_phases:
  assumes "listener_reply lid s = Some s'"
  obtains l r e where "lcores s lid = Some l" "phase l = Replying r e" "wg s' = wg s"
    "lcores s' = (lcores s)(lid \<mapsto> l\<lparr>phase := (if ctx_done (ctx l) then Stopped else Idle)\<rparr>)"
proof -
  obtain l r e where l: "lcores s lid = Some l" "phase l = Replying r e"
    using assms by (auto simp: listener_reply_def split: option.splits phase.splits)
  then show thesis
    using that [OF l] assms put_err_fields
    by (cases r) (auto simp: listener_reply_def Let_def dest!: put_err_fields)
qed

lemma eal_do_wg:
  assumes "wg_inv s" "eal_do p ev s = Some s'"
  shows "wg_inv s'"
proof (cases ev)
  case (Send lid job)
  then show ?thesis using assms(2)
    by (intro launching_frame [OF assms(1)])
      (auto simp: ExecOnLcoreAsync_def split: if_splits option.splits dest: put_err_fields)
next
  case (Run lid)
  then have "listener_run p lid s = Some s'" using assms(2) by (auto split: if_splits)
  then show ?thesis
    by (cases rule: listener_run_cases) (auto intro!: launching_frame [OF assms(1)] split: if_splits)
next
  case (Reply lid)
  then have "listener_reply lid s = Some s'" using assms(2) by (auto split: if_splits)
  then show ?thesis
    by (cases rule: listener_reply_phases) (auto intro!: launching_frame [OF assms(1)] split: if_splits)
next
  case (Launch lid)
  then show ?thesis using assms listener_start_wg [OF assms(1)] by (auto split: if_splits)
next
  case (MakeChan c n)
  then show ?thesis using assms(2)
    by (intro launching_frame [OF assms(1)]) (auto simp: make_chan_def split: if_splits)
next
  case (Recv c)
  then show ?thesis using assms(2)
    by (intro launching_frame [OF assms(1)]) (auto simp: recv_def split: if_splits option.splits list.splits)
qed

lemma eal_run_wg: "wg_inv s \<Longrightarrow> eal_run p evs s = Some s' \<Longrightarrow> wg_inv s'"
  by (induction evs arbitrary: s) (auto simp del: eal_do.simps split: option.splits intro: eal_do_wg)

lemma ealLaunch_wg:
  assumes "distinct ids"
  shows "wg_inv (ealLaunch v ids (eal_empty\<lparr>wg := int (length ids)\<rparr>))"
proof -
  have "launching (ealLaunch v ids (eal_empty\<lparr>wg := int (length ids)\<rparr>)) = set ids"
    by (auto simp: launching_def ealLaunch_def fold_ctx eal_empty_def new_ctx_def)
  then show ?thesis
    using assms by (simp add: wg_inv_def distinct_card) (simp add: ealLaunch_def)
qed

section \<open>The result of ExecOnLcore\<close>

text \<open>
  A channel is private to the caller that made it as long as nobody else sends jobs that
  answer to it.
\<close>

fun uses_chan :: "chan_id \<Rightarrow> 'v event \<Rightarrow> bool" where
  "uses_chan c (Send lid job) \<longleftrightarrow> ret job = Some c"
| "uses_chan c (MakeChan d n) \<longleftrightarrow> c = d"
| "uses_chan c (Recv d) \<longleftrightarrow> c = d"
| "uses_chan c _ \<longleftrightarrow> False"

definition fresh_chan :: "chan_id \<Rightarrow> 'v eal \<Rightarrow> bool" where
  "fresh_chan c s \<longleftrightarrow> chans s c = None \<and> (\<forall>lid. \<forall>job \<in> set (sent s lid). ret job \<noteq> Some c)"

definition jobs_known :: "bool \<Rightarrow> 'v eal \<Rightarrow> bool" where
  "jobs_known p s \<longleftrightarrow> (\<forall>lid job e. (job, e) \<in> set (ran s lid) \<longrightarrow>
     job \<in> set (sent s lid) \<and> (\<exists>x y. run_job p lid job x = Some (y, e)))"

definition only_job :: "chan_id \<Rightarrow> nat \<Rightarrow> 'v lcoreJob \<Rightarrow> 'v eal \<Rightarrow> bool" where
  "only_job c L J s \<longleftrightarrow>
     (\<forall>lid job. job \<in> set (sent s lid) \<longrightarrow> ret job = Some c \<longrightarrow> lid = L \<and> job = J) \<and>
     (\<forall>e \<in> set (answers s c). (J, e) \<in> set (ran s L))"

lemma histories_grow:
  assumes "eal_do p ev s = Some s'"
  shows "set (ran s lid) \<subseteq> set (ran s' lid)" "set (sent s lid) \<subseteq> set (sent s' lid)"
  using assms
  by (cases ev; auto simp: make_chan_def listener_start_def ExecOnLcoreAsync_def recv_def listener_reply_def
      Let_def split: if_splits option.splits list.splits phase.splits
      elim!: put_err_cases listener_run_cases)+

text \<open>What one event adds to the histories.\<close>

lemma eal_do_sent:
  assumes "eal_do p ev s = Some s'"
  shows "sent s' = sent s \<or> (\<exists>lid job. ev = Send lid job \<and> sent s' = (sent s)(lid := sent s lid @ [job]))"
  using assms
  by (cases ev) (auto simp: make_chan_def listener_start_def ExecOnLcoreAsync_def recv_def listener_reply_def
      Let_def split: if_splits option.splits list.splits phase.splits
      elim!: put_err_cases listener_run_cases)

lemma eal_do_ran:
  assumes "eal_do p ev s = Some s'"
  shows "ran s' = ran s \<or> (\<exists>lid l job e x y. ev = Run lid \<and> lcores s lid = Some l \<and> job \<in> set (ch l) \<and>
    run_job p lid job x = Some (y, e) \<and> ran s' = (ran s)(lid := ran s lid @ [(job, e)]))"
proof (cases ev)
  case (Run lid)
  then have "listener_run p lid s = Some s'" using assms by (auto split: if_splits)
  then show ?thesis
  proof (cases rule: listener_run_cases)
    case (ran l job jobs c e)
    then show ?thesis using Run by auto
  qed simp
qed (use assms in \<open>auto simp: make_chan_def listener_start_def ExecOnLcoreAsync_def recv_def listener_reply_def
      Let_def split: if_splits option.splits list.splits phase.splits elim!: put_err_cases\<close>)

lemma eal_do_answers:
  assumes "eal_do p ev s = Some s'"
  shows "answers s' = answers s \<or> (\<exists>c e. answers s' = (answers s)(c := answers s c @ [e]) \<and>
    ((\<exists>lid l. ev = Reply lid \<and> lcores s lid = Some l \<and> phase l = Replying (Some c) e) \<or>
     (\<exists>lid job. ev = Send lid job \<and> ret job = Some c \<and> lcores s lid = None)))"
  using assms
  by (cases ev) (auto simp: make_chan_def listener_start_def ExecOnLcoreAsync_def recv_def listener_reply_def
      Let_def split: if_splits option.splits list.splits phase.splits
      elim!: put_err_cases listener_run_cases)

lemma jobs_known_step:
  assumes "jobs_known p s" "eal_inv s" "\<not> crashed s" "eal_do p ev s = Some s'"
  shows "jobs_known p s'"
  unfolding jobs_known_def
proof (intro allI impI)
  fix lid job e
  assume in': "(job, e) \<in> set (ran s' lid)"
  show "job \<in> set (sent s' lid) \<and> (\<exists>x y. run_job p lid job x = Some (y, e))"
  proof (cases "(job, e) \<in> set (ran s lid)")
    case True
    then show ?thesis using assms(1) histories_grow(2) [OF assms(4)] unfolding jobs_known_def by blast
  next
    case False
    then obtain l x y where l: "lcores s lid = Some l" "job \<in> set (ch l)" "run_job p lid job x = Some (y, e)"
      using eal_do_ran [OF assms(4)] in' by (auto split: if_splits)
    have "job \<in> set (sent s lid)" using assms(2,3) l(1,2) unfolding eal_inv_def by fastforce
    then show ?thesis using l(3) histories_grow(2) [OF assms(4)] by blast
  qed
qed

lemma only_job_step:
  assumes "only_job c L J s" "jobs_known p s" "answers_justified s" "eal_do p ev s = Some s'"
    and "\<not> uses_chan c ev"
  shows "only_job c L J s'"
proof -
  have S: "lid = L \<and> job = J" if "job \<in> set (sent s lid)" "ret job = Some c" for lid job
    using assms(1) that unfolding only_job_def by blast
  have "lid = L \<and> job = J" if "job \<in> set (sent s' lid)" "ret job = Some c" for lid job
    using eal_do_sent [OF assms(4)] that S assms(5) by (auto split: if_splits)
  moreover have "(J, e) \<in> set (ran s' L)" if e: "e \<in> set (answers s' c)" for e
  proof (cases "e \<in> set (answers s c)")
    case True
    then show ?thesis using assms(1) histories_grow(1) [OF assms(4)] unfolding only_job_def by blast
  next
    case False
    then obtain lid l where l: "lcores s lid = Some l" "phase l = Replying (Some c) e"
      using eal_do_answers [OF assms(4)] e assms(5) by (auto split: if_splits)
    then obtain job where job: "ret job = Some c" "(job, e) \<in> set (ran s lid)"
      using justifiedD(2) [OF assms(3) l] by (auto simp: result_of_def)
    then have "job \<in> set (sent s lid)" using assms(2) unfolding jobs_known_def by blast
    then have "lid = L \<and> job = J" using S job(1) by blast
    then show ?thesis using job(2) histories_grow(1) [OF assms(4)] by blast
  qed
  ultimately show ?thesis unfolding only_job_def by blast
qed

text \<open>Everything that the sequences of events keep, in one invariant.\<close>

definition eal_ok :: "bool \<Rightarrow> 'v eal \<Rightarrow> bool" where
  "eal_ok p s \<longleftrightarrow> eal_inv s \<and> answers_justified s \<and> jobs_known p s"

lemma eal_do_crashed: "crashed s \<Longrightarrow> eal_do p ev s = None"
  by simp

lemma eal_do_ok: "eal_ok p s \<Longrightarrow> eal_do p ev s = Some s' \<Longrightarrow> eal_ok p s'"
  unfolding eal_ok_def
  using eal_do_inv eal_do_justified jobs_known_step eal_do_crashed by (metis option.distinct(1))

lemma eal_run_ok: "eal_ok p s \<Longrightarrow> eal_run p evs s = Some s' \<Longrightarrow> eal_ok p s'"
  by (induction evs arbitrary: s) (auto simp del: eal_do.simps split: option.splits intro: eal_do_ok)

lemma eal_run_append:
  "eal_run p (xs @ ys) s = (case eal_run p xs s of None \<Rightarrow> None | Some s' \<Rightarrow> eal_run p ys s')"
  by (induction xs arbitrary: s) (auto simp del: eal_do.simps split: option.split)

lemma only_job_run:
  "only_job c L J s \<Longrightarrow> eal_ok p s \<Longrightarrow> eal_run p evs s = Some s' \<Longrightarrow> \<forall>ev \<in> set evs. \<not> uses_chan c ev
    \<Longrightarrow> only_job c L J s'"
proof (induction evs arbitrary: s)
  case (Cons ev evs)
  then obtain t where t: "eal_do p ev s = Some t" "eal_run p evs t = Some s'"
    by (auto simp del: eal_do.simps split: option.splits)
  have "only_job c L J t"
    using only_job_step [OF Cons.prems(1) _ _ t(1)] Cons.prems(2,4) by (simp add: eal_ok_def)
  then show ?case using Cons.IH [OF _ eal_do_ok [OF Cons.prems(2) t(1)] t(2)] Cons.prems(4) by simp
qed simp

lemma ExecOnLcore_result:
  assumes "eal_ok p s" "fresh_chan c s" "lcores s L \<noteq> None" "\<forall>ev \<in> set sched. \<not> uses_chan c ev"
    and "ExecOnLcore p c sched L f s = Some (e, s')"
  defines "J \<equiv> \<lparr>fn = f, ret = Some c\<rparr>"
  shows "(J, e) \<in> set (ran s' L) \<and> (\<exists>x y. run_job p L J x = Some (y, e))"
proof -
  obtain t where t: "eal_run p ([MakeChan c 1, Send L J] @ sched) s = Some t" "recv c t = Some (e, s')"
    using assms(5) by (auto simp: ExecOnLcore_def J_def split: option.splits if_splits Option.bind_splits)
  obtain s1 s2 where s1: "eal_do p (MakeChan c 1) s = Some s1" and s2: "eal_do p (Send L J) s1 = Some s2"
    and s2t: "eal_run p sched s2 = Some t"
    using t(1) by (auto simp del: eal_do.simps split: option.splits)
  have ok2: "eal_ok p s2" using assms(1) s1 s2 eal_do_ok by blast
  have h1: "sent s1 = sent s" "answers s1 = answers s" "lcores s1 = lcores s"
    using s1 by (auto simp: make_chan_def split: if_splits)
  have "answers s c = []" using assms(1,2) by (auto simp: eal_ok_def eal_inv_def fresh_chan_def)
  moreover have "answers s2 = answers s1" "sent s2 = (sent s1)(L := sent s1 L @ [J])"
    using s2 assms(3) h1(3) by (auto simp: ExecOnLcoreAsync_def split: if_splits option.splits)
  ultimately have "only_job c L J s2"
    using assms(2) h1 by (auto simp: only_job_def fresh_chan_def)
  then have "only_job c L J t" using only_job_run [OF _ ok2 s2t assms(4)] by blast
  moreover have "eal_ok p t" using eal_run_ok [OF ok2 s2t] .
  moreover have "e \<in> set (answers t c)" "ran s' = ran t"
    using t(2) \<open>eal_ok p t\<close> by (auto simp: recv_def eal_ok_def eal_inv_def split: option.splits list.splits)
  ultimately show ?thesis unfolding only_job_def eal_ok_def jobs_known_def by metis
qed

section \<open>Progress\<close>

text \<open>
  Jobs run one after another: the context they leave, unless one of them ends the process or,
  by marking the context done, the listener.  \<open>answers_fit\<close> is the room that the replies of
  jobs with an answer channel need when nobody receives in between.
\<close>

fun run_jobs :: "bool \<Rightarrow> nat \<Rightarrow> 'v lcoreJob list \<Rightarrow> 'v LcoreCtx \<Rightarrow> 'v LcoreCtx option" where
  "run_jobs p lid [] x = Some x"
| "run_jobs p lid (j # js) x = (case run_job p lid j x of
     Some (y, e) \<Rightarrow> if ctx_done y then None else run_jobs p lid js y
   | None \<Rightarrow> None)"

definition answers_fit :: "'v lcoreJob list \<Rightarrow> (chan_id \<Rightarrow> err_chan option) \<Rightarrow> bool" where
  "answers_fit js cs \<longleftrightarrow> (\<forall>d \<in> Option.these (ret ` set js). \<exists>q. cs d = Some q \<and>
     length (buf q) + length (filter (\<lambda>j. ret j = Some d) js) \<le> cap q)"

definition rounds :: "nat \<Rightarrow> nat \<Rightarrow> 'v event list" where
  "rounds lid n = concat (replicate n [Run lid, Reply lid])"

lemma rounds_simps: "rounds lid 0 = []" "rounds lid (Suc n) = Run lid # Reply lid # rounds lid n"
  by (simp_all add: rounds_def)

lemma answers_fitD:
  "answers_fit js cs \<Longrightarrow> j \<in> set js \<Longrightarrow> ret j = Some d \<Longrightarrow> \<exists>q. cs d = Some q \<and>
     length (buf q) + length (filter (\<lambda>j. ret j = Some d) js) \<le> cap q"
  unfolding answers_fit_def by (force simp: Option.these_def)

lemma answers_fitI:
  "(\<And>j d. j \<in> set js \<Longrightarrow> ret j = Some d \<Longrightarrow> \<exists>q. cs d = Some q \<and>
     length (buf q) + length (filter (\<lambda>j. ret j = Some d) js) \<le> cap q) \<Longrightarrow> answers_fit js cs"
  unfolding answers_fit_def by (force simp: Option.these_def)

lemma serve_one:
  assumes "\<not> crashed s" "lcores s lid = Some l" "phase l = Idle" "ch l = j # js"
    "run_job p lid j (ctx l) = Some (y, e)" "\<not> ctx_done y" "answers_fit (j # ks) (chans s)"
  shows "\<exists>s'. eal_run p [Run lid, Reply lid] s = Some s' \<and> \<not> crashed s' \<and>
    lcores s' lid = Some (l\<lparr>ctx := y, ch := js\<rparr>) \<and> answers_fit ks (chans s') \<and>
    (\<forall>d. ret j \<noteq> Some d \<longrightarrow> chans s' d = chans s d)"
proof (cases "ret j")
  case None
  have "answers_fit ks (chans s)"
    using answers_fitD [OF assms(7)] None by (intro answers_fitI) fastforce
  then show ?thesis using assms None by (simp add: listener_run_def listener_reply_def)
next
  case (Some d)
  obtain q where q: "chans s d = Some q" "length (buf q) + Suc (length (filter (\<lambda>j. ret j = Some d) ks)) \<le> cap q"
    using answers_fitD [OF assms(7) _ Some] Some by auto
  have fit: "answers_fit ks ((chans s)(d \<mapsto> q\<lparr>buf := buf q @ [e]\<rparr>))"
  proof (rule answers_fitI)
    fix i r assume i: "i \<in> set ks" "ret i = Some r"
    then obtain q' where "chans s r = Some q'" "length (buf q') + length (filter (\<lambda>j. ret j = Some r) ks) \<le> cap q'"
      using answers_fitD [OF assms(7), of i r] by (auto split: if_splits)
    then show "\<exists>q'. ((chans s)(d \<mapsto> q\<lparr>buf := buf q @ [e]\<rparr>)) r = Some q' \<and>
        length (buf q') + length (filter (\<lambda>j. ret j = Some r) ks) \<le> cap q'"
      using q by auto
  qed
  show ?thesis using assms(1-6) Some q fit
    by (simp add: listener_run_def listener_reply_def put_err_def)
qed

lemma serve_queue:
  assumes "\<not> crashed s" "lcores s lid = Some l" "phase l = Idle" "ch l = js @ [J]"
    "run_jobs p lid js (ctx l) = Some x" "answers_fit js (chans s)"
  shows "\<exists>s'. eal_run p (rounds lid (length js)) s = Some s' \<and> \<not> crashed s' \<and>
      lcores s' lid = Some (l\<lparr>ctx := x, ch := [J]\<rparr>) \<and>
      (\<forall>d. (\<forall>j \<in> set js. ret j \<noteq> Some d) \<longrightarrow> chans s' d = chans s d)"
  using assms
proof (induction js arbitrary: s l)
  case Nil
  then show ?case by (simp add: rounds_simps)
next
  case (Cons j js)
  obtain y e where y: "run_job p lid j (ctx l) = Some (y, e)" "\<not> ctx_done y" "run_jobs p lid js y = Some x"
    using Cons.prems(5) by (auto split: option.splits if_splits)
  obtain s1 where s1: "eal_run p [Run lid, Reply lid] s = Some s1" "\<not> crashed s1"
    "lcores s1 lid = Some (l\<lparr>ctx := y, ch := js @ [J]\<rparr>)" "answers_fit js (chans s1)"
    "\<forall>d. ret j \<noteq> Some d \<longrightarrow> chans s1 d = chans s d"
    using serve_one [OF Cons.prems(1-3) _ y(1,2) Cons.prems(6), of "js @ [J]"] Cons.prems(4) by auto
  have "\<exists>s'. eal_run p (rounds lid (length js)) s1 = Some s' \<and> \<not> crashed s' \<and>
      lcores s' lid = Some (l\<lparr>ctx := x, ch := [J]\<rparr>) \<and>
      (\<forall>d. (\<forall>j \<in> set js. ret j \<noteq> Some d) \<longrightarrow> chans s' d = chans s1 d)"
    using Cons.IH [OF s1(2,3)] Cons.prems(3) y(3) s1(4) by simp
  then show ?case
    using s1 eal_run_append [of p "[Run lid, Reply lid]" "rounds lid (length js)" s]
    by (auto simp: rounds_simps simp del: eal_run.simps)
qed

lemma ExecOnLcore_returns:
  assumes "\<not> crashed s" "chans s c = None" "lcores s lid = Some l" "phase l = Idle"
    "length (ch l) < lcoreJobsBuffer" "run_jobs p lid (ch l) (ctx l) = Some x" "answers_fit (ch l) (chans s)"
    "run_job p lid \<lparr>fn = f, ret = Some c\<rparr> x = Some (y, e)"
  shows "\<exists>s'. ExecOnLcore p c (rounds lid (Suc (length (ch l)))) lid f s = Some (e, s') \<and>
    lcores s' lid = Some (l\<lparr>ctx := y, ch := [], phase := (if ctx_done y then Stopped else Idle)\<rparr>)"
proof -
  let ?J = "\<lparr>fn = f, ret = Some c\<rparr>"
  define s1 where "s1 = s\<lparr>chans := (chans s)(c \<mapsto> \<lparr>cap = 1, buf = []\<rparr>),
    lcores := (lcores s)(lid \<mapsto> l\<lparr>ch := ch l @ [?J]\<rparr>), sent := (sent s)(lid := sent s lid @ [?J])\<rparr>"
  have s1: "eal_run p [MakeChan c 1, Send lid ?J] s = Some s1"
    using assms(1-3,5) by (simp add: make_chan_def ExecOnLcoreAsync_def s1_def)
  have l1: "lcores s1 lid = Some (l\<lparr>ch := ch l @ [?J]\<rparr>)" "\<not> crashed s1" "chans s1 c = Some \<lparr>cap = 1, buf = []\<rparr>"
    using assms(1) by (simp_all add: s1_def)
  have other: "\<forall>j \<in> set (ch l). ret j \<noteq> Some c"
    using answers_fitD [OF assms(7)] assms(2) by fastforce
  have fit: "answers_fit (ch l) (chans s1)"
  proof (rule answers_fitI)
    fix j d assume "j \<in> set (ch l)" "ret j = Some d"
    moreover from this have "d \<noteq> c" using other by auto
    ultimately show "\<exists>q. chans s1 d = Some q \<and> length (buf q) + length (filter (\<lambda>j. ret j = Some d) (ch l)) \<le> cap q"
      using answers_fitD [OF assms(7)] by (simp add: s1_def)
  qed
  obtain t where t: "eal_run p (rounds lid (length (ch l))) s1 = Some t" "\<not> crashed t"
    "lcores t lid = Some (l\<lparr>ctx := x, ch := [?J]\<rparr>)" "chans t c = chans s1 c"
    using serve_queue [OF l1(2,1), of "ch l" ?J p x] assms(4,6) fit other by auto
  have last: "rounds lid (Suc n) = rounds lid n @ [Run lid, Reply lid]" for n
    by (induction n) (simp_all add: rounds_simps)
  obtain u where u: "eal_run p [Run lid, Reply lid] t = Some u" "\<not> crashed u"
    "lcores u lid = Some (l\<lparr>ctx := y, ch := [], phase := (if ctx_done y then Stopped else Idle)\<rparr>)"
    "chans u c = Some \<lparr>cap = 1, buf = [e]\<rparr>"
    using t assms(4,8) l1(3) by (simp add: listener_run_def listener_reply_def put_err_def)
  have "eal_run p ([MakeChan c 1, Send lid ?J] @ rounds lid (Suc (length (ch l)))) s = Some u"
    unfolding last eal_run_append s1 option.case t(1) u(1) ..
  then show ?thesis
    using u by (simp add: ExecOnLcore_def recv_def del: eal_run.simps)
qed

section \<open>Stopping\<close>

lemma stopped_step:
  assumes "lcores s lid = Some l" "phase l = Stopped" "eal_do p ev s = Some s'"
  shows "\<exists>l' js. lcores s' lid = Some l' \<and> phase l' = Stopped \<and> ch l' = ch l @ js" "ran s' lid = ran s lid"
proof -
  show "\<exists>l' js. lcores s' lid = Some l' \<and> phase l' = Stopped \<and> ch l' = ch l @ js"
    using assms
    by (cases ev) (auto simp: make_chan_def listener_start_def ExecOnLcoreAsync_def recv_def listener_reply_def
        Let_def split: if_splits option.splits list.splits phase.splits
        elim!: put_err_cases listener_run_cases)
  show "ran s' lid = ran s lid"
    using assms
    by (cases ev) (auto simp: make_chan_def listener_start_def ExecOnLcoreAsync_def recv_def listener_reply_def
        Let_def split: if_splits option.splits list.splits phase.splits
        elim!: put_err_cases listener_run_cases)
qed

lemma stopped_run:
  "lcores s lid = Some l \<Longrightarrow> phase l = Stopped \<Longrightarrow> eal_run p evs s = Some s' \<Longrightarrow>
    (\<exists>l' js. lcores s' lid = Some l' \<and> phase l' = Stopped \<and> ch l' = ch l @ js) \<and> ran s' lid = ran s lid"
proof (induction evs arbitrary: s l)
  case (Cons ev evs)
  then obtain t where t: "eal_do p ev s = Some t" "eal_run p evs t = Some s'"
    by (auto simp del: eal_do.simps split: option.splits)
  obtain l' js where "lcores t lid = Some l'" "phase l' = Stopped" "ran t lid = ran s lid" "ch l' = ch l @ js"
    using stopped_step [OF Cons.prems(1,2) t(1)] by blast
  then show ?case using Cons.IH [of t l'] t(2) by fastforce
qed auto

text \<open>
  A job sent to a stopped lcore: accepted while the buffer has room, and then never run and
  never answered; blocked forever when the buffer is full.
\<close>

lemma unanswered:
  assumes "eal_ok p s" "fresh_chan c s" "lcores s L = Some l" "phase l = Stopped"
    "eal_run p [MakeChan c 1, Send L \<lparr>fn = f, ret = Some c\<rparr>] s = Some t"
    "eal_run p sched t = Some s'" "\<forall>ev \<in> set sched. \<not> uses_chan c ev"
  shows "(\<lparr>fn = f, ret = Some c\<rparr>, e) \<notin> set (ran s' L)" "recv c s' = None"
proof -
  let ?J = "\<lparr>fn = f, ret = Some c\<rparr>"
  obtain s1 where s1: "eal_do p (MakeChan c 1) s = Some s1" "eal_do p (Send L ?J) s1 = Some t"
    using assms(5) by (auto simp del: eal_do.simps split: option.splits)
  have okt: "eal_ok p t" using assms(1) s1 eal_do_ok by blast
  have h1: "sent s1 = sent s" "answers s1 = answers s" "lcores s1 = lcores s"
    using s1(1) by (auto simp: make_chan_def split: if_splits)
  have "answers s c = []" using assms(1,2) by (auto simp: eal_ok_def eal_inv_def fresh_chan_def)
  moreover have "answers t = answers s1" "sent t = (sent s1)(L := sent s1 L @ [?J])"
    using s1(2) assms(3) h1(3) by (auto simp: ExecOnLcoreAsync_def split: if_splits option.splits)
  ultimately have "only_job c L ?J t" using assms(2) h1 by (auto simp: only_job_def fresh_chan_def)
  then have only: "only_job c L ?J s'" using only_job_run [OF _ okt assms(6,7)] by blast
  have "eal_run p ([MakeChan c 1, Send L ?J] @ sched) s = Some s'"
    unfolding eal_run_append using assms(5,6) by (simp del: eal_run.simps)
  then have "ran s' L = ran s L" using stopped_run [OF assms(3,4)] by blast
  moreover have "(?J, e) \<notin> set (ran s L)" for e
    using assms(1,2) unfolding eal_ok_def jobs_known_def fresh_chan_def by fastforce
  ultimately show "(?J, e) \<notin> set (ran s' L)" and "recv c s' = None"
    using only eal_run_ok [OF okt assms(6)]
    by (auto simp: only_job_def recv_def eal_ok_def eal_inv_def split: option.splits list.splits)
qed

lemma ExecOnLcore_stopped:
  assumes "eal_ok p s" "fresh_chan c s" "lcores s L = Some l" "phase l = Stopped"
    "\<forall>ev \<in> set sched. \<not> uses_chan c ev"
  shows "ExecOnLcore p c sched L f s = None"
proof -
  let ?J = "\<lparr>fn = f, ret = Some c\<rparr>"
  have "recv c t = None" if run: "eal_run p ([MakeChan c 1, Send L ?J] @ sched) s = Some t" for t
  proof -
    obtain s2 where "eal_run p [MakeChan c 1, Send L ?J] s = Some s2" "eal_run p sched s2 = Some t"
      using run unfolding eal_run_append by (cases "eal_run p [MakeChan c 1, Send L ?J] s") (simp_all only: option.case option.inject option.distinct)
    then show ?thesis using unanswered(2) [OF assms(1-4) _ _ assms(5)] by blast
  qed
  then show ?thesis
    by (cases "eal_run p ([MakeChan c 1, Send L ?J] @ sched) s") (simp_all add: ExecOnLcore_def del: eal_run.simps)
qed

lemma send_accepted:
  assumes "\<not> crashed s" "chans s c = None" "lcores s L = Some l" "length (ch l) < lcoreJobsBuffer"
  shows "\<exists>t l'. eal_run p [MakeChan c 1, Send L J] s = Some t \<and> lcores t L = Some l' \<and> ch l' = ch l @ [J]
    \<and> phase l' = phase l"
  using assms by (simp add: make_chan_def ExecOnLcoreAsync_def)

lemma send_blocked:
  assumes "eal_ok p s" "lcores s L = Some l" "phase l = Stopped" "length (ch l) = lcoreJobsBuffer"
    "eal_run p evs s = Some s'"
  shows "eal_do p (Send L J) s' = None"
proof -
  obtain l' js where "lcores s' L = Some l'" "ch l' = ch l @ js"
    using stopped_run [OF assms(2,3,5)] by blast
  then show ?thesis using assms(4) by (simp add: ExecOnLcoreAsync_def)
qed

text \<open>\<^verbatim>\<open>StopLcores\<close>: the sends, the rounds of the listeners and the receives.\<close>

definition idle_all :: "nat list \<Rightarrow> 'v lcoreJob list \<Rightarrow> 'v eal \<Rightarrow> bool" where
  "idle_all ids js s \<longleftrightarrow> (\<forall>lid \<in> set ids. \<exists>l. lcores s lid = Some l \<and> phase l = Idle \<and> ch l = js)"

lemma stop_sends:
  assumes "distinct ids" "\<not> crashed s" "idle_all ids [] s"
  shows "\<exists>s'. eal_run p (map (\<lambda>lid. Send lid (stop_job c)) ids) s = Some s' \<and> \<not> crashed s' \<and>
    chans s' = chans s \<and> idle_all ids [stop_job c] s'
    \<and> (\<forall>i. i \<notin> set ids \<longrightarrow> lcores s' i = lcores s i)"
  using assms
proof (induction ids arbitrary: s)
  case Nil
  then show ?case by (simp add: idle_all_def)
next
  case (Cons a ids)
  obtain l where l: "lcores s a = Some l" "phase l = Idle" "ch l = []"
    using Cons.prems(3) by (auto simp: idle_all_def)
  define t where "t = s\<lparr>lcores := (lcores s)(a \<mapsto> l\<lparr>ch := [stop_job c]\<rparr>), sent := (sent s)(a := sent s a @ [stop_job c])\<rparr>"
  have t: "eal_do p (Send a (stop_job c)) s = Some t"
    using l Cons.prems(2) by (simp add: ExecOnLcoreAsync_def lcoreJobsBuffer_def t_def)
  have "idle_all ids [] t" using Cons.prems(1,3) by (auto simp: idle_all_def t_def)
  then obtain s' where s': "eal_run p (map (\<lambda>lid. Send lid (stop_job c)) ids) t = Some s'" "\<not> crashed s'"
    "chans s' = chans t" "idle_all ids [stop_job c] s'" "\<forall>i. i \<notin> set ids \<longrightarrow> lcores s' i = lcores t i"
    using Cons.IH [of t] Cons.prems(1,2) by (auto simp: t_def)
  have "lcores s' a = Some (l\<lparr>ch := [stop_job c]\<rparr>)" using s'(5) Cons.prems(1) by (simp add: t_def)
  then have "idle_all (a # ids) [stop_job c] s'" using s'(4) l(2) by (simp add: idle_all_def)
  then show ?case
    using t s' by (intro exI [of _ s']) (simp add: t_def del: eal_do.simps)
qed

lemma stop_round:
  assumes "\<not> crashed s" "lcores s a = Some l" "phase l = Idle" "ch l = [stop_job c]"
    "chans s c = Some q" "length (buf q) < cap q"
  shows "\<exists>t. eal_run p [Run a, Reply a] s = Some t \<and> \<not> crashed t \<and>
    lcores t = (lcores s)(a \<mapsto> l\<lparr>ctx := (ctx l)\<lparr>ctx_done := True\<rparr>, ch := [], phase := Stopped\<rparr>) \<and>
    chans t = (chans s)(c \<mapsto> q\<lparr>buf := buf q @ [None]\<rparr>)"
  using assms
  by (cases p) (simp_all add: listener_run_def listener_reply_def put_err_def run_job_def panicCatcher_def stop_job_def)

lemma stop_rounds:
  assumes "distinct ids" "\<not> crashed s" "idle_all ids [stop_job c] s" "chans s c = Some q"
    "length (buf q) + length ids \<le> cap q"
  shows "\<exists>s'. eal_run p (concat (map (\<lambda>lid. [Run lid, Reply lid]) ids)) s = Some s' \<and> \<not> crashed s' \<and>
    (\<exists>q'. chans s' c = Some q' \<and> buf q' = buf q @ replicate (length ids) None) \<and>
    (\<forall>lid \<in> set ids. \<exists>l. lcores s' lid = Some l \<and> phase l = Stopped) \<and>
    (\<forall>i. i \<notin> set ids \<longrightarrow> lcores s' i = lcores s i)"
  using assms
proof (induction ids arbitrary: s q)
  case (Cons a ids)
  obtain l where l: "lcores s a = Some l" "phase l = Idle" "ch l = [stop_job c]"
    using Cons.prems(3) by (auto simp: idle_all_def)
  obtain t where t: "eal_run p [Run a, Reply a] s = Some t" "\<not> crashed t"
    "lcores t = (lcores s)(a \<mapsto> l\<lparr>ctx := (ctx l)\<lparr>ctx_done := True\<rparr>, ch := [], phase := Stopped\<rparr>)"
    "chans t = (chans s)(c \<mapsto> q\<lparr>buf := buf q @ [None]\<rparr>)"
    using stop_round [OF Cons.prems(2) l Cons.prems(4)] Cons.prems(5) by auto
  have idle: "idle_all ids [stop_job c] t" using Cons.prems(1,3) t(3) by (auto simp: idle_all_def)
  obtain s' q' where s': "eal_run p (concat (map (\<lambda>lid. [Run lid, Reply lid]) ids)) t = Some s'" "\<not> crashed s'"
    "chans s' c = Some q'" "buf q' = buf q @ None # replicate (length ids) None"
    "\<forall>lid \<in> set ids. \<exists>l. lcores s' lid = Some l \<and> phase l = Stopped"
    "\<forall>i. i \<notin> set ids \<longrightarrow> lcores s' i = lcores t i"
    using Cons.IH [OF _ t(2) idle, of "q\<lparr>buf := buf q @ [None]\<rparr>"] Cons.prems(1,5) t(4) by auto
  have "eal_run p (concat (map (\<lambda>lid. [Run lid, Reply lid]) (a # ids))) s = Some s'"
    using t(1) s'(1) eal_run_append [of p "[Run a, Reply a]" "concat (map (\<lambda>lid. [Run lid, Reply lid]) ids)" s]
    by (simp del: eal_run.simps)
  moreover have "\<exists>l. lcores s' a = Some l \<and> phase l = Stopped" using s'(6) t(3) Cons.prems(1) by simp
  ultimately show ?case using s' t(3) by auto
qed simp

lemma recv_all:
  "\<not> crashed s \<Longrightarrow> chans s c = Some q \<Longrightarrow> n \<le> length (buf q) \<Longrightarrow>
    \<exists>s'. eal_run p (replicate n (Recv c)) s = Some s' \<and> lcores s' = lcores s"
proof (induction n arbitrary: s q)
  case (Suc n)
  then obtain e es where es: "buf q = e # es" by (cases "buf q") auto
  then obtain t where "eal_do p (Recv c) s = Some t" "lcores t = lcores s" "\<not> crashed t"
    "chans t c = Some (q\<lparr>buf := es\<rparr>)"
    using Suc.prems by (simp add: recv_def)
  then show ?case using Suc.IH [of t "q\<lparr>buf := es\<rparr>"] Suc.prems(3) es by (auto simp del: eal_do.simps)
qed auto

lemma StopLcores_stops:
  assumes "distinct ids" "\<not> crashed s" "idle_all ids [] s" "chans s c = None"
  shows "\<exists>s'. StopLcores p c ids (concat (map (\<lambda>lid. [Run lid, Reply lid]) ids)) s = Some s' \<and>
    (\<forall>lid \<in> set ids. \<exists>l. lcores s' lid = Some l \<and> phase l = Stopped)"
proof -
  define s1 where "s1 = s\<lparr>chans := (chans s)(c \<mapsto> \<lparr>cap = length ids, buf = []\<rparr>)\<rparr>"
  have s1: "eal_do p (MakeChan c (length ids)) s = Some s1"
    using assms(2,4) by (simp add: make_chan_def s1_def)
  have "idle_all ids [] s1" "\<not> crashed s1" using assms(2,3) by (simp_all add: idle_all_def s1_def)
  then obtain s2 where s2: "eal_run p (map (\<lambda>lid. Send lid (stop_job c)) ids) s1 = Some s2" "\<not> crashed s2"
    "chans s2 = chans s1" "idle_all ids [stop_job c] s2"
    using stop_sends [OF assms(1), of s1 p c] by auto
  have q: "chans s2 c = Some \<lparr>cap = length ids, buf = []\<rparr>" using s2(3) by (simp add: s1_def)
  obtain s3 q3 where s3: "eal_run p (concat (map (\<lambda>lid. [Run lid, Reply lid]) ids)) s2 = Some s3" "\<not> crashed s3"
    "chans s3 c = Some q3" "buf q3 = replicate (length ids) None"
    "\<forall>lid \<in> set ids. \<exists>l. lcores s3 lid = Some l \<and> phase l = Stopped"
    using stop_rounds [OF assms(1) s2(2,4) q, of p] by auto
  obtain s4 where "eal_run p (replicate (length ids) (Recv c)) s3 = Some s4" "lcores s4 = lcores s3"
    using recv_all [OF s3(2,3), of "length ids" p] s3(4) by auto
  then show ?thesis
    using s1 s2(1) s3(1,5) by (auto simp: StopLcores_def eal_run_append simp del: eal_do.simps)
qed

section \<open>Enumerating lcores\<close>

text \<open>
  What DPDK documents of \<^verbatim>\<open>rte_get_next_lcore\<close> without wrapping: the next enabled lcore after
  \<open>i\<close>, \<^verbatim>\<open>RTE_MAX_LCORE\<close> when there is none.
\<close>

definition next_lcore_contract :: "u32 \<Rightarrow> (nat \<Rightarrow> bool) \<Rightarrow> (u32 \<Rightarrow> u32) \<Rightarrow> bool" where
  "next_lcore_contract m enabled nx \<longleftrightarrow> (\<forall>i. unat (i + 1) \<le> unat m \<longrightarrow>
     unat (i + 1) \<le> unat (nx i) \<and> unat (nx i) \<le> unat m \<and>
     (nx i \<noteq> m \<longrightarrow> enabled (unat (nx i))) \<and>
     (\<forall>k. unat (i + 1) \<le> k \<and> k < unat (nx i) \<longrightarrow> \<not> enabled k))"

lemma filter_skip:
  assumes "a \<le> b" "b \<le> n" "\<forall>k. a \<le> k \<and> k < b \<longrightarrow> \<not> P k"
  shows "filter P [a..<n] = filter P [b..<n]"
proof -
  have "[a..<n] = [a..<b] @ [b..<n]" using assms(1,2) upt_add_eq_append [of a b "n - b"] by simp
  then show ?thesis using assms(3) by (simp add: filter_empty_conv)
qed

lemma lcores_loop_all:
  assumes "next_lcore_contract m enabled nx" "unat (i + 1) \<le> unat m"
  shows "lcores_loop nx m i = Some (filter enabled [unat (i + 1)..<unat m])"
  using assms(2)
proof (induction "unat m - unat (i + 1)" arbitrary: i rule: less_induct)
  case less
  let ?j = "nx i"
  have j: "unat (i + 1) \<le> unat ?j" "unat ?j \<le> unat m" "?j \<noteq> m \<longrightarrow> enabled (unat ?j)"
    "\<forall>k. unat (i + 1) \<le> k \<and> k < unat ?j \<longrightarrow> \<not> enabled k"
    using assms(1) less.prems unfolding next_lcore_contract_def by blast+
  have skip: "filter enabled [unat (i + 1)..<unat m] = filter enabled [unat ?j..<unat m]"
    by (rule filter_skip [OF j(1,2,4)])
  show ?case
  proof (cases "?j < m")
    case False
    then have "unat ?j = unat m" using j(2) by (simp add: word_less_nat_alt)
    then show ?thesis using skip False by (subst lcores_loop.simps) (simp add: Let_def)
  next
    case True
    have lt: "unat ?j < unat m" using True by (simp add: word_less_nat_alt)
    then have suc: "unat (?j + 1) = Suc (unat ?j)"
      using unsigned_less [of m, where 'a = nat] by (simp add: unat_word_ariths(1))
    have "lcores_loop nx m ?j = Some (filter enabled [unat (?j + 1)..<unat m])"
      using less.hyps [of ?j] j(1) suc lt by simp
    moreover have "[unat ?j..<unat m] = unat ?j # [unat (?j + 1)..<unat m]"
      using lt suc by (simp add: upt_conv_Cons)
    moreover have "enabled (unat ?j)" using j(3) True by auto
    ultimately show ?thesis using skip True by (subst lcores_loop.simps) (simp add: Let_def)
  qed
qed

lemma getLcores_all:
  assumes "next_lcore_contract m enabled (\<lambda>i. nx i skipMain)"
  shows "getLcores nx m skipMain = Some (filter enabled [0..<unat m])"
  using lcores_loop_all [OF assms, of "NOT 0"] by (simp add: getLcores_def)

lemma run_job_error:
  "run_job p L \<lparr>fn = f, ret = c\<rparr> x = Some (y, e) \<Longrightarrow> \<exists>r. f x = (y, r) \<and> e = map_option (ErrLcorePanic L) r"
  by (auto simp: run_job_def panicCatcher_def split: if_splits prod.splits option.splits)

text \<open>C6: however the other goroutines are scheduled, a value that ExecOnLcore returns for a known lcore is the result of its own function, which has been run on that lcore: nil when the function returned, ErrLcorePanic with its value when it panicked.\<close>

theorem ExecOnLcore_answer:
  assumes "eal_ok p s" "fresh_chan c s" "lcores s L \<noteq> None" "\<forall>ev \<in> set sched. \<not> uses_chan c ev"
    and "ExecOnLcore p c sched L f s = Some (e, s')"
  shows "(\<lparr>fn = f, ret = Some c\<rparr>, e) \<in> set (ran s' L) \<and>
    (\<exists>x y r. f x = (y, r) \<and> e = map_option (ErrLcorePanic L) r)"
  using ExecOnLcore_result [OF assms] run_job_error by fastforce

definition two_lcores :: "nat eal" where
  "two_lcores = eal_empty\<lparr>lcores := [0 \<mapsto> (new_ctx 0)\<lparr>phase := Idle\<rparr>, 1 \<mapsto> (new_ctx 0)\<lparr>phase := Idle\<rparr>]\<rparr>"

lemma two_lcores_ok: "eal_ok p two_lcores" "fresh_chan c two_lcores"
  by (auto simp: eal_ok_def eal_inv_def answers_justified_def jobs_known_def fresh_chan_def two_lcores_def
      eal_empty_def new_ctx_def split: if_splits)

theorem ExecOnLcore_answer_witness:
  "\<exists>e s'. ExecOnLcore True 0 [Run 1, Reply 1] 1 (\<lambda>x. (x\<lparr>Value := 5\<rparr>, Some ''boom'')) two_lcores = Some (e, s') \<and>
     (\<exists>x y r. (\<lambda>x. (x\<lparr>Value := 5\<rparr>, Some ''boom'')) x = (y, r) \<and> e = map_option (ErrLcorePanic 1) r)"
proof -
  let ?f = "\<lambda>x :: nat LcoreCtx. (x\<lparr>Value := 5\<rparr>, Some ''boom'')"
  obtain e s' where r: "ExecOnLcore True 0 [Run 1, Reply 1] 1 ?f two_lcores = Some (e, s')"
    by (simp add: ExecOnLcore_def two_lcores_def eal_empty_def new_ctx_def make_chan_def ExecOnLcoreAsync_def
        lcoreJobsBuffer_def listener_run_def run_job_def panicCatcher_def listener_reply_def put_err_def recv_def)
  show ?thesis
    using ExecOnLcore_answer [OF two_lcores_ok _ _ r] r by (auto simp: two_lcores_def)
qed

text \<open>C7: ExecOnLcore returns. On a listening lcore whose job channel has room, let none of the jobs queued before end the process by a panic or mark the context done (a queued stop job of StopLcores would end the listener), and let the error channels they answer to have room for these answers. Then as many rounds of the listener as there are queued jobs, plus one, deliver the result of the function, run on the context that the earlier jobs left, and the lcore is idle again or, if its context is now done, stopped.\<close>

theorem ExecOnLcore_completes:
  assumes "\<not> crashed s" "chans s c = None" "lcores s lid = Some l" "phase l = Idle"
    "length (ch l) < lcoreJobsBuffer" "run_jobs p lid (ch l) (ctx l) = Some x" "answers_fit (ch l) (chans s)"
    "run_job p lid \<lparr>fn = f, ret = Some c\<rparr> x = Some (y, e)"
  shows "\<exists>s'. ExecOnLcore p c (rounds lid (Suc (length (ch l)))) lid f s = Some (e, s') \<and>
    lcores s' lid = Some (l\<lparr>ctx := y, ch := [], phase := (if ctx_done y then Stopped else Idle)\<rparr>)"
  using assms by (rule ExecOnLcore_returns)

text \<open>An lcore with a queued job that answers to channel 7.\<close>

definition busy_lcore :: "nat lcore" where
  "busy_lcore = \<lparr>ctx = \<lparr>Value = 0, ctx_done = False\<rparr>,
     ch = [\<lparr>fn = (\<lambda>x. (x\<lparr>Value := 2\<rparr>, None)), ret = Some 7\<rparr>], phase = Idle\<rparr>"

theorem ExecOnLcore_completes_witness:
  "\<exists>s'. ExecOnLcore False 3 (rounds 1 2) 1 (\<lambda>x. (x\<lparr>Value := Value x + 5\<rparr>, None))
       (two_lcores\<lparr>lcores := [1 \<mapsto> busy_lcore], chans := [7 \<mapsto> \<lparr>cap = 1, buf = []\<rparr>]\<rparr>) = Some (None, s') \<and>
     map_option (Value \<circ> ctx) (lcores s' 1) = Some 7"
proof -
  let ?s = "two_lcores\<lparr>lcores := [1 \<mapsto> busy_lcore], chans := [7 \<mapsto> \<lparr>cap = 1, buf = []\<rparr>]\<rparr>"
  have run: "run_jobs False 1 (ch busy_lcore) (ctx busy_lcore) = Some \<lparr>Value = 2, ctx_done = False\<rparr>"
    by (simp add: busy_lcore_def run_job_def)
  have fit: "answers_fit (ch busy_lcore) (chans ?s)"
    by (rule answers_fitI) (auto simp: busy_lcore_def)
  have len: "rounds 1 (Suc (length (ch busy_lcore))) = rounds 1 2" by (simp add: busy_lcore_def numeral_2_eq_2)
  show ?thesis
    using ExecOnLcore_completes [of ?s 3 1 busy_lcore False _ "\<lambda>x. (x\<lparr>Value := Value x + 5\<rparr>, None)", OF _ _ _ _ _ run fit]
    unfolding len by (force simp: two_lcores_def eal_empty_def busy_lcore_def lcoreJobsBuffer_def run_job_def)
qed

text \<open>C29: StopLcores returns on idle lcores, with one round of every listener, and leaves every lcore stopped: its channel has one slot per lcore, so that no listener blocks on its reply.\<close>

theorem StopLcores_terminates:
  assumes "distinct ids" "\<not> crashed s" "idle_all ids [] s" "chans s c = None"
  shows "\<exists>s'. StopLcores p c ids (concat (map (\<lambda>lid. [Run lid, Reply lid]) ids)) s = Some s' \<and>
    (\<forall>lid \<in> set ids. \<exists>l. lcores s' lid = Some l \<and> phase l = Stopped)"
  using assms by (rule StopLcores_stops)

theorem StopLcores_terminates_witness:
  "\<exists>s'. StopLcores False 0 [0, 1] [Run 0, Reply 0, Run 1, Reply 1] two_lcores = Some s' \<and>
     (\<forall>lid \<in> {0, 1}. \<exists>l. lcores s' lid = Some l \<and> phase l = Stopped)"
  using StopLcores_terminates [of "[0, 1]" two_lcores 0 False]
  by (simp add: idle_all_def two_lcores_def eal_empty_def new_ctx_def)

text \<open>C30: after an lcore has stopped, ExecOnLcore on it never returns, although the lcore is valid and its context still takes jobs. While the buffered channel of the dead listener has room the send is accepted, and then under every further scheduling of the other goroutines the job is never run and the answer channel has nothing to receive; once the buffer is full the send itself stays blocked under every scheduling. So no schedule makes the call return, where an unknown lcore is answered with ErrLcoreInvalid.\<close>

theorem ExecOnLcore_after_stop_hangs:
  assumes "eal_ok p s" "\<not> crashed s" "fresh_chan c s" "lcores s L = Some l" "phase l = Stopped"
  shows "(length (ch l) < lcoreJobsBuffer \<longrightarrow>
      (\<exists>t l'. eal_run p [MakeChan c 1, Send L \<lparr>fn = f, ret = Some c\<rparr>] s = Some t \<and>
         lcores t L = Some l' \<and> ch l' = ch l @ [\<lparr>fn = f, ret = Some c\<rparr>] \<and>
         (\<forall>sched s'. (\<forall>ev \<in> set sched. \<not> uses_chan c ev) \<longrightarrow> eal_run p sched t = Some s' \<longrightarrow>
            (\<forall>e. (\<lparr>fn = f, ret = Some c\<rparr>, e) \<notin> set (ran s' L)) \<and> recv c s' = None))) \<and>
    (length (ch l) = lcoreJobsBuffer \<longrightarrow>
      (\<forall>sched s'. eal_run p (MakeChan c 1 # sched) s = Some s' \<longrightarrow>
         eal_do p (Send L \<lparr>fn = f, ret = Some c\<rparr>) s' = None)) \<and>
    length (ch l) \<le> lcoreJobsBuffer \<and>
    (\<forall>sched. (\<forall>ev \<in> set sched. \<not> uses_chan c ev) \<longrightarrow> ExecOnLcore p c sched L f s = None)"
proof (intro conjI impI allI)
  have fresh: "chans s c = None" using assms(3) by (simp add: fresh_chan_def)
  show "length (ch l) \<le> lcoreJobsBuffer" using assms(1,4) by (auto simp: eal_ok_def eal_inv_def)
  show "\<exists>t l'. eal_run p [MakeChan c 1, Send L \<lparr>fn = f, ret = Some c\<rparr>] s = Some t \<and>
         lcores t L = Some l' \<and> ch l' = ch l @ [\<lparr>fn = f, ret = Some c\<rparr>] \<and>
         (\<forall>sched s'. (\<forall>ev \<in> set sched. \<not> uses_chan c ev) \<longrightarrow> eal_run p sched t = Some s' \<longrightarrow>
            (\<forall>e. (\<lparr>fn = f, ret = Some c\<rparr>, e) \<notin> set (ran s' L)) \<and> recv c s' = None)"
    if len: "length (ch l) < lcoreJobsBuffer"
  proof -
    obtain t l' where t: "eal_run p [MakeChan c 1, Send L \<lparr>fn = f, ret = Some c\<rparr>] s = Some t"
      "lcores t L = Some l'" "ch l' = ch l @ [\<lparr>fn = f, ret = Some c\<rparr>]"
      using send_accepted [OF assms(2) fresh assms(4) len] by blast
    then show ?thesis using unanswered [OF assms(1,3-5) t(1)] by blast
  qed
next
  show "eal_do p (Send L \<lparr>fn = f, ret = Some c\<rparr>) s' = None"
    if "length (ch l) = lcoreJobsBuffer" "eal_run p (MakeChan c 1 # sched) s = Some s'" for sched s'
    using send_blocked [OF assms(1,4,5) that] .
next
  show "ExecOnLcore p c sched L f s = None" if "\<forall>ev \<in> set sched. \<not> uses_chan c ev" for sched
    using ExecOnLcore_stopped [OF assms(1,3-5) that] .
qed

definition stopped_lcore :: "nat eal" where
  "stopped_lcore = eal_empty\<lparr>lcores := [0 \<mapsto> (new_ctx 0)\<lparr>phase := Stopped\<rparr>]\<rparr>"

theorem ExecOnLcore_after_stop_hangs_witness:
  "ExecOnLcore False 0 [MakeChan 1 1, Run 0, Reply 0] 0 (\<lambda>x. (x, None)) stopped_lcore = None \<and>
   (\<exists>t. eal_run False [MakeChan 0 1, Send 0 \<lparr>fn = (\<lambda>x. (x, None)), ret = Some 0\<rparr>] stopped_lcore = Some t)"
proof -
  let ?l = "(new_ctx 0 :: nat lcore)\<lparr>phase := Stopped\<rparr>"
  have ok: "eal_ok False stopped_lcore" "fresh_chan 0 stopped_lcore" "\<not> crashed stopped_lcore"
    "lcores stopped_lcore 0 = Some ?l" "phase ?l = Stopped"
    by (auto simp: eal_ok_def eal_inv_def answers_justified_def jobs_known_def fresh_chan_def stopped_lcore_def
        eal_empty_def new_ctx_def split: if_splits)
  have "length (ch ?l) < lcoreJobsBuffer" by (simp add: new_ctx_def lcoreJobsBuffer_def)
  moreover have "\<forall>ev \<in> set [MakeChan 1 1, Run 0, Reply 0]. \<not> uses_chan 0 (ev :: nat event)" by simp
  ultimately show ?thesis
    using ExecOnLcore_after_stop_hangs [OF ok(1,3,2,4,5), of "\<lambda>x. (x, None)"] by blast
qed

text \<open>C8: in every state that the executor reaches after the launch of the listeners, the jobs sent to an lcore are those it has run followed by those waiting in its channel, in the order of sending and each once, no channel holds more jobs than its buffer, and every error channel delivers its values in the order they were put in.\<close>

theorem jobs_run_in_order:
  assumes "eal_run p evs (ealLaunch v ids (eal_empty\<lparr>wg := n\<rparr>)) = Some s" "\<not> crashed s"
  shows "(\<forall>lid l. lcores s lid = Some l \<longrightarrow> sent s lid = map fst (ran s lid) @ ch l \<and> length (ch l) \<le> 32) \<and>
    (\<forall>c q. chans s c = Some q \<longrightarrow> answers s c = taken s c @ buf q)"
  using eal_run_inv [OF ealLaunch_inv(1) assms(1)] assms(2) by (auto simp: eal_inv_def lcoreJobsBuffer_def)

theorem jobs_run_in_order_witness:
  "\<exists>s l. eal_run False [Launch 0, Send 0 \<lparr>fn = (\<lambda>x. (x, None)), ret = None\<rparr>] (ealLaunch (0 :: nat) [0] (eal_empty\<lparr>wg := 1\<rparr>)) = Some s \<and>
     lcores s 0 = Some l \<and> sent s 0 = map fst (ran s 0) @ ch l"
proof -
  let ?evs = "[Launch 0, Send 0 \<lparr>fn = (\<lambda>x. (x, None)), ret = None\<rparr>]"
  obtain s where s: "eal_run False ?evs (ealLaunch (0 :: nat) [0] (eal_empty\<lparr>wg := 1\<rparr>)) = Some s"
    "\<not> crashed s" "lcores s 0 \<noteq> None"
    by (simp add: ealLaunch_def eal_empty_def new_ctx_def listener_start_def ExecOnLcoreAsync_def lcoreJobsBuffer_def)
  then show ?thesis using jobs_run_in_order [OF s(1,2)] by blast
qed

text \<open>When the wait group of Init is down to zero, every lcore has a listener that has started, provided DPDK counts as many lcores as it enumerates.\<close>

lemma Init_waits_for_all:
  assumes "distinct ids" "Init_start errnos rte_eal_init ids (length ids) v args eal_empty = ((n, None), s0)"
    and "eal_run p evs s0 = Some s" "Init_returns s" "lcores s lid = Some l"
  shows "phase l \<noteq> Launching"
proof -
  have "s0 = ealLaunch v ids (eal_empty\<lparr>wg := int (length ids)\<rparr>)"
    using assms(2) by (auto simp: Init_start_def Let_def split: prod.splits if_splits)
  then have "wg_inv s" using eal_run_wg [OF _ assms(3)] ealLaunch_wg [OF assms(1), of v] by simp
  then have "launching s = {}" using assms(4) by (simp add: wg_inv_def Init_returns_def)
  then show ?thesis using assms(5) by (auto simp: launching_def)
qed

text \<open>GetLcores terminates and returns the enabled lcores in ascending order, given the documented behaviour of rte_get_next_lcore.\<close>

lemma Lcores_enumerates:
  assumes "next_lcore_contract m enabled (\<lambda>i. nx i skipMain)"
  shows "getLcores nx m skipMain = Some (filter enabled [0..<unat m])"
  using assms by (rule getLcores_all)

end
