(* ===== verification/Util_Hash.thy ===== *)
theory Util_Hash
  imports Errors Fmt
begin

text \<open>
  The hash wrapper of src/util/make_hash.go with its CRC instance of src/hash/crc.go, and
  the annotated errors of src/util/errors.go.  DPDK's \<^verbatim>\<open>rte_hash_crc\<close> is an argument.
\<close>

section \<open>Hash32\<close>

type_synonym accum = "byte list \<Rightarrow> u32 \<Rightarrow> u32"

record Hash32 =
  h_Seed :: u32
  h_Value :: u32
  h_Block :: int
  h_OnesComplement :: bool
  h_Accum :: accum

definition Hash32_Write :: "byte list \<Rightarrow> Hash32 \<Rightarrow> (nat \<times> error) \<times> Hash32" where
  "Hash32_Write p h =
     ((length p, None),
      h\<lparr>h_Value := (if h_OnesComplement h then NOT (h_Accum h p (NOT (h_Value h)))
                    else h_Accum h p (h_Value h))\<rparr>)"

definition Hash32_Sum :: "byte list \<Rightarrow> Hash32 \<Rightarrow> byte list" where
  "Hash32_Sum b h =
     (let s = h_Value h in
      b @ [ucast (drop_bit 24 s), ucast (drop_bit 16 s), ucast (drop_bit 8 s), ucast s])"

definition Sum32 :: "Hash32 \<Rightarrow> u32" where
  "Sum32 h = h_Value h"

definition Hash32_Reset :: "Hash32 \<Rightarrow> Hash32" where
  "Hash32_Reset h = h\<lparr>h_Value := h_Seed h\<rparr>"

definition Hash32_Size :: "Hash32 \<Rightarrow> int" where
  "Hash32_Size h = 4"

definition Hash32_BlockSize :: "Hash32 \<Rightarrow> int" where
  "Hash32_BlockSize h = h_Block h"

definition CrcUpdate :: "accum \<Rightarrow> accum" where
  "CrcUpdate rte_hash_crc data acc = rte_hash_crc data acc"

definition complementFunc :: "accum \<Rightarrow> accum" where
  "complementFunc f data acc = NOT (f data (NOT acc))"

definition NewCrcHash :: "accum \<Rightarrow> u32 \<Rightarrow> bool \<Rightarrow> Hash32" where
  "NewCrcHash rte_hash_crc seed complement =
     (let h = \<lparr>h_Seed = seed, h_Value = seed, h_Block = 8, h_OnesComplement = False,
               h_Accum = CrcUpdate rte_hash_crc\<rparr> in
      if complement then h\<lparr>h_Accum := complementFunc (CrcUpdate rte_hash_crc)\<rparr> else h)"

definition write_all :: "byte list list \<Rightarrow> Hash32 \<Rightarrow> Hash32" where
  "write_all ps h = fold (\<lambda>p h. snd (Hash32_Write p h)) ps h"

text \<open>The hypothesis on the backend: hashing in two parts is hashing the whole.\<close>

definition additive :: "accum \<Rightarrow> bool" where
  "additive f \<longleftrightarrow> (\<forall>a b v. f (a @ b) v = f b (f a v)) \<and> (\<forall>v. f [] v = v)"

lemma complement_additive: "additive f \<Longrightarrow> additive (complementFunc f)"
  by (simp add: additive_def complementFunc_def)

lemma write_all_fields:
  "h_Accum (write_all ps h) = h_Accum h" "h_OnesComplement (write_all ps h) = h_OnesComplement h"
  "h_Seed (write_all ps h) = h_Seed h" "h_Block (write_all ps h) = h_Block h"
  by (induction ps arbitrary: h) (simp_all add: write_all_def Hash32_Write_def)

lemma write_append:
  "additive (h_Accum h) \<Longrightarrow>
     snd (Hash32_Write q (snd (Hash32_Write p h))) = snd (Hash32_Write (p @ q) h)"
  by (simp add: Hash32_Write_def additive_def)

text \<open>The hash of a stream does not depend on how it is cut into writes.\<close>

lemma Hash32_streaming:
  assumes "additive (h_Accum h)"
  shows "write_all ps h = snd (Hash32_Write (concat ps) h)"
proof (induction ps rule: rev_induct)
  case Nil
  then show ?case using assms by (simp add: write_all_def Hash32_Write_def additive_def)
next
  case (snoc p ps)
  then show ?case using write_append [OF assms, of p "concat ps"] by (simp add: write_all_def)
qed

lemma digits_base:
  assumes "n < 256 * 256 * 256 * (256 :: nat)"
  shows "256 * (256 * (256 * (n div 256 div 256 div 256 mod 256) + n div 256 div 256 mod 256)
      + n div 256 mod 256) + n mod 256 = n"
proof -
  have "n div 256 div 256 div 256 < 256" using assms by (simp add: div_mult2_eq [symmetric] less_mult_imp_div_less)
  then show ?thesis
    using mult_div_mod_eq [of 256 n] mult_div_mod_eq [of 256 "n div 256"]
      mult_div_mod_eq [of 256 "n div 256 div 256"] by (simp only: mod_less)
qed

lemma Hash32_Sum_value:
  "\<exists>bs. Hash32_Sum b h = b @ bs \<and> length bs = nat (Hash32_Size h) \<and>
     foldl (\<lambda>acc x. 256 * acc + unat x) 0 bs = unat (Sum32 h)"
proof -
  let ?s = "h_Value h"
  have d: "unat (ucast (drop_bit k ?s) :: byte) = unat ?s div 2 ^ k mod 256" for k
    using unat_mod_small [of ?s]
    by (simp only: unsigned_ucast_eq unsigned_drop_bit_eq)
      (simp add: drop_bit_eq_div take_bit_eq_mod)
  have p: "2 ^ 24 = (256 * 256 * 256 :: nat)" "2 ^ 16 = (256 * 256 :: nat)" "2 ^ 8 = (256 :: nat)"
    by simp_all
  have small: "unat ?s < 256 * 256 * 256 * 256" using unat_mod_small [of ?s] by simp
  have "256 * (256 * (256 * (unat ?s div 2 ^ 24 mod 256) + unat ?s div 2 ^ 16 mod 256)
      + unat ?s div 2 ^ 8 mod 256) + unat ?s mod 256 = unat ?s"
    using digits_base [OF small] by (simp only: p div_mult2_eq)
  then show ?thesis
    using d [of 24] d [of 16] d [of 8] d [of 0]
    by (auto simp: Hash32_Sum_def Hash32_Size_def Sum32_def Let_def)
qed

section \<open>Annotated errors\<close>

definition ErrWrapf :: "error \<Rightarrow> string \<Rightarrow> error" where
  "ErrWrapf e formatted = (case e of None \<Rightarrow> None | Some x \<Rightarrow> Some (ErrWithMessage formatted x))"

text \<open>\<^verbatim>\<open>ErrWrap\<close> passes its message as the format; \<open>sprintf\<close> is the expansion without arguments.\<close>

definition ErrWrap :: "(string \<Rightarrow> string) \<Rightarrow> error \<Rightarrow> string \<Rightarrow> error" where
  "ErrWrap sprintf e msg = ErrWrapf e (sprintf msg)"

fun Unwrap :: "go_error \<Rightarrow> error" where
  "Unwrap (ErrWithMessage msg e) = Some e"
| "Unwrap _ = None"

definition ErrWithMessage_Error :: "(go_error \<Rightarrow> string) \<Rightarrow> string \<Rightarrow> go_error \<Rightarrow> string" where
  "ErrWithMessage_Error show_err msg e = msg @ '': '' @ show_err e"

lemma ErrWrapf_nil: "ErrWrapf e msg = None \<longleftrightarrow> e = None"
  by (simp add: ErrWrapf_def split: option.split)

lemma Unwrap_ErrWrapf: "ErrWrapf (Some e) msg = Some w \<Longrightarrow> Unwrap w = Some e"
  by (auto simp: ErrWrapf_def)

end
