(* ===== verification/Flat_Rows.thy ===== *)
theory Flat_Rows
  imports Memory
begin

text \<open>
  The row container of src/mem/flat.go.  A structure is the list of its field values: an
  int64 or float64 field is its eight bytes, as the code copies it, a string its bytes.
  The offsets of the fields inside the Go structure, with which the code finds them, are
  the positions in that list.  A row is a byte slice; an index outside it panics.
\<close>

datatype kind = KString | KInt64 | KFloat64 | KOther

datatype field = FString "byte list" | FWord u64 | FNone

datatype saver = memSave_fn | strSave_fn

record TypeInfo =
  ti_fields :: nat
  ti_Type :: "nat list"
  ti_Pos :: "nat list"
  ti_Size :: "nat list"
  ti_Save :: "saver list"

record Container =
  ti :: TypeInfo
  Rows :: "byte list list"

abbreviation (input) TY_STRING :: nat where "TY_STRING \<equiv> 0"
abbreviation (input) TY_INT :: nat where "TY_INT \<equiv> 1"

definition kind_size :: "kind \<Rightarrow> nat" where
  "kind_size k = (case k of KString \<Rightarrow> 2 + 64 | KInt64 \<Rightarrow> 8 | KFloat64 \<Rightarrow> 8 | KOther \<Rightarrow> 0)"

definition kind_type :: "kind \<Rightarrow> nat" where
  "kind_type k = (case k of KString \<Rightarrow> TY_STRING | KInt64 \<Rightarrow> TY_INT | KFloat64 \<Rightarrow> TY_INT | KOther \<Rightarrow> 0)"

definition kind_saver :: "kind \<Rightarrow> saver" where
  "kind_saver k = (case k of KString \<Rightarrow> strSave_fn | _ \<Rightarrow> memSave_fn)"

fun parse_loop :: "kind list \<Rightarrow> nat \<Rightarrow> nat list" where
  "parse_loop [] len = []"
| "parse_loop (k # ks) len = len # parse_loop ks (len + kind_size k)"

definition Parse :: "kind list \<Rightarrow> Container" where
  "Parse ks = \<lparr>ti = \<lparr>ti_fields = length ks, ti_Type = map kind_type ks, ti_Pos = parse_loop ks 0,
      ti_Size = map kind_size ks, ti_Save = map kind_saver ks\<rparr>, Rows = []\<rparr>"

text \<open>Overwriting a range of a row.\<close>

definition put :: "byte list \<Rightarrow> nat \<Rightarrow> byte list \<Rightarrow> byte list" where
  "put row pos bs = take pos row @ go_copy (drop pos row) bs"

text \<open>
  \<open>memSave\<close> takes the address of the byte at the position, which must exist, and copies
  \<open>Size\<close> bytes.  \<open>strSave\<close> stores the length as a uint16 and copies as many bytes of the
  string as the rest of the row holds.
\<close>

definition memSave :: "byte list \<Rightarrow> byte list \<Rightarrow> nat \<Rightarrow> nat \<Rightarrow> byte list option" where
  "memSave dest src pos sz = (if pos < length dest then Some (put dest pos (take sz src)) else None)"

definition memDump :: "byte list \<Rightarrow> nat \<Rightarrow> nat \<Rightarrow> byte list option" where
  "memDump src pos sz = (if pos < length src then Some (slice pos sz src) else None)"

definition strSave :: "byte list \<Rightarrow> byte list \<Rightarrow> nat \<Rightarrow> byte list option" where
  "strSave dest s pos =
     (if pos < length dest \<and> pos + 2 \<le> length dest
      then Some (put (put dest pos (le16 (of_nat (length s)))) (pos + 2) s) else None)"

definition strDump :: "byte list \<Rightarrow> nat \<Rightarrow> byte list option" where
  "strDump src pos =
     (if pos < length src \<and> pos + 2 \<le> length src
      then let n = unat (un_le16 (slice pos 2 src)) in
        if pos + 2 + n \<le> length src then Some (slice (pos + 2) n src) else None
      else None)"

definition save_field :: "TypeInfo \<Rightarrow> nat \<Rightarrow> field \<Rightarrow> byte list \<Rightarrow> byte list option" where
  "save_field t i f row = (case (ti_Save t ! i, f) of
     (memSave_fn, FWord w) \<Rightarrow> memSave row (le64 w) (ti_Pos t ! i) (ti_Size t ! i)
   | (strSave_fn, FString s) \<Rightarrow> strSave row s (ti_Pos t ! i)
   | (memSave_fn, FNone) \<Rightarrow> memSave row [] (ti_Pos t ! i) (ti_Size t ! i)
   | _ \<Rightarrow> None)"

definition dump_field :: "TypeInfo \<Rightarrow> nat \<Rightarrow> byte list \<Rightarrow> field option" where
  "dump_field t i row = (case ti_Save t ! i of
     memSave_fn \<Rightarrow> map_option (\<lambda>b. if ti_Size t ! i = 0 then FNone else FWord (un_le64 b))
                     (memDump row (ti_Pos t ! i) (ti_Size t ! i))
   | strSave_fn \<Rightarrow> map_option FString (strDump row (ti_Pos t ! i)))"

fun save_loop :: "TypeInfo \<Rightarrow> nat \<Rightarrow> field list \<Rightarrow> byte list \<Rightarrow> byte list option" where
  "save_loop t i [] row = Some row"
| "save_loop t i (f # fs) row = do { row \<leftarrow> save_field t i f row; save_loop t (i + 1) fs row }"

fun dump_loop :: "TypeInfo \<Rightarrow> nat \<Rightarrow> nat \<Rightarrow> byte list \<Rightarrow> field list option" where
  "dump_loop t i 0 row = Some []"
| "dump_loop t i (Suc n) row = do { f \<leftarrow> dump_field t i row; fs \<leftarrow> dump_loop t (i + 1) n row; Some (f # fs) }"

text \<open>A structure without fields makes \<^verbatim>\<open>Save\<close> index with -1.\<close>

definition Container_Save :: "field list \<Rightarrow> Container \<Rightarrow> Container option" where
  "Container_Save obj c =
     (let t = ti c in
      if ti_fields t = 0 then None else do {
      let n = ti_Pos t ! (ti_fields t - 1) + ti_Size t ! (ti_fields t - 1);
      row \<leftarrow> save_loop t 0 obj (replicate n 0);
      Some (c\<lparr>Rows := Rows c @ [row]\<rparr>) })"

definition Container_Dump :: "nat \<Rightarrow> Container \<Rightarrow> field list option" where
  "Container_Dump n c =
     (if ti_fields (ti c) = 0 then Some []
      else if n < length (Rows c) then dump_loop (ti c) 0 (ti_fields (ti c)) (Rows c ! n) else None)"

section \<open>Saved rows are read back\<close>

text \<open>A value of a supported kind, with strings of at most 64 bytes, and its slot in a row.\<close>

fun storable :: "kind \<Rightarrow> field \<Rightarrow> bool" where
  "storable KString (FString s) \<longleftrightarrow> length s \<le> 64"
| "storable KInt64 (FWord w) \<longleftrightarrow> True"
| "storable KFloat64 (FWord w) \<longleftrightarrow> True"
| "storable _ _ \<longleftrightarrow> False"

fun slot :: "field \<Rightarrow> byte list" where
  "slot (FString s) = le16 (of_nat (length s)) @ s @ replicate (64 - length s) 0"
| "slot (FWord w) = le64 w"
| "slot FNone = []"

lemma slot_length: "storable k f \<Longrightarrow> length (slot f) = kind_size k"
  by (cases "(k, f)" rule: storable.cases) (auto simp: kind_size_def)

lemma put_at: "put (a @ replicate n 0 @ c) (length a) bs
    = a @ take n bs @ (if length bs \<le> n then replicate (n - length bs) 0 @ c
        else go_copy c (drop n bs))"
  by (auto simp: put_def go_copy_def drop_append take_append take_add)

lemma save_slot:
  assumes "storable k f" "ti_Save t ! i = kind_saver k" "ti_Pos t ! i = length a"
    and "ti_Size t ! i = kind_size k"
  shows "save_field t i f (a @ replicate (kind_size k + n) 0) = Some (a @ slot f @ replicate n 0)"
  using assms
proof (cases "(k, f)" rule: storable.cases)
  case (1 s)
  have "put (put (a @ replicate (66 + n) 0) (length a) (le16 (of_nat (length s)))) (length a + 2) s
      = a @ le16 (of_nat (length s)) @ s @ replicate (64 - length s) 0 @ replicate n 0"
    using 1 assms(1) put_at [of a "66 + n" "[]" "le16 (of_nat (length s))"]
      put_at [of "a @ le16 (of_nat (length s))" "64 + n" "[]" s]
    by (simp add: replicate_add [symmetric])
  then show ?thesis
    using 1 assms by (simp add: save_field_def strSave_def kind_saver_def kind_size_def)
qed (use put_at [of a "8 + n" "[]"] in \<open>auto simp: save_field_def memSave_def kind_saver_def kind_size_def\<close>)

lemma parse_loop_nth:
  "i < length ks \<Longrightarrow> parse_loop ks b ! i = b + sum_list (map kind_size (take i ks))"
  by (induction ks b arbitrary: i rule: parse_loop.induct) (auto simp: nth_Cons split: nat.split)

lemma length_parse_loop [simp]: "length (parse_loop ks b) = length ks"
  by (induction ks b rule: parse_loop.induct) auto

lemma slots_length:
  "list_all2 storable ks fs \<Longrightarrow> length (concat (map slot fs)) = sum_list (map kind_size ks)"
  by (induction rule: list_all2_induct) (auto simp: slot_length)

abbreviation info :: "kind list \<Rightarrow> TypeInfo" where
  "info ks \<equiv> ti (Parse ks)"

lemma info_nth:
  assumes "i < length ks"
  shows "ti_Save (info ks) ! i = kind_saver (ks ! i)" "ti_Size (info ks) ! i = kind_size (ks ! i)"
    "ti_Pos (info ks) ! i = sum_list (map kind_size (take i ks))"
  using assms parse_loop_nth [of i ks 0] by (simp_all add: Parse_def)

lemma save_loop_prefix:
  assumes "list_all2 storable ks1 fs1" "list_all2 storable ks2 fs2"
  shows "save_loop (info (ks1 @ ks2 @ ks3)) (length ks1) (fs2 @ gs)
      (concat (map slot fs1) @ replicate (sum_list (map kind_size (ks2 @ ks3))) 0)
    = save_loop (info (ks1 @ ks2 @ ks3)) (length ks1 + length ks2) gs
        (concat (map slot (fs1 @ fs2)) @ replicate (sum_list (map kind_size ks3)) 0)"
  using assms(2,1)
proof (induction ks2 fs2 arbitrary: ks1 fs1 rule: list_all2_induct)
  case (Cons k ks2 f fs2)
  have "save_field (info (ks1 @ k # ks2 @ ks3)) (length ks1) f
      (concat (map slot fs1) @ replicate (kind_size k + sum_list (map kind_size (ks2 @ ks3))) 0)
    = Some (concat (map slot fs1) @ slot f @ replicate (sum_list (map kind_size (ks2 @ ks3))) 0)"
    using Cons.hyps info_nth [of "length ks1" "ks1 @ k # ks2 @ ks3"] slots_length [OF Cons.prems]
    by (intro save_slot) (simp_all add: nth_append)
  moreover have "list_all2 storable (ks1 @ [k]) (fs1 @ [f])"
    using Cons.hyps Cons.prems by (simp add: list_all2_appendI)
  ultimately show ?case
    using Cons.IH [of "ks1 @ [k]" "fs1 @ [f]"] by (simp add: add.assoc)
qed simp

lemma dump_slot:
  assumes "storable k f" "ti_Save t ! i = kind_saver k" "ti_Pos t ! i = length a"
    and "ti_Size t ! i = kind_size k"
  shows "dump_field t i (a @ slot f @ c) = Some f"
  using assms
proof (cases "(k, f)" rule: storable.cases)
  case (1 s)
  have "unat (of_nat (length s) :: u16) = length s"
    using 1 assms(1) by (simp add: unat_of_nat_small)
  then show ?thesis
    using 1 assms
    by (simp add: dump_field_def strDump_def kind_saver_def le_rt Let_def slice_def)
qed (auto simp: dump_field_def memDump_def kind_saver_def kind_size_def slice_def le_rt)

lemma dump_loop_prefix:
  assumes "list_all2 storable ks1 fs1" "list_all2 storable ks2 fs2"
  shows "dump_loop (info (ks1 @ ks2 @ ks3)) (length ks1) (length ks2 + n) (concat (map slot (fs1 @ fs2)) @ rest)
    = map_option ((@) fs2) (dump_loop (info (ks1 @ ks2 @ ks3)) (length ks1 + length ks2) n
        (concat (map slot (fs1 @ fs2)) @ rest))"
  using assms(2,1)
proof (induction ks2 fs2 arbitrary: ks1 fs1 rule: list_all2_induct)
  case Nil then show ?case by (simp add: option.map_ident)
next
  case (Cons k ks2 f fs2)
  have "dump_field (info (ks1 @ k # ks2 @ ks3)) (length ks1)
      (concat (map slot fs1) @ slot f @ concat (map slot fs2) @ rest) = Some f"
    using Cons.hyps info_nth [of "length ks1" "ks1 @ k # ks2 @ ks3"] slots_length [OF Cons.prems]
    by (intro dump_slot) (simp_all add: nth_append)
  moreover have "list_all2 storable (ks1 @ [k]) (fs1 @ [f])"
    using Cons.hyps Cons.prems by (simp add: list_all2_appendI)
  ultimately show ?case using Cons.IH [of "ks1 @ [k]" "fs1 @ [f]"]
    by (simp add: option.map_comp comp_def map_option_case split: option.split)
qed

lemma row_size:
  "ks \<noteq> [] \<Longrightarrow> ti_Pos (info ks) ! (length ks - 1) + ti_Size (info ks) ! (length ks - 1)
     = sum_list (map kind_size ks)"
proof -
  assume "ks \<noteq> []"
  then obtain ks' k where ks: "ks = ks' @ [k]" by (cases ks rule: rev_cases) auto
  then show ?thesis using info_nth [of "length ks'" ks] by (simp add: nth_append)
qed

text \<open>C35: a record of integers, floats and strings of at most 64 bytes that is saved into a container is read back unchanged by Dump of its row, and the rows saved before it are untouched.\<close>

theorem Save_then_Dump:
  assumes "ti c = ti (Parse ks)" "ks \<noteq> []" "list_all2 storable ks obj"
  shows "\<exists>c'. Container_Save obj c = Some c' \<and> Container_Dump (length (Rows c)) c' = Some obj \<and>
    (\<forall>n < length (Rows c). Container_Dump n c' = Container_Dump n c)"
proof -
  let ?row = "concat (map slot obj)"
  have n: "ti_fields (ti c) = length ks" using assms(1) by (simp add: Parse_def)
  have "save_loop (ti c) 0 obj (replicate (sum_list (map kind_size ks)) 0) = Some ?row"
    using save_loop_prefix [of "[]" "[]" ks obj "[]" "[]"] assms(1,3) by simp
  then have "Container_Save obj c = Some (c\<lparr>Rows := Rows c @ [?row]\<rparr>)"
    using row_size [OF assms(2)] assms(1,2) n by (simp add: Container_Save_def Let_def)
  moreover have "dump_loop (ti c) 0 (length ks) ?row = Some obj"
    using dump_loop_prefix [of "[]" "[]" ks obj "[]" 0 "[]"] assms(1,3) by simp
  ultimately show ?thesis using n assms(2) by (simp add: Container_Dump_def nth_append)
qed

theorem Save_then_Dump_witness:
  "\<exists>c'. Container_Save [FString [65, 66], FWord 7] (Parse [KString, KInt64]) = Some c' \<and>
     Container_Dump 0 c' = Some [FString [65, 66], FWord 7]"
  using Save_then_Dump [of "Parse [KString, KInt64]" "[KString, KInt64]" "[FString [65, 66], FWord 7]"]
  by (simp add: Parse_def)

section \<open>Strings that do not fit\<close>





end
