(* ===== verification/Mem_Flat.thy ===== *)
theory Mem_Flat
  imports Memory
begin

text \<open>
  Package \<^verbatim>\<open>mem\<close>: the word-wise memory functions of src/mem/mem.go and the flat row container
  of src/mem/flat.go.  Lengths are Go ints; addresses are 64-bit words.  A loop that makes
  an access through a nil base pointer faults (\<^term>\<open>None\<close>).
\<close>

section \<open>Memory functions\<close>

definition copy_word :: "memory \<Rightarrow> addr \<Rightarrow> addr \<Rightarrow> memory" where
  "copy_word m d s = store64 m d (load64 m s)"

definition copy_byte :: "memory \<Rightarrow> addr \<Rightarrow> addr \<Rightarrow> memory" where
  "copy_byte m d s = m(d := m s)"

definition off :: "addr \<Rightarrow> int \<Rightarrow> addr" where
  "off a k = a + word_of_int k"

definition Memcpy :: "memory \<Rightarrow> addr \<Rightarrow> addr \<Rightarrow> int \<Rightarrow> memory option" where
  "Memcpy m dest src len =
     (let cnt = len div 8; left = len mod 8 in
      if (dest = nil \<or> src = nil) \<and> (0 < cnt \<or> 0 < left) then None else
      let m1 = fold (\<lambda>i m. copy_word m (off dest (8 * int i)) (off src (8 * int i))) [0..<nat cnt] m in
      Some (fold (\<lambda>i m. copy_byte m (off dest (8 * cnt + int i)) (off src (8 * cnt + int i)))
              [0..<nat left] m1))"

definition memcpyH :: "memory \<Rightarrow> addr \<Rightarrow> addr \<Rightarrow> int \<Rightarrow> memory option" where
  "memcpyH m dest src len =
     (let cnt = len div 8; left = len mod 8 in
      if (dest = nil \<or> src = nil) \<and> (0 < cnt \<or> 0 < left) then None else
      let m1 = fold (\<lambda>i m. copy_word m (off dest (len - 8 * int i)) (off src (len - 8 * int i)))
                 [1..<nat cnt + 1] m in
      Some (fold (\<lambda>i m. copy_byte m (off dest (len - 8 * cnt - int i)) (off src (len - 8 * cnt - int i)))
              [1..<nat left + 1] m1))"

definition Memmove :: "memory \<Rightarrow> addr \<Rightarrow> addr \<Rightarrow> int \<Rightarrow> memory option" where
  "Memmove m dest src len =
     (if dest = src then Some m
      else if src < dest \<and> dest \<le> off src len then memcpyH m dest src len
      else Memcpy m dest src len)"

fun cmp_loop :: "('a::linorder \<times> 'a) list \<Rightarrow> int option" where
  "cmp_loop [] = None"
| "cmp_loop ((x, y) # ps) = (if x < y then Some (-1) else if x > y then Some 1 else cmp_loop ps)"

definition Memcmp :: "memory \<Rightarrow> addr \<Rightarrow> addr \<Rightarrow> int \<Rightarrow> int option" where
  "Memcmp m dest src len =
     (let cnt = len div 8; left = len mod 8 in
      if (dest = nil \<or> src = nil) \<and> (0 < cnt \<or> 0 < left) then None else
      Some (case cmp_loop (map (\<lambda>i. (load64 m (off dest (8 * int i)), load64 m (off src (8 * int i))))
                             [0..<nat cnt]) of
              Some r \<Rightarrow> r
            | None \<Rightarrow>
               (case cmp_loop (map (\<lambda>i. (m (off dest (8 * cnt + int i)), m (off src (8 * cnt + int i))))
                                 [0..<nat left]) of
                  Some r \<Rightarrow> r | None \<Rightarrow> 0)))"

definition Memset :: "memory \<Rightarrow> addr \<Rightarrow> byte \<Rightarrow> int \<Rightarrow> memory option" where
  "Memset m dest ch len =
     (let cnt = len div 8; left = len mod 8 + (if 0 < cnt then 8 else 0) in
      if dest = nil \<and> 0 < left then None else
      let m1 = fold (\<lambda>i m. m(off dest (int i) := ch)) [0..<nat left] m in
      Some (if cnt < 2 then m1
            else fold (\<lambda>i m. store64 m (off dest (left + 8 * int i)) (load64 m dest)) [0..<nat (cnt - 1)] m1))"

section \<open>Copies by chunks\<close>

lemma off_nat [simp]: "off a (int k) = a + of_nat k"
  by (simp add: off_def)

lemma copy_word_bytes: "copy_word m d s = store_bytes m d (load_bytes m s 8)"
  by (simp add: copy_word_def store64_load64)

lemma copy_byte_bytes: "copy_byte m d s = store_bytes m d (load_bytes m s 1)"
  by (simp add: copy_byte_def load_bytes_Suc)

definition moved :: "memory \<Rightarrow> addr \<Rightarrow> addr \<Rightarrow> nat \<Rightarrow> memory" where
  "moved m d s n = store_bytes m d (load_bytes m s n)"

lemma moved_0 [simp]: "moved m d s 0 = m"
  by (simp add: moved_def)

lemma region_disjoint_unat:
  assumes "unat a + n \<le> unat b" "unat b + k \<le> 2 ^ 64"
  shows "region a n \<inter> region b k = {}"
  using region_disjoint_offset [of "unat a" n "unat b" k 0] assms by simp

text \<open>Ascending: the next chunk of the source has not been written yet.\<close>

lemma moved_step_up:
  assumes "region (s + of_nat k) w \<inter> region d k = {}"
  shows "store_bytes (moved m d s k) (d + of_nat k) (load_bytes (moved m d s k) (s + of_nat k) w)
    = moved m d s (k + w)"
  using assms by (simp add: moved_def load_bytes_disjoint load_bytes_add store_bytes_append)

lemma store_bytes_commute:
  assumes "region a (length xs) \<inter> region b (length ys) = {}"
    "length xs \<le> 2 ^ 64" "length ys \<le> 2 ^ 64"
  shows "store_bytes (store_bytes m a xs) b ys = store_bytes (store_bytes m b ys) a xs"
proof
  fix x
  consider "x \<in> region a (length xs)" "x \<notin> region b (length ys)"
    | "x \<in> region b (length ys)" "x \<notin> region a (length xs)"
    | "x \<notin> region a (length xs)" "x \<notin> region b (length ys)" using assms(1) by blast
  then show "store_bytes (store_bytes m a xs) b ys x = store_bytes (store_bytes m b ys) a xs x"
  proof cases
    case 1
    then obtain i where "i < length xs" "x = a + of_nat i" by (auto simp: in_region)
    then show ?thesis using 1 assms(2) by (simp add: store_bytes_other store_bytes_nth)
  next
    case 2
    then obtain i where "i < length ys" "x = b + of_nat i" by (auto simp: in_region)
    then show ?thesis using 2 assms(3) by (simp add: store_bytes_other store_bytes_nth)
  qed (simp add: store_bytes_other)
qed

text \<open>Descending: \<open>k\<close> bytes at the top are done, the chunk of \<open>w\<close> bytes below is next.\<close>

lemma moved_step_down:
  assumes "region s w \<inter> region (d + of_nat w) k = {}" "w + k \<le> 2 ^ 64"
  shows "store_bytes (moved m (d + of_nat w) (s + of_nat w) k) d
      (load_bytes (moved m (d + of_nat w) (s + of_nat w) k) s w) = moved m d s (w + k)"
proof -
  have disj: "region (d + of_nat w) k \<inter> region d w = {}"
    using region_disjoint_offset [of 0 w w k d] assms(2) by (simp add: Int_commute)
  have "load_bytes (moved m (d + of_nat w) (s + of_nat w) k) s w = load_bytes m s w"
    using assms(1) by (simp add: moved_def load_bytes_disjoint)
  then show ?thesis
    using store_bytes_commute [of "d + of_nat w" "load_bytes m (s + of_nat w) k" d "load_bytes m s w" m]
      disj assms(2)
    by (simp add: moved_def load_bytes_add store_bytes_append)
qed

lemma up_loop:
  assumes "\<And>k. k + w \<le> b + w * n \<Longrightarrow> region (s + of_nat k) w \<inter> region d k = {}"
  shows "fold (\<lambda>i m. store_bytes m (d + of_nat (b + w * i)) (load_bytes m (s + of_nat (b + w * i)) w))
      [0..<n] (moved m d s b) = moved m d s (b + w * n)"
  using assms
proof (induction n)
  case (Suc n)
  have "fold (\<lambda>i m. store_bytes m (d + of_nat (b + w * i)) (load_bytes m (s + of_nat (b + w * i)) w))
      [0..<n] (moved m d s b) = moved m d s (b + w * n)"
    using Suc.prems by (intro Suc.IH) simp
  then show ?case
    using moved_step_up [of s "b + w * n" w d m] Suc.prems [of "b + w * n"] by (simp add: algebra_simps)
qed simp

lemma down_loop:
  assumes "\<And>j k'. j + w + k' \<le> t + k \<Longrightarrow>
      region (s + of_nat j) w \<inter> region (d + of_nat (j + w)) k' = {} \<and> w + k' \<le> 2 ^ 64"
    and "w * n \<le> t"
  shows "fold (\<lambda>i m. store_bytes m (d + of_nat (t - w * i)) (load_bytes m (s + of_nat (t - w * i)) w))
      [1..<n + 1] (moved m (d + of_nat t) (s + of_nat t) k)
    = moved m (d + of_nat (t - w * n)) (s + of_nat (t - w * n)) (w * n + k)"
  using assms(2)
proof (induction n)
  case (Suc n)
  let ?j = "t - w * Suc n"
  have j: "t - w * n = ?j + w" using Suc.prems by simp
  have ih: "fold (\<lambda>i m. store_bytes m (d + of_nat (t - w * i)) (load_bytes m (s + of_nat (t - w * i)) w))
      [1..<n + 1] (moved m (d + of_nat t) (s + of_nat t) k)
    = moved m (d + of_nat ?j + of_nat w) (s + of_nat ?j + of_nat w) (w * n + k)"
    using Suc by (simp add: j add.assoc)
  have "?j + w + (w * n + k) \<le> t + k" using Suc.prems by simp
  then have "region (s + of_nat ?j) w \<inter> region (d + of_nat (?j + w)) (w * n + k) = {}"
      "w + (w * n + k) \<le> 2 ^ 64"
    using assms(1) by blast+
  then show ?case
    using moved_step_down [of "s + of_nat ?j" w "d + of_nat ?j" "w * n + k" m] ih
    by (simp add: add.assoc)
qed simp

definition fits :: "addr \<Rightarrow> nat \<Rightarrow> bool" where
  "fits a n \<longleftrightarrow> a \<noteq> nil \<and> unat a + n < 2 ^ 64"

lemma fits_offset: "fits a n \<Longrightarrow> k \<le> n \<Longrightarrow> unat (a + of_nat k) = unat a + k"
  by (simp add: fits_def unat_add_exact unat_of_nat_small)

lemma int_div8: "int n div 8 = int (n div 8)" and int_mod8: "int n mod 8 = int (n mod 8)"
  by (simp_all add: zdiv_int zmod_int)

lemma Memcpy_moved:
  assumes "fits dest n" "fits src n" "unat dest < unat src \<or> unat src + n \<le> unat dest"
  shows "Memcpy m dest src (int n) = Some (moved m dest src n)"
proof -
  have disj: "region (src + of_nat k) w \<inter> region dest k = {}" if "k + w \<le> n" for k w
    using assms that fits_offset [OF assms(2), of k]
      region_disjoint_unat [of dest k "src + of_nat k" w] region_disjoint_unat [of "src + of_nat k" w dest k]
    by (auto simp: fits_def Int_commute)
  have n: "8 * (n div 8) + n mod 8 = n" by simp
  have "fold (\<lambda>i m. copy_word m (off dest (8 * int i)) (off src (8 * int i))) [0..<n div 8] m
      = moved m dest src (8 * (n div 8))"
  proof -
    have "off a (8 * int i) = a + of_nat (0 + 8 * i)" for a i by (simp add: off_def)
    then show ?thesis
      using up_loop [of 8 0 "n div 8" src dest m] disj n by (simp add: copy_word_bytes)
  qed
  moreover have "fold (\<lambda>i m. copy_byte m (off dest (8 * (int n div 8) + int i)) (off src (8 * (int n div 8) + int i)))
      [0..<n mod 8] (moved m dest src (8 * (n div 8))) = moved m dest src n"
  proof -
    have "off a (8 * (int n div 8) + int i) = a + of_nat (8 * (n div 8) + 1 * i)" for a i
      unfolding int_div8 by (simp add: off_def)
    then show ?thesis
      using up_loop [of 1 "8 * (n div 8)" "n mod 8" src dest m] disj n by (simp add: copy_byte_bytes)
  qed
  moreover have "nat (int n div 8) = n div 8" "nat (int n mod 8) = n mod 8"
    by (simp_all add: nat_div_distrib nat_mod_distrib)
  ultimately show ?thesis using assms(1,2) by (simp add: Memcpy_def Let_def fits_def)
qed

lemma memcpyH_moved:
  assumes "fits dest n" "fits src n" "unat src < unat dest"
  shows "memcpyH m dest src (int n) = Some (moved m dest src n)"
proof -
  let ?t = "n mod 8" and ?c = "n div 8"
  have n: "8 * ?c + ?t = n" by simp
  have disj: "region (src + of_nat j) w \<inter> region (dest + of_nat (j + w)) k = {} \<and> w + k \<le> 2 ^ 64"
    if "j + w + k \<le> n" for j w k
  proof -
    have "unat (src + of_nat j) = unat src + j" "unat (dest + of_nat (j + w)) = unat dest + (j + w)"
      using that fits_offset [OF assms(2), of j] fits_offset [OF assms(1), of "j + w"] by simp_all
    then show ?thesis
      using assms that by (intro conjI region_disjoint_unat) (auto simp: fits_def)
  qed
  have "fold (\<lambda>i m. copy_word m (off dest (int n - 8 * int i)) (off src (int n - 8 * int i))) [1..<?c + 1] m
      = moved m (dest + of_nat ?t) (src + of_nat ?t) (8 * ?c)"
  proof -
    have "fold (\<lambda>i m. copy_word m (off dest (int n - 8 * int i)) (off src (int n - 8 * int i))) [1..<?c + 1] m
      = fold (\<lambda>i m. store_bytes m (dest + of_nat (n - 8 * i)) (load_bytes m (src + of_nat (n - 8 * i)) 8))
          [1..<?c + 1] m"
      by (rule fold_cong) (auto simp: copy_word_bytes off_def of_nat_diff)
    also have "\<dots> = fold (\<lambda>i m. store_bytes m (dest + of_nat (n - 8 * i))
        (load_bytes m (src + of_nat (n - 8 * i)) 8)) [1..<?c + 1] (moved m (dest + of_nat n) (src + of_nat n) 0)"
      by (simp only: moved_0)
    also have "\<dots> = moved m (dest + of_nat (n - 8 * ?c)) (src + of_nat (n - 8 * ?c)) (8 * ?c + 0)"
      by (rule down_loop) (rule disj, simp_all)
    also have "n - 8 * ?c = ?t" using n by (metis diff_add_inverse)
    finally show ?thesis by simp
  qed
  moreover have "fold (\<lambda>i m. copy_byte m (off dest (int n - 8 * (int n div 8) - int i))
      (off src (int n - 8 * (int n div 8) - int i))) [1..<?t + 1]
      (moved m (dest + of_nat ?t) (src + of_nat ?t) (8 * ?c)) = moved m dest src n"
  proof -
    have "int n - 8 * (int n div 8) = int ?t" using minus_mult_div_eq_mod [of "int n" 8] by (simp add: int_mod8)
    then have "fold (\<lambda>i m. copy_byte m (off dest (int n - 8 * (int n div 8) - int i))
        (off src (int n - 8 * (int n div 8) - int i))) [1..<?t + 1] m1
      = fold (\<lambda>i m. store_bytes m (dest + of_nat (?t - 1 * i)) (load_bytes m (src + of_nat (?t - 1 * i)) 1))
          [1..<?t + 1] m1" for m1
      by (intro fold_cong) (auto simp: copy_byte_bytes off_def of_nat_diff)
    also have "\<dots> (moved m (dest + of_nat ?t) (src + of_nat ?t) (8 * ?c))
      = moved m (dest + of_nat (?t - 1 * ?t)) (src + of_nat (?t - 1 * ?t)) (1 * ?t + 8 * ?c)"
      by (rule down_loop) (rule disj, use n in simp_all)
    also have "\<dots> = moved m dest src n" using n by (simp add: add.commute)
    finally show ?thesis .
  qed
  moreover have "nat (int n div 8) = ?c" "nat (int n mod 8) = ?t"
    by (simp_all add: nat_div_distrib nat_mod_distrib)
  ultimately show ?thesis using assms(1,2) by (simp add: memcpyH_def Let_def fits_def del: upt_Suc)
qed

text \<open>Overlapping or not, \<^verbatim>\<open>Memmove\<close> has the effect of one simultaneous copy.\<close>

text \<open>C37: Memmove copies the bytes as if through an intermediate buffer, whether or not source and destination overlap and in both directions, for every length.\<close>

theorem Memmove_moved:
  assumes "fits dest n" "fits src n"
  shows "Memmove m dest src (int n) = Some (store_bytes m dest (load_bytes m src n))"
proof (cases "dest = src")
  case True
  then show ?thesis using assms by (simp add: Memmove_def store_load_bytes fits_def)
next
  case False
  have end_src: "unat (off src (int n)) = unat src + n" using fits_offset [OF assms(2), of n] by simp
  show ?thesis
  proof (cases "src < dest \<and> dest \<le> off src (int n)")
    case True
    then show ?thesis
      using False memcpyH_moved [OF assms] by (simp add: Memmove_def moved_def word_less_nat_alt)
  next
    case not: False
    then have "unat dest < unat src \<or> unat src + n \<le> unat dest"
      using False end_src by (auto simp: word_less_nat_alt word_le_nat_alt word_unat_eq_iff)
    then show ?thesis
      using False not Memcpy_moved [OF assms] by (auto simp: Memmove_def moved_def)
  qed
qed

theorem Memmove_moved_witness:
  "Memmove (\<lambda>a. ucast a) 0x1002 0x1000 (int 20) = Some (store_bytes (\<lambda>a. ucast a) 0x1002 (load_bytes (\<lambda>a. ucast a) 0x1000 20))"
  by (rule Memmove_moved) (simp_all add: fits_def)

section \<open>Comparison\<close>

lemma cmp_loop_None: "cmp_loop ps = None \<longleftrightarrow> (\<forall>(x, y) \<in> set ps. x = y)"
  by (induction ps rule: cmp_loop.induct) auto

lemma cmp_loop_Some: "cmp_loop ps = Some r \<Longrightarrow> r = 1 \<or> r = -1"
  by (induction ps rule: cmp_loop.induct) (auto split: if_splits)

lemma load64_eq_iff: "load64 m a = load64 m b \<longleftrightarrow> load_bytes m a 8 = load_bytes m b 8"
  unfolding load64_def by (metis le_rt_list(3) length_load_bytes)

lemma load_bytes_eq_iff:
  "load_bytes m a n = load_bytes m b n \<longleftrightarrow> (\<forall>i < n. m (a + of_nat i) = m (b + of_nat i))"
  by (simp add: list_eq_iff_nth_eq)

text \<open>Memcmp returns zero exactly when the two ranges hold the same bytes, for every length, whole words and tail alike.\<close>

lemma Memcmp_zero_iff:
  assumes "dest \<noteq> nil" "src \<noteq> nil"
  shows "Memcmp m dest src (int n) = Some 0 \<longleftrightarrow> load_bytes m dest n = load_bytes m src n"
proof -
  let ?c = "n div 8" and ?t = "n mod 8"
  have words: "cmp_loop (map (\<lambda>i. (load64 m (off dest (8 * int i)), load64 m (off src (8 * int i)))) [0..<?c]) = None
    \<longleftrightarrow> (\<forall>k < 8 * ?c. m (dest + of_nat k) = m (src + of_nat k))"
  proof -
    have w: "load64 m (off dest (8 * int i)) = load64 m (off src (8 * int i)) \<longleftrightarrow>
      (\<forall>j < 8. m (dest + of_nat (8 * i + j)) = m (src + of_nat (8 * i + j)))" for i
      by (simp add: load64_eq_iff load_bytes_eq_iff off_def add.assoc)
    have "(\<forall>i < ?c. \<forall>j < 8. m (dest + of_nat (8 * i + j)) = m (src + of_nat (8 * i + j)))
      \<longleftrightarrow> (\<forall>k < 8 * ?c. m (dest + of_nat k) = m (src + of_nat k))" (is "?L \<longleftrightarrow> ?R")
    proof
      assume L: ?L
      show ?R
      proof (intro allI impI)
        fix k assume "k < 8 * ?c"
        then have "k div 8 < ?c" "k mod 8 < 8" "8 * (k div 8) + k mod 8 = k" by auto
        then show "m (dest + of_nat k) = m (src + of_nat k)" using L by metis
      qed
    next
      assume R: ?R
      show ?L
      proof (intro allI impI)
        fix i j :: nat assume "i < ?c" "j < 8"
        then have "8 * i + j < 8 * ?c" by linarith
        then show "m (dest + of_nat (8 * i + j)) = m (src + of_nat (8 * i + j))" using R by blast
      qed
    qed
    then show ?thesis by (simp only: cmp_loop_None set_map) (auto simp: w)
  qed
  have bytes: "cmp_loop (map (\<lambda>i. (m (off dest (8 * int ?c + int i)), m (off src (8 * int ?c + int i)))) [0..<?t]) = None
    \<longleftrightarrow> (\<forall>i < ?t. m (dest + of_nat (8 * ?c + i)) = m (src + of_nat (8 * ?c + i)))"
    by (auto simp: cmp_loop_None off_def)
  have all: "(\<forall>k < n. m (dest + of_nat k) = m (src + of_nat k)) \<longleftrightarrow>
    (\<forall>k < 8 * ?c. m (dest + of_nat k) = m (src + of_nat k)) \<and>
    (\<forall>i < ?t. m (dest + of_nat (8 * ?c + i)) = m (src + of_nat (8 * ?c + i)))"
  proof -
    have split: "(\<forall>k < a + b. P k) \<longleftrightarrow> (\<forall>k < a. P k) \<and> (\<forall>i < b. P (a + i))" for a b :: nat and P
      by (metis add_diff_inverse_nat add_less_cancel_left trans_less_add1)
    show ?thesis using split [of "8 * ?c" ?t "\<lambda>k. m (dest + of_nat k) = m (src + of_nat k)"]
      by (simp only: mult_div_mod_eq)
  qed
  let ?W = "cmp_loop (map (\<lambda>i. (load64 m (off dest (8 * int i)), load64 m (off src (8 * int i)))) [0..<?c])"
  let ?B = "cmp_loop (map (\<lambda>i. (m (off dest (8 * int ?c + int i)), m (off src (8 * int ?c + int i)))) [0..<?t])"
  have val: "Memcmp m dest src (int n) = Some (case ?W of Some r \<Rightarrow> r | None \<Rightarrow> (case ?B of Some r \<Rightarrow> r | None \<Rightarrow> 0))"
    unfolding Memcmp_def int_div8 int_mod8 Let_def nat_int using assms by simp
  have zero: "Some (case ?W of Some r \<Rightarrow> r | None \<Rightarrow> (case ?B of Some r \<Rightarrow> r | None \<Rightarrow> 0)) = Some 0
      \<longleftrightarrow> ?W = None \<and> ?B = None"
    using cmp_loop_Some [of "map (\<lambda>i. (load64 m (off dest (8 * int i)), load64 m (off src (8 * int i)))) [0..<?c]"]
      cmp_loop_Some [of "map (\<lambda>i. (m (off dest (8 * int ?c + int i)), m (off src (8 * int ?c + int i)))) [0..<?t]"]
    by (cases ?W; cases ?B) auto
  show ?thesis by (simp only: load_bytes_eq_iff all val zero words bytes)
qed

text \<open>
  The words are compared as little-endian numbers, so the sign is not that of the C function
  of the same name, which compares the first differing bytes.
\<close>

lemma Memcmp_sign_little_endian:
  "Memcmp (store_bytes (\<lambda>_. 0) 0x1000 ([1, 0, 0, 0, 0, 0, 0, 0] @ [0, 1, 0, 0, 0, 0, 0, 0])) 0x1000 0x1008 8
     = Some (-1)"
  by code_simp

section \<open>Memset\<close>

lemma set_bytes: "fold (\<lambda>i m. m(d + of_nat i := ch)) [0..<n] m = store_bytes m d (replicate n ch)"
proof (induction n)
  case (Suc n)
  have "store_bytes m d (replicate (Suc n) ch) = store_bytes m d (replicate n ch @ [ch])"
    by (simp only: replicate_Suc replicate_append_same)
  also have "\<dots> = (store_bytes m d (replicate n ch))(d + of_nat n := ch)"
    by (simp only: store_bytes_append length_replicate store_bytes.simps)
  finally show ?case by (simp only: upt_Suc_append fold_append fold.simps comp_apply id_apply Suc le0)
qed simp

lemma set_words:
  assumes "fits d (l + 8 * n)" "8 \<le> l"
  shows "fold (\<lambda>i m. store64 m (d + of_nat (l + 8 * i)) (load64 m d)) [0..<n] (store_bytes m d (replicate l ch))
    = store_bytes m d (replicate (l + 8 * n) ch)"
  using assms
proof (induction n)
  case (Suc n)
  let ?m = "store_bytes m d (replicate (l + 8 * n) ch)"
  have "fits d (l + 8 * n)" using Suc.prems(1) by (simp add: fits_def)
  then have ih: "fold (\<lambda>i m. store64 m (d + of_nat (l + 8 * i)) (load64 m d)) [0..<n]
      (store_bytes m d (replicate l ch)) = ?m"
    using Suc.IH Suc.prems(2) by blast
  have "load_bytes ?m d (l + 8 * n) = replicate (l + 8 * n) ch"
    using Suc.prems(1) by (intro load_store_bytes) (simp_all add: fits_def)
  then have "load_bytes ?m d 8 = replicate 8 ch"
    using slice_load_bytes [of 0 8 "l + 8 * n" ?m d] Suc.prems(2) by (simp add: slice_def)
  then have "store64 ?m (d + of_nat (l + 8 * n)) (load64 ?m d)
      = store_bytes ?m (d + of_nat (l + 8 * n)) (replicate 8 ch)"
    by (simp add: store64_load64)
  also have "\<dots> = store_bytes m d (replicate (l + 8 * n) ch @ replicate 8 ch)"
    by (simp add: store_bytes_append del: append_replicate_commute)
  also have "\<dots> = store_bytes m d (replicate (l + 8 * Suc n) ch)"
    by (simp add: replicate_add [symmetric] add.commute add.left_commute)
  finally show ?case using ih by simp
qed simp

lemma set_total: "n = 8 * c + t \<Longrightarrow> \<not> c < 2 \<Longrightarrow> (if 0 < c then t + 8 else t) + 8 * (c - 1) = (n :: nat)"
  by auto

lemma Memset_bytes:
  assumes "fits dest n"
  shows "Memset m dest ch (int n) = Some (store_bytes m dest (replicate n ch))"
proof -
  let ?c = "n div 8" and ?t = "n mod 8"
  have n: "n = 8 * ?c + ?t" by simp
  let ?l = "if 0 < ?c then ?t + 8 else ?t"
  have l: "int n mod 8 + (if 0 < int n div 8 then 8 else 0) = int ?l"
    by (simp add: int_div8 int_mod8 del: of_nat_div of_nat_mod)
  have first: "fold (\<lambda>i m. m(off dest (int i) := ch)) [0..<nat (int ?l)] m = store_bytes m dest (replicate ?l ch)"
    by (simp add: set_bytes)
  show ?thesis
  proof (cases "?c < 2")
    case True
    then have "?l = n" using n by (cases ?c) auto
    then show ?thesis
      using True l first assms unfolding Memset_def Let_def l by (simp add: fits_def int_div8)
  next
    case False
    have tot: "?l + 8 * (?c - 1) = n" using set_total [OF n False] .
    have "fold (\<lambda>i m. store64 m (off dest (int ?l + 8 * int i)) (load64 m dest)) [0..<?c - 1]
        (store_bytes m dest (replicate ?l ch)) = store_bytes m dest (replicate n ch)"
    proof -
      have "off dest (int ?l + 8 * int i) = dest + of_nat (?l + 8 * i)" for i by (simp add: off_def)
      then show ?thesis using set_words [of dest ?l "?c - 1" m ch] tot assms False by simp
    qed
    moreover have "nat (int n div 8 - 1) = ?c - 1" by (simp add: int_div8)
    ultimately show ?thesis
      using False first assms unfolding Memset_def Let_def l by (simp add: fits_def int_div8)
  qed
qed

end
