(* ===== verification/Alloc.thy ===== *)
theory Alloc
  imports Memory
begin

text \<open>
  Memory for C (src/common/allocator.go, allocator_std.go, allocator_rte.go, pointers.go,
  endian.go).  The interface \<^verbatim>\<open>Allocator\<close> is the locale \<open>allocator\<close>: three functions on a
  heap state with the contract of malloc, free and realloc.  A free that C leaves undefined may be a
  fault, \<^term>\<open>None\<close>.  \<^verbatim>\<open>StdAlloc\<close> and \<^verbatim>\<open>RteAlloc\<close> only
  forward to C and are instances of its parameters; \<^verbatim>\<open>AllocatorSession\<close> is modelled here
  and is shown to be an allocator again (\<open>session_is_allocator\<close>).
\<close>

section \<open>The interface and sessions\<close>

record 'h session =
  s_mem :: 'h
  s_ptrs :: "addr list"

text \<open>
  \<^verbatim>\<open>ptrs\<close> is a Go map used as a set; it is a list without repetition here.  The order in
  which \<^verbatim>\<open>Flush\<close> meets its elements is unspecified in Go and plays no role below.
\<close>

datatype 'a alloc_value = RootAlloc 'a | SessionAlloc "'a alloc_value"

fun rootAlloc :: "'a alloc_value \<Rightarrow> 'a" where
  "rootAlloc (SessionAlloc mem) = rootAlloc mem"
| "rootAlloc (RootAlloc a) = a"

definition NewAllocatorSession :: "'h \<Rightarrow> 'h session" where
  "NewAllocatorSession h = \<lparr>s_mem = h, s_ptrs = []\<rparr>"

definition Session_Malloc :: "(u64 \<Rightarrow> 'h \<Rightarrow> addr \<times> 'h) \<Rightarrow> u64 \<Rightarrow> 'h session \<Rightarrow> addr \<times> 'h session" where
  "Session_Malloc malloc size1 s =
     (let (p, h) = malloc size1 (s_mem s) in (p, s\<lparr>s_mem := h, s_ptrs := List.insert p (s_ptrs s)\<rparr>))"

definition Session_Free :: "(addr \<Rightarrow> 'h \<Rightarrow> 'h option) \<Rightarrow> addr \<Rightarrow> 'h session \<Rightarrow> 'h session option" where
  "Session_Free free p s = do { h \<leftarrow> free p (s_mem s); Some (s\<lparr>s_mem := h, s_ptrs := removeAll p (s_ptrs s)\<rparr>) }"

definition Session_Realloc ::
  "(addr \<Rightarrow> u64 \<Rightarrow> 'h \<Rightarrow> addr \<times> 'h) \<Rightarrow> addr \<Rightarrow> u64 \<Rightarrow> 'h session \<Rightarrow> addr \<times> 'h session" where
  "Session_Realloc realloc p size1 s =
     (let (p1, h) = realloc p size1 (s_mem s) in
      (p1, s\<lparr>s_mem := h,
             s_ptrs := (if p \<noteq> p1 then removeAll p (List.insert p1 (s_ptrs s)) else s_ptrs s)\<rparr>))"

fun free_all :: "(addr \<Rightarrow> 'h \<Rightarrow> 'h option) \<Rightarrow> addr list \<Rightarrow> 'h \<Rightarrow> 'h option" where
  "free_all free [] h = Some h"
| "free_all free (p # ps) h = do { h \<leftarrow> free p h; free_all free ps h }"

definition Session_Flush :: "(addr \<Rightarrow> 'h \<Rightarrow> 'h option) \<Rightarrow> 'h session \<Rightarrow> 'h session option" where
  "Session_Flush free s = do { h \<leftarrow> free_all free (s_ptrs s) (s_mem s); Some \<lparr>s_mem = h, s_ptrs = []\<rparr> }"

text \<open>
  \<open>owned\<close> are the blocks allocated and not yet freed.  Freeing one of them or nil is defined; of freeing any other
  pointer, a second time in particular, nothing is assumed.  The same holds for reallocating another pointer, and for
  the block when a reallocation to size zero returns nil.
\<close>

locale allocator =
  fixes malloc :: "u64 \<Rightarrow> 'h \<Rightarrow> addr \<times> 'h"
    and free :: "addr \<Rightarrow> 'h \<Rightarrow> 'h option"
    and realloc :: "addr \<Rightarrow> u64 \<Rightarrow> 'h \<Rightarrow> addr \<times> 'h"
    and owned :: "'h \<Rightarrow> addr set"
  assumes nil_not_owned: "nil \<notin> owned h"
    and malloc_law: "malloc n h = (p, h') \<Longrightarrow>
      (if p = nil then owned h' = owned h else p \<notin> owned h \<and> owned h' = insert p (owned h))"
    and free_law: "p = nil \<or> p \<in> owned h \<Longrightarrow> \<exists>h'. free p h = Some h' \<and> owned h' = owned h - {p}"
    and realloc_law: "realloc p n h = (p', h') \<Longrightarrow> p \<in> owned h \<Longrightarrow>
      (if p' = nil then n \<noteq> 0 \<longrightarrow> owned h' = owned h
       else (p' = p \<or> p' \<notin> owned h) \<and> owned h' = insert p' (owned h - {p}))"
begin

text \<open>A session offers the interface it is built on.\<close>

lemma session_is_allocator:
  "allocator (Session_Malloc malloc) (Session_Free free) (Session_Realloc realloc) (\<lambda>s. owned (s_mem s))"
proof
  fix n h p h'
  assume "Session_Malloc malloc n h = (p, h')"
  then obtain h1 where "malloc n (s_mem h) = (p, h1)" "s_mem h' = h1"
    by (auto simp: Session_Malloc_def split: prod.splits)
  then show "if p = nil then owned (s_mem h') = owned (s_mem h)
     else p \<notin> owned (s_mem h) \<and> owned (s_mem h') = insert p (owned (s_mem h))"
    using malloc_law by blast
next
  fix p n h p' h'
  assume "Session_Realloc realloc p n h = (p', h')" "p \<in> owned (s_mem h)"
  then obtain h1 where "realloc p n (s_mem h) = (p', h1)" "s_mem h' = h1"
    by (auto simp: Session_Realloc_def split: prod.splits)
  then show "if p' = nil then n \<noteq> 0 \<longrightarrow> owned (s_mem h') = owned (s_mem h)
     else (p' = p \<or> p' \<notin> owned (s_mem h)) \<and> owned (s_mem h') = insert p' (owned (s_mem h) - {p})"
    using realloc_law \<open>p \<in> owned (s_mem h)\<close> by blast
next
  fix p and h :: "'h session" assume "p = nil \<or> p \<in> owned (s_mem h)"
  then show "\<exists>h'. Session_Free free p h = Some h' \<and> owned (s_mem h') = owned (s_mem h) - {p}"
    using free_law [of p "s_mem h"] by (auto simp: Session_Free_def)
qed (simp_all add: nil_not_owned)

lemma free_all_owned:
  "distinct ps \<Longrightarrow> set ps - {nil} \<subseteq> owned h \<Longrightarrow> \<exists>h'. free_all free ps h = Some h' \<and> owned h' = owned h - set ps"
proof (induction ps arbitrary: h)
  case (Cons p ps)
  obtain h1 where h1: "free p h = Some h1" "owned h1 = owned h - {p}" using free_law [of p h] Cons.prems(2) by auto
  then have "set ps - {nil} \<subseteq> owned h1" using Cons.prems by auto
  then obtain h2 where "free_all free ps h1 = Some h2" "owned h2 = owned h1 - set ps"
    using Cons.IH [of h1] Cons.prems(1) by auto
  then show ?case using h1 by auto
qed simp

lemma owned_Flush:
  assumes "distinct (s_ptrs s)" "set (s_ptrs s) - {nil} \<subseteq> owned (s_mem s)"
  shows "\<exists>s'. Session_Flush free s = Some s' \<and> owned (s_mem s') = owned (s_mem s) - set (s_ptrs s) \<and> s_ptrs s' = []"
  using free_all_owned [OF assms] by (auto simp: Session_Flush_def)

end

text \<open>
  The uses of a session: each method call is a step.  A client frees and reallocates only
  pointers of the session.
\<close>

inductive session_step ::
  "(u64 \<Rightarrow> 'h \<Rightarrow> addr \<times> 'h) \<Rightarrow> (addr \<Rightarrow> 'h \<Rightarrow> 'h option) \<Rightarrow> (addr \<Rightarrow> u64 \<Rightarrow> 'h \<Rightarrow> addr \<times> 'h)
    \<Rightarrow> 'h session \<Rightarrow> 'h session \<Rightarrow> bool"
  for malloc free realloc where
  step_malloc: "Session_Malloc malloc n s = (p, s') \<Longrightarrow> session_step malloc free realloc s s'"
| step_free: "p \<in> set (s_ptrs s) \<Longrightarrow> Session_Free free p s = Some s' \<Longrightarrow> session_step malloc free realloc s s'"
| step_realloc: "p \<in> set (s_ptrs s) \<Longrightarrow> p \<noteq> nil \<Longrightarrow> Session_Realloc realloc p n s = (p', s') \<Longrightarrow>
    p' \<noteq> nil \<Longrightarrow> session_step malloc free realloc s s'"

inductive session_reach ::
  "(u64 \<Rightarrow> 'h \<Rightarrow> addr \<times> 'h) \<Rightarrow> (addr \<Rightarrow> 'h \<Rightarrow> 'h option) \<Rightarrow> (addr \<Rightarrow> u64 \<Rightarrow> 'h \<Rightarrow> addr \<times> 'h)
    \<Rightarrow> 'h \<Rightarrow> 'h session \<Rightarrow> bool"
  for malloc free realloc h0 where
  reach_new: "session_reach malloc free realloc h0 (NewAllocatorSession h0)"
| reach_step: "session_reach malloc free realloc h0 s \<Longrightarrow> session_step malloc free realloc s s' \<Longrightarrow>
    session_reach malloc free realloc h0 s'"

inductive_cases session_stepE: "session_step malloc free realloc s s'"

context allocator
begin

text \<open>What the root allocator owned before stays owned; the rest is in the session.\<close>

definition session_inv :: "'h \<Rightarrow> 'h session \<Rightarrow> bool" where
  "session_inv h0 s \<longleftrightarrow> owned (s_mem s) = owned h0 \<union> (set (s_ptrs s) - {nil})
     \<and> set (s_ptrs s) \<inter> owned h0 = {} \<and> distinct (s_ptrs s)"

lemma session_inv_new: "session_inv h0 (NewAllocatorSession h0)"
  by (simp add: session_inv_def NewAllocatorSession_def)

lemma session_inv_malloc:
  assumes "session_inv h0 s" "Session_Malloc malloc n s = (p, s')"
  shows "session_inv h0 s'"
proof -
  obtain h1 where h1: "malloc n (s_mem s) = (p, h1)"
      "s' = s\<lparr>s_mem := h1, s_ptrs := List.insert p (s_ptrs s)\<rparr>"
    using assms(2) by (auto simp: Session_Malloc_def split: prod.splits)
  show ?thesis
    using malloc_law [OF h1(1)] assms(1) nil_not_owned [of h0]
    unfolding session_inv_def h1(2) by (cases "p = nil") auto
qed

lemma session_inv_realloc:
  assumes "session_inv h0 s" "p \<in> set (s_ptrs s)" "p \<noteq> nil"
    and "Session_Realloc realloc p n s = (p', s')" "p' \<noteq> nil"
  shows "session_inv h0 s'"
proof -
  obtain h1 where h1: "realloc p n (s_mem s) = (p', h1)" "s' = s\<lparr>s_mem := h1,
      s_ptrs := (if p \<noteq> p' then removeAll p (List.insert p' (s_ptrs s)) else s_ptrs s)\<rparr>"
    using assms(4) by (auto simp: Session_Realloc_def split: prod.splits)
  have p: "p \<in> owned (s_mem s)" using assms(1-3) by (auto simp: session_inv_def)
  show ?thesis
    using realloc_law [OF h1(1) p] assms(1-3,5)
    unfolding session_inv_def h1(2) by (cases "p = p'") (auto simp: distinct_removeAll)
qed

lemma session_inv_free:
  assumes "session_inv h0 s" "p \<in> set (s_ptrs s)"
  shows "\<exists>s'. Session_Free free p s = Some s' \<and> owned (s_mem s') = owned (s_mem s) - {p} \<and>
    set (s_ptrs s') = set (s_ptrs s) - {p} \<and> session_inv h0 s'"
proof -
  have "p = nil \<or> p \<in> owned (s_mem s)" using assms by (auto simp: session_inv_def)
  from free_law [OF this] obtain h where h: "free p (s_mem s) = Some h" "owned h = owned (s_mem s) - {p}" by blast
  then show ?thesis using assms nil_not_owned [of h0] by (auto simp: Session_Free_def session_inv_def distinct_removeAll)
qed

lemma session_inv_step: "session_inv h0 s \<Longrightarrow> session_step malloc free realloc s s' \<Longrightarrow> session_inv h0 s'"
proof (erule session_stepE)
  fix p assume "session_inv h0 s" "p \<in> set (s_ptrs s)" "Session_Free free p s = Some s'"
  then show "session_inv h0 s'" using session_inv_free by fastforce
qed (auto intro: session_inv_malloc session_inv_realloc)

lemma session_inv_reach: "session_reach malloc free realloc h0 s \<Longrightarrow> session_inv h0 s"
  by (induction rule: session_reach.induct) (auto intro: session_inv_new session_inv_step)

text \<open>Flush gives back everything the session holds and nothing else.\<close>

lemma Flush_restores:
  assumes "session_inv h0 s"
  shows "\<exists>s'. Session_Flush free s = Some s' \<and> owned (s_mem s') = owned h0 \<and> s_ptrs s' = []"
proof -
  have "distinct (s_ptrs s)" "set (s_ptrs s) - {nil} \<subseteq> owned (s_mem s)" using assms by (auto simp: session_inv_def)
  from owned_Flush [OF this] show ?thesis using assms nil_not_owned [of h0] by (auto simp: session_inv_def)
qed

text \<open>A realloc that fails makes the session forget a block that is still allocated.\<close>

lemma failed_realloc_leaks:
  assumes "session_inv h0 s" "p \<in> set (s_ptrs s)" "p \<noteq> nil" "n \<noteq> 0"
    and "Session_Realloc realloc p n s = (nil, s')"
  shows "\<exists>s''. Session_Flush free s' = Some s'' \<and> p \<in> owned (s_mem s'') - owned h0"
proof -
  obtain h1 where h1: "realloc p n (s_mem s) = (nil, h1)" "s' = s\<lparr>s_mem := h1,
      s_ptrs := removeAll p (List.insert nil (s_ptrs s))\<rparr>"
    using assms(3,5) by (auto simp: Session_Realloc_def split: prod.splits)
  have p: "p \<in> owned (s_mem s)" using assms(1-3) by (auto simp: session_inv_def)
  have same: "owned h1 = owned (s_mem s)" using realloc_law [OF h1(1) p] assms(4) by simp
  have "distinct (s_ptrs s')" "set (s_ptrs s') - {nil} \<subseteq> owned (s_mem s')"
    using assms(1) same unfolding h1(2) by (auto simp: session_inv_def distinct_removeAll)
  from owned_Flush [OF this] obtain s'' where "Session_Flush free s' = Some s''"
      "owned (s_mem s'') = owned (s_mem s') - set (s_ptrs s')" by blast
  then show ?thesis using assms(1,2) p same unfolding h1(2) by (auto simp: session_inv_def)
qed

end

section \<open>A heap\<close>

text \<open>
  An arena that satisfies the contract: blocks are placed one after the other and never
  reused; a request that does not fit returns nil.  It is the heap on which the sessions
  of the code are run below.
\<close>

record arena =
  arena_top :: nat
  arena_blocks :: "addr list"

definition arena_ok :: "arena \<Rightarrow> nat \<Rightarrow> bool" where
  "arena_ok h n \<longleftrightarrow> 0 < arena_top h \<and> arena_top h + n + 1 < 2 ^ 64 \<and> of_nat (arena_top h) \<notin> set (arena_blocks h)"

definition arena_malloc :: "u64 \<Rightarrow> arena \<Rightarrow> addr \<times> arena" where
  "arena_malloc n h =
     (if arena_ok h (unat n)
      then (of_nat (arena_top h), h\<lparr>arena_top := arena_top h + unat n + 1,
              arena_blocks := of_nat (arena_top h) # arena_blocks h\<rparr>)
      else (nil, h))"

definition arena_free :: "addr \<Rightarrow> arena \<Rightarrow> arena option" where
  "arena_free p h =
     (if p = nil then Some h
      else if p \<in> set (arena_blocks h) then Some (h\<lparr>arena_blocks := removeAll p (arena_blocks h)\<rparr>) else None)"

definition arena_realloc :: "addr \<Rightarrow> u64 \<Rightarrow> arena \<Rightarrow> addr \<times> arena" where
  "arena_realloc p n h =
     (let (p', h') = arena_malloc n h in if p' = nil then (nil, h)
      else (p', h'\<lparr>arena_blocks := removeAll p (arena_blocks h')\<rparr>))"

definition arena_owned :: "arena \<Rightarrow> addr set" where
  "arena_owned h = set (arena_blocks h) - {nil}"

definition new_arena :: arena where
  "new_arena = \<lparr>arena_top = 4096, arena_blocks = []\<rparr>"

lemma arena_top_nonnil: "arena_ok h n \<Longrightarrow> (of_nat (arena_top h) :: addr) \<noteq> nil"
  using of_nat_word_inj [of "arena_top h" 0, where 'a = 64] by (auto simp: arena_ok_def)

interpretation heap: allocator arena_malloc arena_free arena_realloc arena_owned
proof
  fix n h p h'
  assume "arena_malloc n h = (p, h')"
  then show "if p = nil then arena_owned h' = arena_owned h
     else p \<notin> arena_owned h \<and> arena_owned h' = insert p (arena_owned h)"
    using arena_top_nonnil
    by (auto simp: arena_malloc_def arena_owned_def arena_ok_def split: if_splits)
next
  fix p n h p' h'
  assume "arena_realloc p n h = (p', h')" "p \<in> arena_owned h"
  then show "if p' = nil then n \<noteq> 0 \<longrightarrow> arena_owned h' = arena_owned h
     else (p' = p \<or> p' \<notin> arena_owned h) \<and> arena_owned h' = insert p' (arena_owned h - {p})"
    using arena_top_nonnil
    by (auto simp: arena_realloc_def arena_malloc_def arena_owned_def arena_ok_def Let_def
        split: if_splits)
qed (auto simp: arena_owned_def arena_free_def)

interpretation heap_session: allocator "Session_Malloc arena_malloc" "Session_Free arena_free"
  "Session_Realloc arena_realloc" "\<lambda>s. arena_owned (s_mem s)"
  by (rule heap.session_is_allocator)

section \<open>Memory through pointers\<close>

text \<open>
  \<^verbatim>\<open>MakeSlice\<close> and \<^verbatim>\<open>CStruct.Bytes\<close> build a slice header on a pointer: the slice is the pair
  of address and length, its bytes are those of the memory.  Writing through a nil slice of
  positive length is a fault.
\<close>

record CStruct =
  cs_Ptr :: addr
  cs_Len :: nat

definition MakeSlice :: "addr \<Rightarrow> nat \<Rightarrow> addr \<times> nat" where
  "MakeSlice buf max1 = (buf, max1)"

definition CStruct_Init :: "addr \<Rightarrow> nat \<Rightarrow> CStruct" where
  "CStruct_Init p n = \<lparr>cs_Ptr = p, cs_Len = n\<rparr>"

definition CStruct_Bytes :: "memory \<Rightarrow> CStruct \<Rightarrow> byte list" where
  "CStruct_Bytes m cs = load_bytes m (cs_Ptr cs) (cs_Len cs)"

definition Memset1 :: "memory \<Rightarrow> addr \<Rightarrow> byte \<Rightarrow> nat \<Rightarrow> memory option" where
  "Memset1 m p init n = (if p = nil \<and> 0 < n then None else Some (store_bytes m p (replicate n init)))"

definition copy_to_slice :: "memory \<Rightarrow> addr \<times> nat \<Rightarrow> byte list \<Rightarrow> (nat \<times> memory) option" where
  "copy_to_slice m dst src =
     (let n = min (snd dst) (length src) in
      if fst dst = nil \<and> 0 < n then None else Some (n, store_bytes m (fst dst) (take n src)))"

definition CopyFromBytes :: "memory \<Rightarrow> addr \<Rightarrow> byte list \<Rightarrow> nat \<Rightarrow> (nat \<times> memory) option" where
  "CopyFromBytes m dst src max1 = copy_to_slice m (MakeSlice dst max1) src"

definition CopyToBytes :: "memory \<Rightarrow> byte list \<Rightarrow> addr \<Rightarrow> nat \<Rightarrow> (nat \<times> byte list) option" where
  "CopyToBytes m dst src max1 =
     (let n = min (length dst) max1 in
      if src = nil \<and> 0 < n then None else Some (n, go_copy dst (load_bytes m src max1)))"

text \<open>Allocation of zeroed objects and of copies; \<open>sz\<close> is the size of the reflected type.\<close>

definition allocArray ::
  "(u64 \<Rightarrow> 'h \<Rightarrow> addr \<times> 'h) \<Rightarrow> memory \<Rightarrow> 'h \<Rightarrow> u64 \<Rightarrow> int \<Rightarrow> (addr \<times> memory \<times> 'h) option" where
  "allocArray malloc m h tsize nmemb =
     (let sz = tsize * word_of_int nmemb; (p, h) = malloc sz h in
      do { m \<leftarrow> Memset1 m p 0 (unat sz); Some (p, m, h) })"

definition MallocT :: "(u64 \<Rightarrow> 'h \<Rightarrow> addr \<times> 'h) \<Rightarrow> memory \<Rightarrow> 'h \<Rightarrow> u64 \<Rightarrow> (addr \<times> memory \<times> 'h) option" where
  "MallocT malloc m h tsize = allocArray malloc m h tsize 1"

definition CallocT ::
  "(u64 \<Rightarrow> 'h \<Rightarrow> addr \<times> 'h) \<Rightarrow> memory \<Rightarrow> 'h \<Rightarrow> u64 \<Rightarrow> int \<Rightarrow> (addr \<times> memory \<times> 'h) option" where
  "CallocT malloc m h tsize nmemb = allocArray malloc m h tsize nmemb"

definition CBytes ::
  "(u64 \<Rightarrow> 'h \<Rightarrow> addr \<times> 'h) \<Rightarrow> memory \<Rightarrow> 'h \<Rightarrow> byte list \<Rightarrow> (addr \<times> memory \<times> 'h) option" where
  "CBytes malloc m h b =
     (let (p, h) = malloc (of_nat (length b)) h in
      do { (_, m) \<leftarrow> copy_to_slice m (MakeSlice p (length b)) b; Some (p, m, h) })"

definition CString ::
  "(u64 \<Rightarrow> 'h \<Rightarrow> addr \<times> 'h) \<Rightarrow> memory \<Rightarrow> 'h \<Rightarrow> byte list \<Rightarrow> (addr \<times> memory \<times> 'h) option" where
  "CString malloc m h s =
     (let (p, h) = malloc (of_nat (length s + 1)) h in
      do { (_, m) \<leftarrow> copy_to_slice m (MakeSlice p (length s + 1)) s;
           if p = nil then None else Some (p, m(p + of_nat (length s) := 0), h) })"

text \<open>\<^verbatim>\<open>TransformPOD\<close> copies the bytes of an object; the destructor is \<^verbatim>\<open>Free\<close>.\<close>

definition TransformPOD ::
  "(u64 \<Rightarrow> 'h \<Rightarrow> addr \<times> 'h) \<Rightarrow> memory \<Rightarrow> 'h \<Rightarrow> byte list \<Rightarrow> (addr \<times> memory \<times> 'h) option" where
  "TransformPOD malloc m h obj =
     (let (p, h) = malloc (of_nat (length obj)) h in
      if p = nil \<and> obj \<noteq> [] then None else Some (p, store_bytes m p obj, h))"

section \<open>Byte orders\<close>

datatype ByteOrder = LittleEndian | BigEndian

definition order_bytes :: "ByteOrder \<Rightarrow> byte list \<Rightarrow> byte list" where
  "order_bytes b bs = (case b of LittleEndian \<Rightarrow> bs | BigEndian \<Rightarrow> rev bs)"

definition PutUint16 :: "ByteOrder \<Rightarrow> memory \<Rightarrow> addr \<Rightarrow> u16 \<Rightarrow> memory option" where
  "PutUint16 b m dst d = (if dst = nil then None else Some (view_store (\<lambda>x. order_bytes b (le16 x)) m dst d))"

definition PutUint32 :: "ByteOrder \<Rightarrow> memory \<Rightarrow> addr \<Rightarrow> u32 \<Rightarrow> memory option" where
  "PutUint32 b m dst d = (if dst = nil then None else Some (view_store (\<lambda>x. order_bytes b (le32 x)) m dst d))"

definition PutUint64 :: "ByteOrder \<Rightarrow> memory \<Rightarrow> addr \<Rightarrow> u64 \<Rightarrow> memory option" where
  "PutUint64 b m dst d = (if dst = nil then None else Some (view_store (\<lambda>x. order_bytes b (le64 x)) m dst d))"

lemma order_bytes_twice [simp]: "order_bytes b (order_bytes b bs) = bs"
  by (simp add: order_bytes_def split: ByteOrder.split)

lemma length_order_bytes [simp]: "length (order_bytes b bs) = length bs"
  by (simp add: order_bytes_def split: ByteOrder.split)

interpretation word16: layout "\<lambda>x. order_bytes b (le16 x)" "\<lambda>bs. un_le16 (order_bytes b bs)" 2 "\<lambda>_. True"
  by unfold_locales (simp_all add: le_rt le_rt_list)

interpretation word32: layout "\<lambda>x. order_bytes b (le32 x)" "\<lambda>bs. un_le32 (order_bytes b bs)" 4 "\<lambda>_. True"
  by unfold_locales (simp_all add: le_rt le_rt_list)

interpretation word64: layout "\<lambda>x. order_bytes b (le64 x)" "\<lambda>bs. un_le64 (order_bytes b bs)" 8 "\<lambda>_. True"
  by unfold_locales (simp_all add: le_rt le_rt_list)

lemma CString_reads_back:
  assumes "malloc (of_nat (length s + 1)) h = (p, h')" "p \<noteq> nil" "length s < 2 ^ 63"
  shows "\<exists>m'. CString malloc m h s = Some (p, m', h') \<and> load_bytes m' p (length s + 1) = s @ [0]"
proof -
  let ?m = "(store_bytes m p s)(p + of_nat (length s) := 0)"
  have "?m = store_bytes m p (s @ [0])" by (simp add: store_bytes_append)
  moreover have "load_bytes (store_bytes m p (s @ [0])) p (length s + 1) = s @ [0]"
    using assms(3) by (intro load_store_bytes) simp_all
  ultimately show ?thesis
    using assms by (simp add: CString_def copy_to_slice_def MakeSlice_def)
qed

text \<open>C34: whatever sequence of allocations, frees of pointers of the session and successful reallocations goes through an allocator session, and for every allocator that keeps the malloc contract (in which freeing a block twice is undefined): every pointer of the session can be freed, which gives that block back, makes the session forget it and touches no other; and Flush succeeds, leaves the underlying allocator owning exactly what it owned before the session and the session empty, so that it can be used again.\<close>

theorem session_flush_restores:
  assumes "allocator malloc free realloc owned" "session_reach malloc free realloc h0 s"
  shows "(\<forall>p \<in> set (s_ptrs s). \<exists>s'. Session_Free free p s = Some s' \<and> owned (s_mem s') = owned (s_mem s) - {p} \<and>
      set (s_ptrs s') = set (s_ptrs s) - {p}) \<and>
    (\<exists>s'. Session_Flush free s = Some s' \<and> owned (s_mem s') = owned h0 \<and> s_ptrs s' = [])"
  using allocator.Flush_restores [OF assms(1)] allocator.session_inv_free [OF assms(1)]
    allocator.session_inv_reach [OF assms] by blast

theorem session_flush_restores_witness:
  "\<exists>s'. Session_Flush arena_free (snd (Session_Malloc arena_malloc 16 (NewAllocatorSession new_arena))) = Some s' \<and>
     arena_owned (s_mem s') = {} \<and> s_ptrs s' = []"
proof -
  have "session_reach arena_malloc arena_free arena_realloc new_arena
      (snd (Session_Malloc arena_malloc 16 (NewAllocatorSession new_arena)))"
    by (rule reach_step [OF reach_new step_malloc]) (rule prod.collapse [symmetric])
  from session_flush_restores [OF heap.allocator_axioms this] show ?thesis
    by (simp add: arena_owned_def new_arena_def)
qed

end
