(* ===== verification/Registry.thy ===== *)
theory Registry
  imports Prelude
begin

text \<open>
  Registries of Go objects (src/common/objects.go), through which callbacks travel to C code
  as integers.  The interface \<^verbatim>\<open>Registry\<close> is the locale \<open>registry\<close>; the table \<^verbatim>\<open>objTable\<close> and
  the array \<^verbatim>\<open>objArray\<close> interpret it.  Each method holds the mutex for its whole body, so a
  method is one step on the state.  An interface value is an optional object, nil being
  \<^term>\<open>None\<close>; identifiers are 64-bit words.
\<close>

type_synonym ObjectID = u64

section \<open>The interface\<close>

text \<open>
  \<open>live r\<close> are the identifiers handed out and not deleted; \<open>room n r\<close> says that \<open>n\<close> more
  objects can be created before the identifiers are exhausted.
\<close>

fun create_all ::
  "('o option \<Rightarrow> 'r \<Rightarrow> ObjectID \<times> 'r) \<Rightarrow> 'o list \<Rightarrow> 'r \<Rightarrow> ObjectID list \<times> 'r" where
  "create_all create [] r = ([], r)"
| "create_all create (x # xs) r =
     (let (i, r1) = create (Some x) r; (ids, r2) = create_all create xs r1 in (i # ids, r2))"

locale registry =
  fixes create :: "'o option \<Rightarrow> 'r \<Rightarrow> ObjectID \<times> 'r"
    and read :: "ObjectID \<Rightarrow> 'r \<Rightarrow> 'o option option"
    and update :: "ObjectID \<Rightarrow> 'o option \<Rightarrow> 'r \<Rightarrow> 'r option"
    and delete :: "ObjectID \<Rightarrow> 'r \<Rightarrow> 'r option"
    and live :: "'r \<Rightarrow> ObjectID set"
    and inv :: "'r \<Rightarrow> bool"
    and room :: "nat \<Rightarrow> 'r \<Rightarrow> bool"
  assumes create_law: "inv r \<Longrightarrow> room (Suc n) r \<Longrightarrow> create (Some x) r = (i, r') \<Longrightarrow>
      inv r' \<and> room n r' \<and> i \<notin> live r \<and> live r' = insert i (live r) \<and> read i r' = Some (Some x)
      \<and> (\<forall>j \<in> live r. read j r' = read j r)"
    and update_law: "inv r \<Longrightarrow> i \<in> live r \<Longrightarrow> \<exists>r'. update i (Some x) r = Some r' \<and> inv r'
      \<and> live r' = live r \<and> read i r' = Some (Some x) \<and> (\<forall>j \<in> live r - {i}. read j r' = read j r)"
    and delete_law: "inv r \<Longrightarrow> i \<in> live r \<Longrightarrow> \<exists>r'. delete i r = Some r' \<and> inv r'
      \<and> live r' = live r - {i} \<and> (\<forall>j \<in> live r - {i}. read j r' = read j r)"
    and delete_room: "delete i r = Some r' \<Longrightarrow> room n r \<Longrightarrow> room n r'"
begin

lemma create_all_law:
  assumes "inv r" "room (length xs) r" "create_all create xs r = (ids, r')"
  shows "inv r' \<and> distinct ids \<and> length ids = length xs \<and> set ids \<inter> live r = {}
    \<and> live r' = set ids \<union> live r \<and> (\<forall>k < length xs. read (ids ! k) r' = Some (Some (xs ! k)))
    \<and> (\<forall>j \<in> live r. read j r' = read j r)"
  using assms
proof (induction xs arbitrary: r ids)
  case (Cons x xs)
  obtain i r1 where c: "create (Some x) r = (i, r1)" by fastforce
  obtain ids1 where rest: "create_all create xs r1 = (ids1, r')" and ids: "ids = i # ids1"
    using Cons.prems(3) c by (auto split: prod.splits)
  have law: "inv r1" "room (length xs) r1" "i \<notin> live r" "live r1 = insert i (live r)"
      "read i r1 = Some (Some x)" "\<forall>j \<in> live r. read j r1 = read j r"
    using create_law [OF Cons.prems(1) _ c, of "length xs"] Cons.prems(2) by auto
  have ih: "inv r'" "distinct ids1" "length ids1 = length xs" "set ids1 \<inter> live r1 = {}"
      "live r' = set ids1 \<union> live r1" "\<forall>k < length xs. read (ids1 ! k) r' = Some (Some (xs ! k))"
      "\<forall>j \<in> live r1. read j r' = read j r1"
    using Cons.IH [OF law(1,2) rest] by auto
  have "\<forall>k < length (x # xs). read (ids ! k) r' = Some (Some ((x # xs) ! k))"
    using ih(6,7) law(4,5) ids by (auto simp: nth_Cons split: nat.split)
  then show ?case using ih law ids by auto
qed simp

text \<open>An object survives the creation and deletion of another one.\<close>

lemma create_delete_other:
  assumes "inv r" "room (Suc n) r" "create (Some x) r = (i, r1)" "j \<in> live r"
  shows "\<exists>r2. delete i r1 = Some r2 \<and> live r2 = live r \<and> read j r2 = read j r"
proof -
  have c: "inv r1" "i \<notin> live r" "live r1 = insert i (live r)" "\<forall>j \<in> live r. read j r1 = read j r"
    using create_law [OF assms(1-3)] by auto
  obtain r2 where d: "delete i r1 = Some r2" "live r2 = live r1 - {i}"
      "\<forall>j \<in> live r1 - {i}. read j r2 = read j r1"
    using delete_law [OF c(1), of i] c(3) by auto
  have "j \<in> live r1 - {i}" using assms(4) c(2,3) by auto
  then show ?thesis using d c(2-4) assms(4) by auto
qed

end

section \<open>The table\<close>

record 'o objTable =
  table_hash :: "ObjectID \<rightharpoonup> 'o option"
  table_id :: ObjectID

definition NewRegistryMap :: "'o objTable" where
  "NewRegistryMap = \<lparr>table_hash = Map.empty, table_id = 0\<rparr>"

definition objTable_Create :: "'o option \<Rightarrow> 'o objTable \<Rightarrow> ObjectID \<times> 'o objTable" where
  "objTable_Create obj r =
     (let id0 = table_id r in
      (id0, r\<lparr>table_hash := (table_hash r)(id0 \<mapsto> obj), table_id := id0 + 1\<rparr>))"

definition objTable_Read :: "ObjectID \<Rightarrow> 'o objTable \<Rightarrow> 'o option option" where
  "objTable_Read id0 r = Some (case table_hash r id0 of None \<Rightarrow> None | Some obj \<Rightarrow> obj)"

definition objTable_Update :: "ObjectID \<Rightarrow> 'o option \<Rightarrow> 'o objTable \<Rightarrow> 'o objTable option" where
  "objTable_Update id0 obj r = Some (r\<lparr>table_hash := (table_hash r)(id0 \<mapsto> obj)\<rparr>)"

definition objTable_Delete :: "ObjectID \<Rightarrow> 'o objTable \<Rightarrow> 'o objTable option" where
  "objTable_Delete id0 r = Some (r\<lparr>table_hash := (table_hash r)(id0 := None)\<rparr>)"

section \<open>The array\<close>

record 'o objArray =
  arr_array :: "'o option list"
  arr_cnt :: u64

definition NewRegistryArray :: "'o objArray" where
  "NewRegistryArray = \<lparr>arr_array = [], arr_cnt = 0\<rparr>"

definition objArray_Create :: "'o option \<Rightarrow> 'o objArray \<Rightarrow> ObjectID \<times> 'o objArray" where
  "objArray_Create obj r =
     (of_nat (length (arr_array r)),
      r\<lparr>arr_array := arr_array r @ [obj], arr_cnt := arr_cnt r + 1\<rparr>)"

text \<open>An index beyond the array is a panic.\<close>

definition objArray_Read :: "ObjectID \<Rightarrow> 'o objArray \<Rightarrow> 'o option option" where
  "objArray_Read id0 r =
     (if unat id0 < length (arr_array r) then Some (arr_array r ! unat id0) else None)"

definition objArray_Update :: "ObjectID \<Rightarrow> 'o option \<Rightarrow> 'o objArray \<Rightarrow> 'o objArray option" where
  "objArray_Update id0 obj r =
     (if unat id0 < length (arr_array r)
      then Some (r\<lparr>arr_array := (arr_array r)[unat id0 := obj]\<rparr>) else None)"

definition objArray_Delete :: "ObjectID \<Rightarrow> 'o objArray \<Rightarrow> 'o objArray option" where
  "objArray_Delete id0 r =
     (if unat id0 < length (arr_array r)
      then let a = (arr_array r)[unat id0 := None]; c = arr_cnt r - 1 in
        Some (r\<lparr>arr_array := (if c = 0 then [] else a), arr_cnt := c\<rparr>)
      else None)"

section \<open>Both implement the interface\<close>

definition table_live :: "'o objTable \<Rightarrow> ObjectID set" where
  "table_live r = dom (table_hash r)"

definition table_inv :: "'o objTable \<Rightarrow> bool" where
  "table_inv r \<longleftrightarrow> (\<forall>k \<in> dom (table_hash r). k < table_id r)"

definition table_room :: "nat \<Rightarrow> 'o objTable \<Rightarrow> bool" where
  "table_room n r \<longleftrightarrow> unat (table_id r) + n < 2 ^ 64"

lemma table_id_next:
  assumes "table_room (Suc n) r"
  shows "unat (table_id r + 1) = unat (table_id r) + 1"
  using assms by (simp add: table_room_def unat_add_exact)

interpretation table: registry objTable_Create objTable_Read objTable_Update objTable_Delete
  table_live table_inv table_room
proof
  fix r :: "'a objTable" and n x i r'
  assume inv: "table_inv r" and room: "table_room (Suc n) r" and c: "objTable_Create (Some x) r = (i, r')"
  have i: "i = table_id r" "table_hash r' = (table_hash r)(i \<mapsto> Some x)" "table_id r' = table_id r + 1"
    using c by (auto simp: objTable_Create_def Let_def)
  have fresh: "i \<notin> dom (table_hash r)" using inv i(1) by (auto simp: table_inv_def)
  have lt: "k < table_id r + 1" if "k \<le> table_id r" for k
    using that table_id_next [OF room] by (simp add: word_less_nat_alt word_le_nat_alt)
  have "table_inv r'" using inv i lt by (auto simp: table_inv_def less_imp_le)
  moreover have "table_room n r'" using room i(3) table_id_next [OF room] by (simp add: table_room_def)
  moreover have "\<forall>j \<in> table_live r. objTable_Read j r' = objTable_Read j r"
    using fresh i(2) by (auto simp: table_live_def objTable_Read_def)
  ultimately show "table_inv r' \<and> table_room n r' \<and> i \<notin> table_live r \<and> table_live r' = insert i (table_live r)
      \<and> objTable_Read i r' = Some (Some x) \<and> (\<forall>j \<in> table_live r. objTable_Read j r' = objTable_Read j r)"
    using fresh i(2) by (simp add: table_live_def objTable_Read_def)
qed (auto simp: objTable_Update_def objTable_Delete_def table_live_def table_inv_def objTable_Read_def table_room_def)

definition arr_live :: "'o objArray \<Rightarrow> ObjectID set" where
  "arr_live r = {i. unat i < length (arr_array r) \<and> arr_array r ! unat i \<noteq> None}"

definition arr_count :: "'o option list \<Rightarrow> nat" where
  "arr_count a = length (filter (\<lambda>x. x \<noteq> None) a)"

definition arr_inv :: "'o objArray \<Rightarrow> bool" where
  "arr_inv r \<longleftrightarrow> length (arr_array r) < 2 ^ 64 \<and> unat (arr_cnt r) = arr_count (arr_array r)"

definition arr_room :: "nat \<Rightarrow> 'o objArray \<Rightarrow> bool" where
  "arr_room n r \<longleftrightarrow> length (arr_array r) + n < 2 ^ 64"

lemma arr_count_update_None:
  "i < length a \<Longrightarrow> a ! i \<noteq> None \<Longrightarrow> arr_count (a[i := None]) = arr_count a - 1 \<and> 0 < arr_count a"
  by (induction a arbitrary: i) (auto simp: arr_count_def nth_Cons split: nat.splits)

lemma arr_count_update_Some:
  "i < length a \<Longrightarrow> a ! i \<noteq> None \<Longrightarrow> arr_count (a[i := Some x]) = arr_count a"
  by (induction a arbitrary: i) (auto simp: arr_count_def nth_Cons split: nat.splits)

lemma arr_count_le: "arr_count a \<le> length a"
  by (simp add: arr_count_def)

lemma arr_count_0: "arr_count a = 0 \<Longrightarrow> i < length a \<Longrightarrow> a ! i = None"
  by (induction a arbitrary: i) (auto simp: arr_count_def nth_Cons split: nat.splits if_splits)

interpretation arr: registry objArray_Create objArray_Read objArray_Update objArray_Delete
  arr_live arr_inv arr_room
proof
  fix r :: "'a objArray" and n x i r'
  assume inv: "arr_inv r" and room: "arr_room (Suc n) r" and c: "objArray_Create (Some x) r = (i, r')"
  have i: "i = of_nat (length (arr_array r))" "arr_array r' = arr_array r @ [Some x]"
      "arr_cnt r' = arr_cnt r + 1"
    using c by (auto simp: objArray_Create_def)
  have ui: "unat i = length (arr_array r)" using room i(1) by (simp add: arr_room_def unat_of_nat_small)
  have "unat (arr_cnt r + 1) = unat (arr_cnt r) + 1"
    using inv room arr_count_le [of "arr_array r"] by (simp add: arr_inv_def arr_room_def unat_add_exact)
  then have "arr_inv r'" using inv room i by (simp add: arr_inv_def arr_room_def arr_count_def)
  moreover have "arr_live r' = insert i (arr_live r)"
    using i(2) ui by (auto simp: arr_live_def nth_append less_Suc_eq word_unat_eq_iff)
  moreover have "\<forall>j \<in> arr_live r. objArray_Read j r' = objArray_Read j r"
    using i(2) by (auto simp: arr_live_def objArray_Read_def nth_append)
  ultimately show "arr_inv r' \<and> arr_room n r' \<and> i \<notin> arr_live r \<and> arr_live r' = insert i (arr_live r)
      \<and> objArray_Read i r' = Some (Some x) \<and> (\<forall>j \<in> arr_live r. objArray_Read j r' = objArray_Read j r)"
    using room i(2) ui by (simp add: arr_room_def arr_live_def objArray_Read_def)
next
  fix r :: "'a objArray" and i x
  assume "arr_inv r" "i \<in> arr_live r"
  then show "\<exists>r'. objArray_Update i (Some x) r = Some r' \<and> arr_inv r' \<and> arr_live r' = arr_live r
      \<and> objArray_Read i r' = Some (Some x) \<and> (\<forall>j \<in> arr_live r - {i}. objArray_Read j r' = objArray_Read j r)"
    by (auto simp: objArray_Update_def arr_inv_def arr_live_def objArray_Read_def arr_count_update_Some
        nth_list_update word_unat_eq_iff)
next
  fix r :: "'a objArray" and i
  assume inv: "arr_inv r" and i: "i \<in> arr_live r"
  let ?a = "(arr_array r)[unat i := None]"
  have cnt: "arr_count ?a = arr_count (arr_array r) - 1" "0 < arr_count (arr_array r)"
    using arr_count_update_None [of "unat i" "arr_array r"] i by (auto simp: arr_live_def)
  have c: "unat (arr_cnt r - 1) = arr_count ?a"
    using inv cnt by (simp add: arr_inv_def unat_sub_exact word_le_nat_alt)
  have lv: "j \<in> arr_live r - {i} \<longleftrightarrow> unat j < length ?a \<and> ?a ! unat j \<noteq> None" for j
    using i by (auto simp: arr_live_def nth_list_update word_unat_eq_iff)
  show "\<exists>r'. objArray_Delete i r = Some r' \<and> arr_inv r' \<and> arr_live r' = arr_live r - {i}
      \<and> (\<forall>j \<in> arr_live r - {i}. objArray_Read j r' = objArray_Read j r)"
  proof (cases "arr_cnt r - 1 = 0")
    case True
    then have "arr_count ?a = 0" using c by simp
    then have none: "?a ! k = None" if "k < length ?a" for k using that arr_count_0 by blast
    then have e: "arr_live r - {i} = {}" using lv by blast
    have "objArray_Delete i r = Some (r\<lparr>arr_array := [], arr_cnt := 0\<rparr>)"
      using True i by (simp add: objArray_Delete_def arr_live_def Let_def)
    then show ?thesis unfolding e by (simp add: arr_live_def arr_inv_def arr_count_def)
  next
    case False
    then show ?thesis
      using i inv c lv by (auto simp: objArray_Delete_def arr_live_def arr_inv_def Let_def
          objArray_Read_def nth_list_update word_unat_eq_iff)
  qed
qed (auto simp: objArray_Delete_def arr_room_def Let_def split: if_splits)

text \<open>C33: objects created one after another in the array registry get distinct fresh ids under which each is read back, no object that was there is disturbed, and the reference count stays the number of live objects.\<close>

theorem objArray_keeps_objects:
  assumes "arr_inv r" "arr_room (length xs) r" "create_all objArray_Create xs r = (ids, r')"
  shows "arr_inv r' \<and> distinct ids \<and> length ids = length xs \<and> set ids \<inter> arr_live r = {}
    \<and> arr_live r' = set ids \<union> arr_live r \<and> (\<forall>k < length xs. objArray_Read (ids ! k) r' = Some (Some (xs ! k)))
    \<and> (\<forall>j \<in> arr_live r. objArray_Read j r' = objArray_Read j r)"
  using assms by (rule arr.create_all_law)

theorem objArray_keeps_objects_witness:
  "\<exists>ids r'. create_all objArray_Create [10, 20 :: nat] NewRegistryArray = (ids, r') \<and>
     objArray_Read (ids ! 1) r' = Some (Some 20)"
proof -
  obtain ids r' where c: "create_all objArray_Create [10, 20 :: nat] NewRegistryArray = (ids, r')" by fastforce
  show ?thesis using objArray_keeps_objects [OF _ _ c] c
    by (auto simp: arr_inv_def arr_room_def NewRegistryArray_def arr_count_def)
qed

end
