(* ===== verification/Lpm.thy ===== *)
theory Lpm
  imports Errors Memory
begin

text \<open>
  Package lpm (src/lpm/common.go, src/lpm/lpm.go, src/lpm/lpm6.go): conversion of
  \<^verbatim>\<open>net.IP\<close> and \<^verbatim>\<open>net.IPNet\<close> to the arguments of DPDK's longest prefix match
  tables, and the operations on the tables.

  The parts of Go's package net that the code uses are modelled first.  Addresses and masks
  are byte slices of any length; the nil slice is \<^term>\<open>[]\<close>.  The tables themselves are C:
  their functions are the fields of \<open>rte_lpm\<close> and \<open>rte_lpm6\<close>.
\<close>

section \<open>Addresses and networks of package net\<close>

type_synonym IP = "byte list"

record IPNet =
  net_IP :: IP
  net_Mask :: "byte list"

definition v4InV6Prefix :: "byte list" where
  "v4InV6Prefix = replicate 10 0 @ [0xff, 0xff]"

definition To4 :: "IP \<Rightarrow> IP" where
  "To4 ip =
     (if length ip = 4 then ip
      else if length ip = 16 \<and> take 12 ip = v4InV6Prefix then drop 12 ip else [])"

definition To16 :: "IP \<Rightarrow> IP" where
  "To16 ip = (if length ip = 4 then v4InV6Prefix @ ip else if length ip = 16 then ip else [])"

definition IP_Mask :: "IP \<Rightarrow> byte list \<Rightarrow> IP" where
  "IP_Mask ip msk =
     (let msk = (if length msk = 16 \<and> length ip = 4 \<and> take 12 msk = replicate 12 0xff then drop 12 msk else msk);
          ip = (if length msk = 4 \<and> length ip = 16 \<and> take 12 ip = v4InV6Prefix then drop 12 ip else ip)
      in if length ip \<noteq> length msk then [] else map2 (AND) ip msk)"

text \<open>The inner loop of \<^verbatim>\<open>simpleMaskLength\<close>: leading ones of a byte, and what is left of it.\<close>

fun leading_ones :: "nat \<Rightarrow> byte \<Rightarrow> nat \<times> byte" where
  "leading_ones 0 v = (0, v)"
| "leading_ones (Suc fuel) v =
     (if v AND 0x80 \<noteq> 0 then let (n, w) = leading_ones fuel (push_bit 1 v) in (Suc n, w) else (0, v))"

fun simpleMaskLength :: "byte list \<Rightarrow> nat option" where
  "simpleMaskLength [] = Some 0"
| "simpleMaskLength (v # msk) =
     (if v = 0xff then map_option ((+) 8) (simpleMaskLength msk)
      else let (n, w) = leading_ones 8 v in
        if w \<noteq> 0 \<or> (\<exists>b \<in> set msk. b \<noteq> 0) then None else Some n)"

definition Mask_Size :: "byte list \<Rightarrow> nat \<times> nat" where
  "Mask_Size msk = (case simpleMaskLength msk of None \<Rightarrow> (0, 0) | Some n \<Rightarrow> (n, 8 * length msk))"

text \<open>
  \<^verbatim>\<open>IPNet.Contains\<close>, what Go itself takes for membership; the code does not call it.  It is
  the specification of the conversions.
\<close>

definition networkNumberAndMask :: "IPNet \<Rightarrow> IP \<times> byte list" where
  "networkNumberAndMask n =
     (let ip = (if To4 (net_IP n) \<noteq> [] then To4 (net_IP n) else net_IP n); m = net_Mask n in
      if length ip \<noteq> 4 \<and> length ip \<noteq> 16 then ([], [])
      else if length m = 4 then (if length ip \<noteq> 4 then ([], []) else (ip, m))
      else if length m = 16 then (ip, if length ip = 4 then drop 12 m else m)
      else ([], []))"

definition IPNet_Contains :: "IPNet \<Rightarrow> IP \<Rightarrow> bool" where
  "IPNet_Contains n ip =
     (let (nn, m) = networkNumberAndMask n; ip = (if To4 ip \<noteq> [] then To4 ip else ip) in
      length ip = length nn \<and> map2 (AND) nn m = map2 (AND) ip m)"

section \<open>Conversions (src/lpm/common.go)\<close>

definition BigEndian_Uint32 :: "byte list \<Rightarrow> u32" where
  "BigEndian_Uint32 b =
     ucast (b ! 3) OR push_bit 8 (ucast (b ! 2)) OR push_bit 16 (ucast (b ! 1)) OR push_bit 24 (ucast (b ! 0))"

definition cvtIPv4 :: "IP \<Rightarrow> u32 option" where
  "cvtIPv4 addr = (if To4 addr = [] then None else Some (BigEndian_Uint32 (To4 addr)))"

definition cvtIPv4Net :: "IPNet \<Rightarrow> (u32 \<times> u8) option" where
  "cvtIPv4Net ipp = do {
     let addr = IP_Mask (net_IP ipp) (net_Mask ipp);
     let (ones, _) = Mask_Size (net_Mask ipp);
     ip \<leftarrow> cvtIPv4 addr;
     Some (ip, of_nat ones) }"

definition cvtIPv6Net :: "IPNet \<Rightarrow> (byte list \<times> u8) option" where
  "cvtIPv6Net ipp =
     (let addr = IP_Mask (net_IP ipp) (net_Mask ipp);
          (ones, _) = Mask_Size (net_Mask ipp) in
      if length addr \<le> 4 then None
      else Some (go_copy (replicate 16 0) (To16 addr), of_nat ones))"

section \<open>Tables (src/lpm/lpm.go, src/lpm/lpm6.go)\<close>

text \<open>
  The functions of both libraries on a table \<open>'l\<close>: \<open>'k\<close> is the type of addresses, a 32-bit
  number for \<^verbatim>\<open>rte_lpm\<close> and 16 bytes for \<^verbatim>\<open>rte_lpm6\<close>.  \<open>lpm_lookup\<close> and
  \<open>lpm_present\<close> get the content of the variable the result is written to.
\<close>

record ('k, 'l) rte_lpm =
  lpm_add :: "'k \<Rightarrow> u8 \<Rightarrow> u32 \<Rightarrow> 'l \<Rightarrow> int \<times> 'l"
  lpm_delete :: "'k \<Rightarrow> u8 \<Rightarrow> 'l \<Rightarrow> int \<times> 'l"
  lpm_delete_all :: "'l \<Rightarrow> 'l"
  lpm_lookup :: "'k \<Rightarrow> u32 \<Rightarrow> 'l \<Rightarrow> int \<times> u32"
  lpm_present :: "'k \<Rightarrow> u8 \<Rightarrow> u32 \<Rightarrow> 'l \<Rightarrow> int \<times> u32"

definition LPM_Add :: "rte_errnos \<Rightarrow> (u32, 'l) rte_lpm \<Rightarrow> IPNet \<Rightarrow> u32 \<Rightarrow> 'l \<Rightarrow> (error \<times> 'l) option" where
  "LPM_Add c C ipnet nextHop r = do {
     (ip, prefix) \<leftarrow> cvtIPv4Net ipnet;
     let (rc, r') = lpm_add C ip prefix nextHop r;
     Some (IntToErr c rc, r') }"

definition LPM_Delete :: "rte_errnos \<Rightarrow> (u32, 'l) rte_lpm \<Rightarrow> IPNet \<Rightarrow> 'l \<Rightarrow> (error \<times> 'l) option" where
  "LPM_Delete c C ipnet r = do {
     (ip, prefix) \<leftarrow> cvtIPv4Net ipnet;
     let (rc, r') = lpm_delete C ip prefix r;
     Some (IntToErr c rc, r') }"

definition LPM_Lookup :: "rte_errnos \<Rightarrow> (u32, 'l) rte_lpm \<Rightarrow> IP \<Rightarrow> 'l \<Rightarrow> (u32 \<times> error) option" where
  "LPM_Lookup c C ip r = do {
     b \<leftarrow> cvtIPv4 ip;
     let (rc, res) = lpm_lookup C b 0 r;
     Some (res, IntToErr c rc) }"

definition LPM_DeleteAll :: "(u32, 'l) rte_lpm \<Rightarrow> 'l \<Rightarrow> 'l" where
  "LPM_DeleteAll C r = lpm_delete_all C r"

definition LPM_IsRulePresent ::
    "rte_errnos \<Rightarrow> (u32, 'l) rte_lpm \<Rightarrow> IPNet \<Rightarrow> u32 \<Rightarrow> 'l \<Rightarrow> ((bool \<times> error) \<times> u32) option" where
  "LPM_IsRulePresent c C ipnet nextHop r = do {
     (ip, prefix) \<leftarrow> cvtIPv4Net ipnet;
     let (rc, nextHop) = lpm_present C ip prefix nextHop r;
     let (n, e) = IntOrErr c rc;
     Some ((n \<noteq> 0, e), nextHop) }"

definition LPM6_Add :: "rte_errnos \<Rightarrow> (byte list, 'l) rte_lpm \<Rightarrow> IPNet \<Rightarrow> u32 \<Rightarrow> 'l \<Rightarrow> (error \<times> 'l) option" where
  "LPM6_Add c C ipnet nextHop r = do {
     (b, prefix) \<leftarrow> cvtIPv6Net ipnet;
     let (rc, r') = lpm_add C b prefix nextHop r;
     Some (IntToErr c rc, r') }"

definition LPM6_Delete :: "rte_errnos \<Rightarrow> (byte list, 'l) rte_lpm \<Rightarrow> IPNet \<Rightarrow> 'l \<Rightarrow> (error \<times> 'l) option" where
  "LPM6_Delete c C ipnet r = do {
     (b, prefix) \<leftarrow> cvtIPv6Net ipnet;
     let (rc, r') = lpm_delete C b prefix r;
     Some (IntToErr c rc, r') }"

text \<open>
  \<^verbatim>\<open>LPM6.Lookup\<close> passes the address of the first byte: an empty slice panics, a slice of
  another length than 16 is handed to the library as it is.
\<close>

definition LPM6_Lookup :: "rte_errnos \<Rightarrow> (byte list, 'l) rte_lpm \<Rightarrow> IP \<Rightarrow> 'l \<Rightarrow> (u32 \<times> error) option" where
  "LPM6_Lookup c C ip r =
     (if ip = [] then None
      else let (rc, res) = lpm_lookup C ip 0 r in Some (res, IntToErr c rc))"

definition LPM6_DeleteAll :: "(byte list, 'l) rte_lpm \<Rightarrow> 'l \<Rightarrow> 'l" where
  "LPM6_DeleteAll C r = lpm_delete_all C r"

definition LPM6_IsRulePresent ::
    "rte_errnos \<Rightarrow> (byte list, 'l) rte_lpm \<Rightarrow> IPNet \<Rightarrow> u32 \<Rightarrow> 'l \<Rightarrow> ((bool \<times> error) \<times> u32) option" where
  "LPM6_IsRulePresent c C ipnet nextHop r = do {
     (b, prefix) \<leftarrow> cvtIPv6Net ipnet;
     let (rc, nextHop) = lpm_present C b prefix nextHop r;
     let (n, e) = IntOrErr c rc;
     Some ((n \<noteq> 0, e), nextHop) }"

text \<open>Creation and search of tables by name, on a world \<open>'w\<close>; a nil result comes with \<^verbatim>\<open>rte_errno\<close>.\<close>

record Config =
  MaxRules :: u32
  NumberTbl8s :: u32
  cfg_Flags :: int

record lpm_config =
  max_rules :: u32
  number_tbl8s :: u32
  lpm_flags :: "32 word"

record 'w lpm_api =
  rte_lpm_create :: "string \<Rightarrow> u32 \<Rightarrow> lpm_config \<Rightarrow> 'w \<Rightarrow> (int + addr) \<times> 'w"
  rte_lpm6_create :: "string \<Rightarrow> u32 \<Rightarrow> lpm_config \<Rightarrow> 'w \<Rightarrow> (int + addr) \<times> 'w"
  rte_lpm_find_existing :: "string \<Rightarrow> 'w \<Rightarrow> int + addr"
  rte_lpm6_find_existing :: "string \<Rightarrow> 'w \<Rightarrow> int + addr"

definition cvt_config :: "Config \<Rightarrow> lpm_config" where
  "cvt_config cfg = \<lparr>max_rules = MaxRules cfg, number_tbl8s = NumberTbl8s cfg, lpm_flags = word_of_int (cfg_Flags cfg)\<rparr>"

definition handle_or_errno :: "rte_errnos \<Rightarrow> (int + addr) \<times> 'w \<Rightarrow> (addr \<times> error) \<times> 'w" where
  "handle_or_errno c res = (case res of (Inr r, w) \<Rightarrow> ((r, None), w) | (Inl e, w) \<Rightarrow> ((nil, RteErrno c e), w))"

definition LPM_Create ::
    "rte_errnos \<Rightarrow> 'w lpm_api \<Rightarrow> string \<Rightarrow> int \<Rightarrow> Config \<Rightarrow> 'w \<Rightarrow> (addr \<times> error) \<times> 'w" where
  "LPM_Create c A name socket cfg w =
     handle_or_errno c (rte_lpm_create A name (word_of_int socket) (cvt_config cfg) w)"

definition LPM_Create6 ::
    "rte_errnos \<Rightarrow> 'w lpm_api \<Rightarrow> string \<Rightarrow> int \<Rightarrow> Config \<Rightarrow> 'w \<Rightarrow> (addr \<times> error) \<times> 'w" where
  "LPM_Create6 c A name socket cfg w =
     handle_or_errno c (rte_lpm6_create A name (word_of_int socket) (cvt_config cfg) w)"

datatype lpm_ptr = PtrLPM | PtrLPM6 | PtrOther

definition FindExisting ::
    "rte_errnos \<Rightarrow> 'w lpm_api \<Rightarrow> string \<Rightarrow> lpm_ptr \<Rightarrow> 'w \<Rightarrow> (addr \<times> error) option" where
  "FindExisting c A name ptr w = do {
     found \<leftarrow> (case ptr of
        PtrLPM \<Rightarrow> Some (rte_lpm_find_existing A name w)
      | PtrLPM6 \<Rightarrow> Some (rte_lpm6_find_existing A name w)
      | PtrOther \<Rightarrow> None);
     Some (fst (handle_or_errno c (found, w))) }"

section \<open>Bits of addresses and masks\<close>

definition word_bits :: "'a::len word \<Rightarrow> bool list" where
  "word_bits w = map (bit w) (rev [0..<LENGTH('a)])"

definition bits_of :: "byte list \<Rightarrow> bool list" where
  "bits_of bs = concat (map word_bits bs)"

lemma length_word_bits [simp]: "length (word_bits (w :: 'a::len word)) = LENGTH('a)"
  by (simp add: word_bits_def)

lemma nth_word_bits: "i < LENGTH('a) \<Longrightarrow> word_bits (w :: 'a::len word) ! i = bit w (LENGTH('a) - 1 - i)"
  by (simp add: word_bits_def rev_nth)

lemma word_bits_inject [simp]: "word_bits v = word_bits w \<longleftrightarrow> v = w"
  by (auto simp: word_bits_def intro: bit_word_eqI)

lemma word_bits_and: "word_bits (v AND w) = map2 (\<and>) (word_bits v) (word_bits w)"
  by (rule nth_equalityI) (simp_all add: nth_word_bits bit_and_iff)

lemma length_bits_of [simp]: "length (bits_of bs) = 8 * length bs"
  by (induction bs) (simp_all add: bits_of_def)

lemma bits_of_simps [simp]: "bits_of [] = []" "bits_of (b # bs) = word_bits b @ bits_of bs"
  by (simp_all add: bits_of_def)

lemma bits_of_and:
  "length xs = length ys \<Longrightarrow> bits_of (map2 (AND) xs ys) = map2 (\<and>) (bits_of xs) (bits_of ys)"
  by (induction xs ys rule: list_induct2) (simp_all add: word_bits_and)

lemma bits_of_inject: "length xs = length ys \<Longrightarrow> bits_of xs = bits_of ys \<longleftrightarrow> xs = ys"
  by (induction xs ys rule: list_induct2) simp_all

lemma bits_of_zero: "\<forall>b \<in> set bs. b = 0 \<Longrightarrow> bits_of bs = replicate (8 * length bs) False"
proof (induction bs)
  case (Cons b bs)
  have "word_bits (0 :: byte) = replicate 8 False" by code_simp
  then show ?case using Cons by (simp add: replicate_add [symmetric])
qed simp

lemma high_bit: "(v :: byte) AND 0x80 = 0 \<longleftrightarrow> \<not> bit v 7"
  using and_exp_eq_0_iff_not_bit [of v 7] by simp

lemma leading_ones_spec:
  "leading_ones f v = (n, w) \<Longrightarrow> f \<le> 8 \<Longrightarrow> n \<le> f \<and> w = push_bit n v \<and> (\<forall>i < n. bit v (7 - i))"
proof (induction f arbitrary: v n w)
  case (Suc f)
  show ?case
  proof (cases "v AND 0x80 = 0")
    case False
    then have top: "bit v 7" by (simp add: high_bit)
    obtain n' where n': "leading_ones f (push_bit 1 v) = (n', w)" "n = Suc n'"
      using Suc.prems(1) False by (auto split: prod.splits)
    then have ih: "n' \<le> f" "w = push_bit n' (push_bit 1 v)" "\<forall>i < n'. bit (push_bit 1 v) (7 - i)"
      using Suc.IH [OF n'(1)] Suc.prems(2) by auto
    have shift: "bit (push_bit 1 v) (7 - j) \<Longrightarrow> bit v (7 - Suc j)" for j
      by (simp only: bit_push_bit_iff) simp
    have "bit v (7 - i)" if "i < n" for i
      using ih(3) shift top n'(2) that by (cases i) (simp_all del: push_bit_Suc push_bit_of_1)
    then show ?thesis using ih n'(2) by (simp add: ac_simps)
  qed (use Suc.prems in auto)
qed simp

lemma leading_ones_mask:
  assumes "leading_ones 8 v = (n, 0)"
  shows "n \<le> 8" "word_bits v = replicate n True @ replicate (8 - n) False"
proof -
  have l: "n \<le> 8" "push_bit n v = 0" "\<forall>i < n. bit v (7 - i)"
    using leading_ones_spec [OF assms] by auto
  then have z: "\<not> bit v i" if "i < 8 - n" for i
    using that bit_push_bit_iff [of n v "i + n"] by simp
  show "n \<le> 8" by (rule l(1))
  show "word_bits v = replicate n True @ replicate (8 - n) False"
    using l(1,3) z by (intro nth_equalityI) (auto simp: nth_word_bits nth_append)
qed

lemma simpleMaskLength_bits:
  "simpleMaskLength m = Some k \<Longrightarrow>
     k \<le> 8 * length m \<and> bits_of m = replicate k True @ replicate (8 * length m - k) False"
proof (induction m arbitrary: k)
  case (Cons v m)
  show ?case
  proof (cases "v = 0xff")
    case True
    then obtain j where j: "simpleMaskLength m = Some j" "k = 8 + j" using Cons.prems by auto
    moreover have "word_bits (0xff :: byte) = replicate 8 True" by code_simp
    ultimately show ?thesis using Cons.IH [OF j(1)] True by (simp add: replicate_add)
  next
    case False
    then have lo: "leading_ones 8 v = (k, 0)" and z: "\<forall>b \<in> set m. b = 0"
      using Cons.prems by (auto split: prod.splits if_splits)
    have "8 + 8 * length m - k = (8 - k) + 8 * length m" using leading_ones_mask(1) [OF lo] by simp
    then have "replicate (8 - k) False @ replicate (8 * length m) False = replicate (8 + 8 * length m - k) False"
      by (metis replicate_add)
    then show ?thesis using leading_ones_mask [OF lo] bits_of_zero [OF z] by simp
  qed
qed simp

lemma mask_prefix:
  "k \<le> length xs \<Longrightarrow>
    map2 (\<and>) xs (replicate k True @ replicate (length xs - k) False) = take k xs @ replicate (length xs - k) False"
  by (rule nth_equalityI) (auto simp: nth_append)

text \<open>Masking with a mask of \<open>k\<close> ones compares, and keeps, the first \<open>k\<close> bits.\<close>

lemma masked_bits:
  assumes "simpleMaskLength m = Some k" "length xs = length m"
  shows "bits_of (map2 (AND) xs m) = take k (bits_of xs) @ replicate (8 * length m - k) False"
  using simpleMaskLength_bits [OF assms(1)] assms(2) mask_prefix [of k "bits_of xs"]
  by (simp add: bits_of_and)

lemma masked_eq_iff:
  assumes "simpleMaskLength m = Some k" "length xs = length m" "length ys = length m"
  shows "map2 (AND) xs m = map2 (AND) ys m \<longleftrightarrow> take k (bits_of xs) = take k (bits_of ys)"
  using masked_bits [OF assms(1,2)] masked_bits [OF assms(1,3)] assms(2,3)
    bits_of_inject [of "map2 (AND) xs m" "map2 (AND) ys m"] by simp

lemma BigEndian_Uint32_bits: "length b = 4 \<Longrightarrow> word_bits (BigEndian_Uint32 b) = bits_of b"
proof -
  assume "length b = 4"
  then obtain b0 b1 b2 b3 where b: "b = [b0, b1, b2, b3]"
    by (auto simp: numeral_eq_Suc length_Suc_conv)
  have up: "rev [0..<32] = map ((+) 24) (rev [0..<8]) @ map ((+) 16) (rev [0..<8]) @ map ((+) 8) (rev [0..<8]) @ rev [0..<8]"
    by (simp add: upt_rec)
  have hi: "\<not> bit (v :: byte) (j + i)" if "8 \<le> j" for v i j
    using that bit_imp_le_length [of v "j + i"] by auto
  show ?thesis
    unfolding b word_bits_def bits_of_simps len_of_numeral_defs
    by (simp add: up word_bits_def BigEndian_Uint32_def bit_or_iff bit_push_bit_iff bit_ucast_iff hi)
qed

section \<open>What the tables promise\<close>

text \<open>
  The documented behaviour of \<^verbatim>\<open>rte_lpm\<close> and \<^verbatim>\<open>rte_lpm6\<close>: a table holds rules, next
  hops for bit prefixes; \<open>kb\<close> are the bits of a key.  Adding replaces the rule for the same
  prefix, a call that returns an error changes nothing, and a lookup finds the longest rule
  that is a prefix of the key.  The tables keep next hops of \<open>hb\<close> bits, 24 in \<^verbatim>\<open>rte_lpm\<close> and 21 in
  \<^verbatim>\<open>rte_lpm6\<close>: what a lookup returns for a rule with a larger next hop is left open.
\<close>

definition longest :: "(bool list \<Rightarrow> u32 option) \<Rightarrow> bool list \<Rightarrow> u32 option" where
  "longest rs bs = (case filter (\<lambda>d. rs (take d bs) \<noteq> None) (rev [0..<Suc (length bs)]) of
     [] \<Rightarrow> None | d # _ \<Rightarrow> rs (take d bs))"

definition lpm_contract ::
    "nat \<Rightarrow> ('k \<Rightarrow> bool list) \<Rightarrow> ('k, 'l) rte_lpm \<Rightarrow> ('l \<Rightarrow> bool list \<Rightarrow> u32 option) \<Rightarrow> bool" where
  "lpm_contract hb kb C rules \<longleftrightarrow>
     (\<forall>k d h t rc t'. lpm_add C k d h t = (rc, t') \<longrightarrow>
        rules t' = (if rc = 0 then (rules t)(take (unat d) (kb k) \<mapsto> h) else rules t)) \<and>
     (\<forall>k d t rc t'. lpm_delete C k d t = (rc, t') \<longrightarrow>
        rules t' = (if rc = 0 then (rules t)(take (unat d) (kb k) := None) else rules t)) \<and>
     (\<forall>t. rules (lpm_delete_all C t) = Map.empty) \<and>
     (\<forall>k h0 t. case longest (rules t) (kb k) of
        Some h \<Rightarrow> (unat h < 2 ^ hb \<longrightarrow> lpm_lookup C k h0 t = (0, h)) | None \<Rightarrow> fst (lpm_lookup C k h0 t) \<noteq> 0)"

text \<open>The contract can be kept: a table that is its set of rules and answers with the low \<open>hb\<close> bits of a next hop.\<close>

definition rule_table :: "nat \<Rightarrow> ('k \<Rightarrow> bool list) \<Rightarrow> ('k, bool list \<Rightarrow> u32 option) rte_lpm" where
  "rule_table hb kb = \<lparr>
     lpm_add = (\<lambda>k d h t. if unat d < 1 \<or> unat d > length (kb k) then (-22, t) else (0, t(take (unat d) (kb k) \<mapsto> h))),
     lpm_delete = (\<lambda>k d t. if t (take (unat d) (kb k)) = None then (-22, t) else (0, t(take (unat d) (kb k) := None))),
     lpm_delete_all = (\<lambda>_ _. None),
     lpm_lookup = (\<lambda>k h0 t. case longest t (kb k) of Some h \<Rightarrow> (0, take_bit hb h) | None \<Rightarrow> (-2, h0)),
     lpm_present = (\<lambda>k d h0 t. case t (take (unat d) (kb k)) of Some h \<Rightarrow> (1, h) | None \<Rightarrow> (0, h0))\<rparr>"

lemma take_bit_small: "unat (h :: u32) < 2 ^ n \<Longrightarrow> take_bit n h = h"
  by (simp add: word_unat_eq_iff unsigned_take_bit_eq take_bit_nat_eq_self)

lemma rule_table_contract: "lpm_contract hb kb (rule_table hb kb) (\<lambda>t. t)"
  by (auto simp: lpm_contract_def rule_table_def take_bit_small split: option.split)

lemma longest_cases:
  "case longest rs bs of
     None \<Rightarrow> \<forall>d \<le> length bs. rs (take d bs) = None
   | Some h \<Rightarrow> \<exists>d \<le> length bs. rs (take d bs) = Some h \<and> (\<forall>e \<le> length bs. rs (take e bs) \<noteq> None \<longrightarrow> e \<le> d)"
proof (cases "filter (\<lambda>d. rs (take d bs) \<noteq> None) (rev [0..<Suc (length bs)])")
  case Nil
  then show ?thesis by (auto simp: longest_def filter_empty_conv simp del: upt_Suc)
next
  case (Cons d ds)
  let ?P = "\<lambda>d. rs (take d bs) \<noteq> None" and ?xs = "rev [0..<Suc (length bs)]"
  have "sorted_wrt (\<ge>) (filter ?P ?xs)"
    by (intro sorted_wrt_filter) (simp add: sorted_wrt_rev del: upt_Suc)
  then have max: "e \<le> d" if "e \<in> set (filter ?P ?xs)" for e
    using that unfolding Cons by auto
  moreover have "d \<in> set (filter ?P ?xs)" unfolding Cons by simp
  ultimately have "d \<le> length bs \<and> (\<exists>h. rs (take d bs) = Some h \<and> longest rs bs = Some h) \<and>
      (\<forall>e \<le> length bs. rs (take e bs) \<noteq> None \<longrightarrow> e \<le> d)"
    using Cons unfolding longest_def by (auto simp: less_Suc_eq_le simp del: upt_Suc)
  then show ?thesis by auto
qed

section \<open>Routes\<close>

text \<open>
  The specification in terms of Go's networks: a list of routes, changed by the calls that
  succeed.  Two networks are the same when they have the same prefix length and one contains
  the address of the other.
\<close>

datatype route_op = AddRoute IPNet u32 | DelRoute IPNet

fun op_net :: "route_op \<Rightarrow> IPNet" where
  "op_net (AddRoute n _) = n" | "op_net (DelRoute n) = n"

fun hop_fits :: "nat \<Rightarrow> route_op \<Rightarrow> bool" where
  "hop_fits hb (AddRoute _ h) \<longleftrightarrow> unat h < 2 ^ hb" | "hop_fits hb (DelRoute _) \<longleftrightarrow> True"

definition prefix_len :: "IPNet \<Rightarrow> nat" where
  "prefix_len n = fst (Mask_Size (net_Mask n))"

definition same_net :: "IPNet \<Rightarrow> IPNet \<Rightarrow> bool" where
  "same_net n m \<longleftrightarrow> prefix_len n = prefix_len m \<and> IPNet_Contains n (net_IP m)"

fun live :: "(IPNet \<times> u32) list \<Rightarrow> (route_op \<times> error) list \<Rightarrow> (IPNet \<times> u32) list" where
  "live rs [] = rs"
| "live rs ((_, Some _) # ops) = live rs ops"
| "live rs ((AddRoute n h, None) # ops) = live ((n, h) # filter (\<lambda>(m, _). \<not> same_net n m) rs) ops"
| "live rs ((DelRoute n, None) # ops) = live (filter (\<lambda>(m, _). \<not> same_net n m) rs) ops"

lemma live_Cons: "live rs (x # ops) = live (live rs [x]) ops"
  by (cases "(rs, x # ops)" rule: live.cases) simp_all

text \<open>A sequence of calls, with the error each returns; \<open>add\<close> and \<open>del\<close> are the methods of a table.\<close>

fun route_run ::
    "(IPNet \<Rightarrow> u32 \<Rightarrow> 'l \<Rightarrow> (error \<times> 'l) option) \<Rightarrow> (IPNet \<Rightarrow> 'l \<Rightarrow> (error \<times> 'l) option)
     \<Rightarrow> route_op list \<Rightarrow> 'l \<Rightarrow> (error list \<times> 'l) option" where
  "route_run add del [] t = Some ([], t)"
| "route_run add del (r # ops) t = do {
     (e, t1) \<leftarrow> (case r of AddRoute n h \<Rightarrow> add n h t | DelRoute n \<Rightarrow> del n t);
     (es, t2) \<leftarrow> route_run add del ops t1;
     Some (e # es, t2) }"

text \<open>The answer a lookup owes to the routes \<open>rs\<close>.\<close>

definition routed :: "(IPNet \<times> u32) list \<Rightarrow> IP \<Rightarrow> u32 \<times> error \<Rightarrow> bool" where
  "routed rs ip res \<longleftrightarrow>
     (if \<exists>(n, h) \<in> set rs. IPNet_Contains n ip
      then snd res = None \<and> (\<exists>n. (n, fst res) \<in> set rs \<and> IPNet_Contains n ip \<and>
        (\<forall>(m, _) \<in> set rs. IPNet_Contains m ip \<longrightarrow> prefix_len m \<le> prefix_len n))
      else snd res \<noteq> None)"

text \<open>
  What both kinds of tables need of their conversions: on proper networks and addresses they
  return, and membership is agreement on the prefix.
\<close>

locale net_conversion =
  fixes cvt_net :: "IPNet \<Rightarrow> ('k \<times> u8) option"
    and cvt_ip :: "IP \<Rightarrow> 'k option"
    and kb :: "'k \<Rightarrow> bool list"
    and proper_net :: "IPNet \<Rightarrow> bool"
    and proper_ip :: "IP \<Rightarrow> bool"
    and bits :: nat
  assumes net_ip: "proper_net n \<Longrightarrow> proper_ip (net_IP n)"
    and ip_bits: "proper_ip ip \<Longrightarrow> \<exists>k. cvt_ip ip = Some k \<and> length (kb k) = bits"
    and net_bits: "proper_net n \<Longrightarrow> cvt_ip (net_IP n) = Some a \<Longrightarrow>
      \<exists>k d. cvt_net n = Some (k, d) \<and> unat d = prefix_len n \<and> prefix_len n \<le> bits \<and>
        take (unat d) (kb k) = take (prefix_len n) (kb a)"
    and contains: "proper_net n \<Longrightarrow> proper_ip ip \<Longrightarrow> cvt_ip ip = Some k \<Longrightarrow> cvt_ip (net_IP n) = Some a \<Longrightarrow>
      IPNet_Contains n ip \<longleftrightarrow> take (prefix_len n) (kb a) = take (prefix_len n) (kb k)"
begin

definition pfx :: "IPNet \<Rightarrow> bool list" where
  "pfx n = take (prefix_len n) (kb (the (cvt_ip (net_IP n))))"

definition good :: "nat \<Rightarrow> (IPNet \<times> u32) list \<Rightarrow> bool" where
  "good hb rs \<longleftrightarrow> (\<forall>(m, h) \<in> set rs. proper_net m \<and> unat h < 2 ^ hb)"

lemma goodD: "good hb rs \<Longrightarrow> (m, h) \<in> set rs \<Longrightarrow> proper_net m \<and> unat h < 2 ^ hb"
  by (auto simp: good_def)

definition tadd :: "rte_errnos \<Rightarrow> ('k, 'l) rte_lpm \<Rightarrow> IPNet \<Rightarrow> u32 \<Rightarrow> 'l \<Rightarrow> (error \<times> 'l) option" where
  "tadd c C n h r = do {
     (ip, prefix) \<leftarrow> cvt_net n; let (rc, r') = lpm_add C ip prefix h r; Some (IntToErr c rc, r') }"

definition tdel :: "rte_errnos \<Rightarrow> ('k, 'l) rte_lpm \<Rightarrow> IPNet \<Rightarrow> 'l \<Rightarrow> (error \<times> 'l) option" where
  "tdel c C n r = do {
     (ip, prefix) \<leftarrow> cvt_net n; let (rc, r') = lpm_delete C ip prefix r; Some (IntToErr c rc, r') }"

lemma pfx_cvt: "proper_net n \<Longrightarrow> \<exists>k d. cvt_net n = Some (k, d) \<and> take (unat d) (kb k) = pfx n"
  using ip_bits [OF net_ip] net_bits unfolding pfx_def by fastforce

lemma length_pfx: "proper_net n \<Longrightarrow> length (pfx n) = prefix_len n \<and> prefix_len n \<le> bits"
  using ip_bits [OF net_ip] net_bits unfolding pfx_def by fastforce

lemma contains_pfx:
  assumes "proper_net n" "proper_ip ip" "cvt_ip ip = Some k"
  shows "IPNet_Contains n ip \<longleftrightarrow> take (prefix_len n) (kb k) = pfx n"
  using contains [OF assms] ip_bits [OF net_ip [OF assms(1)]] unfolding pfx_def by fastforce

lemma same_net_pfx:
  assumes "proper_net n" "proper_net m"
  shows "same_net n m \<longleftrightarrow> pfx m = pfx n"
proof -
  obtain k where k: "cvt_ip (net_IP m) = Some k" using ip_bits [OF net_ip [OF assms(2)]] by blast
  show ?thesis
    using contains_pfx [OF assms(1) net_ip [OF assms(2)] k] length_pfx [OF assms(1)] length_pfx [OF assms(2)] k
    unfolding same_net_def pfx_def by (metis option.sel)
qed

abbreviation rules_of :: "(IPNet \<times> u32) list \<Rightarrow> bool list \<Rightarrow> u32 option" where
  "rules_of rs \<equiv> map_of (map (\<lambda>(n, h). (pfx n, h)) rs)"

lemma rules_filter:
  assumes "proper_net n" "good hb rs"
  shows "rules_of (filter (\<lambda>(m, _). \<not> same_net n m) rs) = (rules_of rs)(pfx n := None)"
  using assms(2) unfolding good_def by (induction rs) (auto simp: same_net_pfx [OF assms(1)] fun_eq_iff)

lemma step_rules:
  assumes "lpm_contract hb kb C rules" "proper_net (op_net r)" "hop_fits hb r" "good hb rs" "rules t = rules_of rs"
  shows "\<exists>e t1. (case r of AddRoute n h \<Rightarrow> tadd c C n h t | DelRoute n \<Rightarrow> tdel c C n t) = Some (e, t1) \<and>
    rules t1 = rules_of (live rs [(r, e)]) \<and> good hb (live rs [(r, e)])"
proof -
  obtain k d where kd: "cvt_net (op_net r) = Some (k, d)" "take (unat d) (kb k) = pfx (op_net r)"
    using pfx_cvt [OF assms(2)] by blast
  note flt = rules_filter [OF assms(2,4)]
  show ?thesis
  proof (cases r)
    case (AddRoute n h)
    obtain rc t1 where a: "lpm_add C k d h t = (rc, t1)" by fastforce
    then have "rules t1 = (if rc = 0 then (rules t)(pfx n \<mapsto> h) else rules t)"
      using assms(1) kd(2) AddRoute unfolding lpm_contract_def by fastforce
    moreover have "tadd c C n h t = Some (errno c rc, t1)" using kd(1) a AddRoute by (simp add: tadd_def IntToErr_def)
    ultimately show ?thesis
      using assms flt AddRoute by (cases "errno c rc") (auto simp: good_def)
  next
    case (DelRoute n)
    obtain rc t1 where a: "lpm_delete C k d t = (rc, t1)" by fastforce
    then have "rules t1 = (if rc = 0 then (rules t)(pfx n := None) else rules t)"
      using assms(1) kd(2) DelRoute unfolding lpm_contract_def by fastforce
    moreover have "tdel c C n t = Some (errno c rc, t1)" using kd(1) a DelRoute by (simp add: tdel_def IntToErr_def)
    ultimately show ?thesis
      using assms flt DelRoute by (cases "errno c rc") (auto simp: good_def)
  qed
qed

lemma run_rules:
  assumes "lpm_contract hb kb C rules"
  shows "\<forall>r \<in> set ops. proper_net (op_net r) \<and> hop_fits hb r \<Longrightarrow> good hb rs \<Longrightarrow> rules t = rules_of rs \<Longrightarrow>
    \<exists>es t'. route_run (tadd c C) (tdel c C) ops t = Some (es, t') \<and> length es = length ops \<and>
      rules t' = rules_of (live rs (zip ops es)) \<and> good hb (live rs (zip ops es))"
proof (induction ops arbitrary: rs t)
  case (Cons r ops)
  have n: "proper_net (op_net r)" "hop_fits hb r" and rest: "\<forall>r \<in> set ops. proper_net (op_net r) \<and> hop_fits hb r"
    using Cons.prems(1) by auto
  obtain e t1 where s: "(case r of AddRoute n h \<Rightarrow> tadd c C n h t | DelRoute n \<Rightarrow> tdel c C n t) = Some (e, t1)"
      "rules t1 = rules_of (live rs [(r, e)])" "good hb (live rs [(r, e)])"
    using step_rules [OF assms n Cons.prems(2,3)] by blast
  obtain es t' where "route_run (tadd c C) (tdel c C) ops t1 = Some (es, t')" "length es = length ops"
      "rules t' = rules_of (live (live rs [(r, e)]) (zip ops es))" "good hb (live (live rs [(r, e)]) (zip ops es))"
    using Cons.IH [OF rest s(3,2)] by blast
  then show ?case
    using s(1) by (intro exI [of _ "e # es"] exI [of _ t']) (simp add: live_Cons [of rs "(r, e)" "zip ops es"])
qed auto

text \<open>A lookup in the table answers what the routes demand.\<close>

lemma lookup_routed:
  assumes "lpm_contract hb kb C rules" "rules t = rules_of rs" "good hb rs"
    and "proper_ip ip" "cvt_ip ip = Some k" "lpm_lookup C k 0 t = (rc, res)"
  shows "routed rs ip (res, IntToErr c rc)"
proof -
  have len: "length (kb k) = bits" using ip_bits [OF assms(4)] assms(5) by auto
  have hit: "IPNet_Contains n ip \<longleftrightarrow> take (prefix_len n) (kb k) = pfx n" if "(n, h) \<in> set rs" for n h
    using contains_pfx [OF _ assms(4,5)] goodD [OF assms(3) that] by blast
  have pl: "length (pfx n) = prefix_len n \<and> prefix_len n \<le> bits" if "(n, h) \<in> set rs" for n h
    using length_pfx goodD [OF assms(3) that] by blast
  have some: "rules_of rs (take (prefix_len n) (kb k)) \<noteq> None" if "(n, h) \<in> set rs" "IPNet_Contains n ip" for n h
    using that hit [OF that(1)] by (auto simp: map_of_eq_None_iff image_iff intro!: bexI [of _ "(n, h)"])
  have lk: "case longest (rules_of rs) (kb k) of Some h \<Rightarrow> unat h < 2 ^ hb \<longrightarrow> lpm_lookup C k 0 t = (0, h) | None \<Rightarrow> fst (lpm_lookup C k 0 t) \<noteq> 0"
    using assms(1) unfolding lpm_contract_def assms(2) [symmetric] by blast
  show ?thesis
  proof (cases "longest (rules_of rs) (kb k)")
    case None
    then have "\<forall>d \<le> bits. rules_of rs (take d (kb k)) = None" using longest_cases [of "kb k" "rules_of rs"] len by simp
    then have "\<not> IPNet_Contains n ip" if "(n, h) \<in> set rs" for n h using some pl that by blast
    then show ?thesis using None lk assms(6) by (auto simp: routed_def IntToErr_def)
  next
    case (Some h)
    then obtain d where d: "d \<le> bits" "rules_of rs (take d (kb k)) = Some h"
        "\<forall>e \<le> bits. rules_of rs (take e (kb k)) \<noteq> None \<longrightarrow> e \<le> d"
      using longest_cases [of "kb k" "rules_of rs"] len by auto
    then obtain n where n: "(n, h) \<in> set rs" "pfx n = take d (kb k)" by (auto dest!: map_of_SomeD)
    then have "prefix_len n = d" using pl [OF n(1)] d(1) len by auto
    then have c: "IPNet_Contains n ip" using hit [OF n(1)] n(2) by simp
    moreover have "prefix_len m \<le> prefix_len n" if "(m, h') \<in> set rs" "IPNet_Contains m ip" for m h'
      using some [OF that] d(3) pl [OF that(1)] \<open>prefix_len n = d\<close> by blast
    moreover have "rc = 0" "res = h" using Some lk assms(6) goodD [OF assms(3) n(1)] by auto
    ultimately show ?thesis using n(1) unfolding routed_def by (auto simp: IntToErr_def)
  qed
qed

end

section \<open>The conversions of the code\<close>

text \<open>
  IPv4: the address in either form, a 4-byte mask.  (With a 16-byte mask \<^verbatim>\<open>Mask.Size\<close>
  counts from 96 on and the library refuses the prefix length.)
\<close>

definition v4_net :: "IPNet \<Rightarrow> bool" where
  "v4_net n \<longleftrightarrow> To4 (net_IP n) \<noteq> [] \<and> length (net_Mask n) = 4 \<and> simpleMaskLength (net_Mask n) \<noteq> None"

definition v4_ip :: "IP \<Rightarrow> bool" where
  "v4_ip ip \<longleftrightarrow> To4 ip \<noteq> []"

definition v6_ip :: "IP \<Rightarrow> bool" where
  "v6_ip ip \<longleftrightarrow> length ip = 16 \<and> To4 ip = []"

definition v6_net :: "IPNet \<Rightarrow> bool" where
  "v6_net n \<longleftrightarrow> v6_ip (net_IP n) \<and> length (net_Mask n) = 16 \<and> simpleMaskLength (net_Mask n) \<noteq> None"

lemma To4_length: "To4 ip \<noteq> [] \<Longrightarrow> length (To4 ip) = 4"
  by (simp add: To4_def split: if_splits)

lemma To4_4: "length ip = 4 \<Longrightarrow> To4 ip = ip"
  by (simp add: To4_def)

lemma IP_Mask_v4:
  assumes "To4 ip \<noteq> []" "length m = 4"
  shows "IP_Mask ip m = map2 (AND) (To4 ip) m"
  using assms by (auto simp: IP_Mask_def To4_def split: if_splits)

lemma prefix_len_mask:
  assumes "simpleMaskLength (net_Mask n) = Some k" "length (net_Mask n) \<le> 16"
  shows "prefix_len n = k" "unat (of_nat k :: u8) = k" "k \<le> 8 * length (net_Mask n)"
proof -
  show k: "k \<le> 8 * length (net_Mask n)" using simpleMaskLength_bits [OF assms(1)] by simp
  show "prefix_len n = k" using assms(1) by (simp add: prefix_len_def Mask_Size_def)
  show "unat (of_nat k :: u8) = k" using k assms(2) by (intro unat_of_nat_small) simp
qed

interpretation v4: net_conversion cvtIPv4Net cvtIPv4 word_bits v4_net v4_ip 32
proof
  fix n a assume n: "v4_net n" and a: "cvtIPv4 (net_IP n) = Some a"
  obtain k where k: "simpleMaskLength (net_Mask n) = Some k" using n by (auto simp: v4_net_def)
  note p = prefix_len_mask [OF k]
  let ?ip = "To4 (net_IP n)" and ?m = "net_Mask n"
  have l: "length ?ip = 4" "length ?m = 4" using n To4_length by (auto simp: v4_net_def)
  have "?m \<noteq> []" using l(2) by auto
  then have c: "cvtIPv4Net n = Some (BigEndian_Uint32 (map2 (AND) ?ip ?m), of_nat k)"
    using n l k by (simp add: v4_net_def cvtIPv4Net_def IP_Mask_v4 cvtIPv4_def To4_4 Mask_Size_def)
  have "take k (word_bits (BigEndian_Uint32 (map2 (AND) ?ip ?m))) = take k (word_bits a)"
    using a l masked_bits [OF k, of ?ip] p(3)
    by (auto simp: cvtIPv4_def BigEndian_Uint32_bits split: if_splits)
  then show "\<exists>ka d. cvtIPv4Net n = Some (ka, d) \<and> unat d = prefix_len n \<and> prefix_len n \<le> 32 \<and>
      take (unat d) (word_bits ka) = take (prefix_len n) (word_bits a)"
    using c p l by simp
next
  fix n ip and k a :: u32
  assume n: "v4_net n" and ip: "v4_ip ip" "cvtIPv4 ip = Some k" "cvtIPv4 (net_IP n) = Some a"
  obtain j where j: "simpleMaskLength (net_Mask n) = Some j" using n by (auto simp: v4_net_def)
  have l: "length (To4 (net_IP n)) = 4" "length (net_Mask n) = 4" "length (To4 ip) = 4"
    using n ip(1) To4_length by (auto simp: v4_net_def v4_ip_def)
  have "IPNet_Contains n ip \<longleftrightarrow> map2 (AND) (To4 (net_IP n)) (net_Mask n) = map2 (AND) (To4 ip) (net_Mask n)"
    using n ip(1) l by (simp add: IPNet_Contains_def networkNumberAndMask_def v4_net_def v4_ip_def)
  then show "IPNet_Contains n ip \<longleftrightarrow> take (prefix_len n) (word_bits a) = take (prefix_len n) (word_bits k)"
    using masked_eq_iff [OF j, of "To4 (net_IP n)" "To4 ip"] prefix_len_mask(1) [OF j] l ip(2,3)
    by (auto simp: cvtIPv4_def BigEndian_Uint32_bits split: if_splits)
qed (auto simp: v4_net_def v4_ip_def cvtIPv4_def)

definition cvtIPv6 :: "IP \<Rightarrow> byte list option" where
  "cvtIPv6 ip = (if ip = [] then None else Some ip)"

interpretation v6: net_conversion cvtIPv6Net cvtIPv6 bits_of v6_net v6_ip 128
proof
  fix n a assume n: "v6_net n" and a: "cvtIPv6 (net_IP n) = Some a"
  obtain k where k: "simpleMaskLength (net_Mask n) = Some k" using n by (auto simp: v6_net_def)
  note p = prefix_len_mask [OF k]
  have l: "length (net_IP n) = 16" "length (net_Mask n) = 16" using n by (auto simp: v6_net_def v6_ip_def)
  have "cvtIPv6Net n = Some (map2 (AND) (net_IP n) (net_Mask n), of_nat k)"
    using l k by (simp add: cvtIPv6Net_def IP_Mask_def Mask_Size_def To16_def go_copy_def)
  then show "\<exists>ka d. cvtIPv6Net n = Some (ka, d) \<and> unat d = prefix_len n \<and> prefix_len n \<le> 128 \<and>
      take (unat d) (bits_of ka) = take (prefix_len n) (bits_of a)"
    using a l p masked_bits [OF k, of "net_IP n"] by (auto simp: cvtIPv6_def split: if_splits)
next
  fix n ip and k a :: "byte list"
  assume n: "v6_net n" and ip: "v6_ip ip" "cvtIPv6 ip = Some k" "cvtIPv6 (net_IP n) = Some a"
  obtain j where j: "simpleMaskLength (net_Mask n) = Some j" using n by (auto simp: v6_net_def)
  have "IPNet_Contains n ip \<longleftrightarrow> map2 (AND) (net_IP n) (net_Mask n) = map2 (AND) ip (net_Mask n)"
    using n ip(1) by (auto simp: IPNet_Contains_def networkNumberAndMask_def v6_net_def v6_ip_def)
  then show "IPNet_Contains n ip \<longleftrightarrow> take (prefix_len n) (bits_of a) = take (prefix_len n) (bits_of k)"
    using masked_eq_iff [OF j, of "net_IP n" ip] prefix_len_mask(1) [OF j] n ip
    by (auto simp: v6_net_def v6_ip_def cvtIPv6_def split: if_splits)
qed (auto simp: v6_net_def v6_ip_def cvtIPv6_def)

lemma methods_of_conversion:
  "LPM_Add c C = v4.tadd c C" "LPM_Delete c C = v4.tdel c C"
  "LPM6_Add c D = v6.tadd c D" "LPM6_Delete c D = v6.tdel c D"
  by (simp_all add: fun_eq_iff LPM_Add_def LPM_Delete_def LPM6_Add_def LPM6_Delete_def
      v4.tadd_def v4.tdel_def v6.tadd_def v6.tdel_def)

section \<open>Properties\<close>

text \<open>C14: for every sequence of Add and Delete calls with IPv4 networks on an empty table, whatever form their addresses have and with next hops of at most 24 bits, as many as the entries of rte_lpm hold, no call panics, and a Lookup afterwards returns the next hop of the longest network that contains the address in the sense of net.IPNet.Contains among the networks that were added successfully and not deleted, or an error when there is none. Add passes larger next hops to the library unchecked; nothing is claimed for them.\<close>

theorem LPM_longest_match:
  assumes "lpm_contract 24 word_bits C rules" "rules t = Map.empty"
    and "\<forall>r \<in> set ops. v4_net (op_net r) \<and> hop_fits 24 r" "To4 ip \<noteq> []"
  shows "\<exists>es t' res. route_run (LPM_Add c C) (LPM_Delete c C) ops t = Some (es, t') \<and> length es = length ops \<and>
    LPM_Lookup c C ip t' = Some res \<and> routed (live [] (zip ops es)) ip res"
proof -
  obtain es t' where r: "route_run (LPM_Add c C) (LPM_Delete c C) ops t = Some (es, t')" "length es = length ops"
      "rules t' = v4.rules_of (live [] (zip ops es))" "v4.good 24 (live [] (zip ops es))"
    using v4.run_rules [OF assms(1,3), of "[]" t c] assms(2) by (auto simp: methods_of_conversion v4.good_def)
  obtain k where k: "cvtIPv4 ip = Some k" using assms(4) by (simp add: cvtIPv4_def)
  obtain rc h where l: "lpm_lookup C k 0 t' = (rc, h)" by fastforce
  have "routed (live [] (zip ops es)) ip (h, IntToErr c rc)"
    using v4.lookup_routed [OF assms(1) r(3,4) _ k l] assms(4) by (simp add: v4_ip_def)
  then show ?thesis using r(1,2) k l by (auto simp: LPM_Lookup_def)
qed

theorem LPM_longest_match_witness:
  "\<forall>c. \<exists>es t' res.
     route_run (LPM_Add c (rule_table 24 word_bits)) (LPM_Delete c (rule_table 24 word_bits))
       [AddRoute \<lparr>net_IP = [10, 0, 0, 0], net_Mask = [0xff, 0, 0, 0]\<rparr> 7] (\<lambda>_. None) = Some (es, t') \<and>
     LPM_Lookup c (rule_table 24 word_bits) [10, 1, 2, 3] t' = Some res \<and>
     routed (live [] (zip [AddRoute \<lparr>net_IP = [10, 0, 0, 0], net_Mask = [0xff, 0, 0, 0]\<rparr> 7] es)) [10, 1, 2, 3] res"
proof -
  let ?ops = "[AddRoute \<lparr>net_IP = [10, 0, 0, 0], net_Mask = [0xff, 0, 0, 0]\<rparr> 7]"
  have "v4_net \<lparr>net_IP = [10, 0, 0, 0], net_Mask = [0xff, 0, 0, 0]\<rparr>" "To4 [10, 1, 2, 3] \<noteq> []" by code_simp+
  then show ?thesis
    using LPM_longest_match [OF rule_table_contract, of "\<lambda>_. None" ?ops "[10, 1, 2, 3]"] by fastforce
qed

lemma LPM6_longest_match:
  assumes "lpm_contract 21 bits_of C rules" "rules t = Map.empty"
    and "\<forall>r \<in> set ops. v6_net (op_net r) \<and> hop_fits 21 r" "v6_ip ip"
  shows "\<exists>es t' res. route_run (LPM6_Add c C) (LPM6_Delete c C) ops t = Some (es, t') \<and> length es = length ops \<and>
    LPM6_Lookup c C ip t' = Some res \<and> routed (live [] (zip ops es)) ip res"
proof -
  obtain es t' where r: "route_run (LPM6_Add c C) (LPM6_Delete c C) ops t = Some (es, t')" "length es = length ops"
      "rules t' = v6.rules_of (live [] (zip ops es))" "v6.good 21 (live [] (zip ops es))"
    using v6.run_rules [OF assms(1,3), of "[]" t c] assms(2) by (auto simp: methods_of_conversion v6.good_def)
  have k: "cvtIPv6 ip = Some ip" "ip \<noteq> []" using assms(4) by (auto simp: cvtIPv6_def v6_ip_def)
  obtain rc h where l: "lpm_lookup C ip 0 t' = (rc, h)" by fastforce
  have "routed (live [] (zip ops es)) ip (h, IntToErr c rc)"
    using v6.lookup_routed [OF assms(1) r(3,4) assms(4) k(1) l] by simp
  then show ?thesis using r(1,2) k l by (auto simp: LPM6_Lookup_def)
qed

end
