(* ===== verification/Pools.thy ===== *)
theory Pools
  imports Errors Memory Registry
begin

text \<open>
  Memory pools and memory zones (src/mempool/mempool.go, src/mempool/mbuf.go,
  src/mempool/cache.go, src/memzone/memzone.go).  The libraries are C: their functions are
  the fields of \<open>mempool_api\<close> and \<open>memzone_api\<close> and act on a world \<open>'w\<close>; a result that is
  nil comes with \<^verbatim>\<open>rte_errno\<close>.  What the Go code adds is the folding of options, the choice
  of the C function, and the passage of Go callbacks through the object registry.
\<close>

section \<open>Callbacks through the registry\<close>

text \<open>
  C code calls \<open>f\<close> on each element of a list.  The state \<open>'s\<close> is whatever the calls change;
  \<^term>\<open>None\<close> is a panic that unwinds the whole iteration.
\<close>

fun iterate :: "('p \<Rightarrow> 's \<Rightarrow> 's option) \<Rightarrow> 'p list \<Rightarrow> 's \<Rightarrow> 's option" where
  "iterate f [] s = Some s"
| "iterate f (p # ps) s = Option.bind (f p s) (iterate f ps)"

text \<open>
  An action on registry and world is transparent, with effect \<open>g\<close>, when it does \<open>g\<close> to the
  world and leaves the registry, after at most \<open>n\<close> creations, with the same live objects.
  The callbacks of a walk may walk themselves: this is the property that composes.
\<close>

context registry
begin

definition transparent :: "nat \<Rightarrow> ('r \<times> 'w \<Rightarrow> ('r \<times> 'w) option) \<Rightarrow> ('w \<Rightarrow> 'w) \<Rightarrow> bool" where
  "transparent n act g \<longleftrightarrow> (\<forall>r w k. inv r \<and> room (n + k) r \<longrightarrow>
     (\<exists>r'. act (r, w) = Some (r', g w) \<and> inv r' \<and> room k r' \<and> live r' = live r \<and> (\<forall>j \<in> live r. read j r' = read j r)))"

lemma transparentD:
  "transparent n act g \<Longrightarrow> inv r \<Longrightarrow> room (n + k) r \<Longrightarrow>
    \<exists>r'. act (r, w) = Some (r', g w) \<and> inv r' \<and> room k r' \<and> live r' = live r \<and> (\<forall>j \<in> live r. read j r' = read j r)"
  unfolding transparent_def by blast

text \<open>The callback reads its own identifier and calls the function found there.\<close>

definition via :: "ObjectID \<Rightarrow> ('o \<Rightarrow> 'p \<Rightarrow> 'r \<times> 'w \<Rightarrow> ('r \<times> 'w) option) \<Rightarrow> 'p \<Rightarrow> 'r \<times> 'w \<Rightarrow> ('r \<times> 'w) option" where
  "via cb call p s = do { obj \<leftarrow> read cb (fst s); fn \<leftarrow> obj; call fn p s }"

lemma iterate_via:
  assumes "\<And>p. transparent n (call fn p) (g p)"
  shows "inv r \<Longrightarrow> room (n * length ps + k) r \<Longrightarrow> cb \<in> live r \<Longrightarrow> read cb r = Some (Some fn) \<Longrightarrow>
    \<exists>r'. iterate (via cb call) ps (r, w) = Some (r', fold g ps w) \<and> inv r' \<and> room k r' \<and> live r' = live r \<and>
      (\<forall>j \<in> live r. read j r' = read j r)"
proof (induction ps arbitrary: r w)
  case (Cons p ps)
  have "room (n + (n * length ps + k)) r" using Cons.prems(2) by (simp add: ac_simps)
  then obtain r1 where r1: "call fn p (r, w) = Some (r1, g p w)" "inv r1" "room (n * length ps + k) r1"
      "live r1 = live r" "\<forall>j \<in> live r. read j r1 = read j r"
    using transparentD [OF assms Cons.prems(1)] by blast
  then obtain r2 where "iterate (via cb call) ps (r1, g p w) = Some (r2, fold g ps (g p w))"
      "inv r2" "room k r2" "live r2 = live r1" "\<forall>j \<in> live r1. read j r2 = read j r1"
    using Cons.IH [OF r1(2,3)] Cons.prems(3,4) by metis
  moreover have "via cb call p (r, w) = Some (r1, g p w)" using r1(1) Cons.prems(4) by (simp add: via_def)
  ultimately show ?case using r1(4,5) by auto
qed auto

text \<open>Creating a callback, iterating with it and deleting it is transparent again.\<close>

lemma walk_transparent:
  assumes "\<And>p. transparent n (call fn p) (g p)"
  shows "transparent (Suc (n * length ps)) (\<lambda>(r, w). do {
      let (cb, r) = create (Some fn) r;
      (r, w) \<leftarrow> iterate (via cb call) ps (r, w);
      r \<leftarrow> delete cb r;
      Some (r, w) }) (fold g ps)"
  unfolding transparent_def
proof (intro allI impI, elim conjE)
  fix r w k assume r: "inv r" "room (Suc (n * length ps) + k) r"
  obtain cb r1 where c: "create (Some fn) r = (cb, r1)" by fastforce
  have r1: "inv r1" "room (n * length ps + k) r1" "cb \<notin> live r" "live r1 = insert cb (live r)"
      "read cb r1 = Some (Some fn)" "\<forall>j \<in> live r. read j r1 = read j r"
    using create_law [OF r(1) _ c, of "n * length ps + k"] r(2) by auto
  obtain r2 where r2: "iterate (via cb call) ps (r1, w) = Some (r2, fold g ps w)" "inv r2" "room k r2"
      "live r2 = live r1" "\<forall>j \<in> live r1. read j r2 = read j r1"
    using iterate_via [where call = call and fn = fn and g = g, OF assms r1(1,2), of cb w] r1(4,5) by auto
  obtain r3 where r3: "delete cb r2 = Some r3" "inv r3" "live r3 = live r2 - {cb}" "room k r3"
      "\<forall>j \<in> live r2 - {cb}. read j r3 = read j r2"
    using delete_law [OF r2(2), of cb] delete_room [of cb r2 _ k] r2(3,4) r1(4) by auto
  have "live r3 = live r" using r3(3) r2(4) r1(3,4) by auto
  moreover have "\<forall>j \<in> live r. read j r3 = read j r"
    using r3(5) r2(4,5) r1(3,4,6) by auto
  ultimately show "\<exists>r'. (\<lambda>(r, w). do { let (cb, r) = create (Some fn) r; (r, w) \<leftarrow> iterate (via cb call) ps (r, w);
        r \<leftarrow> delete cb r; Some (r, w) }) (r, w) = Some (r', fold g ps w) \<and> inv r' \<and> room k r' \<and> live r' = live r \<and>
        (\<forall>j \<in> live r. read j r' = read j r)"
    using c r2(1) r3(1,2,4) by auto
qed

end

section \<open>Mempools (src/mempool)\<close>

record mpConf =
  cacheSize :: u32
  privDataSize :: u32
  mp_socket :: "32 word"
  mp_flags :: u32
  opsName :: "string option"

type_synonym mp_Option = "mpConf \<Rightarrow> mpConf"

definition OptOpsName :: "string \<Rightarrow> mp_Option" where
  "OptOpsName name conf = conf\<lparr>opsName := Some name\<rparr>"

definition OptCacheSize :: "u32 \<Rightarrow> mp_Option" where
  "OptCacheSize sz conf = conf\<lparr>cacheSize := sz\<rparr>"

definition OptPrivateDataSize :: "u32 \<Rightarrow> mp_Option" where
  "OptPrivateDataSize sz conf = conf\<lparr>privDataSize := sz\<rparr>"

definition mp_OptSocket :: "int \<Rightarrow> mp_Option" where
  "mp_OptSocket s conf = conf\<lparr>mp_socket := word_of_int s\<rparr>"

definition mp_OptFlag :: "u64 \<Rightarrow> mp_Option" where
  "mp_OptFlag flag conf = conf\<lparr>mp_flags := mp_flags conf OR ucast flag\<rparr>"

text \<open>\<^verbatim>\<open>conf := &mpConf{socket: C.SOCKET_ID_ANY}\<close> and the loop over the options.\<close>

definition mp_conf :: "32 word \<Rightarrow> mp_Option list \<Rightarrow> mpConf" where
  "mp_conf SOCKET_ID_ANY opts =
     fold (\<lambda>f conf. f conf) opts
       \<lparr>cacheSize = 0, privDataSize = 0, mp_socket = SOCKET_ID_ANY, mp_flags = 0, opsName = None\<rparr>"

record 'w mempool_api =
  mp_SOCKET_ID_ANY :: "32 word"
  MEMPOOL_F_SP_PUT :: u32
  MEMPOOL_F_SC_GET :: u32
  rte_mempool_create_empty :: "string \<Rightarrow> u32 \<Rightarrow> u32 \<Rightarrow> u32 \<Rightarrow> u32 \<Rightarrow> 32 word \<Rightarrow> u32 \<Rightarrow> 'w \<Rightarrow> (int + addr) \<times> 'w"
  rte_mempool_set_ops_byname :: "addr \<Rightarrow> string \<Rightarrow> addr \<Rightarrow> 'w \<Rightarrow> int \<times> 'w"
  rte_mempool_populate_default :: "addr \<Rightarrow> 'w \<Rightarrow> int \<times> 'w"
  rte_mempool_populate_anon :: "addr \<Rightarrow> 'w \<Rightarrow> int \<times> 'w"
  rte_mempool_lookup :: "string \<Rightarrow> 'w \<Rightarrow> int + addr"
  rte_mempool_generic_put :: "addr \<Rightarrow> addr list \<Rightarrow> addr \<Rightarrow> 'w \<Rightarrow> 'w"
  rte_mempool_generic_get :: "addr \<Rightarrow> addr list \<Rightarrow> addr \<Rightarrow> 'w \<Rightarrow> int \<times> addr list \<times> 'w"
  rte_mempool_cache_create :: "u32 \<Rightarrow> 32 word \<Rightarrow> 'w \<Rightarrow> (int + addr) \<times> 'w"
  rte_pktmbuf_pool_create_by_ops ::
    "string \<Rightarrow> u32 \<Rightarrow> u32 \<Rightarrow> u16 \<Rightarrow> u16 \<Rightarrow> 32 word \<Rightarrow> string option \<Rightarrow> 'w \<Rightarrow> (int + addr) \<times> 'w"
  mp_struct_flags :: "addr \<Rightarrow> 'w \<Rightarrow> u32"
  rte_mempool_get_priv :: "addr \<Rightarrow> 'w \<Rightarrow> addr"
  private_data_size :: "addr \<Rightarrow> 'w \<Rightarrow> u32"
  elt_size :: "addr \<Rightarrow> 'w \<Rightarrow> u32"

definition ptr_or_errno :: "rte_errnos \<Rightarrow> (int + addr) \<times> 'w \<Rightarrow> (addr \<times> error) \<times> 'w" where
  "ptr_or_errno c res = (case res of (Inr mp, w) \<Rightarrow> ((mp, None), w) | (Inl e, w) \<Rightarrow> ((nil, RteErrno c e), w))"

definition CreateEmpty ::
    "rte_errnos \<Rightarrow> 'w mempool_api \<Rightarrow> string \<Rightarrow> u32 \<Rightarrow> u32 \<Rightarrow> mp_Option list \<Rightarrow> 'w \<Rightarrow> (addr \<times> error) \<times> 'w" where
  "CreateEmpty c A name n eltsize opts w =
     (let conf = mp_conf (mp_SOCKET_ID_ANY A) opts in
      ptr_or_errno c (rte_mempool_create_empty A name n eltsize
        (cacheSize conf) (privDataSize conf) (mp_socket conf) (mp_flags conf) w))"

definition SetOpsByName ::
    "rte_errnos \<Rightarrow> 'w mempool_api \<Rightarrow> addr \<Rightarrow> string \<Rightarrow> addr \<Rightarrow> 'w \<Rightarrow> error \<times> 'w" where
  "SetOpsByName c A mp name poolConfig w =
     (let (rc, w') = rte_mempool_set_ops_byname A mp name poolConfig w in (IntToErr c rc, w'))"

definition SetOpsRing :: "rte_errnos \<Rightarrow> 'w mempool_api \<Rightarrow> addr \<Rightarrow> 'w \<Rightarrow> error \<times> 'w" where
  "SetOpsRing c A mp w =
     (let flags = mp_struct_flags A mp w;
          ops = (if flags AND MEMPOOL_F_SP_PUT A \<noteq> 0 then ''ring_sp'' else ''ring_mp'');
          ops = ops @ (if flags AND MEMPOOL_F_SC_GET A \<noteq> 0 then ''_sc'' else ''_mc'')
      in SetOpsByName c A mp ops nil w)"

definition PopulateDefault :: "rte_errnos \<Rightarrow> 'w mempool_api \<Rightarrow> addr \<Rightarrow> 'w \<Rightarrow> (int \<times> error) \<times> 'w" where
  "PopulateDefault c A mp w =
     (let (rc, w') = rte_mempool_populate_default A mp w in (IntOrErr c rc, w'))"

definition PopulateAnon :: "rte_errnos \<Rightarrow> 'w mempool_api \<Rightarrow> addr \<Rightarrow> 'w \<Rightarrow> (int \<times> error) \<times> 'w" where
  "PopulateAnon c A mp w =
     (let (rc, w') = rte_mempool_populate_anon A mp w in (IntOrErr c rc, w'))"

definition mp_Lookup :: "rte_errnos \<Rightarrow> 'w mempool_api \<Rightarrow> string \<Rightarrow> 'w \<Rightarrow> addr \<times> error" where
  "mp_Lookup c A name w = fst (ptr_or_errno c (rte_mempool_lookup A name w, w))"

text \<open>A slice over foreign memory is its start and its length; a nil pointer leaves the nil slice.\<close>

definition PrivBytes :: "'w mempool_api \<Rightarrow> addr \<Rightarrow> 'w \<Rightarrow> addr \<times> u32" where
  "PrivBytes A mp w =
     (let d = rte_mempool_get_priv A mp w in if d \<noteq> nil then (d, private_data_size A mp w) else (nil, 0))"

text \<open>\<^verbatim>\<open>&objs[0]\<close> panics on an empty slice.\<close>

definition GenericPut :: "'w mempool_api \<Rightarrow> addr \<Rightarrow> addr list \<Rightarrow> addr \<Rightarrow> 'w \<Rightarrow> 'w option" where
  "GenericPut A mp objs cache w = (if objs = [] then None else Some (rte_mempool_generic_put A mp objs cache w))"

definition GenericGet ::
    "rte_errnos \<Rightarrow> 'w mempool_api \<Rightarrow> addr \<Rightarrow> addr list \<Rightarrow> addr \<Rightarrow> 'w \<Rightarrow> (error \<times> addr list \<times> 'w) option" where
  "GenericGet c A mp objs cache w =
     (if objs = [] then None
      else let (rc, objs', w') = rte_mempool_generic_get A mp objs cache w in Some (IntToErr c rc, objs', w'))"

definition CreateMbufPool ::
    "rte_errnos \<Rightarrow> 'w mempool_api \<Rightarrow> string \<Rightarrow> u32 \<Rightarrow> u16 \<Rightarrow> mp_Option list \<Rightarrow> 'w \<Rightarrow> (addr \<times> error) \<times> 'w" where
  "CreateMbufPool c A name n dataRoomSize opts w =
     (let conf = mp_conf (mp_SOCKET_ID_ANY A) opts in
      ptr_or_errno c (rte_pktmbuf_pool_create_by_ops A name n (cacheSize conf) (ucast (privDataSize conf))
        dataRoomSize (mp_socket conf) (opsName conf) w))"

definition CreateCache ::
    "rte_errnos \<Rightarrow> 'w mempool_api \<Rightarrow> mp_Option list \<Rightarrow> 'w \<Rightarrow> (addr \<times> error) \<times> 'w" where
  "CreateCache c A opts w =
     (let conf = mp_conf (mp_SOCKET_ID_ANY A) opts in
      ptr_or_errno c (rte_mempool_cache_create A (cacheSize conf) (mp_socket conf) w))"

text \<open>
  The registry of package mempool holds functions of two types; the callbacks assert the
  type they expect and panic on the other.  \<open>exec\<close> is the call of a Go function: it may use
  the registry again.
\<close>

datatype mp_callback = ObjFn nat | PoolFn nat

type_synonym 'w mp_state = "mp_callback objArray \<times> 'w"

definition mpWalkCb ::
    "(nat \<Rightarrow> addr \<Rightarrow> 'w mp_state \<Rightarrow> 'w mp_state option) \<Rightarrow> ObjectID \<Rightarrow> addr \<Rightarrow> 'w mp_state \<Rightarrow> 'w mp_state option" where
  "mpWalkCb exec cb mp s = do {
     obj \<leftarrow> objArray_Read cb (fst s);
     f \<leftarrow> obj;
     (case f of PoolFn fn \<Rightarrow> exec fn mp s | ObjFn _ \<Rightarrow> None) }"

definition mp_Walk ::
    "addr list \<Rightarrow> (nat \<Rightarrow> addr \<Rightarrow> 'w mp_state \<Rightarrow> 'w mp_state option) \<Rightarrow> nat \<Rightarrow> 'w mp_state \<Rightarrow> 'w mp_state option" where
  "mp_Walk pools exec fn = (\<lambda>(reg, w). do {
     let (cb, reg) = objArray_Create (Some (PoolFn fn)) reg;
     (reg, w) \<leftarrow> iterate (mpWalkCb exec cb) pools (reg, w);
     reg \<leftarrow> objArray_Delete cb reg;
     Some (reg, w) })"

text \<open>The callback of \<^verbatim>\<open>ObjIter\<close> gets the object as a slice of \<^verbatim>\<open>elt_size\<close> bytes.\<close>

definition goObjectCb ::
    "(nat \<Rightarrow> addr \<times> u32 \<Rightarrow> 'w mp_state \<Rightarrow> 'w mp_state option) \<Rightarrow> u32 \<Rightarrow> ObjectID \<Rightarrow> addr \<Rightarrow> 'w mp_state \<Rightarrow> 'w mp_state option" where
  "goObjectCb exec esize cb obj s = do {
     o1 \<leftarrow> objArray_Read cb (fst s);
     f \<leftarrow> o1;
     (case f of ObjFn fn \<Rightarrow> exec fn (obj, esize) s | PoolFn _ \<Rightarrow> None) }"

definition ObjIter ::
    "u32 \<Rightarrow> addr list \<Rightarrow> (nat \<Rightarrow> addr \<times> u32 \<Rightarrow> 'w mp_state \<Rightarrow> 'w mp_state option) \<Rightarrow> nat
     \<Rightarrow> 'w mp_state \<Rightarrow> (nat \<times> 'w mp_state) option" where
  "ObjIter esize objs exec fn = (\<lambda>(reg, w). do {
     let (cb, reg) = objArray_Create (Some (ObjFn fn)) reg;
     (reg, w) \<leftarrow> iterate (goObjectCb exec esize cb) objs (reg, w);
     reg \<leftarrow> objArray_Delete cb reg;
     Some (length objs, (reg, w)) })"

section \<open>Memzones (src/memzone/memzone.go)\<close>

record mz_conf =
  mz_size :: u64
  mz_socket :: "32 word"
  mz_flags :: u32
  aligned :: "u32 option"
  bound :: "u32 option"

type_synonym mz_Option = "mz_conf \<Rightarrow> mz_conf"

definition mz_OptSocket :: "u64 \<Rightarrow> mz_Option" where
  "mz_OptSocket s rc = rc\<lparr>mz_socket := ucast s\<rparr>"

definition mz_OptFlag :: "u64 \<Rightarrow> mz_Option" where
  "mz_OptFlag flag rc = rc\<lparr>mz_flags := mz_flags rc OR ucast flag\<rparr>"

definition OptAligned :: "u64 \<Rightarrow> mz_Option" where
  "OptAligned a rc = rc\<lparr>aligned := Some (ucast a)\<rparr>"

definition OptBounded :: "u64 \<Rightarrow> mz_Option" where
  "OptBounded b rc = rc\<lparr>bound := Some (ucast b)\<rparr>"

record 'w memzone_api =
  mz_SOCKET_ID_ANY :: "32 word"
  rte_memzone_reserve :: "string \<Rightarrow> u64 \<Rightarrow> 32 word \<Rightarrow> u32 \<Rightarrow> 'w \<Rightarrow> (int + addr) \<times> 'w"
  rte_memzone_reserve_aligned :: "string \<Rightarrow> u64 \<Rightarrow> 32 word \<Rightarrow> u32 \<Rightarrow> u32 \<Rightarrow> 'w \<Rightarrow> (int + addr) \<times> 'w"
  rte_memzone_reserve_bounded :: "string \<Rightarrow> u64 \<Rightarrow> 32 word \<Rightarrow> u32 \<Rightarrow> u32 \<Rightarrow> u32 \<Rightarrow> 'w \<Rightarrow> (int + addr) \<times> 'w"
  rte_memzone_lookup :: "string \<Rightarrow> 'w \<Rightarrow> int + addr"
  rte_memzone_free :: "addr \<Rightarrow> 'w \<Rightarrow> int \<times> 'w"
  mz_addr :: "addr \<Rightarrow> 'w \<Rightarrow> addr"
  mz_len :: "addr \<Rightarrow> 'w \<Rightarrow> u64"

definition doReserve :: "'w memzone_api \<Rightarrow> string \<Rightarrow> mz_conf \<Rightarrow> 'w \<Rightarrow> ((int + addr) \<times> 'w) option" where
  "doReserve A cname rc w =
     (if bound rc = None \<and> aligned rc = None then
        Some (rte_memzone_reserve A cname (mz_size rc) (mz_socket rc) (mz_flags rc) w)
      else if bound rc = None then do {
        a \<leftarrow> aligned rc;
        Some (rte_memzone_reserve_aligned A cname (mz_size rc) (mz_socket rc) (mz_flags rc) a w) }
      else do {
        a \<leftarrow> aligned rc;
        b \<leftarrow> bound rc;
        Some (rte_memzone_reserve_bounded A cname (mz_size rc) (mz_socket rc) (mz_flags rc) a b w) })"

definition Reserve ::
    "rte_errnos \<Rightarrow> 'w memzone_api \<Rightarrow> string \<Rightarrow> u64 \<Rightarrow> mz_Option list \<Rightarrow> 'w \<Rightarrow> ((addr \<times> error) \<times> 'w) option" where
  "Reserve c A name sz opts w = do {
     let rc = fold (\<lambda>f rc. f rc) opts
       \<lparr>mz_size = sz, mz_socket = mz_SOCKET_ID_ANY A, mz_flags = 0, aligned = None, bound = None\<rparr>;
     res \<leftarrow> doReserve A name rc w;
     Some (ptr_or_errno c res) }"

definition mz_Lookup :: "rte_errnos \<Rightarrow> 'w memzone_api \<Rightarrow> string \<Rightarrow> 'w \<Rightarrow> addr \<times> error" where
  "mz_Lookup c A name w = fst (ptr_or_errno c (rte_memzone_lookup A name w, w))"

definition mz_Free :: "rte_errnos \<Rightarrow> 'w memzone_api \<Rightarrow> addr \<Rightarrow> 'w \<Rightarrow> error \<times> 'w" where
  "mz_Free c A mz w = (let (rc, w') = rte_memzone_free A mz w in (IntToErr c rc, w'))"

definition mz_Bytes :: "'w memzone_api \<Rightarrow> addr \<Rightarrow> 'w \<Rightarrow> addr \<times> u64" where
  "mz_Bytes A mz w = (mz_addr A mz w, mz_len A mz w)"

type_synonym 'w mz_state = "nat objArray \<times> 'w"

definition mzCb ::
    "(nat \<Rightarrow> addr \<Rightarrow> 'w mz_state \<Rightarrow> 'w mz_state option) \<Rightarrow> ObjectID \<Rightarrow> addr \<Rightarrow> 'w mz_state \<Rightarrow> 'w mz_state option" where
  "mzCb exec cb mz s = do { obj \<leftarrow> objArray_Read cb (fst s); fn \<leftarrow> obj; exec fn mz s }"

definition mz_Walk ::
    "addr list \<Rightarrow> (nat \<Rightarrow> addr \<Rightarrow> 'w mz_state \<Rightarrow> 'w mz_state option) \<Rightarrow> nat \<Rightarrow> 'w mz_state \<Rightarrow> 'w mz_state option" where
  "mz_Walk zones exec fn = (\<lambda>(reg, w). do {
     let (cb, reg) = objArray_Create (Some fn) reg;
     (reg, w) \<leftarrow> iterate (mzCb exec cb) zones (reg, w);
     reg \<leftarrow> objArray_Delete cb reg;
     Some (reg, w) })"

section \<open>Properties\<close>

lemma mpWalkCb_via:
  "mpWalkCb exec cb = arr.via cb (\<lambda>f p s. case f of PoolFn fn \<Rightarrow> exec fn p s | ObjFn _ \<Rightarrow> None)"
  by (simp add: fun_eq_iff mpWalkCb_def arr.via_def)

lemma mzCb_via: "mzCb exec cb = arr.via cb exec"
  by (simp add: fun_eq_iff mzCb_def arr.via_def)

lemma mz_Walk_transparent:
  assumes "\<And>p. arr.transparent n (exec fn p) (g p)"
  shows "arr.transparent (Suc (n * length zones)) (mz_Walk zones exec fn) (fold g zones)"
  using arr.walk_transparent [where call = exec, OF assms] unfolding mz_Walk_def mzCb_via .

text \<open>
  A boundary without an alignment dereferences the nil alignment: \<^verbatim>\<open>OptBounded\<close> alone makes
  \<^verbatim>\<open>Reserve\<close> panic, among whatever other options that set neither field.
\<close>

lemma Reserve_bounded_panics:
  assumes "\<forall>f \<in> set opts. \<forall>rc. bound (f rc) = bound rc \<and> aligned (f rc) = aligned rc"
  shows "Reserve c A name sz (opts @ [OptBounded b]) w = None"
proof -
  have "bound (fold (\<lambda>f rc. f rc) opts rc) = bound rc \<and> aligned (fold (\<lambda>f rc. f rc) opts rc) = aligned rc" for rc
    using assms by (induction opts arbitrary: rc) auto
  then show ?thesis by (simp add: Reserve_def doReserve_def OptBounded_def Let_def)
qed

lemma Reserve_aligned:
  "Reserve c A name sz [OptAligned a, OptBounded b] w =
     Some (ptr_or_errno c (rte_memzone_reserve_bounded A name sz (mz_SOCKET_ID_ANY A) 0 (ucast a) (ucast b) w))"
  by (simp add: Reserve_def doReserve_def OptBounded_def OptAligned_def Let_def)

text \<open>\<^verbatim>\<open>SetOpsRing\<close> after \<^verbatim>\<open>CreateEmpty\<close> chooses the driver by the two flags.\<close>

lemma SetOpsRing_name:
  "SetOpsRing c A mp w = SetOpsByName c A mp
     (if mp_struct_flags A mp w AND MEMPOOL_F_SP_PUT A = 0
      then if mp_struct_flags A mp w AND MEMPOOL_F_SC_GET A = 0 then ''ring_mp_mc'' else ''ring_mp_sc''
      else if mp_struct_flags A mp w AND MEMPOOL_F_SC_GET A = 0 then ''ring_sp_mc'' else ''ring_sp_sc'') nil w"
  by (simp add: SetOpsRing_def)

text \<open>Mempool.Walk calls its function once on every pool, in order, through the callback registry, and leaves the registry with exactly the objects it held, also when the called functions walk themselves: an action that is transparent to the registry gives a walk that is.\<close>

lemma mp_Walk_transparent:
  assumes "\<And>p. arr.transparent n (exec fn p) (g p)"
  shows "arr.transparent (Suc (n * length pools)) (mp_Walk pools exec fn) (fold g pools)"
proof -
  let ?call = "\<lambda>f p s. case f of PoolFn fn \<Rightarrow> exec fn p s | ObjFn _ \<Rightarrow> None"
  have "arr.transparent n (?call (PoolFn fn) p) (g p)" for p using assms by simp
  from arr.walk_transparent [where call = ?call, OF this] show ?thesis
    unfolding mp_Walk_def mpWalkCb_via .
qed

end
