(* ===== verification/Flow.thy ===== *)
theory Flow
  imports Errors Memory
begin

text \<open>
  Flow rules (src/ethdev/flow): items and actions are Go objects that own a C structure; a
  method \<^verbatim>\<open>Reload\<close> writes the object's fields into the structure, and \<^verbatim>\<open>cPattern\<close> and
  \<^verbatim>\<open>cActions\<close> lay out the arrays that \<^verbatim>\<open>rte_flow_create\<close> and \<^verbatim>\<open>rte_flow_validate\<close> read.

  Go objects live in a store and are named by references, since items of one rule may share
  them.  The C heap maps pointers to structures; pointers are numbers, 0 is NULL, and
  \<open>malloc\<close> (which under cgo does not return NULL) is an argument that returns an unused
  pointer.  Fields in network order are byte lists.  The numbers of item and action types
  come from DPDK headers and are the record \<open>flow_consts\<close>.
\<close>

type_synonym cptr = nat

section \<open>Helpers (src/ethdev/flow/utils.go)\<close>

definition beU16 :: "u16 \<Rightarrow> byte list" where
  "beU16 n = [ucast (drop_bit 8 n), ucast n]"

definition setAddr :: "byte list \<Rightarrow> byte list \<Rightarrow> byte list" where
  "setAddr p addr = go_copy p addr"

section \<open>Structures of the C library\<close>

record rte_flow_item_eth =
  eth_dst :: "byte list"
  eth_src :: "byte list"
  ether_type :: "byte list"
  has_vlan :: u32

record rte_ipv4_hdr =
  version_ihl :: u8
  type_of_service :: u8
  total_length :: "byte list"
  packet_id :: "byte list"
  fragment_offset :: "byte list"
  time_to_live :: u8
  next_proto_id :: u8
  hdr_checksum :: "byte list"
  src_addr :: "byte list"
  dst_addr :: "byte list"

record rte_ipv6_hdr =
  vtc_flow :: "byte list"
  payload_len :: "byte list"
  proto :: u8
  hop_limits :: u8
  src_addr6 :: "byte list"
  dst_addr6 :: "byte list"

record rte_tcp_hdr =
  tcp_src_port :: "byte list"
  tcp_dst_port :: "byte list"
  sent_seq :: "byte list"
  recv_ack :: "byte list"
  data_off :: u8
  tcp_flags :: u8
  rx_win :: "byte list"
  cksum :: "byte list"
  tcp_urp :: "byte list"

record rte_udp_hdr =
  src_port :: "byte list"
  dst_port :: "byte list"
  dgram_len :: "byte list"
  dgram_cksum :: "byte list"

record rte_flow_item_vlan =
  vlan_tci :: "byte list"
  eth_proto :: "byte list"
  has_more_vlan :: u32

text \<open>The first word of a VXLAN header, then the identifier with the reserved byte behind it.\<close>

record rte_vxlan_hdr =
  vx_flags :: "byte list"
  vx_vni :: "byte list"

record rte_flow_action_rss =
  rss_func :: u32
  level :: u32
  rss_types :: u64
  key_len :: u32
  queue_num :: u32
  rss_key :: cptr
  rss_queue :: cptr

record rte_flow_item =
  item_type :: u32
  item_spec :: cptr
  item_last :: cptr
  item_mask :: cptr

record rte_flow_action =
  action_type :: u32
  action_conf :: cptr

datatype cstruct =
    CEth rte_flow_item_eth | CIPv4 rte_ipv4_hdr | CIPv6 rte_ipv6_hdr | CTCP rte_tcp_hdr | CUDP rte_udp_hdr
  | CVlan rte_flow_item_vlan | CVxlan rte_vxlan_hdr
  | CQueue u16 | CJump u32 | CCount u32 | CPortID u32 | CMeter u32
  | CMac "byte list" | CSetIPv4 "byte list" | CSetIPv6 "byte list"
  | CRss rte_flow_action_rss | CQueues "u16 list" | CKey "byte list"
  | CEncap "rte_flow_item list" | CSample u32 "rte_flow_action list"

type_synonym cheap = "cptr \<rightharpoonup> cstruct"

section \<open>Items and actions\<close>

record ItemEth =
  HasVlan :: bool
  ie_Src :: "byte list"
  ie_Dst :: "byte list"
  ie_EtherType :: u16

record IPv4Header =
  VersionIHL :: u8
  ToS :: u8
  h4_TotalLength :: u16
  h4_ID :: u16
  h4_FragmentOffset :: u16
  TTL :: u8
  h4_Proto :: u8
  h4_Checksum :: u16
  h4_SrcAddr :: "byte list"
  h4_DstAddr :: "byte list"

record IPv6Header =
  h6_VtcFlow :: u32
  PayloadLength :: u16
  h6_Proto :: u8
  HopLimits :: u8
  h6_SrcAddr :: "byte list"
  h6_DstAddr :: "byte list"

record TCPHdr =
  ht_SrcPort :: u16
  ht_DstPort :: u16
  ht_SentSeq :: u32
  ht_RecvAck :: u32
  ht_DataOff :: u8
  ht_TCPFlags :: u8
  ht_RxWin :: u16
  ht_Cksum :: u16
  ht_TCPUrp :: u16

record UDPHeader =
  hu_SrcPort :: u16
  hu_DstPort :: u16
  hu_Length :: u16
  hu_Checksum :: u16

record ItemVlan =
  HasMoreVlan :: bool
  TCI :: u16
  InnerType :: u16

record ActionRSS =
  Func :: u32
  Queues :: "u16 list"
  rss_Key :: "byte list"
  Level :: u32
  rss_Types :: u64

definition ItemEth_Reload :: "ItemEth \<Rightarrow> rte_flow_item_eth \<Rightarrow> rte_flow_item_eth" where
  "ItemEth_Reload item c =
     c\<lparr>has_vlan := (if HasVlan item then 1 else 0),
       eth_src := (if length (ie_Src item) > 0 then setAddr (eth_src c) (ie_Src item) else eth_src c),
       eth_dst := (if length (ie_Dst item) > 0 then setAddr (eth_dst c) (ie_Dst item) else eth_dst c),
       ether_type := beU16 (ie_EtherType item)\<rparr>"

definition cvtIPv4Header :: "IPv4Header \<Rightarrow> rte_ipv4_hdr \<Rightarrow> rte_ipv4_hdr" where
  "cvtIPv4Header src dst =
     dst\<lparr>version_ihl := VersionIHL src, type_of_service := ToS src,
         total_length := beU16 (h4_TotalLength src), packet_id := beU16 (h4_ID src),
         fragment_offset := beU16 (h4_FragmentOffset src), time_to_live := TTL src,
         next_proto_id := h4_Proto src, hdr_checksum := beU16 (h4_Checksum src),
         src_addr := h4_SrcAddr src, dst_addr := h4_DstAddr src\<rparr>"

definition cvtIPv6Header :: "IPv6Header \<Rightarrow> rte_ipv6_hdr \<Rightarrow> rte_ipv6_hdr" where
  "cvtIPv6Header src dst =
     dst\<lparr>proto := h6_Proto src, src_addr6 := h6_SrcAddr src, dst_addr6 := h6_DstAddr src\<rparr>"

definition cvtTCPHeader :: "TCPHdr \<Rightarrow> rte_tcp_hdr \<Rightarrow> rte_tcp_hdr" where
  "cvtTCPHeader src dst =
     dst\<lparr>tcp_src_port := beU16 (ht_SrcPort src), tcp_dst_port := beU16 (ht_DstPort src), cksum := beU16 (ht_Cksum src)\<rparr>"

definition cvtUDPHeader :: "UDPHeader \<Rightarrow> rte_udp_hdr \<Rightarrow> rte_udp_hdr" where
  "cvtUDPHeader src dst =
     dst\<lparr>src_port := beU16 (hu_SrcPort src), dst_port := beU16 (hu_DstPort src),
         dgram_len := beU16 (hu_Length src), dgram_cksum := beU16 (hu_Checksum src)\<rparr>"

definition ItemVlan_Reload :: "ItemVlan \<Rightarrow> rte_flow_item_vlan \<Rightarrow> rte_flow_item_vlan" where
  "ItemVlan_Reload item c =
     c\<lparr>has_more_vlan := (if HasMoreVlan item then 1 else 0), vlan_tci := beU16 (TCI item), eth_proto := beU16 (InnerType item)\<rparr>"

text \<open>\<^verbatim>\<open>mem.Memcpy(&hdr.vx_vni, &item.VNI, 3)\<close>: the first three bytes of the number in memory.\<close>

definition ItemVXLAN_Reload :: "u32 \<Rightarrow> rte_vxlan_hdr \<Rightarrow> rte_vxlan_hdr" where
  "ItemVXLAN_Reload VNI c = c\<lparr>vx_vni := take 3 (le32 VNI) @ drop 3 (vx_vni c)\<rparr>"

text \<open>The C function \<^verbatim>\<open>encap\<close>: byte \<^verbatim>\<open>2 - i\<close> is the number shifted by \<^verbatim>\<open>8 i\<close>.\<close>

definition ItemVXLAN2_Reload :: "u32 \<Rightarrow> rte_vxlan_hdr \<Rightarrow> rte_vxlan_hdr" where
  "ItemVXLAN2_Reload VNI c =
     c\<lparr>vx_vni := [ucast (drop_bit 16 VNI), ucast (drop_bit 8 VNI), ucast VNI] @ drop 3 (vx_vni c)\<rparr>"

text \<open>\<^verbatim>\<open>action.Mac[index]\<close> for indices below 6: a shorter address panics.\<close>

definition set_mac :: "byte list \<Rightarrow> byte list option" where
  "set_mac Mac = (if length Mac < 6 then None else Some (take 6 Mac))"

section \<open>Objects and their structures\<close>

datatype flow_obj =
    OEth ItemEth | OIPv4 IPv4Header | OIPv6 IPv6Header | OTCP TCPHdr | OUDP UDPHeader | OVlan ItemVlan
  | OVXLAN u32 | OVXLAN2 u32
  | OQueue u16 | OJump u32 | OCount u32 | OPortID u32 | OMeter u32
  | OMacSrc "byte list" | OMacDst "byte list" | OIPv4Src "byte list" | OIPv4Dst "byte list"
  | OIPv6Src "byte list" | OIPv6Dst "byte list"
  | ORSS ActionRSS
  | OVxlanEncap nat nat nat nat  \<comment> \<open>the embedded items Ether, IPv4, UDP and Vxlan\<close>
  | OSample u32 nat              \<comment> \<open>the ratio and the embedded action PortID\<close>

record flow_object =
  odata :: flow_obj
  ocptr :: cptr

record flow_state =
  objs :: "nat \<rightharpoonup> flow_object"
  cheap :: cheap

text \<open>The zeroed structure of an object.\<close>

fun zero_of :: "flow_obj \<Rightarrow> cstruct" where
  "zero_of (OEth _) = CEth \<lparr>eth_dst = replicate 6 0, eth_src = replicate 6 0, ether_type = [0, 0], has_vlan = 0\<rparr>"
| "zero_of (OIPv4 _) = CIPv4 \<lparr>version_ihl = 0, type_of_service = 0, total_length = [0, 0], packet_id = [0, 0],
     fragment_offset = [0, 0], time_to_live = 0, next_proto_id = 0, hdr_checksum = [0, 0],
     src_addr = replicate 4 0, dst_addr = replicate 4 0\<rparr>"
| "zero_of (OIPv6 _) = CIPv6 \<lparr>vtc_flow = replicate 4 0, payload_len = [0, 0], proto = 0, hop_limits = 0,
     src_addr6 = replicate 16 0, dst_addr6 = replicate 16 0\<rparr>"
| "zero_of (OTCP _) = CTCP \<lparr>tcp_src_port = [0, 0], tcp_dst_port = [0, 0], sent_seq = replicate 4 0, recv_ack = replicate 4 0,
     data_off = 0, tcp_flags = 0, rx_win = [0, 0], cksum = [0, 0], tcp_urp = [0, 0]\<rparr>"
| "zero_of (OUDP _) = CUDP \<lparr>src_port = [0, 0], dst_port = [0, 0], dgram_len = [0, 0], dgram_cksum = [0, 0]\<rparr>"
| "zero_of (OVlan _) = CVlan \<lparr>vlan_tci = [0, 0], eth_proto = [0, 0], has_more_vlan = 0\<rparr>"
| "zero_of (OVXLAN _) = CVxlan \<lparr>vx_flags = replicate 4 0, vx_vni = replicate 4 0\<rparr>"
| "zero_of (OVXLAN2 _) = CVxlan \<lparr>vx_flags = replicate 4 0, vx_vni = replicate 4 0\<rparr>"
| "zero_of (OQueue _) = CQueue 0"
| "zero_of (OJump _) = CJump 0"
| "zero_of (OCount _) = CCount 0"
| "zero_of (OPortID _) = CPortID 0"
| "zero_of (OMeter _) = CMeter 0"
| "zero_of (OMacSrc _) = CMac (replicate 6 0)"
| "zero_of (OMacDst _) = CMac (replicate 6 0)"
| "zero_of (OIPv4Src _) = CSetIPv4 (replicate 4 0)"
| "zero_of (OIPv4Dst _) = CSetIPv4 (replicate 4 0)"
| "zero_of (OIPv6Src _) = CSetIPv6 (replicate 16 0)"
| "zero_of (OIPv6Dst _) = CSetIPv6 (replicate 16 0)"
| "zero_of (ORSS _) = CRss \<lparr>rss_func = 0, level = 0, rss_types = 0, key_len = 0, queue_num = 0, rss_key = 0, rss_queue = 0\<rparr>"
| "zero_of (OVxlanEncap _ _ _ _) = CEncap []"
| "zero_of (OSample _ _) = CSample 0 []"

text \<open>The actions with one field: the structure must be the one of the action.\<close>

definition ActionQueue_Reload :: "u16 \<Rightarrow> cstruct \<Rightarrow> cstruct option" where
  "ActionQueue_Reload i s = (case s of CQueue _ \<Rightarrow> Some (CQueue i) | _ \<Rightarrow> None)"

definition ActionJump_Reload :: "u32 \<Rightarrow> cstruct \<Rightarrow> cstruct option" where
  "ActionJump_Reload g s = (case s of CJump _ \<Rightarrow> Some (CJump g) | _ \<Rightarrow> None)"

definition ActionCount_Reload :: "u32 \<Rightarrow> cstruct \<Rightarrow> cstruct option" where
  "ActionCount_Reload i s = (case s of CCount _ \<Rightarrow> Some (CCount i) | _ \<Rightarrow> None)"

definition ActionPortID_Reload :: "u32 \<Rightarrow> cstruct \<Rightarrow> cstruct option" where
  "ActionPortID_Reload i s = (case s of CPortID _ \<Rightarrow> Some (CPortID i) | _ \<Rightarrow> None)"

definition ActionMeter_Reload :: "u32 \<Rightarrow> cstruct \<Rightarrow> cstruct option" where
  "ActionMeter_Reload i s = (case s of CMeter _ \<Rightarrow> Some (CMeter i) | _ \<Rightarrow> None)"

definition ActionIPv4Src_Reload :: "byte list \<Rightarrow> cstruct \<Rightarrow> cstruct option" where
  "ActionIPv4Src_Reload a s = (case s of CSetIPv4 _ \<Rightarrow> Some (CSetIPv4 a) | _ \<Rightarrow> None)"

definition ActionIPv4Dst_Reload :: "byte list \<Rightarrow> cstruct \<Rightarrow> cstruct option" where
  "ActionIPv4Dst_Reload a s = (case s of CSetIPv4 _ \<Rightarrow> Some (CSetIPv4 a) | _ \<Rightarrow> None)"

definition ActionIPv6Src_Reload :: "byte list \<Rightarrow> cstruct \<Rightarrow> cstruct option" where
  "ActionIPv6Src_Reload a s = (case s of CSetIPv6 _ \<Rightarrow> Some (CSetIPv6 a) | _ \<Rightarrow> None)"

definition ActionIPv6Dst_Reload :: "byte list \<Rightarrow> cstruct \<Rightarrow> cstruct option" where
  "ActionIPv6Dst_Reload a s = (case s of CSetIPv6 _ \<Rightarrow> Some (CSetIPv6 a) | _ \<Rightarrow> None)"

definition ActionMacSrc_Reload :: "byte list \<Rightarrow> cstruct \<Rightarrow> cstruct option" where
  "ActionMacSrc_Reload m s = (case s of CMac _ \<Rightarrow> map_option CMac (set_mac m) | _ \<Rightarrow> None)"

definition ActionMacDst_Reload :: "byte list \<Rightarrow> cstruct \<Rightarrow> cstruct option" where
  "ActionMacDst_Reload m s = (case s of CMac _ \<Rightarrow> map_option CMac (set_mac m) | _ \<Rightarrow> None)"

definition ItemIPv4_Reload :: "IPv4Header \<Rightarrow> cstruct \<Rightarrow> cstruct option" where
  "ItemIPv4_Reload h s = (case s of CIPv4 c \<Rightarrow> Some (CIPv4 (cvtIPv4Header h c)) | _ \<Rightarrow> None)"

definition ItemIPv6_Reload :: "IPv6Header \<Rightarrow> cstruct \<Rightarrow> cstruct option" where
  "ItemIPv6_Reload h s = (case s of CIPv6 c \<Rightarrow> Some (CIPv6 (cvtIPv6Header h c)) | _ \<Rightarrow> None)"

definition ItemTCP_Reload :: "TCPHdr \<Rightarrow> cstruct \<Rightarrow> cstruct option" where
  "ItemTCP_Reload h s = (case s of CTCP c \<Rightarrow> Some (CTCP (cvtTCPHeader h c)) | _ \<Rightarrow> None)"

definition ItemUDP_Reload :: "UDPHeader \<Rightarrow> cstruct \<Rightarrow> cstruct option" where
  "ItemUDP_Reload h s = (case s of CUDP c \<Rightarrow> Some (CUDP (cvtUDPHeader h c)) | _ \<Rightarrow> None)"

text \<open>
  The body of \<^verbatim>\<open>Reload\<close> for the objects whose structure holds their fields: the new
  structure from the old one.
\<close>

fun write_struct :: "flow_obj \<Rightarrow> cstruct \<Rightarrow> cstruct option" where
  "write_struct (OEth i) s = (case s of CEth c \<Rightarrow> Some (CEth (ItemEth_Reload i c)) | _ \<Rightarrow> None)"
| "write_struct (OIPv4 h) s = ItemIPv4_Reload h s"
| "write_struct (OIPv6 h) s = ItemIPv6_Reload h s"
| "write_struct (OTCP h) s = ItemTCP_Reload h s"
| "write_struct (OUDP h) s = ItemUDP_Reload h s"
| "write_struct (OVlan i) s = (case s of CVlan c \<Rightarrow> Some (CVlan (ItemVlan_Reload i c)) | _ \<Rightarrow> None)"
| "write_struct (OVXLAN v) s = (case s of CVxlan c \<Rightarrow> Some (CVxlan (ItemVXLAN_Reload v c)) | _ \<Rightarrow> None)"
| "write_struct (OVXLAN2 v) s = (case s of CVxlan c \<Rightarrow> Some (CVxlan (ItemVXLAN2_Reload v c)) | _ \<Rightarrow> None)"
| "write_struct (OQueue i) s = ActionQueue_Reload i s"
| "write_struct (OJump g) s = ActionJump_Reload g s"
| "write_struct (OCount i) s = ActionCount_Reload i s"
| "write_struct (OPortID i) s = ActionPortID_Reload i s"
| "write_struct (OMeter i) s = ActionMeter_Reload i s"
| "write_struct (OMacSrc m) s = ActionMacSrc_Reload m s"
| "write_struct (OMacDst m) s = ActionMacDst_Reload m s"
| "write_struct (OIPv4Src a) s = ActionIPv4Src_Reload a s"
| "write_struct (OIPv4Dst a) s = ActionIPv4Dst_Reload a s"
| "write_struct (OIPv6Src a) s = ActionIPv6Src_Reload a s"
| "write_struct (OIPv6Dst a) s = ActionIPv6Dst_Reload a s"
| "write_struct (ORSS _) s = None"
| "write_struct (OVxlanEncap _ _ _ _) s = None"
| "write_struct (OSample _ _) s = None"

lemmas reload_defs = ItemEth_Reload_def setAddr_def ItemVlan_Reload_def ItemVXLAN_Reload_def ItemVXLAN2_Reload_def set_mac_def
  cvtIPv4Header_def cvtIPv6Header_def cvtTCPHeader_def cvtUDPHeader_def
  ActionQueue_Reload_def ActionJump_Reload_def ActionCount_Reload_def ActionPortID_Reload_def ActionMeter_Reload_def ActionIPv4Src_Reload_def ActionIPv4Dst_Reload_def ActionIPv6Src_Reload_def ActionIPv6Dst_Reload_def ActionMacSrc_Reload_def ActionMacDst_Reload_def ItemIPv4_Reload_def ItemIPv6_Reload_def ItemTCP_Reload_def ItemUDP_Reload_def

definition createOrRet :: "(cheap \<Rightarrow> cptr) \<Rightarrow> cstruct \<Rightarrow> cptr \<Rightarrow> cheap \<Rightarrow> cptr \<times> cheap" where
  "createOrRet malloc z p h = (if p = 0 then let a = malloc h in (a, h(a \<mapsto> z)) else (p, h))"

definition cfree :: "cptr \<Rightarrow> cheap \<Rightarrow> cheap" where
  "cfree p h = (if p = 0 then h else h(p := None))"

text \<open>\<^verbatim>\<open>ActionRSS.Reload\<close> behind the allocation: queues and key get new blocks, the old ones are freed.\<close>

definition ActionRSS_Reload ::
    "(cheap \<Rightarrow> cptr) \<Rightarrow> ActionRSS \<Rightarrow> rte_flow_action_rss \<Rightarrow> cheap \<Rightarrow> rte_flow_action_rss \<times> cheap" where
  "ActionRSS_Reload malloc action c h =
     (let (c, h) = (if length (Queues action) > 0
            then let q = malloc h in
              (c\<lparr>queue_num := of_nat (length (Queues action)), rss_queue := q\<rparr>,
               cfree (rss_queue c) (h(q \<mapsto> CQueues (Queues action))))
            else (c, h));
          (c, h) = (if length (rss_Key action) > 0
            then let k = malloc h in
              (c\<lparr>key_len := of_nat (length (rss_Key action)), rss_key := k\<rparr>,
               cfree (rss_key c) (h(k \<mapsto> CKey (rss_Key action))))
            else (c, h))
      in (c\<lparr>level := Level action, rss_types := rss_Types action, rss_func := Func action\<rparr>, h))"

definition write_obj :: "(cheap \<Rightarrow> cptr) \<Rightarrow> flow_obj \<Rightarrow> cstruct \<Rightarrow> cheap \<Rightarrow> (cstruct \<times> cheap) option" where
  "write_obj malloc d s h = (case d of
     ORSS a \<Rightarrow> (case s of CRss c \<Rightarrow> (let (c, h) = ActionRSS_Reload malloc a c h in Some (CRss c, h)) | _ \<Rightarrow> None)
   | _ \<Rightarrow> map_option (\<lambda>s. (s, h)) (write_struct d s))"

definition reload_base :: "(cheap \<Rightarrow> cptr) \<Rightarrow> nat \<Rightarrow> flow_state \<Rightarrow> flow_state option" where
  "reload_base malloc r st = do {
     ob \<leftarrow> objs st r;
     let (p, h) = createOrRet malloc (zero_of (odata ob)) (ocptr ob) (cheap st);
     s \<leftarrow> h p;
     (s, h) \<leftarrow> write_obj malloc (odata ob) s h;
     Some (st\<lparr>objs := (objs st)(r \<mapsto> ob\<lparr>ocptr := p\<rparr>), cheap := h(p \<mapsto> s)\<rparr>) }"

section \<open>Patterns and action lists (src/ethdev/flow/flow.go)\<close>

text \<open>An interface value is a plain type number or a pointer to an object; nil is \<^term>\<open>None\<close>.\<close>

datatype iface = Plain u32 | Obj nat

record Item =
  Spec :: "iface option"
  Last :: "iface option"
  Mask :: "iface option"

record flow_consts =
  ItemTypeEth :: u32
  ItemTypeIPv4 :: u32
  ItemTypeIPv6 :: u32
  ItemTypeTCP :: u32
  ItemTypeUDP :: u32
  ItemTypeVlan :: u32
  ItemTypeVxlan :: u32
  ActionTypeQueue :: u32
  ActionTypeJump :: u32
  ActionTypeCount :: u32
  ActionTypePortID :: u32
  ActionTypeMeter :: u32
  ActionTypeSetMacSrc :: u32
  ActionTypeSetMacDst :: u32
  ActionTypeSetIPv4Src :: u32
  ActionTypeSetIPv4Dst :: u32
  ActionTypeSetIPv6Src :: u32
  ActionTypeSetIPv6Dst :: u32
  ActionTypeRss :: u32
  ActionTypeVxlanEncap :: u32
  ActionTypeSample :: u32

text \<open>The methods \<^verbatim>\<open>Type\<close>; the source checks at compile time that the END types are 0.\<close>

fun obj_type :: "flow_consts \<Rightarrow> flow_obj \<Rightarrow> u32" where
  "obj_type K (OEth _) = ItemTypeEth K"
| "obj_type K (OIPv4 _) = ItemTypeIPv4 K"
| "obj_type K (OIPv6 _) = ItemTypeIPv6 K"
| "obj_type K (OTCP _) = ItemTypeTCP K"
| "obj_type K (OUDP _) = ItemTypeUDP K"
| "obj_type K (OVlan _) = ItemTypeVlan K"
| "obj_type K (OVXLAN _) = ItemTypeVxlan K"
| "obj_type K (OVXLAN2 _) = ItemTypeVxlan K"
| "obj_type K (OQueue _) = ActionTypeQueue K"
| "obj_type K (OJump _) = ActionTypeJump K"
| "obj_type K (OCount _) = ActionTypeCount K"
| "obj_type K (OPortID _) = ActionTypePortID K"
| "obj_type K (OMeter _) = ActionTypeMeter K"
| "obj_type K (OMacSrc _) = ActionTypeSetMacSrc K"
| "obj_type K (OMacDst _) = ActionTypeSetMacDst K"
| "obj_type K (OIPv4Src _) = ActionTypeSetIPv4Src K"
| "obj_type K (OIPv4Dst _) = ActionTypeSetIPv4Dst K"
| "obj_type K (OIPv6Src _) = ActionTypeSetIPv6Src K"
| "obj_type K (OIPv6Dst _) = ActionTypeSetIPv6Dst K"
| "obj_type K (ORSS _) = ActionTypeRss K"
| "obj_type K (OVxlanEncap _ _ _ _) = ActionTypeVxlanEncap K"
| "obj_type K (OSample _ _) = ActionTypeSample K"

fun iface_type :: "flow_consts \<Rightarrow> flow_state \<Rightarrow> iface \<Rightarrow> u32 option" where
  "iface_type K st (Plain t) = Some t"
| "iface_type K st (Obj r) = map_option (\<lambda>ob. obj_type K (odata ob)) (objs st r)"

text \<open>\<^verbatim>\<open>Reload\<close> followed by \<^verbatim>\<open>Pointer\<close>; both do nothing on a plain type.\<close>

fun load :: "(nat \<Rightarrow> flow_state \<Rightarrow> flow_state option) \<Rightarrow> iface \<Rightarrow> flow_state \<Rightarrow> (cptr \<times> flow_state) option" where
  "load rl (Plain t) st = Some (0, st)"
| "load rl (Obj r) st = do { st \<leftarrow> rl r st; ob \<leftarrow> objs st r; Some (ocptr ob, st) }"

fun load_opt :: "(nat \<Rightarrow> flow_state \<Rightarrow> flow_state option) \<Rightarrow> iface option \<Rightarrow> flow_state \<Rightarrow> (cptr \<times> flow_state) option" where
  "load_opt rl None st = Some (0, st)"
| "load_opt rl (Some i) st = load rl i st"

definition item_END :: rte_flow_item where
  "item_END = \<lparr>item_type = 0, item_spec = 0, item_last = 0, item_mask = 0\<rparr>"

definition action_END :: rte_flow_action where
  "action_END = \<lparr>action_type = 0, action_conf = 0\<rparr>"

text \<open>The arrays have one element more than the slice, which stays zero.\<close>

fun cPattern ::
    "(nat \<Rightarrow> flow_state \<Rightarrow> flow_state option) \<Rightarrow> flow_consts \<Rightarrow> Item list \<Rightarrow> flow_state
     \<Rightarrow> (rte_flow_item list \<times> flow_state) option" where
  "cPattern rl K [] st = Some ([item_END], st)"
| "cPattern rl K (it # pattern) st = do {
     spec \<leftarrow> Spec it;
     typ \<leftarrow> iface_type K st spec;
     (s, st) \<leftarrow> load rl spec st;
     (m, st) \<leftarrow> load_opt rl (Mask it) st;
     (l, st) \<leftarrow> load_opt rl (Last it) st;
     (pat, st) \<leftarrow> cPattern rl K pattern st;
     Some (\<lparr>item_type = typ, item_spec = s, item_last = l, item_mask = m\<rparr> # pat, st) }"

fun cActions ::
    "(nat \<Rightarrow> flow_state \<Rightarrow> flow_state option) \<Rightarrow> flow_consts \<Rightarrow> iface option list \<Rightarrow> flow_state
     \<Rightarrow> (rte_flow_action list \<times> flow_state) option" where
  "cActions rl K [] st = Some ([action_END], st)"
| "cActions rl K (a # actions) st = do {
     a \<leftarrow> a;
     typ \<leftarrow> iface_type K st a;
     (c, st) \<leftarrow> load rl a st;
     (act, st) \<leftarrow> cActions rl K actions st;
     Some (\<lparr>action_type = typ, action_conf = c\<rparr> # act, st) }"

text \<open>
  \<^verbatim>\<open>Reload\<close> of every object.  The encapsulation and sample actions lay out the items and
  actions embedded in them.
\<close>

definition own_struct :: "(cheap \<Rightarrow> cptr) \<Rightarrow> nat \<Rightarrow> flow_object \<Rightarrow> flow_state \<Rightarrow> cptr \<times> flow_state" where
  "own_struct malloc r ob st =
     (let (p, h) = createOrRet malloc (zero_of (odata ob)) (ocptr ob) (cheap st)
      in (p, st\<lparr>objs := (objs st)(r \<mapsto> ob\<lparr>ocptr := p\<rparr>), cheap := h\<rparr>))"

definition ActionVxlanEncap_Reload ::
    "(cheap \<Rightarrow> cptr) \<Rightarrow> flow_consts \<Rightarrow> nat \<Rightarrow> flow_object \<Rightarrow> nat list \<Rightarrow> flow_state \<Rightarrow> flow_state option" where
  "ActionVxlanEncap_Reload malloc K r ob rs st = do {
     let (p, st) = own_struct malloc r ob st;
     (pat, st) \<leftarrow> cPattern (reload_base malloc) K (map (\<lambda>i. \<lparr>Spec = Some (Obj i), Last = None, Mask = None\<rparr>) rs) st;
     Some (st\<lparr>cheap := (cheap st)(p \<mapsto> CEncap pat)\<rparr>) }"

definition ActionSample_Reload ::
    "(cheap \<Rightarrow> cptr) \<Rightarrow> flow_consts \<Rightarrow> nat \<Rightarrow> flow_object \<Rightarrow> u32 \<Rightarrow> nat \<Rightarrow> flow_state \<Rightarrow> flow_state option" where
  "ActionSample_Reload malloc K r ob ratio a st = do {
     let (p, st) = own_struct malloc r ob st;
     (act, st) \<leftarrow> cActions (reload_base malloc) K [Some (Obj a)] st;
     Some (st\<lparr>cheap := (cheap st)(p \<mapsto> CSample ratio act)\<rparr>) }"

definition Reload :: "(cheap \<Rightarrow> cptr) \<Rightarrow> flow_consts \<Rightarrow> nat \<Rightarrow> flow_state \<Rightarrow> flow_state option" where
  "Reload malloc K r st = do {
     ob \<leftarrow> objs st r;
     (case odata ob of
        OVxlanEncap e i u v \<Rightarrow> ActionVxlanEncap_Reload malloc K r ob [e, i, u, v] st
      | OSample ratio a \<Rightarrow> ActionSample_Reload malloc K r ob ratio a st
      | _ \<Rightarrow> reload_base malloc r st) }"

section \<open>Attributes, rules and errors\<close>

record Attr =
  attr_Group :: u32
  attr_Priority :: u32
  attr_Ingress :: bool
  attr_Egress :: bool
  attr_Transfer :: bool

record rte_flow_attr =
  group :: u32
  priority :: u32
  ingress :: "1 word"
  egress :: "1 word"
  transfer :: "1 word"

definition cvtAttr :: "Attr \<Rightarrow> rte_flow_attr" where
  "cvtAttr a =
     (let out = \<lparr>group = attr_Group a, priority = attr_Priority a, ingress = 0, egress = 0, transfer = 0\<rparr>;
          out = (if attr_Ingress a then out\<lparr>ingress := 1\<rparr> else out);
          out = (if attr_Egress a then out\<lparr>egress := 1\<rparr> else out)
      in if attr_Transfer a then out\<lparr>transfer := 1\<rparr> else out)"

text \<open>
  The rule functions of the library, on a world \<open>'w\<close>; they read the C heap.  \<open>rte_flow_create\<close>
  returns a handle or sets \<^verbatim>\<open>rte_errno\<close>.
\<close>

record rte_flow_query_count =
  count_reset :: bool
  hits_set :: bool
  bytes_set :: bool
  count_hits :: u64
  count_bytes :: u64

datatype count_action = CountAction rte_flow_query_count | EndAction

record 'w flow_api =
  rte_flow_create :: "u16 \<Rightarrow> rte_flow_attr \<Rightarrow> rte_flow_item list \<Rightarrow> rte_flow_action list \<Rightarrow> cheap \<Rightarrow> 'w \<Rightarrow> (int + addr) \<times> 'w"
  rte_flow_validate :: "u16 \<Rightarrow> rte_flow_attr \<Rightarrow> rte_flow_item list \<Rightarrow> rte_flow_action list \<Rightarrow> cheap \<Rightarrow> 'w \<Rightarrow> int"
  rte_flow_destroy :: "u16 \<Rightarrow> addr \<Rightarrow> 'w \<Rightarrow> int \<times> 'w"
  rte_flow_flush :: "u16 \<Rightarrow> 'w \<Rightarrow> int \<times> 'w"
  rte_flow_isolate :: "u16 \<Rightarrow> 32 word \<Rightarrow> 'w \<Rightarrow> int \<times> 'w"
  rte_flow_query :: "u16 \<Rightarrow> addr \<Rightarrow> count_action list \<Rightarrow> rte_flow_query_count \<Rightarrow> 'w \<Rightarrow> int \<times> rte_flow_query_count"

definition Create ::
    "rte_errnos \<Rightarrow> 'w flow_api \<Rightarrow> (cheap \<Rightarrow> cptr) \<Rightarrow> flow_consts \<Rightarrow> u16 \<Rightarrow> Attr \<Rightarrow> Item list \<Rightarrow> iface option list
     \<Rightarrow> flow_state \<times> 'w \<Rightarrow> ((addr \<times> error) \<times> flow_state \<times> 'w) option" where
  "Create c A malloc K port attr pattern actions = (\<lambda>(st, w). do {
     (pat, st) \<leftarrow> cPattern (Reload malloc K) K pattern st;
     (act, st) \<leftarrow> cActions (Reload malloc K) K actions st;
     (case rte_flow_create A port (cvtAttr attr) pat act (cheap st) w of
        (Inl e, w) \<Rightarrow> Some ((nil, RteErrno c e), st, w)
      | (Inr f, w) \<Rightarrow> Some ((f, None), st, w)) })"

definition Validate ::
    "rte_errnos \<Rightarrow> 'w flow_api \<Rightarrow> (cheap \<Rightarrow> cptr) \<Rightarrow> flow_consts \<Rightarrow> u16 \<Rightarrow> Attr \<Rightarrow> Item list \<Rightarrow> iface option list
     \<Rightarrow> flow_state \<times> 'w \<Rightarrow> (error \<times> flow_state) option" where
  "Validate c A malloc K port attr pattern actions = (\<lambda>(st, w). do {
     (pat, st) \<leftarrow> cPattern (Reload malloc K) K pattern st;
     (act, st) \<leftarrow> cActions (Reload malloc K) K actions st;
     Some (IntToErr c (rte_flow_validate A port (cvtAttr attr) pat act (cheap st) w), st) })"

definition Destroy :: "rte_errnos \<Rightarrow> 'w flow_api \<Rightarrow> u16 \<Rightarrow> addr \<Rightarrow> 'w \<Rightarrow> error \<times> 'w" where
  "Destroy c A port flow w = (let (rc, w) = rte_flow_destroy A port flow w in (IntToErr c rc, w))"

definition Flush :: "rte_errnos \<Rightarrow> 'w flow_api \<Rightarrow> u16 \<Rightarrow> 'w \<Rightarrow> error \<times> 'w" where
  "Flush c A port w = (let (rc, w) = rte_flow_flush A port w in (IntToErr c rc, w))"

definition Isolate :: "rte_errnos \<Rightarrow> 'w flow_api \<Rightarrow> u16 \<Rightarrow> int \<Rightarrow> 'w \<Rightarrow> error \<times> 'w" where
  "Isolate c A port set1 w = (let (rc, w) = rte_flow_isolate A port (word_of_int set1) w in (IntToErr c rc, w))"

text \<open>The C helper behind \<^verbatim>\<open>Query\<close> zeroes the counters when the library reports an error.\<close>

definition g_flow_query_count :: rte_flow_query_count where
  "g_flow_query_count = \<lparr>count_reset = False, hits_set = True, bytes_set = True, count_hits = 0, count_bytes = 0\<rparr>"

definition zero_count :: rte_flow_query_count where
  "zero_count = \<lparr>count_reset = False, hits_set = False, bytes_set = False, count_hits = 0, count_bytes = 0\<rparr>"

definition bec_rte_flow_query_count :: "'w flow_api \<Rightarrow> u16 \<Rightarrow> addr \<Rightarrow> 'w \<Rightarrow> int \<times> (u64 \<times> u64)" where
  "bec_rte_flow_query_count A port_id flow w =
     (let (ret, count) = rte_flow_query A port_id flow [CountAction g_flow_query_count, EndAction] zero_count w
      in if ret = 0 then (ret, count_hits count, count_bytes count) else (ret, 0, 0))"

definition Query :: "rte_errnos \<Rightarrow> 'w flow_api \<Rightarrow> u16 \<Rightarrow> addr \<Rightarrow> 'w \<Rightarrow> error \<times> (u64 \<times> u64)" where
  "Query c A port flow w = (let (rc, stats) = bec_rte_flow_query_count A port flow w in (IntToErr c rc, stats))"

text \<open>\<^verbatim>\<open>registerErr\<close> fills the table of messages; the codes come from C.\<close>

definition registerErr :: "u64 \<Rightarrow> string \<Rightarrow> (u64 \<rightharpoonup> string) \<Rightarrow> u64 \<rightharpoonup> string" where
  "registerErr code str errStr = errStr(code \<mapsto> str)"

definition err_texts :: "string list" where
  "err_texts = [''No error'', ''Cause unspecified'', ''Flow rule (handle)'', ''Group field'', ''Priority field'',
     ''Ingress field'', ''Egress field'', ''Transfer field'', ''Attributes structure'', ''Pattern length'',
     ''Item specification spec'', ''Item specification range'', ''Item specification mask'', ''Specific pattern item'',
     ''Number of actions'', ''Action configuration'', ''Specific action'']"

definition errStr :: "u64 list \<Rightarrow> u64 \<rightharpoonup> string" where
  "errStr codes = fold (\<lambda>(code, str). registerErr code str) (zip codes err_texts) Map.empty"

definition ErrorType_Error :: "u64 list \<Rightarrow> u64 \<Rightarrow> string" where
  "ErrorType_Error codes e = (case errStr codes e of Some s \<Rightarrow> s | None \<Rightarrow> [])"

definition Error_Error :: "u64 list \<Rightarrow> u64 \<Rightarrow> string \<Rightarrow> string" where
  "Error_Error codes typ message = ErrorType_Error codes typ @ '': '' @ message"

end
