(* ===== verification/Flow_Rules.thy ===== *)
theory Flow_Rules
  imports Flow
begin

text \<open>
  Correctness of the layout of flow rules: every object owns its C structures, reloading one
  object leaves the structures of all others alone, and the arrays handed to the library are
  terminated and point to structures that hold what the objects say.
\<close>

section \<open>What a structure says\<close>

definition be_nat :: "byte list \<Rightarrow> nat" where
  "be_nat bs = foldl (\<lambda>n b. 256 * n + unat b) 0 bs"

text \<open>\<open>n\<close> as two bytes in network order.\<close>

definition net16 :: "u16 \<Rightarrow> byte list \<Rightarrow> bool" where
  "net16 n bs \<longleftrightarrow> length bs = 2 \<and> be_nat bs = unat n"




section \<open>Ownership\<close>












section \<open>Frame\<close>






section \<open>Reloading one object\<close>








lemma unat_byte: "unat (ucast (drop_bit n x) :: byte) = unat x div 2 ^ n mod 256"
proof -
  have "unat (drop_bit n x) = drop_bit n (unat x)"
    using unat_mod_small [of x] by (simp only: unsigned_drop_bit_eq take_bit_nat_eq_self)
  then show ?thesis by (simp only: unsigned_ucast_eq take_bit_eq_mod drop_bit_eq_div) simp
qed

lemma be_nat_beU16: "be_nat (beU16 n) = unat n"
  using unat_mod_small [of n] unat_byte [of 8 n] unat_byte [of 0 n]
  by (simp add: be_nat_def beU16_def div_less_iff_less_mult)

lemma net16_beU16 [simp]: "net16 n (beU16 n)"
  by (simp add: net16_def be_nat_beU16) (simp add: beU16_def)


















section \<open>Patterns and action lists\<close>




















section \<open>Composite actions\<close>








section \<open>Properties\<close>

text \<open>Fields that never reach the library, and the byte order of the VXLAN item.\<close>

lemma ItemEth_keeps_old_address: "eth_src (ItemEth_Reload (i\<lparr>ie_Src := []\<rparr>) c) = eth_src c"
  by (simp add: ItemEth_Reload_def)

lemma cvtIPv6Header_drops:
  "vtc_flow (cvtIPv6Header h c) = vtc_flow c" "payload_len (cvtIPv6Header h c) = payload_len c"
  "hop_limits (cvtIPv6Header h c) = hop_limits c"
  by (simp_all add: cvtIPv6Header_def)

lemma ItemVXLAN_reversed: "be_nat (take 3 (vx_vni (ItemVXLAN_Reload 1 c))) = 65536"
proof -
  have "take 3 (le32 1) = [1, 0, 0 :: byte]" by code_simp
  then show ?thesis by (simp add: ItemVXLAN_Reload_def be_nat_def)
qed






end
