(* ===== verification/Transformers.thy ===== *)
theory Transformers
  imports Errors Memory
begin

text \<open>
  Parameter structures of the packet framework: \<^verbatim>\<open>common.Transformer\<close> and its implementations
  in src/port and src/table.  A Go configuration is copied into a C structure together with
  the strings it points to, one C function is called on it, and a destructor frees all of it.

  C memory is a map from pointers (0 is NULL) to blocks; a block is a structure, known by
  the values of its fields, or an array of bytes.  A structure that has just been allocated
  has no field values: reading a field before it is written gives None, as does freeing a
  pointer that is not allocated.  \<open>malloc\<close> is an argument; \<^verbatim>\<open>StdAlloc.Malloc\<close> calls
  \<^verbatim>\<open>C.malloc\<close>, which does not return NULL under cgo.  Pointers to objects of other packages
  (rings, pools, functions) are addresses.
\<close>

section \<open>Blocks\<close>

type_synonym pptr = nat

datatype field = Fld string | Elem string nat string

datatype cval = V8 u8 | V16 u16 | V32 u32 | V64 u64 | Ext addr | Ptr pptr

datatype block = CFields "field \<rightharpoonup> cval" | CChars "byte list"

type_synonym pheap = "pptr \<rightharpoonup> block"

definition new_block :: "(pheap \<Rightarrow> pptr) \<Rightarrow> block \<Rightarrow> pheap \<Rightarrow> pptr \<times> pheap" where
  "new_block malloc b h = (let p = malloc h in (p, h(p \<mapsto> b)))"

definition Free :: "pptr \<Rightarrow> pheap \<Rightarrow> pheap option" where
  "Free p h = (if p = 0 then Some h else if h p = None then None else Some (h(p := None)))"

definition set_fields :: "pptr \<Rightarrow> (field \<times> cval) list \<Rightarrow> pheap \<Rightarrow> pheap option" where
  "set_fields p fs h = (case h p of
     Some (CFields s) \<Rightarrow> Some (h(p \<mapsto> CFields (fold (\<lambda>(f, v) s. s(f \<mapsto> v)) fs s)))
   | _ \<Rightarrow> None)"

definition get_ptr :: "pptr \<Rightarrow> field \<Rightarrow> pheap \<Rightarrow> pptr option" where
  "get_ptr p f h = (case h p of
     Some (CFields s) \<Rightarrow> (case s f of Some (Ptr q) \<Rightarrow> Some q | _ \<Rightarrow> None)
   | _ \<Rightarrow> None)"

text \<open>\<^verbatim>\<open>alloc.Malloc(unsafe.Sizeof(*params))\<close>, \<^verbatim>\<open>CString\<close>, \<^verbatim>\<open>CBytes\<close> and \<^verbatim>\<open>TransformPOD\<close> on blocks.\<close>

definition new_struct :: "(pheap \<Rightarrow> pptr) \<Rightarrow> pheap \<Rightarrow> pptr \<times> pheap" where
  "new_struct malloc h = new_block malloc (CFields Map.empty) h"

definition new_string :: "(pheap \<Rightarrow> pptr) \<Rightarrow> byte list \<Rightarrow> pheap \<Rightarrow> pptr \<times> pheap" where
  "new_string malloc s h = new_block malloc (CChars (s @ [0])) h"

definition new_bytes :: "(pheap \<Rightarrow> pptr) \<Rightarrow> byte list \<Rightarrow> pheap \<Rightarrow> pptr \<times> pheap" where
  "new_bytes malloc b h = new_block malloc (CChars b) h"

definition new_pod :: "(pheap \<Rightarrow> pptr) \<Rightarrow> (field \<times> cval) list \<Rightarrow> pheap \<Rightarrow> (pptr \<times> pheap) option" where
  "new_pod malloc fs h = Some (new_block malloc (CFields (fold (\<lambda>(f, v) s. s(f \<mapsto> v)) fs Map.empty)) h)"

text \<open>The destructors free the blocks behind the given fields, then the structure.\<close>

definition free_struct :: "field list \<Rightarrow> pptr \<Rightarrow> pheap \<Rightarrow> pheap option" where
  "free_struct fs p h = do {
     h \<leftarrow> fold (\<lambda>f r. do { h \<leftarrow> r; q \<leftarrow> get_ptr p f h; Free q h }) fs (Some h);
     Free p h }"

text \<open>
  \<^verbatim>\<open>arg, dtor := p.Transform(alloc); defer dtor(arg); return C.f(arg)\<close>: the C function reads
  the blocks and acts on the world \<open>'w\<close>.
\<close>

definition with_arg ::
  "(pheap \<Rightarrow> (pptr \<times> pheap) option) \<Rightarrow> (pptr \<Rightarrow> pheap \<Rightarrow> pheap option) \<Rightarrow>
   (pptr \<Rightarrow> pheap \<Rightarrow> 'w \<Rightarrow> 'r \<times> 'w) \<Rightarrow> pheap \<Rightarrow> 'w \<Rightarrow> ('r \<times> pheap \<times> 'w) option" where
  "with_arg transform dtor call h w = do {
     (arg, h) \<leftarrow> transform h;
     let (r, w) = call arg h w;
     h \<leftarrow> dtor arg h;
     Some (r, h, w) }"

section \<open>Ports (src/port)\<close>

record RingRx =
  rr_Ring :: addr
  rr_Multi :: bool

record RingTx =
  rt_Ring :: addr
  rt_TxBurstSize :: u32
  rt_Multi :: bool
  rt_NoDrop :: bool
  rt_Retries :: u32

record EthdevRx =
  er_PortID :: u16
  er_QueueID :: u16

record EthdevTx =
  et_PortID :: u16
  et_QueueID :: u16
  et_TxBurstSize :: u32
  et_NoDrop :: bool
  et_Retries :: u32

record FdRx =
  fr_Mempool :: addr
  fr_Fd :: u64
  fr_MTU :: u32

record FdTx =
  ft_Fd :: u64
  ft_BurstSize :: u32
  ft_NoDrop :: bool
  ft_Retries :: u32

record Source =
  src_Mempool :: addr
  src_Filename :: "byte list"
  BytesPerPacket :: u32

record Sink =
  snk_Filename :: "byte list"
  MaxPackets :: u32

text \<open>The tables of functions are global variables of DPDK; a pointer to one is its name.\<close>

datatype in_ops =
    rte_port_ring_reader_ops | rte_port_ring_multi_reader_ops
  | rte_port_ethdev_reader_ops | rte_port_fd_reader_ops | rte_port_source_ops

datatype out_ops =
    rte_port_ring_writer_ops | rte_port_ring_multi_writer_ops
  | rte_port_ring_writer_nodrop_ops | rte_port_ring_multi_writer_nodrop_ops
  | rte_port_ethdev_writer_ops | rte_port_ethdev_writer_nodrop_ops
  | rte_port_fd_writer_ops | rte_port_fd_writer_nodrop_ops | rte_port_sink_ops

definition RingRx_InOps :: "RingRx \<Rightarrow> in_ops" where
  "RingRx_InOps rd = (if \<not> rr_Multi rd then rte_port_ring_reader_ops else rte_port_ring_multi_reader_ops)"

definition RingRx_Transform :: "(pheap \<Rightarrow> pptr) \<Rightarrow> RingRx \<Rightarrow> pheap \<Rightarrow> (pptr \<times> pheap) option" where
  "RingRx_Transform malloc rd = new_pod malloc [(Fld ''ring'', Ext (rr_Ring rd))]"

text \<open>Slicing and indexing of the array of operations; out of range would panic.\<close>

definition RingTx_OutOps :: "RingTx \<Rightarrow> out_ops option" where
  "RingTx_OutOps wr =
     (let ops = [rte_port_ring_writer_ops, rte_port_ring_multi_writer_ops,
                 rte_port_ring_writer_nodrop_ops, rte_port_ring_multi_writer_nodrop_ops];
          ops = (if rt_Multi wr then drop 1 ops else ops) in
      if rt_NoDrop wr \<and> length ops < 2 then None
      else let ops = (if rt_NoDrop wr then drop 2 ops else ops) in
      case ops of [] \<Rightarrow> None | op # _ \<Rightarrow> Some op)"

definition RingTx_Transform :: "(pheap \<Rightarrow> pptr) \<Rightarrow> RingTx \<Rightarrow> pheap \<Rightarrow> (pptr \<times> pheap) option" where
  "RingTx_Transform malloc wr = new_pod malloc
     [(Fld ''ring'', Ext (rt_Ring wr)), (Fld ''tx_burst_sz'', V32 (rt_TxBurstSize wr)),
      (Fld ''n_retries'', V32 (rt_Retries wr))]"

definition EthdevRx_Transform :: "(pheap \<Rightarrow> pptr) \<Rightarrow> EthdevRx \<Rightarrow> pheap \<Rightarrow> (pptr \<times> pheap) option" where
  "EthdevRx_Transform malloc p = new_pod malloc
     [(Fld ''port_id'', V16 (er_PortID p)), (Fld ''queue_id'', V16 (er_QueueID p))]"

definition EthdevTx_OutOps :: "EthdevTx \<Rightarrow> out_ops" where
  "EthdevTx_OutOps p = (if \<not> et_NoDrop p then rte_port_ethdev_writer_ops else rte_port_ethdev_writer_nodrop_ops)"

definition EthdevTx_Transform :: "(pheap \<Rightarrow> pptr) \<Rightarrow> EthdevTx \<Rightarrow> pheap \<Rightarrow> (pptr \<times> pheap) option" where
  "EthdevTx_Transform malloc p = new_pod malloc
     [(Fld ''port_id'', V16 (et_PortID p)), (Fld ''queue_id'', V16 (et_QueueID p)),
      (Fld ''tx_burst_sz'', V32 (et_TxBurstSize p)), (Fld ''n_retries'', V32 (et_Retries p))]"

definition FdRx_Transform :: "(pheap \<Rightarrow> pptr) \<Rightarrow> FdRx \<Rightarrow> pheap \<Rightarrow> (pptr \<times> pheap) option" where
  "FdRx_Transform malloc rd = new_pod malloc
     [(Fld ''fd'', V32 (ucast (fr_Fd rd))), (Fld ''mtu'', V32 (fr_MTU rd)),
      (Fld ''mempool'', Ext (fr_Mempool rd))]"

definition FdTx_OutOps :: "FdTx \<Rightarrow> out_ops" where
  "FdTx_OutOps wr = (if ft_NoDrop wr then rte_port_fd_writer_nodrop_ops else rte_port_fd_writer_ops)"

definition FdTx_Transform :: "(pheap \<Rightarrow> pptr) \<Rightarrow> FdTx \<Rightarrow> pheap \<Rightarrow> (pptr \<times> pheap) option" where
  "FdTx_Transform malloc wr = new_pod malloc
     [(Fld ''fd'', V32 (ucast (ft_Fd wr))), (Fld ''tx_burst_sz'', V32 (ft_BurstSize wr)),
      (Fld ''n_retries'', V32 (ft_Retries wr))]"

definition Source_Transform :: "(pheap \<Rightarrow> pptr) \<Rightarrow> Source \<Rightarrow> pheap \<Rightarrow> (pptr \<times> pheap) option" where
  "Source_Transform malloc rd h = do {
     let (params, h) = new_struct malloc h;
     h \<leftarrow> set_fields params [(Fld ''mempool'', Ext (src_Mempool rd)),
                             (Fld ''n_bytes_per_pkt'', V32 (BytesPerPacket rd))] h;
     if src_Filename rd \<noteq> [] then do {
       let (s, h) = new_string malloc (src_Filename rd) h;
       h \<leftarrow> set_fields params [(Fld ''file_name'', Ptr s)] h;
       Some (params, h) }
     else Some (params, h) }"

definition Source_dtor :: "pptr \<Rightarrow> pheap \<Rightarrow> pheap option" where
  "Source_dtor = free_struct [Fld ''file_name'']"

definition Sink_Transform :: "(pheap \<Rightarrow> pptr) \<Rightarrow> Sink \<Rightarrow> pheap \<Rightarrow> (pptr \<times> pheap) option" where
  "Sink_Transform malloc wr h = do {
     let (params, h) = new_struct malloc h;
     h \<leftarrow> set_fields params [(Fld ''max_n_pkts'', V32 (MaxPackets wr))] h;
     if snk_Filename wr \<noteq> [] then do {
       let (s, h) = new_string malloc (snk_Filename wr) h;
       h \<leftarrow> set_fields params [(Fld ''file_name'', Ptr s)] h;
       Some (params, h) }
     else Some (params, h) }"

definition Sink_dtor :: "pptr \<Rightarrow> pheap \<Rightarrow> pheap option" where
  "Sink_dtor = free_struct [Fld ''file_name'']"

text \<open>The interfaces \<^verbatim>\<open>InParams\<close> and \<^verbatim>\<open>OutParams\<close> over the implementations of the package.\<close>

datatype InParams = InRing RingRx | InEthdev EthdevRx | InFd FdRx | InSource Source

datatype OutParams = OutRing RingTx | OutEthdev EthdevTx | OutFd FdTx | OutSink Sink

fun InOps :: "InParams \<Rightarrow> in_ops" where
  "InOps (InRing rd) = RingRx_InOps rd"
| "InOps (InEthdev _) = rte_port_ethdev_reader_ops"
| "InOps (InFd _) = rte_port_fd_reader_ops"
| "InOps (InSource _) = rte_port_source_ops"

fun In_Transform :: "(pheap \<Rightarrow> pptr) \<Rightarrow> InParams \<Rightarrow> pheap \<Rightarrow> (pptr \<times> pheap) option" where
  "In_Transform malloc (InRing rd) = RingRx_Transform malloc rd"
| "In_Transform malloc (InEthdev p) = EthdevRx_Transform malloc p"
| "In_Transform malloc (InFd rd) = FdRx_Transform malloc rd"
| "In_Transform malloc (InSource rd) = Source_Transform malloc rd"

fun In_dtor :: "InParams \<Rightarrow> pptr \<Rightarrow> pheap \<Rightarrow> pheap option" where
  "In_dtor (InSource _) = Source_dtor"
| "In_dtor _ = Free"

fun OutOps :: "OutParams \<Rightarrow> out_ops option" where
  "OutOps (OutRing wr) = RingTx_OutOps wr"
| "OutOps (OutEthdev p) = Some (EthdevTx_OutOps p)"
| "OutOps (OutFd wr) = Some (FdTx_OutOps wr)"
| "OutOps (OutSink _) = Some rte_port_sink_ops"

fun Out_Transform :: "(pheap \<Rightarrow> pptr) \<Rightarrow> OutParams \<Rightarrow> pheap \<Rightarrow> (pptr \<times> pheap) option" where
  "Out_Transform malloc (OutRing wr) = RingTx_Transform malloc wr"
| "Out_Transform malloc (OutEthdev p) = EthdevTx_Transform malloc p"
| "Out_Transform malloc (OutFd wr) = FdTx_Transform malloc wr"
| "Out_Transform malloc (OutSink wr) = Sink_Transform malloc wr"

fun Out_dtor :: "OutParams \<Rightarrow> pptr \<Rightarrow> pheap \<Rightarrow> pheap option" where
  "Out_dtor (OutSink _) = Sink_dtor"
| "Out_dtor _ = Free"

text \<open>\<^verbatim>\<open>ops->f_create\<close> and \<^verbatim>\<open>ops->f_free\<close> are arguments; a port is an address, nil being a failure.\<close>

definition CreateIn ::
  "(in_ops \<Rightarrow> int \<Rightarrow> pptr \<Rightarrow> pheap \<Rightarrow> 'w \<Rightarrow> addr \<times> 'w) \<Rightarrow> (pheap \<Rightarrow> pptr) \<Rightarrow> u64 \<Rightarrow> InParams \<Rightarrow> pheap \<Rightarrow> 'w
    \<Rightarrow> (addr \<times> pheap \<times> 'w) option" where
  "CreateIn f_create malloc socket params =
     with_arg (In_Transform malloc params) (In_dtor params)
       (f_create (InOps params) (sint (ucast socket :: u32)))"

definition CreateOut ::
  "(out_ops \<Rightarrow> int \<Rightarrow> pptr \<Rightarrow> pheap \<Rightarrow> 'w \<Rightarrow> addr \<times> 'w) \<Rightarrow> (pheap \<Rightarrow> pptr) \<Rightarrow> u64 \<Rightarrow> OutParams \<Rightarrow> pheap \<Rightarrow> 'w
    \<Rightarrow> (addr \<times> pheap \<times> 'w) option" where
  "CreateOut f_create malloc socket params h w = do {
     ops \<leftarrow> OutOps params;
     with_arg (Out_Transform malloc params) (Out_dtor params)
       (f_create ops (sint (ucast socket :: u32))) h w }"

definition In_Free :: "rte_errnos \<Rightarrow> (in_ops \<Rightarrow> addr \<Rightarrow> 'w \<Rightarrow> int \<times> 'w) \<Rightarrow> addr \<Rightarrow> in_ops \<Rightarrow> 'w \<Rightarrow> error \<times> 'w" where
  "In_Free c f_free port inOps w = (let (rc, w) = f_free inOps port w in (IntErr c rc, w))"

definition Out_Free :: "rte_errnos \<Rightarrow> (out_ops \<Rightarrow> addr \<Rightarrow> 'w \<Rightarrow> int \<times> 'w) \<Rightarrow> addr \<Rightarrow> out_ops \<Rightarrow> 'w \<Rightarrow> error \<times> 'w" where
  "Out_Free c f_free port outOps w = (let (rc, w) = f_free outOps port w in (IntErr c rc, w))"

section \<open>Tables (src/table)\<close>

datatype table_ops =
    HashExtOps | HashLruOps | HashCuckooOps | LPMOps | LPM6Ops
  | rte_table_acl_ops | rte_table_array_ops | rte_table_stub_ops | OtherOps addr

record ACLFieldDef =
  fd_Type :: u8
  fd_Size :: u8
  FieldIndex :: u8
  InputIndex :: u8
  fd_Offset :: u32

record ACLParams =
  acl_Name :: "byte list"
  acl_Rules :: u32
  FieldFormat :: "ACLFieldDef list"

record ArrayParams =
  Entries :: u32
  arr_Offset :: u32

record HashParams =
  hash_TableOps :: table_ops
  hash_Name :: "byte list"
  KeySize :: u32
  KeyOffset :: u32
  KeyMask :: "byte list"
  KeysNum :: u32
  BucketsNum :: u32
  Hash_Func :: addr
  Hash_Seed :: u64
  CuckooHash_Func :: addr
  CuckooHash_Seed :: u32

record LPMParams =
  lpm_TableOps :: table_ops
  lpm_Name :: "byte list"
  lpm_Rules :: u32
  NumTBL8 :: u32
  EntryUniqueSize :: u32
  lpm_Offset :: u32

text \<open>
  The number of fields an ACL parameter block has room for (\<^verbatim>\<open>RTE_ACL_MAX_FIELDS\<close>) is the
  argument \<open>max_fields\<close>.  The panic on excessive fields comes after the allocation.
\<close>

definition acl_field :: "nat \<times> ACLFieldDef \<Rightarrow> (field \<times> cval) list" where
  "acl_field = (\<lambda>(i, src).
     [(Elem ''field_format'' i ''type'', V8 (fd_Type src)), (Elem ''field_format'' i ''size'', V8 (fd_Size src)),
      (Elem ''field_format'' i ''field_index'', V8 (FieldIndex src)),
      (Elem ''field_format'' i ''input_index'', V8 (InputIndex src)),
      (Elem ''field_format'' i ''offset'', V32 (fd_Offset src))])"

definition ACLParams_Transform ::
  "nat \<Rightarrow> (pheap \<Rightarrow> pptr) \<Rightarrow> ACLParams \<Rightarrow> pheap \<Rightarrow> (pptr \<times> pheap) option" where
  "ACLParams_Transform max_fields malloc p h = do {
     let (params, h) = new_struct malloc h;
     if length (FieldFormat p) > max_fields then None else do {
       let (name, h) = new_string malloc (acl_Name p) h;
       h \<leftarrow> set_fields params
         ([(Fld ''name'', Ptr name), (Fld ''n_rules'', V32 (acl_Rules p)),
           (Fld ''n_rule_fields'', V32 (of_nat (length (FieldFormat p))))] @
          concat (map acl_field (enumerate 0 (FieldFormat p)))) h;
       Some (params, h) } }"

definition ArrayParams_Transform :: "(pheap \<Rightarrow> pptr) \<Rightarrow> ArrayParams \<Rightarrow> pheap \<Rightarrow> (pptr \<times> pheap) option" where
  "ArrayParams_Transform malloc p = new_pod malloc
     [(Fld ''n_entries'', V32 (Entries p)), (Fld ''offset'', V32 (arr_Offset p))]"

definition tformToOrdinary :: "(pheap \<Rightarrow> pptr) \<Rightarrow> HashParams \<Rightarrow> pheap \<Rightarrow> (pptr \<times> pheap) option" where
  "tformToOrdinary malloc p h = do {
     let (params, h) = new_struct malloc h;
     let (name, h) = new_string malloc (hash_Name p) h;
     h \<leftarrow> set_fields params [(Fld ''name'', Ptr name), (Fld ''key_size'', V32 (KeySize p)),
                             (Fld ''key_offset'', V32 (KeyOffset p))] h;
     let (mask1, h) = new_bytes malloc (KeyMask p) h;
     h \<leftarrow> set_fields params [(Fld ''key_mask'', Ptr mask1), (Fld ''n_keys'', V32 (KeysNum p)),
                             (Fld ''n_buckets'', V32 (BucketsNum p)), (Fld ''f_hash'', Ext (Hash_Func p)),
                             (Fld ''seed'', V64 (Hash_Seed p))] h;
     Some (params, h) }"

definition tformToCuckoo :: "(pheap \<Rightarrow> pptr) \<Rightarrow> HashParams \<Rightarrow> pheap \<Rightarrow> (pptr \<times> pheap) option" where
  "tformToCuckoo malloc p h = do {
     let (params, h) = new_struct malloc h;
     let (name, h) = new_string malloc (hash_Name p) h;
     h \<leftarrow> set_fields params [(Fld ''name'', Ptr name), (Fld ''key_size'', V32 (KeySize p)),
                             (Fld ''key_offset'', V32 (KeyOffset p))] h;
     let (mask1, h) = new_bytes malloc (KeyMask p) h;
     h \<leftarrow> set_fields params [(Fld ''key_mask'', Ptr mask1), (Fld ''n_keys'', V32 (KeysNum p)),
                             (Fld ''n_buckets'', V32 (BucketsNum p)), (Fld ''f_hash'', Ext (CuckooHash_Func p)),
                             (Fld ''seed'', V32 (CuckooHash_Seed p))] h;
     Some (params, h) }"

definition HashParams_Transform :: "(pheap \<Rightarrow> pptr) \<Rightarrow> HashParams \<Rightarrow> pheap \<Rightarrow> (pptr \<times> pheap) option" where
  "HashParams_Transform malloc p h = (case hash_TableOps p of
     HashExtOps \<Rightarrow> tformToOrdinary malloc p h
   | HashLruOps \<Rightarrow> tformToOrdinary malloc p h
   | HashCuckooOps \<Rightarrow> tformToCuckoo malloc p h
   | _ \<Rightarrow> None)"

definition tformTo4 :: "(pheap \<Rightarrow> pptr) \<Rightarrow> LPMParams \<Rightarrow> pheap \<Rightarrow> (pptr \<times> pheap) option" where
  "tformTo4 malloc p h = do {
     let (params, h) = new_struct malloc h;
     let (name, h) = new_string malloc (lpm_Name p) h;
     h \<leftarrow> set_fields params [(Fld ''name'', Ptr name), (Fld ''number_tbl8s'', V32 (NumTBL8 p)),
                             (Fld ''n_rules'', V32 (lpm_Rules p)),
                             (Fld ''entry_unique_size'', V32 (EntryUniqueSize p)),
                             (Fld ''offset'', V32 (lpm_Offset p))] h;
     Some (params, h) }"

text \<open>The IPv6 block is another C type with fields of the same names.\<close>

definition tformTo6 :: "(pheap \<Rightarrow> pptr) \<Rightarrow> LPMParams \<Rightarrow> pheap \<Rightarrow> (pptr \<times> pheap) option" where
  "tformTo6 malloc p h = do {
     let (params, h) = new_struct malloc h;
     let (name, h) = new_string malloc (lpm_Name p) h;
     h \<leftarrow> set_fields params [(Fld ''name'', Ptr name), (Fld ''number_tbl8s'', V32 (NumTBL8 p)),
                             (Fld ''n_rules'', V32 (lpm_Rules p)),
                             (Fld ''entry_unique_size'', V32 (EntryUniqueSize p)),
                             (Fld ''offset'', V32 (lpm_Offset p))] h;
     Some (params, h) }"

definition LPMParams_Transform :: "(pheap \<Rightarrow> pptr) \<Rightarrow> LPMParams \<Rightarrow> pheap \<Rightarrow> (pptr \<times> pheap) option" where
  "LPMParams_Transform malloc p h = (case lpm_TableOps p of
     LPMOps \<Rightarrow> tformTo4 malloc p h
   | LPM6Ops \<Rightarrow> tformTo6 malloc p h
   | _ \<Rightarrow> None)"

definition StubParams_Transform :: "pheap \<Rightarrow> (pptr \<times> pheap) option" where
  "StubParams_Transform h = Some (0, h)"

datatype TableKind =
    TableACL ACLParams | TableArray ArrayParams | TableHash HashParams | TableLPM LPMParams | TableStub

fun Ops :: "TableKind \<Rightarrow> table_ops" where
  "Ops (TableACL _) = rte_table_acl_ops"
| "Ops (TableArray _) = rte_table_array_ops"
| "Ops (TableHash p) = hash_TableOps p"
| "Ops (TableLPM p) = lpm_TableOps p"
| "Ops TableStub = rte_table_stub_ops"

fun Table_Transform :: "nat \<Rightarrow> (pheap \<Rightarrow> pptr) \<Rightarrow> TableKind \<Rightarrow> pheap \<Rightarrow> (pptr \<times> pheap) option" where
  "Table_Transform max_fields malloc (TableACL p) = ACLParams_Transform max_fields malloc p"
| "Table_Transform max_fields malloc (TableArray p) = ArrayParams_Transform malloc p"
| "Table_Transform max_fields malloc (TableHash p) = HashParams_Transform malloc p"
| "Table_Transform max_fields malloc (TableLPM p) = LPMParams_Transform malloc p"
| "Table_Transform max_fields malloc TableStub = StubParams_Transform"

fun Table_dtor :: "TableKind \<Rightarrow> pptr \<Rightarrow> pheap \<Rightarrow> pheap option" where
  "Table_dtor (TableACL _) = free_struct [Fld ''name'']"
| "Table_dtor (TableHash _) = free_struct [Fld ''name'', Fld ''key_mask'']"
| "Table_dtor (TableLPM _) = free_struct [Fld ''name'']"
| "Table_dtor _ = Free"

definition Table_Create ::
  "(table_ops \<Rightarrow> int \<Rightarrow> u32 \<Rightarrow> pptr \<Rightarrow> pheap \<Rightarrow> 'w \<Rightarrow> addr \<times> 'w) \<Rightarrow> nat \<Rightarrow> (pheap \<Rightarrow> pptr) \<Rightarrow>
   u64 \<Rightarrow> TableKind \<Rightarrow> u32 \<Rightarrow> pheap \<Rightarrow> 'w \<Rightarrow> (addr \<times> pheap \<times> 'w) option" where
  "Table_Create f_create max_fields malloc socket p entrySize =
     with_arg (Table_Transform max_fields malloc p) (Table_dtor p)
       (f_create (Ops p) (sint (ucast socket :: u32)) entrySize)"

definition Table_Free ::
  "rte_errnos \<Rightarrow> (table_ops \<Rightarrow> addr \<Rightarrow> 'w \<Rightarrow> int \<times> 'w) \<Rightarrow> addr \<Rightarrow> table_ops \<Rightarrow> 'w \<Rightarrow> error \<times> 'w" where
  "Table_Free c f_free t tableOps w = (let (rc, w) = f_free tableOps t w in (IntErr c rc, w))"

subsection \<open>Fields of ACL keys (src/table/acl_params.go)\<close>

text \<open>
  An \<^verbatim>\<open>ACLField\<close> is an array of words overlaid with \<^verbatim>\<open>struct rte_acl_field\<close>: a value and a mask
  of up to eight bytes.  The size and the offsets of the two unions come from the header.
\<close>

record acl_layout =
  acl_size :: nat
  value_off :: nat
  mask_off :: nat

definition patch :: "nat \<Rightarrow> byte list \<Rightarrow> byte list \<Rightarrow> byte list" where
  "patch off bs ret = take off ret @ bs @ drop (off + length bs) ret"

definition NewACLField8 :: "acl_layout \<Rightarrow> u8 \<Rightarrow> u8 \<Rightarrow> byte list" where
  "NewACLField8 L value maskRange =
     patch (mask_off L) [maskRange] (patch (value_off L) [value] (replicate (acl_size L) 0))"

definition NewACLField16 :: "acl_layout \<Rightarrow> u16 \<Rightarrow> u16 \<Rightarrow> byte list" where
  "NewACLField16 L value maskRange =
     patch (mask_off L) (le16 maskRange) (patch (value_off L) (le16 value) (replicate (acl_size L) 0))"

definition NewACLField32 :: "acl_layout \<Rightarrow> u32 \<Rightarrow> u32 \<Rightarrow> byte list" where
  "NewACLField32 L value maskRange =
     patch (mask_off L) (le32 maskRange) (patch (value_off L) (le32 value) (replicate (acl_size L) 0))"

definition NewACLField64 :: "acl_layout \<Rightarrow> u64 \<Rightarrow> u64 \<Rightarrow> byte list" where
  "NewACLField64 L value maskRange =
     patch (mask_off L) (le64 maskRange) (patch (value_off L) (le64 value) (replicate (acl_size L) 0))"

section \<open>The contract of a transformer\<close>

definition fresh_malloc :: "(pheap \<Rightarrow> pptr) \<Rightarrow> bool" where
  "fresh_malloc malloc \<longleftrightarrow> (\<forall>h. finite (dom h) \<longrightarrow> malloc h \<noteq> 0 \<and> h (malloc h) = None)"

text \<open>An allocator that keeps the contract: the pointer behind the last one in use.\<close>

definition next_ptr :: "pheap \<Rightarrow> pptr" where
  "next_ptr h = Suc (Max (insert 0 (dom h)))"

lemma next_ptr_fresh: "fresh_malloc next_ptr"
proof -
  have "h (next_ptr h) = None" if "finite (dom h)" for h
  proof (rule ccontr)
    assume "h (next_ptr h) \<noteq> None"
    then have "next_ptr h \<le> Max (insert 0 (dom h))" using that by (auto intro: Max_ge)
    then show False by (simp add: next_ptr_def)
  qed
  then show ?thesis by (simp add: fresh_malloc_def next_ptr_def)
qed

text \<open>
  What C sees behind a parameter pointer: numbers and addresses of the structure, and the
  bytes behind the pointers to its own blocks.
\<close>

datatype seen = Num cval | Bytes "byte list"

fun resolve :: "pheap \<Rightarrow> cval \<Rightarrow> seen option" where
  "resolve h (Ptr q) = (case h q of Some (CChars b) \<Rightarrow> Some (Bytes b) | _ \<Rightarrow> None)"
| "resolve h v = Some (Num v)"

definition see :: "pheap \<Rightarrow> pptr \<Rightarrow> field \<rightharpoonup> seen" where
  "see h p f = (case h p of
     Some (CFields s) \<Rightarrow> (case s f of Some v \<Rightarrow> resolve h v | None \<Rightarrow> None)
   | _ \<Rightarrow> None)"

locale transformer =
  fixes Transform :: "(pheap \<Rightarrow> pptr) \<Rightarrow> 'p \<Rightarrow> pheap \<Rightarrow> (pptr \<times> pheap) option"
    and dtor :: "'p \<Rightarrow> pptr \<Rightarrow> pheap \<Rightarrow> pheap option"
    and ok :: "'p \<Rightarrow> bool"
    and image1 :: "'p \<Rightarrow> field \<rightharpoonup> seen"
  assumes transform_law: "fresh_malloc malloc \<Longrightarrow> finite (dom h) \<Longrightarrow> h 0 = None \<Longrightarrow> ok p \<Longrightarrow>
    \<exists>arg h'. Transform malloc p h = Some (arg, h') \<and> h \<subseteq>\<^sub>m h' \<and> see h' arg = image1 p \<and> dtor p arg h' = Some h"
begin

text \<open>
  A call on a transformed argument happens once, on memory that holds the image of the
  configuration, and the memory afterwards is the memory before.
\<close>

lemma with_arg_call:
  assumes "fresh_malloc malloc" "finite (dom h)" "h 0 = None" "ok p"
  shows "\<exists>arg h'. h \<subseteq>\<^sub>m h' \<and> see h' arg = image1 p \<and>
    with_arg (Transform malloc p) (dtor p) call h w = Some (fst (call arg h' w), h, snd (call arg h' w))"
proof -
  obtain arg h' where "Transform malloc p h = Some (arg, h')" "h \<subseteq>\<^sub>m h'" "see h' arg = image1 p"
      "dtor p arg h' = Some h"
    using transform_law [OF assms] by blast
  then show ?thesis
    by (intro exI [of _ arg] exI [of _ h']) (simp add: with_arg_def case_prod_unfold Let_def)
qed

end

section \<open>The transformers keep the contract\<close>

text \<open>The images of the configurations, field by field.\<close>

definition strz :: "byte list \<Rightarrow> seen" where
  "strz s = Bytes (s @ [0])"

definition image_of :: "(field \<times> seen) list \<Rightarrow> field \<rightharpoonup> seen" where
  "image_of = map_of"

fun in_image :: "InParams \<Rightarrow> field \<rightharpoonup> seen" where
  "in_image (InRing rd) = image_of [(Fld ''ring'', Num (Ext (rr_Ring rd)))]"
| "in_image (InEthdev p) = image_of
     [(Fld ''port_id'', Num (V16 (er_PortID p))), (Fld ''queue_id'', Num (V16 (er_QueueID p)))]"
| "in_image (InFd rd) = image_of
     [(Fld ''fd'', Num (V32 (ucast (fr_Fd rd)))), (Fld ''mtu'', Num (V32 (fr_MTU rd))),
      (Fld ''mempool'', Num (Ext (fr_Mempool rd)))]"
| "in_image (InSource rd) = image_of
     [(Fld ''mempool'', Num (Ext (src_Mempool rd))), (Fld ''n_bytes_per_pkt'', Num (V32 (BytesPerPacket rd))),
      (Fld ''file_name'', strz (src_Filename rd))]"

fun in_ok :: "InParams \<Rightarrow> bool" where
  "in_ok (InSource rd) \<longleftrightarrow> src_Filename rd \<noteq> []"
| "in_ok _ \<longleftrightarrow> True"

fun out_image :: "OutParams \<Rightarrow> field \<rightharpoonup> seen" where
  "out_image (OutRing wr) = image_of
     [(Fld ''ring'', Num (Ext (rt_Ring wr))), (Fld ''tx_burst_sz'', Num (V32 (rt_TxBurstSize wr))),
      (Fld ''n_retries'', Num (V32 (rt_Retries wr)))]"
| "out_image (OutEthdev p) = image_of
     [(Fld ''port_id'', Num (V16 (et_PortID p))), (Fld ''queue_id'', Num (V16 (et_QueueID p))),
      (Fld ''tx_burst_sz'', Num (V32 (et_TxBurstSize p))), (Fld ''n_retries'', Num (V32 (et_Retries p)))]"
| "out_image (OutFd wr) = image_of
     [(Fld ''fd'', Num (V32 (ucast (ft_Fd wr)))), (Fld ''tx_burst_sz'', Num (V32 (ft_BurstSize wr))),
      (Fld ''n_retries'', Num (V32 (ft_Retries wr)))]"
| "out_image (OutSink wr) = image_of
     [(Fld ''max_n_pkts'', Num (V32 (MaxPackets wr))), (Fld ''file_name'', strz (snk_Filename wr))]"

fun out_ok :: "OutParams \<Rightarrow> bool" where
  "out_ok (OutSink wr) \<longleftrightarrow> snk_Filename wr \<noteq> []"
| "out_ok _ \<longleftrightarrow> True"

definition acl_member :: "ACLFieldDef \<Rightarrow> string \<rightharpoonup> cval" where
  "acl_member d = [''type'' \<mapsto> V8 (fd_Type d), ''size'' \<mapsto> V8 (fd_Size d), ''field_index'' \<mapsto> V8 (FieldIndex d),
     ''input_index'' \<mapsto> V8 (InputIndex d), ''offset'' \<mapsto> V32 (fd_Offset d)]"

definition acl_elem :: "nat \<Rightarrow> ACLFieldDef list \<Rightarrow> field \<rightharpoonup> cval" where
  "acl_elem n ff f = (case f of
     Elem a i m \<Rightarrow> if a = ''field_format'' \<and> n \<le> i \<and> i < n + length ff then acl_member (ff ! (i - n)) m else None
   | Fld _ \<Rightarrow> None)"

fun table_image :: "TableKind \<Rightarrow> field \<rightharpoonup> seen" where
  "table_image (TableACL p) = (map_option Num \<circ> acl_elem 0 (FieldFormat p)) ++ image_of
     [(Fld ''name'', strz (acl_Name p)), (Fld ''n_rules'', Num (V32 (acl_Rules p))),
      (Fld ''n_rule_fields'', Num (V32 (of_nat (length (FieldFormat p)))))]"
| "table_image (TableArray p) = image_of
     [(Fld ''n_entries'', Num (V32 (Entries p))), (Fld ''offset'', Num (V32 (arr_Offset p)))]"
| "table_image (TableHash p) = image_of
     [(Fld ''name'', strz (hash_Name p)), (Fld ''key_size'', Num (V32 (KeySize p))),
      (Fld ''key_offset'', Num (V32 (KeyOffset p))), (Fld ''key_mask'', Bytes (KeyMask p)),
      (Fld ''n_keys'', Num (V32 (KeysNum p))), (Fld ''n_buckets'', Num (V32 (BucketsNum p))),
      (Fld ''f_hash'', Num (Ext (if hash_TableOps p = HashCuckooOps then CuckooHash_Func p else Hash_Func p))),
      (Fld ''seed'', Num (if hash_TableOps p = HashCuckooOps then V32 (CuckooHash_Seed p) else V64 (Hash_Seed p)))]"
| "table_image (TableLPM p) = image_of
     [(Fld ''name'', strz (lpm_Name p)), (Fld ''number_tbl8s'', Num (V32 (NumTBL8 p))),
      (Fld ''n_rules'', Num (V32 (lpm_Rules p))), (Fld ''entry_unique_size'', Num (V32 (EntryUniqueSize p))),
      (Fld ''offset'', Num (V32 (lpm_Offset p)))]"
| "table_image TableStub = Map.empty"

fun table_ok :: "nat \<Rightarrow> TableKind \<Rightarrow> bool" where
  "table_ok max_fields (TableACL p) \<longleftrightarrow> length (FieldFormat p) \<le> max_fields"
| "table_ok _ (TableHash p) \<longleftrightarrow> hash_TableOps p \<in> {HashExtOps, HashLruOps, HashCuckooOps}"
| "table_ok _ (TableLPM p) \<longleftrightarrow> lpm_TableOps p \<in> {LPMOps, LPM6Ops}"
| "table_ok _ _ \<longleftrightarrow> True"

lemma fresh_mallocD:
  assumes "fresh_malloc malloc" "finite (dom h)"
  shows "malloc h \<noteq> 0" "h (malloc h) = None"
  using assms by (simp_all add: fresh_malloc_def)

lemma fresh_next:
  assumes "fresh_malloc malloc" "finite (dom h)" "q = malloc (h(p \<mapsto> b))"
  shows "q \<noteq> 0" "h q = None" "p \<noteq> q"
proof -
  have "finite (dom (h(p \<mapsto> b)))" using assms(2) by simp
  from fresh_mallocD [OF assms(1) this] assms(3) have "q \<noteq> 0" "(h(p \<mapsto> b)) q = None" by simp_all
  then show "q \<noteq> 0" "h q = None" "p \<noteq> q" by (auto simp del: not_None_eq split: if_splits)
qed

text \<open>A structure with one and with two blocks of its own on top of a heap.\<close>

lemma free_struct_one:
  assumes "h p = None" "h q = None" "p \<noteq> 0" "q \<noteq> 0" "p \<noteq> q" "s f = Some (Ptr q)"
  shows "free_struct [f] p (h(p \<mapsto> CFields s, q \<mapsto> CChars b)) = Some h"
  using assms by (auto simp: free_struct_def get_ptr_def Free_def fun_eq_iff)

lemma free_struct_two:
  assumes "h p = None" "h q = None" "h r = None" "p \<noteq> 0" "q \<noteq> 0" "r \<noteq> 0" "p \<noteq> q" "p \<noteq> r" "q \<noteq> r"
    and "s f = Some (Ptr q)" "s g = Some (Ptr r)"
  shows "free_struct [f, g] p (h(p \<mapsto> CFields s, q \<mapsto> CChars b, r \<mapsto> CChars c)) = Some h"
  using assms by (auto simp: free_struct_def get_ptr_def Free_def fun_eq_iff)

lemma see_struct:
  "H p = Some (CFields s) \<Longrightarrow> see H p = (\<lambda>f. Option.bind (s f) (resolve H))"
  by (simp add: see_def fun_eq_iff split: option.split)


definition keeps :: "(pptr \<times> pheap) option \<Rightarrow> (pptr \<Rightarrow> pheap \<Rightarrow> pheap option) \<Rightarrow> (field \<rightharpoonup> seen) \<Rightarrow> pheap \<Rightarrow> bool" where
  "keeps r dt img h \<longleftrightarrow>
     (\<exists>arg h'. r = Some (arg, h') \<and> h \<subseteq>\<^sub>m h' \<and> see h' arg = img \<and> dt arg h' = Some h)"

lemmas transform_simps =
  new_struct_def new_string_def new_bytes_def new_block_def set_fields_def Let_def

lemma map_le_fresh: "h p = None \<Longrightarrow> h \<subseteq>\<^sub>m h(p \<mapsto> b)"
  by (auto simp: map_le_def)

lemma new_pod_keeps:
  assumes "fresh_malloc malloc" "finite (dom h)"
    and "\<forall>f. Option.bind (fold (\<lambda>(f, v) s. s(f \<mapsto> v)) fs Map.empty f) (resolve (h(malloc h \<mapsto> b))) = img f"
    and "b = CFields (fold (\<lambda>(f, v) s. s(f \<mapsto> v)) fs Map.empty)"
  shows "keeps (new_pod malloc fs h) Free img h"
proof -
  let ?p = "malloc h"
  note m = fresh_mallocD [OF assms(1,2)]
  have "see (h(?p \<mapsto> b)) ?p = img"
    using assms(3,4) by (subst see_struct) (auto simp: fun_eq_iff)
  moreover have "Free ?p (h(?p \<mapsto> b)) = Some h" using m by (simp add: Free_def fun_eq_iff)
  ultimately show ?thesis
    using map_le_fresh [of h ?p b] m assms(4)
    unfolding keeps_def new_pod_def new_block_def by (auto simp: Let_def)
qed

text \<open>One block: the structure, then a string, then its fields.\<close>

lemma one_block_keeps:
  assumes "fresh_malloc malloc" "finite (dom h)" "H = h(p \<mapsto> CFields s, q \<mapsto> CChars b)"
    and "p = malloc h" "q = malloc (h(p \<mapsto> CFields s0))" "s f = Some (Ptr q)"
    and "\<forall>g. Option.bind (s g) (resolve H) = img g"
  shows "keeps (Some (p, H)) (free_struct [f]) img h"
proof -
  have p: "p \<noteq> 0" "h p = None" using fresh_mallocD [OF assms(1,2)] assms(4) by auto
  note q = fresh_next [OF assms(1,2,5)]
  have "see H p = img"
    using assms(3,7) q(3) by (subst see_struct [where s = s]) (auto simp: fun_eq_iff)
  moreover have "h \<subseteq>\<^sub>m H" using p(2) q(2) assms(3) by (auto simp: map_le_def)
  ultimately show ?thesis
    using free_struct_one [of h p q s f b, OF p(2) q(2) p(1) q(1,3) assms(6)] assms(3)
    unfolding keeps_def by blast
qed

lemma two_blocks_keep:
  assumes "fresh_malloc malloc" "finite (dom h)" "H = h(p \<mapsto> CFields s, q \<mapsto> CChars b, r \<mapsto> CChars c)"
    and "p = malloc h" "q = malloc (h(p \<mapsto> CFields s0))" "r = malloc (h(q \<mapsto> CChars b, p \<mapsto> CFields s1))"
    and "s f = Some (Ptr q)" "s g = Some (Ptr r)"
    and "\<forall>x. Option.bind (s x) (resolve H) = img x"
  shows "keeps (Some (p, H)) (free_struct [f, g]) img h"
proof -
  have p: "p \<noteq> 0" "h p = None" using fresh_mallocD [OF assms(1,2)] assms(4) by auto
  note q = fresh_next [OF assms(1,2,5)]
  have "finite (dom (h(q \<mapsto> CChars b)))" using assms(2) by simp
  from fresh_next [OF assms(1) this assms(6)]
  have r: "r \<noteq> 0" "h r = None" "p \<noteq> r" "q \<noteq> r" by (auto simp del: not_None_eq split: if_splits)
  have "see H p = img"
    using assms(3,9) q(3) r(3) by (subst see_struct [where s = s]) (auto simp: fun_eq_iff)
  moreover have "h \<subseteq>\<^sub>m H" using p(2) q(2) r(2) assms(3) by (auto simp: map_le_def)
  ultimately show ?thesis
    using free_struct_two [of h p q r s f g b c, OF p(2) q(2) r(2) p(1) q(1) r(1) q(3) r(3,4) assms(7,8)] assms(3)
    unfolding keeps_def by blast
qed

lemma in_params_keep:
  assumes "fresh_malloc malloc" "finite (dom h)" "in_ok p"
  shows "keeps (In_Transform malloc p h) (In_dtor p) (in_image p) h"
proof (cases p)
  case (InSource rd)
  let ?p = "malloc h" and ?s0 = "[Fld ''mempool'' \<mapsto> Ext (src_Mempool rd), Fld ''n_bytes_per_pkt'' \<mapsto> V32 (BytesPerPacket rd)]"
  let ?q = "malloc (h(?p \<mapsto> CFields ?s0))"
  let ?s = "?s0(Fld ''file_name'' \<mapsto> Ptr ?q)" and ?b = "src_Filename rd @ [0]"
  let ?H = "h(?p \<mapsto> CFields ?s, ?q \<mapsto> CChars ?b)"
  have "?p \<noteq> ?q" by (rule fresh_next(3) [OF assms(1,2) refl])
  then have "In_Transform malloc p h = Some (?p, ?H)"
    using InSource assms(3) by (simp add: Source_Transform_def transform_simps fun_upd_twist)
  moreover have "keeps (Some (?p, ?H)) (free_struct [Fld ''file_name'']) (in_image p) h"
    by (rule one_block_keeps [OF assms(1,2) refl refl refl])
      (auto simp: InSource image_of_def strz_def)
  ultimately show ?thesis using InSource by (simp add: Source_dtor_def)
qed (simp_all add: RingRx_Transform_def EthdevRx_Transform_def FdRx_Transform_def image_of_def
    new_pod_keeps [OF assms(1,2) _ refl])


lemma out_params_keep:
  assumes "fresh_malloc malloc" "finite (dom h)" "out_ok p"
  shows "keeps (Out_Transform malloc p h) (Out_dtor p) (out_image p) h"
proof (cases p)
  case (OutSink wr)
  let ?p = "malloc h" and ?s0 = "[Fld ''max_n_pkts'' \<mapsto> V32 (MaxPackets wr)]"
  let ?q = "malloc (h(?p \<mapsto> CFields ?s0))"
  let ?s = "?s0(Fld ''file_name'' \<mapsto> Ptr ?q)" and ?b = "snk_Filename wr @ [0]"
  let ?H = "h(?p \<mapsto> CFields ?s, ?q \<mapsto> CChars ?b)"
  have "?p \<noteq> ?q" by (rule fresh_next(3) [OF assms(1,2) refl])
  then have "Out_Transform malloc p h = Some (?p, ?H)"
    using OutSink assms(3) by (simp add: Sink_Transform_def transform_simps fun_upd_twist)
  moreover have "keeps (Some (?p, ?H)) (free_struct [Fld ''file_name'']) (out_image p) h"
    by (rule one_block_keeps [OF assms(1,2) refl refl refl])
      (auto simp: OutSink image_of_def strz_def)
  ultimately show ?thesis using OutSink by (simp add: Sink_dtor_def)
qed (simp_all add: RingTx_Transform_def EthdevTx_Transform_def FdTx_Transform_def image_of_def
    new_pod_keeps [OF assms(1,2) _ refl])

text \<open>A structure whose name is copied first and whose other fields are then set.\<close>

lemma named_keeps:
  assumes "fresh_malloc malloc" "finite (dom h)"
    and "t = (do {
      let (params, h) = new_struct malloc h;
      let (name, h) = new_string malloc nm h;
      h \<leftarrow> set_fields params ((Fld ''name'', Ptr name) # fs) h;
      Some (params, h) })"
    and "s = fold (\<lambda>(f, v) s. s(f \<mapsto> v)) fs"
    and "\<And>q. s [Fld ''name'' \<mapsto> Ptr q] (Fld ''name'') = Some (Ptr q)"
    and "\<And>H q g. H q = Some (CChars (nm @ [0])) \<Longrightarrow>
      Option.bind (s [Fld ''name'' \<mapsto> Ptr q] g) (resolve H) = img g"
  shows "keeps t (free_struct [Fld ''name'']) img h"
proof -
  let ?p = "malloc h"
  let ?q = "malloc (h(?p \<mapsto> CFields Map.empty))"
  let ?H = "h(?p \<mapsto> CFields (s [Fld ''name'' \<mapsto> Ptr ?q]), ?q \<mapsto> CChars (nm @ [0]))"
  have ne: "?p \<noteq> ?q" by (rule fresh_next(3) [OF assms(1,2) refl])
  then have "t = Some (?p, ?H)"
    by (simp add: assms(3,4) transform_simps fun_upd_twist)
  moreover have "\<forall>g. Option.bind (s [Fld ''name'' \<mapsto> Ptr ?q] g) (resolve ?H) = img g"
    using assms(6) [of ?H ?q] by simp
  ultimately show ?thesis
    using one_block_keeps [OF assms(1,2) refl refl refl, where s = "s [Fld ''name'' \<mapsto> Ptr ?q]" and f = "Fld ''name''"]
      assms(5) by simp
qed

lemma LPMParams_keep:
  assumes "fresh_malloc malloc" "finite (dom h)" "lpm_TableOps p \<in> {LPMOps, LPM6Ops}"
  shows "keeps (LPMParams_Transform malloc p h) (free_struct [Fld ''name'']) (table_image (TableLPM p)) h"
proof -
  have 4: "keeps (tformTo4 malloc p h) (free_struct [Fld ''name'']) (table_image (TableLPM p)) h"
    by (rule named_keeps [OF assms(1,2) tformTo4_def refl]) (auto simp: image_of_def strz_def)
  have "tformTo6 malloc p h = tformTo4 malloc p h" by (simp add: tformTo6_def tformTo4_def)
  then show ?thesis using 4 assms(3) by (auto simp: LPMParams_Transform_def)
qed

text \<open>The array of ACL field definitions.\<close>

lemma fold_acl_fields:
  "fold (\<lambda>(f, v) s. s(f \<mapsto> v)) (concat (map acl_field (enumerate n ff))) s = s ++ acl_elem n ff"
proof (induction ff arbitrary: n s)
  case Nil
  then show ?case by (auto simp: acl_elem_def fun_eq_iff map_add_def split: field.split)
next
  case (Cons d ff)
  have *: "fold (\<lambda>(f, v) s. s(f \<mapsto> v)) (acl_field (n, d)) s = s ++ acl_elem n [d]"
    by (auto simp: acl_field_def acl_elem_def acl_member_def fun_eq_iff map_add_def split: field.split option.split)
  have "acl_elem n [d] ++ acl_elem (Suc n) ff = acl_elem n (d # ff)"
  proof
    fix f
    show "(acl_elem n [d] ++ acl_elem (Suc n) ff) f = acl_elem n (d # ff) f"
    proof (cases f)
      case (Elem a i m)
      consider "i = n" | "i < n" | j where "i = Suc (n + j)" by (metis less_iff_Suc_add linorder_neqE_nat)
      then show ?thesis
        by cases (auto simp: Elem acl_elem_def map_add_def split: option.split)
    qed (simp add: acl_elem_def map_add_def)
  qed
  then show ?case
    by (simp only: enumerate_simps list.map concat.simps fold_append comp_apply * Cons.IH map_add_assoc [symmetric])
qed

lemma ACLParams_keep:
  assumes "fresh_malloc malloc" "finite (dom h)" "length (FieldFormat p) \<le> max_fields"
  shows "keeps (ACLParams_Transform max_fields malloc p h) (free_struct [Fld ''name''])
    (table_image (TableACL p)) h"
proof -
  have t: "ACLParams_Transform max_fields malloc p h = (do {
      let (params, h) = new_struct malloc h;
      let (name, h) = new_string malloc (acl_Name p) h;
      h \<leftarrow> set_fields params ((Fld ''name'', Ptr name) #
        [(Fld ''n_rules'', V32 (acl_Rules p)), (Fld ''n_rule_fields'', V32 (of_nat (length (FieldFormat p))))] @
        concat (map acl_field (enumerate 0 (FieldFormat p)))) h;
      Some (params, h) })"
    using assms(3) by (simp add: ACLParams_Transform_def Let_def case_prod_unfold not_less)
  have Fld: "acl_elem 0 ff (Fld x) = None" for ff x by (simp add: acl_elem_def)
  have num: "resolve H v = Some (Num v)" if "acl_elem 0 ff g = Some v" for H v ff g
    using that by (auto simp: acl_elem_def acl_member_def split: field.splits if_splits)
  show ?thesis
    by (rule named_keeps [OF assms(1,2) t refl])
      (auto simp: fold_acl_fields Fld num image_of_def strz_def map_add_def split: option.split)
qed

lemma hash_two_blocks:
  assumes "fresh_malloc malloc" "finite (dom h)"
    and "t = (do {
      let (params, h) = new_struct malloc h;
      let (name, h) = new_string malloc (hash_Name p) h;
      h \<leftarrow> set_fields params [(Fld ''name'', Ptr name), (Fld ''key_size'', V32 (KeySize p)),
                              (Fld ''key_offset'', V32 (KeyOffset p))] h;
      let (mask1, h) = new_bytes malloc (KeyMask p) h;
      h \<leftarrow> set_fields params [(Fld ''key_mask'', Ptr mask1), (Fld ''n_keys'', V32 (KeysNum p)),
                              (Fld ''n_buckets'', V32 (BucketsNum p)), (Fld ''f_hash'', Ext fn),
                              (Fld ''seed'', sd)] h;
      Some (params, h) })"
    and "\<And>H. resolve H sd = Some (Num sd)"
    and "img = image_of
     [(Fld ''name'', strz (hash_Name p)), (Fld ''key_size'', Num (V32 (KeySize p))),
      (Fld ''key_offset'', Num (V32 (KeyOffset p))), (Fld ''key_mask'', Bytes (KeyMask p)),
      (Fld ''n_keys'', Num (V32 (KeysNum p))), (Fld ''n_buckets'', Num (V32 (BucketsNum p))),
      (Fld ''f_hash'', Num (Ext fn)), (Fld ''seed'', Num sd)]"
  shows "keeps t (free_struct [Fld ''name'', Fld ''key_mask'']) img h"
proof -
  let ?p = "malloc h"
  let ?q = "malloc (h(?p \<mapsto> CFields Map.empty))" and ?n = "CChars (hash_Name p @ [0])"
  let ?s1 = "[Fld ''name'' \<mapsto> Ptr ?q, Fld ''key_size'' \<mapsto> V32 (KeySize p), Fld ''key_offset'' \<mapsto> V32 (KeyOffset p)]"
  let ?r = "malloc (h(?q \<mapsto> ?n, ?p \<mapsto> CFields ?s1))"
  let ?s = "?s1(Fld ''key_mask'' \<mapsto> Ptr ?r, Fld ''n_keys'' \<mapsto> V32 (KeysNum p),
      Fld ''n_buckets'' \<mapsto> V32 (BucketsNum p), Fld ''f_hash'' \<mapsto> Ext fn, Fld ''seed'' \<mapsto> sd)"
  let ?H = "h(?p \<mapsto> CFields ?s, ?q \<mapsto> ?n, ?r \<mapsto> CChars (KeyMask p))"
  have pq: "?p \<noteq> ?q" by (rule fresh_next(3) [OF assms(1,2) refl])
  have fin: "finite (dom (h(?q \<mapsto> ?n)))" using assms(2) by simp
  note r = fresh_next [OF assms(1) fin refl, of ?p "CFields ?s1"]
  then have rq: "?r \<noteq> ?q" by auto
  have H: "h(?q \<mapsto> ?n, ?p \<mapsto> CFields ?s1, ?r \<mapsto> CChars (KeyMask p), ?p \<mapsto> CFields ?s) = ?H"
    using pq r(3) rq by (auto simp: fun_eq_iff)
  have "t = Some (?p, ?H)"
    using pq r(3) H by (simp add: assms(3) transform_simps fun_upd_twist)
  moreover have "keeps (Some (?p, ?H)) (free_struct [Fld ''name'', Fld ''key_mask'']) img h"
    using rq by (intro two_blocks_keep [OF assms(1,2) refl refl refl refl]) (auto simp: assms(4,5) image_of_def strz_def)
  ultimately show ?thesis by simp
qed

lemma HashParams_keep:
  assumes "fresh_malloc malloc" "finite (dom h)" "hash_TableOps p \<in> {HashExtOps, HashLruOps, HashCuckooOps}"
  shows "keeps (HashParams_Transform malloc p h) (free_struct [Fld ''name'', Fld ''key_mask''])
    (table_image (TableHash p)) h"
proof (cases "hash_TableOps p = HashCuckooOps")
  case True
  then show ?thesis
    using hash_two_blocks [OF assms(1,2) tformToCuckoo_def _ refl] by (simp add: HashParams_Transform_def)
next
  case False
  then show ?thesis
    using hash_two_blocks [OF assms(1,2) tformToOrdinary_def _ refl] assms(3)
    by (auto simp: HashParams_Transform_def)
qed

lemma table_params_keep:
  assumes "fresh_malloc malloc" "finite (dom h)" "h 0 = None" "table_ok max_fields p"
  shows "keeps (Table_Transform max_fields malloc p h) (Table_dtor p) (table_image p) h"
proof (cases p)
  case (TableArray q)
  then show ?thesis
    by (simp add: ArrayParams_Transform_def image_of_def new_pod_keeps [OF assms(1,2) _ refl])
next
  case TableStub
  then show ?thesis
    using assms(3) by (auto simp: keeps_def StubParams_Transform_def Free_def see_def fun_eq_iff)
qed (use assms(4) ACLParams_keep [OF assms(1,2)] HashParams_keep [OF assms(1,2)] LPMParams_keep [OF assms(1,2)]
    in \<open>simp_all del: table_image.simps\<close>)

interpretation in_port: transformer In_Transform In_dtor in_ok in_image
  by unfold_locales (use in_params_keep in \<open>auto simp: keeps_def\<close>)

interpretation out_port: transformer Out_Transform Out_dtor out_ok out_image
  by unfold_locales (use out_params_keep in \<open>auto simp: keeps_def\<close>)

interpretation table_param: transformer "Table_Transform max_fields" Table_dtor "table_ok max_fields" table_image
  for max_fields
  by unfold_locales (use table_params_keep in \<open>auto simp: keeps_def\<close>)

text \<open>What lies outside of the contract.  A source or sink without a file name frees a field that was never set.\<close>

lemma Source_without_file:
  assumes "fresh_malloc malloc" "finite (dom h)" "src_Filename rd = []"
  shows "CreateIn f_create malloc socket (InSource rd) h w = None"
  using fresh_mallocD [OF assms(1,2)] assms(3)
  by (simp add: CreateIn_def with_arg_def Source_Transform_def transform_simps Source_dtor_def free_struct_def
      get_ptr_def case_prod_unfold)

lemma unsupported_ops:
  "hash_TableOps p \<notin> {HashExtOps, HashLruOps, HashCuckooOps} \<Longrightarrow> Table_Create f K malloc socket (TableHash p) n h w = None"
  "lpm_TableOps q \<notin> {LPMOps, LPM6Ops} \<Longrightarrow> Table_Create f K malloc socket (TableLPM q) n h w = None"
  by (auto simp: Table_Create_def with_arg_def HashParams_Transform_def LPMParams_Transform_def split: table_ops.split)

lemma RingTx_OutOps_cases:
  "RingTx_OutOps wr = Some (if rt_Multi wr
     then if rt_NoDrop wr then rte_port_ring_multi_writer_nodrop_ops else rte_port_ring_multi_writer_ops
     else if rt_NoDrop wr then rte_port_ring_writer_nodrop_ops else rte_port_ring_writer_ops)"
  by (simp add: RingTx_OutOps_def)

section \<open>Fields of ACL keys\<close>

text \<open>Reading an array of bytes after a patch.\<close>

lemma length_patch [simp]: "off + length bs \<le> length ret \<Longrightarrow> length (patch off bs ret) = length ret"
  by (simp add: patch_def)

lemma nth_patch:
  "off + length bs \<le> length ret \<Longrightarrow> k < length ret \<Longrightarrow>
     patch off bs ret ! k = (if off \<le> k \<and> k < off + length bs then bs ! (k - off) else ret ! k)"
  by (auto simp: patch_def nth_append)

lemma slice_patch_same:
  "off + length bs \<le> length ret \<Longrightarrow> n = length bs \<Longrightarrow> slice off n (patch off bs ret) = bs"
  by (rule nth_equalityI) (auto simp: nth_patch)

lemma slice_patch_other:
  "off + length bs \<le> length ret \<Longrightarrow> o1 + n \<le> length ret \<Longrightarrow> o1 + n \<le> off \<or> off + length bs \<le> o1 \<Longrightarrow>
     slice o1 n (patch off bs ret) = slice o1 n ret"
  by (rule nth_equalityI) (auto simp: nth_patch)

lemma slice_patch_inside:
  "off + length bs \<le> length ret \<Longrightarrow> o1 + n \<le> length bs \<Longrightarrow> slice (off + o1) n (patch off bs ret) = slice o1 n bs"
  by (rule nth_equalityI) (auto simp: nth_patch)


lemma slice_replicate: "o1 + n \<le> k \<Longrightarrow> slice o1 n (replicate k x) = replicate n x"
  by (simp add: slice_def)

lemma slice_patch_padded:
  assumes "off + 8 \<le> length ret" "length bs \<le> 8" "slice off 8 ret = replicate 8 0"
  shows "slice off 8 (patch off bs ret) = bs @ replicate (8 - length bs) 0"
proof (rule nth_equalityI)
  fix i assume i: "i < length (slice off 8 (patch off bs ret))"
  have le: "off + length bs \<le> length ret" using assms(1,2) by simp
  then have i8: "i < 8" using i assms(1) by simp
  then have "ret ! (off + i) = 0" using assms(1) arg_cong [OF assms(3), of "\<lambda>xs. xs ! i"] by simp
  then show "slice off 8 (patch off bs ret) ! i = (bs @ replicate (8 - length bs) 0) ! i"
    using i8 le assms(1) by (simp add: nth_patch nth_append)
qed (use assms in simp)

text \<open>An ACL field reads as the zero-extended 64-bit value and mask, whatever its declared width.\<close>

definition acl_ok :: "acl_layout \<Rightarrow> bool" where
  "acl_ok L \<longleftrightarrow> value_off L + 8 \<le> mask_off L \<and> mask_off L + 8 \<le> acl_size L"

lemma slice_patches:
  assumes "acl_ok L" "length v = n" "length m = n" "n \<le> 8"
    and "ret = patch (mask_off L) m (patch (value_off L) v (replicate (acl_size L) 0))"
  shows "slice (value_off L) 8 ret = v @ replicate (8 - n) 0" "slice (mask_off L) 8 ret = m @ replicate (8 - n) 0"
proof -
  have o: "value_off L + 8 \<le> mask_off L" "mask_off L + 8 \<le> acl_size L" using assms(1) by (auto simp: acl_ok_def)
  let ?r = "patch (value_off L) v (replicate (acl_size L) 0)"
  have r: "length ?r = acl_size L" using o assms(2,4) by simp
  have "slice (mask_off L) 8 ?r = replicate 8 0" using o assms(2,4) by (simp add: slice_patch_other slice_replicate)
  then show "slice (mask_off L) 8 ret = m @ replicate (8 - n) 0"
    using slice_patch_padded [of "mask_off L" ?r m] o r assms(3-5) by simp
  have "slice (value_off L) 8 ret = slice (value_off L) 8 ?r"
    unfolding assms(5) using o r assms(3,4) by (intro slice_patch_other) simp_all
  then show "slice (value_off L) 8 ret = v @ replicate (8 - n) 0"
    using slice_patch_padded [of "value_off L" "replicate (acl_size L) 0" v] o assms(2,4) by (simp add: slice_replicate)
qed

lemma un_le_extend:
  assumes "LENGTH('a::len) = 8 * n" "n \<le> 8"
  shows "un_le64 (le_bytes n (v :: 'a word) @ replicate (8 - n) 0) = ucast v"
proof (rule bit_word_eqI)
  fix k assume "k < LENGTH(64)"
  then have k: "k < 64" by simp
  have "8 * (k div 8) + k mod 8 = k" by simp
  moreover have "k div 8 < n \<longleftrightarrow> k < LENGTH('a)" using assms(1) by linarith
  ultimately show "bit (un_le64 (le_bytes n v @ replicate (8 - n) 0)) k = bit (ucast v :: u64) k"
    using k assms(2) bit_imp_le_length [of v k]
    by (auto simp: bit_un_le nth_append nth_le_bytes bit_simps)
qed

lemma NewACLField_reads:
  assumes "acl_ok L"
  shows "un_le64 (slice (value_off L) 8 (NewACLField8 L v8 m8)) = ucast v8 \<and>
      un_le64 (slice (mask_off L) 8 (NewACLField8 L v8 m8)) = ucast m8"
    and "un_le64 (slice (value_off L) 8 (NewACLField16 L v16 m16)) = ucast v16 \<and>
      un_le64 (slice (mask_off L) 8 (NewACLField16 L v16 m16)) = ucast m16"
    and "un_le64 (slice (value_off L) 8 (NewACLField32 L v32 m32)) = ucast v32 \<and>
      un_le64 (slice (mask_off L) 8 (NewACLField32 L v32 m32)) = ucast m32"
    and "un_le64 (slice (value_off L) 8 (NewACLField64 L v64 m64)) = v64 \<and>
      un_le64 (slice (mask_off L) 8 (NewACLField64 L v64 m64)) = m64"
proof -
  have "[v] = le_bytes 1 v" for v :: u8 by (simp add: numeral_eq_Suc)
  then show "un_le64 (slice (value_off L) 8 (NewACLField8 L v8 m8)) = ucast v8 \<and>
      un_le64 (slice (mask_off L) 8 (NewACLField8 L v8 m8)) = ucast m8"
    using slice_patches [OF assms _ _ _ NewACLField8_def, where n = 1]
      un_le_extend [where n = 1 and 'a = 8] by simp
qed (use slice_patches [OF assms _ _ _ NewACLField16_def, where n = 2] un_le_extend [where n = 2 and 'a = 16]
    slice_patches [OF assms _ _ _ NewACLField32_def, where n = 4] un_le_extend [where n = 4 and 'a = 32]
    slice_patches [OF assms _ _ _ NewACLField64_def, where n = 8] un_le_extend [where n = 8 and 'a = 64]
    in \<open>simp_all\<close>)

end
