(* ===== verification/Pipeline.thy ===== *)
theory Pipeline
  imports Transformers
begin

text \<open>
  Pipelines of the packet framework (src/pipeline): creation of pipelines, ports and tables
  over the parameter blocks of \<open>Transformers\<close>, table entries, statistics, and the run loop
  with its C part src/pipeline/pipeline_loop.h.  The functions of rte_pipeline.h are the
  fields of \<open>pl_api\<close>; they read C memory and act on the world \<open>'w\<close>.
\<close>

section \<open>Pipelines, ports and tables\<close>

record Params =
  pl_Name :: "byte list"
  SocketID :: u64
  OffsetPortID :: u32

definition Params_Transform :: "(pheap \<Rightarrow> pptr) \<Rightarrow> Params \<Rightarrow> pheap \<Rightarrow> (pptr \<times> pheap) option" where
  "Params_Transform malloc p h = do {
     let (params, h) = new_struct malloc h;
     let (name, h) = new_string malloc (pl_Name p) h;
     h \<leftarrow> set_fields params [(Fld ''name'', Ptr name), (Fld ''socket_id'', V32 (ucast (SocketID p))),
                             (Fld ''offset_port_id'', V32 (OffsetPortID p))] h;
     Some (params, h) }"

definition Params_dtor :: "pptr \<Rightarrow> pheap \<Rightarrow> pheap option" where
  "Params_dtor = free_struct [Fld ''name'']"

text \<open>The structures passed by reference from Go memory.\<close>

record ('ops, 'fn) port_params =
  pp_ops :: 'ops
  arg_create :: pptr
  f_action :: 'fn
  arg_ah :: addr

record 'fn port_in_params = "(in_ops, 'fn) port_params" +
  burst_size :: u32

record 'fn table_params =
  tp_ops :: table_ops
  tp_arg_create :: pptr
  f_action_hit :: 'fn
  f_action_miss :: 'fn
  tp_arg_ah :: addr
  action_data_size :: u32

record ('w, 'fn) pl_api =
  rte_pipeline_create :: "pptr \<Rightarrow> pheap \<Rightarrow> 'w \<Rightarrow> addr \<times> 'w"
  rte_pipeline_free :: "addr \<Rightarrow> 'w \<Rightarrow> int \<times> 'w"
  rte_pipeline_check :: "addr \<Rightarrow> 'w \<Rightarrow> int \<times> 'w"
  rte_pipeline_flush :: "addr \<Rightarrow> 'w \<Rightarrow> int \<times> 'w"
  rte_pipeline_run :: "addr \<Rightarrow> 'w \<Rightarrow> int \<times> 'w"
  rte_pipeline_port_in_create :: "addr \<Rightarrow> 'fn port_in_params \<Rightarrow> pheap \<Rightarrow> 'w \<Rightarrow> (int \<times> u32) \<times> 'w"
  rte_pipeline_port_out_create :: "addr \<Rightarrow> (out_ops, 'fn) port_params \<Rightarrow> pheap \<Rightarrow> 'w \<Rightarrow> (int \<times> u32) \<times> 'w"
  rte_pipeline_port_in_connect_to_table :: "addr \<Rightarrow> u32 \<Rightarrow> u32 \<Rightarrow> 'w \<Rightarrow> int \<times> 'w"
  rte_pipeline_port_in_disable :: "addr \<Rightarrow> u32 \<Rightarrow> 'w \<Rightarrow> int \<times> 'w"
  rte_pipeline_port_in_enable :: "addr \<Rightarrow> u32 \<Rightarrow> 'w \<Rightarrow> int \<times> 'w"
  rte_pipeline_table_create :: "addr \<Rightarrow> 'fn table_params \<Rightarrow> pheap \<Rightarrow> 'w \<Rightarrow> (int \<times> u32) \<times> 'w"
  rte_pipeline_table_default_entry_add :: "addr \<Rightarrow> u32 \<Rightarrow> addr \<Rightarrow> 'w \<Rightarrow> (int \<times> addr) \<times> 'w"
  rte_pipeline_table_default_entry_delete :: "addr \<Rightarrow> u32 \<Rightarrow> addr \<Rightarrow> 'w \<Rightarrow> int \<times> 'w"
  rte_pipeline_table_entry_add :: "addr \<Rightarrow> u32 \<Rightarrow> addr \<Rightarrow> addr \<Rightarrow> addr \<Rightarrow> 'w \<Rightarrow> (int \<times> int) \<times> 'w"
  rte_pipeline_table_entry_delete :: "addr \<Rightarrow> u32 \<Rightarrow> addr \<Rightarrow> addr \<Rightarrow> 'w \<Rightarrow> (int \<times> int) \<times> 'w"
  rte_pipeline_port_in_stats_read :: "addr \<Rightarrow> u32 \<Rightarrow> addr \<Rightarrow> int \<Rightarrow> 'w \<Rightarrow> int \<times> 'w"
  rte_pipeline_port_out_stats_read :: "addr \<Rightarrow> u32 \<Rightarrow> addr \<Rightarrow> int \<Rightarrow> 'w \<Rightarrow> int \<times> 'w"
  rte_pipeline_table_stats_read :: "addr \<Rightarrow> u32 \<Rightarrow> addr \<Rightarrow> int \<Rightarrow> 'w \<Rightarrow> int \<times> 'w"

definition status :: "rte_errnos \<Rightarrow> int \<times> 'w \<Rightarrow> error \<times> 'w" where
  "status c r = (IntErr c (fst r), snd r)"

definition Pipeline_Create ::
  "('w, 'fn) pl_api \<Rightarrow> (pheap \<Rightarrow> pptr) \<Rightarrow> Params \<Rightarrow> pheap \<Rightarrow> 'w \<Rightarrow> (addr \<times> pheap \<times> 'w) option" where
  "Pipeline_Create A malloc p = with_arg (Params_Transform malloc p) Params_dtor (rte_pipeline_create A)"

definition Pipeline_Free :: "rte_errnos \<Rightarrow> ('w, 'fn) pl_api \<Rightarrow> addr \<Rightarrow> 'w \<Rightarrow> error \<times> 'w" where
  "Pipeline_Free c A pl w = status c (rte_pipeline_free A pl w)"

definition Check :: "rte_errnos \<Rightarrow> ('w, 'fn) pl_api \<Rightarrow> addr \<Rightarrow> 'w \<Rightarrow> error \<times> 'w" where
  "Check c A pl w = status c (rte_pipeline_check A pl w)"

definition Pipeline_Flush :: "rte_errnos \<Rightarrow> ('w, 'fn) pl_api \<Rightarrow> addr \<Rightarrow> 'w \<Rightarrow> error \<times> 'w" where
  "Pipeline_Flush c A pl w = status c (rte_pipeline_flush A pl w)"

definition Run :: "('w, 'fn) pl_api \<Rightarrow> addr \<Rightarrow> 'w \<Rightarrow> int \<times> 'w" where
  "Run A pl w = rte_pipeline_run A pl w"

record 'fn PortInParams =
  pin_Params :: InParams
  pin_Action :: 'fn
  pin_ActionArg :: addr
  BurstSize :: u64

record 'fn PortOutParams =
  pout_Params :: OutParams
  pout_Action :: 'fn
  pout_ActionArg :: addr

record 'fn TableParams =
  tb_Params :: TableKind
  OnHit :: 'fn
  OnMiss :: 'fn
  tb_ActionArg :: addr
  ActionDataSize :: u64

text \<open>The output \<^verbatim>\<open>id\<close> is written by the C function; Go returns it with the error.\<close>

definition id_status :: "rte_errnos \<Rightarrow> ((int \<times> u32) \<times> pheap \<times> 'w) option \<Rightarrow> ((u32 \<times> error) \<times> pheap \<times> 'w) option" where
  "id_status c = map_option (\<lambda>((rc, i), h, w). ((i, IntErr c rc), h, w))"

definition PortInCreate ::
  "rte_errnos \<Rightarrow> ('w, 'fn) pl_api \<Rightarrow> (pheap \<Rightarrow> pptr) \<Rightarrow> addr \<Rightarrow> 'fn PortInParams \<Rightarrow> pheap \<Rightarrow> 'w
    \<Rightarrow> ((u32 \<times> error) \<times> pheap \<times> 'w) option" where
  "PortInCreate c A malloc pl p h w = id_status c
     (with_arg (In_Transform malloc (pin_Params p)) (In_dtor (pin_Params p))
        (\<lambda>x. rte_pipeline_port_in_create A pl
           \<lparr>pp_ops = InOps (pin_Params p), arg_create = x, f_action = pin_Action p,
            arg_ah = pin_ActionArg p, burst_size = ucast (BurstSize p)\<rparr>) h w)"

definition PortOutCreate ::
  "rte_errnos \<Rightarrow> ('w, 'fn) pl_api \<Rightarrow> (pheap \<Rightarrow> pptr) \<Rightarrow> addr \<Rightarrow> 'fn PortOutParams \<Rightarrow> pheap \<Rightarrow> 'w
    \<Rightarrow> ((u32 \<times> error) \<times> pheap \<times> 'w) option" where
  "PortOutCreate c A malloc pl p h w = do {
     ops \<leftarrow> OutOps (pout_Params p);
     id_status c (with_arg (Out_Transform malloc (pout_Params p)) (Out_dtor (pout_Params p))
        (\<lambda>x. rte_pipeline_port_out_create A pl
           \<lparr>pp_ops = ops, arg_create = x, f_action = pout_Action p,
            arg_ah = pout_ActionArg p\<rparr>) h w) }"

definition TableCreate ::
  "rte_errnos \<Rightarrow> ('w, 'fn) pl_api \<Rightarrow> nat \<Rightarrow> (pheap \<Rightarrow> pptr) \<Rightarrow> addr \<Rightarrow> 'fn TableParams \<Rightarrow> pheap \<Rightarrow> 'w
    \<Rightarrow> ((u32 \<times> error) \<times> pheap \<times> 'w) option" where
  "TableCreate c A max_fields malloc pl p h w = id_status c
     (with_arg (Table_Transform max_fields malloc (tb_Params p)) (Table_dtor (tb_Params p))
        (\<lambda>x. rte_pipeline_table_create A pl
           \<lparr>tp_ops = Ops (tb_Params p), tp_arg_create = x, f_action_hit = OnHit p, f_action_miss = OnMiss p,
            tp_arg_ah = tb_ActionArg p, action_data_size = ucast (ActionDataSize p)\<rparr>) h w)"

definition ConnectToTable :: "rte_errnos \<Rightarrow> ('w, 'fn) pl_api \<Rightarrow> addr \<Rightarrow> u32 \<Rightarrow> u32 \<Rightarrow> 'w \<Rightarrow> error \<times> 'w" where
  "ConnectToTable c A pl port table w = status c (rte_pipeline_port_in_connect_to_table A pl port table w)"

definition Disable :: "rte_errnos \<Rightarrow> ('w, 'fn) pl_api \<Rightarrow> addr \<Rightarrow> u32 \<Rightarrow> 'w \<Rightarrow> error \<times> 'w" where
  "Disable c A pl port w = status c (rte_pipeline_port_in_disable A pl port w)"

definition Enable :: "rte_errnos \<Rightarrow> ('w, 'fn) pl_api \<Rightarrow> addr \<Rightarrow> u32 \<Rightarrow> 'w \<Rightarrow> error \<times> 'w" where
  "Enable c A pl port w = status c (rte_pipeline_port_in_enable A pl port w)"

subsection \<open>Table entries\<close>

text \<open>
  An entry is memory; the offsets of its fields are constants of the C header.  \<^verbatim>\<open>make\<close>
  gives zeroed memory at an address \<open>b\<close> of the Go heap.
\<close>

record entry_layout =
  TABLE_ENTRY_ACTION :: addr
  TABLE_ENTRY_PORT_ID :: addr
  TABLE_ENTRY_TABLE_ID :: addr
  TABLE_ENTRY_ACTION_DATA :: addr
  sizeof_entry :: nat

definition SetAction :: "entry_layout \<Rightarrow> addr \<Rightarrow> u32 \<Rightarrow> memory \<Rightarrow> memory" where
  "SetAction L entry code m = store32 m (entry + TABLE_ENTRY_ACTION L) code"

definition GetAction :: "entry_layout \<Rightarrow> addr \<Rightarrow> memory \<Rightarrow> u32" where
  "GetAction L entry m = load32 m (entry + TABLE_ENTRY_ACTION L)"

definition SetPortID :: "entry_layout \<Rightarrow> addr \<Rightarrow> u32 \<Rightarrow> memory \<Rightarrow> memory" where
  "SetPortID L entry port m = store32 m (entry + TABLE_ENTRY_PORT_ID L) port"

definition GetPortID :: "entry_layout \<Rightarrow> addr \<Rightarrow> memory \<Rightarrow> u32" where
  "GetPortID L entry m = load32 m (entry + TABLE_ENTRY_PORT_ID L)"

definition SetTableID :: "entry_layout \<Rightarrow> addr \<Rightarrow> u32 \<Rightarrow> memory \<Rightarrow> memory" where
  "SetTableID L entry table m = store32 m (entry + TABLE_ENTRY_TABLE_ID L) table"

definition GetTableID :: "entry_layout \<Rightarrow> addr \<Rightarrow> memory \<Rightarrow> u32" where
  "GetTableID L entry m = load32 m (entry + TABLE_ENTRY_TABLE_ID L)"

definition GetActionData :: "entry_layout \<Rightarrow> addr \<Rightarrow> addr" where
  "GetActionData L entry = entry + TABLE_ENTRY_ACTION_DATA L"

definition NewTableEntry :: "entry_layout \<Rightarrow> addr \<Rightarrow> nat \<Rightarrow> memory \<Rightarrow> addr \<times> memory" where
  "NewTableEntry L b actionDataSize m = (b, store_bytes m b (replicate (sizeof_entry L + actionDataSize) 0))"

definition TableDefaultEntryAdd ::
  "rte_errnos \<Rightarrow> ('w, 'fn) pl_api \<Rightarrow> addr \<Rightarrow> u32 \<Rightarrow> addr \<Rightarrow> 'w \<Rightarrow> (addr \<times> error) \<times> 'w" where
  "TableDefaultEntryAdd c A pl table entry w =
     (let ((rc, p), w) = rte_pipeline_table_default_entry_add A pl table entry w in ((p, IntErr c rc), w))"

definition TableDefaultEntryDelete ::
  "rte_errnos \<Rightarrow> ('w, 'fn) pl_api \<Rightarrow> addr \<Rightarrow> u32 \<Rightarrow> addr \<Rightarrow> 'w \<Rightarrow> error \<times> 'w" where
  "TableDefaultEntryDelete c A pl table entry w =
     status c (rte_pipeline_table_default_entry_delete A pl table entry w)"

definition TableEntryAdd ::
  "rte_errnos \<Rightarrow> ('w, 'fn) pl_api \<Rightarrow> addr \<Rightarrow> u32 \<Rightarrow> addr \<Rightarrow> addr \<Rightarrow> addr \<Rightarrow> 'w \<Rightarrow> (bool \<times> error) \<times> 'w" where
  "TableEntryAdd c A pl table pkey entry ptrEntry w =
     (let ((rc, found), w) = rte_pipeline_table_entry_add A pl table pkey entry ptrEntry w
      in ((found \<noteq> 0, IntErr c rc), w))"

definition TableEntryDelete ::
  "rte_errnos \<Rightarrow> ('w, 'fn) pl_api \<Rightarrow> addr \<Rightarrow> u32 \<Rightarrow> addr \<Rightarrow> addr \<Rightarrow> 'w \<Rightarrow> (bool \<times> error) \<times> 'w" where
  "TableEntryDelete c A pl table pkey entry w =
     (let ((rc, found), w) = rte_pipeline_table_entry_delete A pl table pkey entry w
      in ((found \<noteq> 0, IntErr c rc), w))"

subsection \<open>Statistics (src/pipeline/stats.go)\<close>

definition PortOutStatsRead :: "rte_errnos \<Rightarrow> ('w, 'fn) pl_api \<Rightarrow> addr \<Rightarrow> u32 \<Rightarrow> addr \<Rightarrow> bool \<Rightarrow> 'w \<Rightarrow> error \<times> 'w" where
  "PortOutStatsRead c A pl port s clear w =
     status c (rte_pipeline_port_out_stats_read A pl port s (if clear then 1 else 0) w)"

definition PortInStatsRead :: "rte_errnos \<Rightarrow> ('w, 'fn) pl_api \<Rightarrow> addr \<Rightarrow> u32 \<Rightarrow> addr \<Rightarrow> bool \<Rightarrow> 'w \<Rightarrow> error \<times> 'w" where
  "PortInStatsRead c A pl port s clear w =
     status c (rte_pipeline_port_in_stats_read A pl port s (if clear then 1 else 0) w)"

definition TableStatsRead :: "rte_errnos \<Rightarrow> ('w, 'fn) pl_api \<Rightarrow> addr \<Rightarrow> u32 \<Rightarrow> addr \<Rightarrow> bool \<Rightarrow> 'w \<Rightarrow> error \<times> 'w" where
  "TableStatsRead c A pl table s clear w =
     status c (rte_pipeline_table_stats_read A pl table s (if clear then 1 else 0) w)"

section \<open>The run loop\<close>

text \<open>
  \<^verbatim>\<open>run_pipeline_loop\<close> on fuel: \<open>Running\<close> means that the fuel was used up, \<open>Faulted\<close> a panic or a
  bad memory access.  Other goroutines run between iterations; \<open>env t\<close> is what they do to C memory
  before iteration \<open>t\<close>.  The counter \<open>n\<close> has 32 bits and wraps.
\<close>

datatype 'a outcome = Running | Faulted | Returned 'a

type_synonym 'w control = "pptr \<Rightarrow> addr \<Rightarrow> pheap \<Rightarrow> 'w \<Rightarrow> int option"

record 'w lcore_arg =
  la_p :: addr
  f_ctrl :: "'w control option"
  ops_arg :: pptr
  la_flush :: u32

fun run_pipeline_loop ::
  "('w, 'fn) pl_api \<Rightarrow> (nat \<Rightarrow> pheap \<Rightarrow> pheap) \<Rightarrow> 'w lcore_arg \<Rightarrow> nat \<Rightarrow> nat \<Rightarrow> u32 \<Rightarrow> pheap \<Rightarrow> 'w
    \<Rightarrow> (int \<times> pheap \<times> 'w) outcome" where
  "run_pipeline_loop A env ctx 0 t n h w = Running"
| "run_pipeline_loop A env ctx (Suc fuel) t n h w =
     (let h = env t h; w = snd (rte_pipeline_run A (la_p ctx) w) in
      if la_flush ctx = 0 \<or> n AND (la_flush ctx - 1) \<noteq> 0
      then run_pipeline_loop A env ctx fuel (Suc t) (n + 1) h w
      else
        let w = snd (rte_pipeline_flush A (la_p ctx) w) in
        case f_ctrl ctx of
          None \<Rightarrow> run_pipeline_loop A env ctx fuel (Suc t) (n + 1) h w
        | Some f \<Rightarrow>
            (case f (ops_arg ctx) (la_p ctx) h w of
               None \<Rightarrow> Faulted
             | Some rc \<Rightarrow>
                 if rc > 0 then Returned (0, h, w)
                 else if rc < 0 then Returned (rc, h, w)
                 else run_pipeline_loop A env ctx fuel (Suc t) (n + 1) h w))"

text \<open>The interface \<^verbatim>\<open>Controller\<close>, and the controller of the package.\<close>

record 'w Controller =
  ctl_Transform :: "(pheap \<Rightarrow> pptr) \<Rightarrow> pheap \<Rightarrow> (pptr \<times> pheap) option"
  ctl_dtor :: "pptr \<Rightarrow> pheap \<Rightarrow> pheap option"
  Ctrl :: "'w control option"

definition simple_control :: "'w control" where
  "simple_control params p h w = (case h params of Some (CChars (b # _)) \<Rightarrow> Some (uint b) | _ \<Rightarrow> None)"

definition NewSimpleController :: "(pheap \<Rightarrow> pptr) \<Rightarrow> pheap \<Rightarrow> pptr \<times> pheap" where
  "NewSimpleController malloc h = new_block malloc (CChars [0]) h"

definition SimpleController :: "pptr \<Rightarrow> 'w Controller" where
  "SimpleController stop =
     \<lparr>ctl_Transform = (\<lambda>_ h. Some (stop, h)), ctl_dtor = (\<lambda>_ h. Some h), Ctrl = Some simple_control\<rparr>"

definition Stop :: "pptr \<Rightarrow> pheap \<Rightarrow> pheap" where
  "Stop stop h = h(stop \<mapsto> CChars [1])"

definition RunLoop ::
  "rte_errnos \<Rightarrow> ('w, 'fn) pl_api \<Rightarrow> (nat \<Rightarrow> pheap \<Rightarrow> pheap) \<Rightarrow> (pheap \<Rightarrow> pptr) \<Rightarrow> nat \<Rightarrow> addr \<Rightarrow> u32 \<Rightarrow>
   'w Controller option \<Rightarrow> pheap \<Rightarrow> 'w \<Rightarrow> (error \<times> pheap \<times> 'w) outcome" where
  "RunLoop c A env malloc fuel pl flush ctl h w =
     (if flush AND (flush - 1) \<noteq> 0 then Faulted
      else case ctl of
        None \<Rightarrow>
          (case run_pipeline_loop A env \<lparr>la_p = pl, f_ctrl = None, ops_arg = 0, la_flush = flush\<rparr> fuel 0 0 h w of
             Returned (rc, h, w) \<Rightarrow> Returned (IntErr c rc, h, w)
           | Running \<Rightarrow> Running | Faulted \<Rightarrow> Faulted)
      | Some ct \<Rightarrow>
          (case ctl_Transform ct malloc h of
             None \<Rightarrow> Faulted
           | Some (arg, h) \<Rightarrow>
               (case run_pipeline_loop A env
                  \<lparr>la_p = pl, f_ctrl = Ctrl ct, ops_arg = arg, la_flush = flush\<rparr> fuel 0 0 h w of
                  Returned (rc, h, w) \<Rightarrow>
                    (case ctl_dtor ct arg h of None \<Rightarrow> Faulted | Some h \<Rightarrow> Returned (IntErr c rc, h, w))
                | Running \<Rightarrow> Running | Faulted \<Rightarrow> Faulted)))"


section \<open>Properties\<close>

subsection \<open>Parameters\<close>

definition pipeline_image :: "Params \<Rightarrow> field \<rightharpoonup> seen" where
  "pipeline_image p = image_of
     [(Fld ''name'', strz (pl_Name p)), (Fld ''socket_id'', Num (V32 (ucast (SocketID p)))),
      (Fld ''offset_port_id'', Num (V32 (OffsetPortID p)))]"

lemma pipeline_params_keep:
  assumes "fresh_malloc malloc" "finite (dom h)"
  shows "keeps (Params_Transform malloc p h) Params_dtor (pipeline_image p) h"
  unfolding Params_dtor_def
  by (rule named_keeps [OF assms Params_Transform_def refl]) (auto simp: pipeline_image_def image_of_def strz_def)

interpretation pipeline: transformer Params_Transform "\<lambda>_. Params_dtor" "\<lambda>_. True" pipeline_image
  by unfold_locales (use pipeline_params_keep in \<open>auto simp: keeps_def\<close>)

lemma Pipeline_Create_passes:
  assumes "fresh_malloc malloc" "finite (dom h)" "h 0 = None"
  shows "\<exists>arg h'. h \<subseteq>\<^sub>m h' \<and> see h' arg = pipeline_image p \<and>
    Pipeline_Create A malloc p h w =
      Some (fst (rte_pipeline_create A arg h' w), h, snd (rte_pipeline_create A arg h' w))"
  unfolding Pipeline_Create_def by (rule pipeline.with_arg_call [OF assms TrueI])

lemma id_status_call:
  "id_status c (Some (fst r, h, snd r)) = Some ((snd (fst r), IntErr c (fst (fst r))), h, snd r)"
  by (simp add: id_status_def case_prod_unfold)

lemma PortInCreate_passes:
  assumes "fresh_malloc malloc" "finite (dom h)" "h 0 = None" "in_ok (pin_Params p)"
  shows "\<exists>arg h' r. h \<subseteq>\<^sub>m h' \<and> see h' arg = in_image (pin_Params p) \<and>
    r = rte_pipeline_port_in_create A pl
      \<lparr>pp_ops = InOps (pin_Params p), arg_create = arg, f_action = pin_Action p,
       arg_ah = pin_ActionArg p, burst_size = ucast (BurstSize p)\<rparr> h' w \<and>
    PortInCreate c A malloc pl p h w = Some ((snd (fst r), IntErr c (fst (fst r))), h, snd r)"
  unfolding PortInCreate_def using in_port.with_arg_call [OF assms] by (metis id_status_call)

lemma PortOutCreate_passes:
  assumes "fresh_malloc malloc" "finite (dom h)" "h 0 = None" "out_ok (pout_Params p)"
    and "OutOps (pout_Params p) = Some ops"
  shows "\<exists>arg h' r. h \<subseteq>\<^sub>m h' \<and> see h' arg = out_image (pout_Params p) \<and>
    r = rte_pipeline_port_out_create A pl
      \<lparr>pp_ops = ops, arg_create = arg, f_action = pout_Action p, arg_ah = pout_ActionArg p\<rparr> h' w \<and>
    PortOutCreate c A malloc pl p h w = Some ((snd (fst r), IntErr c (fst (fst r))), h, snd r)"
  unfolding PortOutCreate_def assms(5) Option.bind.bind_lunit
  using out_port.with_arg_call [OF assms(1-4)] by (metis id_status_call)

lemma OutOps_defined: "\<exists>ops. OutOps p = Some ops"
  by (cases p) (simp_all add: RingTx_OutOps_cases)

text \<open>C18: TableCreate, for every supported table (ACL, array, hash, cuckoo hash, LPM for both families, stub), calls the C function once with the function table of the kind and with a parameter block in which C reads exactly the fields of the Go configuration, names as zero-terminated strings and key masks as bytes included; it returns the identifier and the error of the call, and frees every block it allocated, so that C memory afterwards is the memory before.\<close>

theorem TableCreate_passes:
  assumes "fresh_malloc malloc" "finite (dom h)" "h 0 = None" "table_ok max_fields (tb_Params p)"
  shows "\<exists>arg h' r. h \<subseteq>\<^sub>m h' \<and> see h' arg = table_image (tb_Params p) \<and>
    r = rte_pipeline_table_create A pl
      \<lparr>tp_ops = Ops (tb_Params p), tp_arg_create = arg, f_action_hit = OnHit p, f_action_miss = OnMiss p,
       tp_arg_ah = tb_ActionArg p, action_data_size = ucast (ActionDataSize p)\<rparr> h' w \<and>
    TableCreate c A max_fields malloc pl p h w = Some ((snd (fst r), IntErr c (fst (fst r))), h, snd r)"
  unfolding TableCreate_def using table_param.with_arg_call [OF assms] by (metis id_status_call)

definition example_table :: "'fn \<Rightarrow> 'fn TableParams" where
  "example_table fn =
     \<lparr>tb_Params = TableLPM \<lparr>lpm_TableOps = LPM6Ops, lpm_Name = [65], lpm_Rules = 8, NumTBL8 = 1,
        EntryUniqueSize = 4, lpm_Offset = 0\<rparr>,
      OnHit = fn, OnMiss = fn, tb_ActionArg = 0, ActionDataSize = 4\<rparr>"

theorem TableCreate_passes_witness:
  "\<forall>c A pl (w :: 'w) fn. \<exists>arg h' r. Map.empty \<subseteq>\<^sub>m h' \<and> see h' arg = table_image (tb_Params (example_table fn)) \<and>
     r = rte_pipeline_table_create A pl
       \<lparr>tp_ops = Ops (tb_Params (example_table fn)), tp_arg_create = arg, f_action_hit = OnHit (example_table fn),
        f_action_miss = OnMiss (example_table fn), tp_arg_ah = tb_ActionArg (example_table fn),
        action_data_size = ucast (ActionDataSize (example_table fn))\<rparr> h' w \<and>
     TableCreate c A 64 next_ptr pl (example_table fn) Map.empty w
       = Some ((snd (fst r), IntErr c (fst (fst r))), Map.empty, snd r)"
  by (intro allI, rule TableCreate_passes [OF next_ptr_fresh]) (simp_all add: example_table_def)

subsection \<open>Table entries\<close>

lemma entry_fields:
  "GetAction L e (SetAction L e x m) = x" "GetPortID L e (SetPortID L e x m) = x"
  "GetTableID L e (SetTableID L e x m) = x"
  by (simp_all add: GetAction_def SetAction_def GetPortID_def SetPortID_def GetTableID_def SetTableID_def
      mem_simps)

subsection \<open>The run loop\<close>

lemma flush_mask:
  "flush AND (flush - 1) = 0 \<longleftrightarrow> flush = 0 \<or> (\<exists>j<32. flush = (2 :: u32) ^ j)"
proof
  assume z: "flush AND (flush - 1) = 0"
  show "flush = 0 \<or> (\<exists>j<32. flush = 2 ^ j)"
  proof (cases "flush = 0")
    case False
    define u where "u = unat flush"
    have u: "0 < u" "u < 2 ^ 32" using False unat_mod_small [of flush] by (auto simp: u_def unat_gt_0)
    have u1: "unat (flush - 1) = u - 1" using False by (simp add: u_def unat_minus_one)
    obtain j where j: "2 ^ j \<le> u" "u < 2 ^ Suc j" using ex_power_ivl1 [of 2 u] u(1) by auto
    have "(2 :: nat) ^ j < 2 ^ 32" using j(1) u(2) by (rule le_less_trans)
    then have "j < 32" by (rule power_less_imp_less_exp [rotated]) simp
    have "u = 2 ^ j"
    proof (rule ccontr)
      assume "u \<noteq> 2 ^ j"
      then have "u div 2 ^ j = 1" "(u - 1) div 2 ^ j = 1"
        using j by (auto intro!: div_nat_eqI)
      then have "bit (unat flush) j" "bit (unat (flush - 1)) j" using u1 by (simp_all add: u_def bit_iff_odd)
      then have "bit (flush AND (flush - 1)) j" by (simp add: bit_and_iff bit_unsigned_iff)
      then show False using z by simp
    qed
    moreover have "flush = of_nat u" by (simp add: u_def)
    ultimately have "flush = 2 ^ j" by simp
    then show ?thesis using \<open>j < 32\<close> by blast
  qed simp
next
  assume "flush = 0 \<or> (\<exists>j<32. flush = 2 ^ j)"
  moreover have "(2 :: u32) ^ j AND (2 ^ j - 1) = 0" for j
  proof -
    have "(2 :: u32) ^ j AND (2 ^ j - 1) = take_bit j (2 ^ j)" by (simp only: take_bit_eq_mask mask_eq_exp_minus_1)
    then show ?thesis by (simp add: take_bit_eq_mod)
  qed
  ultimately show "flush AND (flush - 1) = 0" by auto
qed


lemma RunLoop_bad_flush:
  "\<not> (flush = 0 \<or> (\<exists>j<32. flush = 2 ^ j)) \<Longrightarrow> RunLoop c A env malloc fuel pl flush ctl h w = Faulted"
  by (auto simp: RunLoop_def flush_mask)

text \<open>A flush interval of zero, or a missing control function, keeps the loop running for ever.\<close>

lemma loop_runs_forever:
  "la_flush ctx = 0 \<or> f_ctrl ctx = None \<Longrightarrow> run_pipeline_loop A env ctx fuel t n h w = Running"
  by (induction fuel arbitrary: t n h w) (auto simp: Let_def)

lemma RunLoop_zero_flush_hangs:
  "ctl_Transform ct malloc h = Some (arg, h1) \<Longrightarrow> RunLoop c A env malloc fuel pl 0 (Some ct) h w = Running"
  "RunLoop c A env malloc fuel pl 0 None h w = Running"
  by (simp_all add: RunLoop_def loop_runs_forever)

text \<open>The counter is zero modulo the interval at the multiples of the interval, also after it wraps.\<close>

lemma counter_mask:
  assumes "j < 32"
  shows "(of_nat t :: u32) AND (2 ^ j - 1) = 0 \<longleftrightarrow> 2 ^ j dvd t"
proof -
  have "(of_nat t :: u32) AND (2 ^ j - 1) = take_bit j (of_nat t)"
    by (simp add: mask_eq_exp_minus_1 take_bit_eq_mask)
  also have "\<dots> = of_nat (t mod 2 ^ j)" by (simp only: take_bit_of_nat take_bit_nat_def)
  finally have "(of_nat t :: u32) AND (2 ^ j - 1) = of_nat (t mod 2 ^ j)" .
  moreover have "t mod 2 ^ j < 2 ^ 32"
    by (rule less_le_trans [OF mod_less_divisor power_increasing]) (use assms in auto)
  ultimately show ?thesis
    using of_nat_word_inj [of "t mod 2 ^ j" 0, where 'a = 32] by (auto simp: dvd_eq_mod_eq_0)
qed

text \<open>One iteration of the loop and the first iteration not before \<open>k\<close> that looks at the flag.\<close>

definition iteration :: "('w, 'fn) pl_api \<Rightarrow> addr \<Rightarrow> nat \<Rightarrow> nat \<Rightarrow> 'w \<Rightarrow> 'w" where
  "iteration A pl j t w =
     (let w = snd (rte_pipeline_run A pl w) in if 2 ^ j dvd t then snd (rte_pipeline_flush A pl w) else w)"

definition stop_time :: "nat \<Rightarrow> nat \<Rightarrow> nat" where
  "stop_time j k = ((k + 2 ^ j - 1) div 2 ^ j) * 2 ^ j"

lemma stop_time:
  "2 ^ j dvd stop_time j k" "k \<le> stop_time j k" "stop_time j k < k + 2 ^ j"
  "2 ^ j dvd t \<Longrightarrow> k \<le> t \<Longrightarrow> stop_time j k \<le> t"
proof -
  let ?d = "2 ^ j :: nat"
  have q: "stop_time j k = k + ?d - 1 - (k + ?d - 1) mod ?d"
    by (simp add: stop_time_def minus_mod_eq_div_mult [symmetric])
  have r: "(k + ?d - 1) mod ?d < ?d" by simp
  show "2 ^ j dvd stop_time j k" by (simp add: stop_time_def)
  show "k \<le> stop_time j k" unfolding q using r by linarith
  show "stop_time j k < k + ?d" unfolding q using zero_less_power [of "2 :: nat" j] by linarith
  show "stop_time j k \<le> t" if d: "?d dvd t" and "k \<le> t"
  proof -
    obtain m where m: "t = ?d * m" using d by blast
    have "(k + ?d - 1) div ?d \<le> (t + (?d - 1)) div ?d" using \<open>k \<le> t\<close> by (intro div_le_mono) simp
    also have "\<dots> = m" unfolding m by (subst div_mult_self4) (simp_all add: div_less)
    finally show ?thesis by (simp add: stop_time_def m mult.commute)
  qed
qed


text \<open>
  The other goroutines leave the flag alone except for the call of \<^verbatim>\<open>Stop\<close> before iteration \<open>k\<close>.
\<close>

definition stops_at :: "(nat \<Rightarrow> pheap \<Rightarrow> pheap) \<Rightarrow> pptr \<Rightarrow> nat \<Rightarrow> bool" where
  "stops_at env stop k \<longleftrightarrow> (\<forall>t h. env t h stop = (if t = k then Stop stop h stop else h stop))"

definition flag_at :: "pptr \<Rightarrow> nat \<Rightarrow> nat \<Rightarrow> pheap \<Rightarrow> bool" where
  "flag_at stop k t h \<longleftrightarrow> h stop = Some (CChars [if k < t then 1 else 0])"

lemma flag_env: "stops_at env stop k \<Longrightarrow> flag_at stop k t h \<Longrightarrow> flag_at stop k (Suc t) (env t h)"
  by (auto simp: stops_at_def flag_at_def Stop_def)

lemma loop_step:
  fixes w :: 'w
  assumes "stops_at env stop k" "flag_at stop k t h" "j < 32"
    and ctx: "ctx = \<lparr>la_p = pl, f_ctrl = Some simple_control, ops_arg = stop, la_flush = 2 ^ j\<rparr>"
  shows "run_pipeline_loop A env ctx (Suc fuel) t (of_nat t) h w =
    (if 2 ^ j dvd t \<and> k \<le> t then Returned (0, env t h, iteration A pl j t w)
     else run_pipeline_loop A env ctx fuel (Suc t) (of_nat (Suc t)) (env t h) (iteration A pl j t w))"
proof -
  have ne: "(2 :: u32) ^ j \<noteq> 0" using assms(3) by (simp add: exp_eq_zero_iff)
  have "env t h stop = Some (CChars [if k \<le> t then 1 else 0])"
    using flag_env [OF assms(1,2)] by (simp add: flag_at_def less_Suc_eq_le)
  then have "simple_control stop pl (env t h) v = Some (if k \<le> t then 1 else 0)" for v :: 'w
    by (simp add: simple_control_def)
  then show ?thesis
    using counter_mask [OF assms(3), of t] ne by (simp add: ctx iteration_def Let_def add.commute)
qed

lemma loop_stops:
  assumes "stops_at env stop k" "j < 32"
    and "ctx = \<lparr>la_p = pl, f_ctrl = Some simple_control, ops_arg = stop, la_flush = 2 ^ j\<rparr>"
    and "flag_at stop k t h" "t \<le> stop_time j k"
  shows "run_pipeline_loop A env ctx fuel t (of_nat t) h w =
    (if stop_time j k < t + fuel
     then Returned (0, fold env [t..<Suc (stop_time j k)] h, fold (iteration A pl j) [t..<Suc (stop_time j k)] w)
     else Running)"
  using assms(4,5)
proof (induction fuel arbitrary: t h w)
  case 0
  then show ?case by simp
next
  case (Suc fuel)
  let ?N = "stop_time j k"
  note step = loop_step [OF assms(1) Suc.prems(1) assms(2,3), of A fuel w]
  show ?case
  proof (cases "t = ?N")
    case True
    then show ?thesis using step stop_time(1,2) [where j = j and k = k] by (simp del: run_pipeline_loop.simps)
  next
    case False
    then have t: "t < ?N" "Suc t \<le> ?N" using Suc.prems(2) by auto
    have "\<not> (2 ^ j dvd t \<and> k \<le> t)" using stop_time(4) [where j = j and k = k and t = t] t by auto
    moreover have "[t..<Suc ?N] = t # [Suc t..<Suc ?N]" using t(1) by (simp add: upt_conv_Cons del: upt_Suc)
    ultimately show ?thesis
      using step Suc.IH [OF flag_env [OF assms(1) Suc.prems(1)] t(2)]
      by (auto simp del: upt_Suc run_pipeline_loop.simps of_nat_Suc)
  qed
qed

text \<open>C15: a pipeline loop with a power-of-two flush interval that watches a fresh SimpleController runs until another goroutine calls Stop, looks at the flag only in the iterations whose number is a multiple of the interval, also after the 32-bit counter has wrapped, and returns nil at the first such iteration that is not before the call, having run the pipeline once per iteration and flushed it at the multiples; with less fuel it is still running.\<close>

theorem RunLoop_stops:
  assumes "j < 32" "stops_at env stop k" "h stop = Some (CChars [0])"
  shows "RunLoop c A env malloc fuel pl (2 ^ j) (Some (SimpleController stop)) h w =
    (if stop_time j k < fuel
     then Returned (None, fold env [0..<Suc (stop_time j k)] h, fold (iteration A pl j) [0..<Suc (stop_time j k)] w)
     else Running)"
proof -
  have "flag_at stop k 0 h" using assms(3) by (simp add: flag_at_def)
  from loop_stops [OF assms(2,1) refl this, where pl = pl and A = A and fuel = fuel and w = w]
  show ?thesis using flush_mask [of "2 ^ j"] assms(1)
    by (auto simp: RunLoop_def SimpleController_def IntErr_def simp del: upt_Suc run_pipeline_loop.simps)
qed

theorem RunLoop_stops_witness:
  "\<forall>c (A :: (nat, unit) pl_api) malloc pl w. RunLoop c A (\<lambda>t. if t = 5 then Stop 7 else id) malloc 100 pl 4 (Some (SimpleController 7)) [7 \<mapsto> CChars [0]] w =
     Returned (None, [7 \<mapsto> CChars [1]], fold (iteration A pl 2) [0..<9] w)"
proof (intro allI)
  fix c and A :: "(nat, unit) pl_api" and malloc pl w
  let ?env = "\<lambda>t. if t = 5 then Stop 7 else id"
  have N: "stop_time 2 5 = 8" by (simp add: stop_time_def)
  have "stops_at ?env 7 5" by (simp add: stops_at_def)
  from RunLoop_stops [OF _ this, where j = 2 and h = "[7 \<mapsto> CChars [0]]" and c = c and A = A and malloc = malloc
      and fuel = 100 and pl = pl and w = w]
  show "RunLoop c A ?env malloc 100 pl 4 (Some (SimpleController 7)) [7 \<mapsto> CChars [0]] w =
     Returned (None, [7 \<mapsto> CChars [1]], fold (iteration A pl 2) [0..<9] w)"
    by (simp add: N Stop_def upt_rec)
qed

end
