(* ===== verification/Ethdev.thy ===== *)
theory Ethdev
  imports Transformers
begin

text \<open>
  Ethernet ports (src/ethdev/ethdev.go, rxtx.go, mtr.go): device and queue configuration by
  options, hairpin queues, enumeration of ports, links, flow control, packet bursts, transmit buffers
  and meters.  The functions of rte_ethdev.h and rte_mtr.h are the fields of \<open>eth_api\<close>, acting on the
  world \<open>'w\<close>; the C helpers in the preambles of the Go files are modelled.
\<close>

section \<open>Device configuration\<close>

record rte_eth_rxmode =
  rx_mq_mode :: u32
  rx_mtu :: u32
  split_hdr_size :: u16
  rx_offloads :: u64

record rte_eth_txmode =
  tx_mq_mode :: u32
  tx_offloads :: u64
  pvid :: u16
  hw_vlan_reject_tagged :: bool
  hw_vlan_reject_untagged :: bool
  hw_vlan_insert_pvid :: bool

record rte_eth_rss_conf =
  rss_key :: pptr
  rss_key_len :: u8
  rss_hf :: u64

record rte_eth_conf =
  link_speeds :: u32
  rxmode :: rte_eth_rxmode
  txmode :: rte_eth_txmode
  lpbk_mode :: u32
  rss_conf :: rte_eth_rss_conf
  intr_conf :: "int \<times> int \<times> int"

record ethConf =
  conf :: rte_eth_conf
  cptrs :: "pptr list"

record RxMode =
  rm_MqMode :: u64
  rm_MTU :: u32
  SplitHdrSize :: u16
  rm_Offloads :: u64

record TxMode =
  tm_MqMode :: u64
  tm_Offloads :: u64
  Pvid :: u16
  HwVlanRejectTagged :: bool
  HwVlanRejectUntagged :: bool
  HwVlanInsertPvid :: bool

record RssConf =
  Key :: "byte list"
  Hf :: u64

record IntrConf =
  LSC :: bool
  RXQ :: bool
  RMV :: bool

text \<open>The zero values of the C structures.\<close>

definition zero_rxmode :: rte_eth_rxmode where
  "zero_rxmode = \<lparr>rx_mq_mode = 0, rx_mtu = 0, split_hdr_size = 0, rx_offloads = 0\<rparr>"

definition zero_txmode :: rte_eth_txmode where
  "zero_txmode = \<lparr>tx_mq_mode = 0, tx_offloads = 0, pvid = 0, hw_vlan_reject_tagged = False,
     hw_vlan_reject_untagged = False, hw_vlan_insert_pvid = False\<rparr>"

definition zero_ethConf :: ethConf where
  "zero_ethConf = \<lparr>conf = \<lparr>link_speeds = 0, rxmode = zero_rxmode, txmode = zero_txmode, lpbk_mode = 0,
     rss_conf = \<lparr>rss_key = 0, rss_key_len = 0, rss_hf = 0\<rparr>, intr_conf = (0, 0, 0)\<rparr>, cptrs = []\<rparr>"

text \<open>\<open>old\<close> tells whether the DPDK version has the field \<^verbatim>\<open>split_hdr_size\<close> (before 22.11).\<close>

definition set_split_hdr_size_compat :: "bool \<Rightarrow> u16 \<Rightarrow> rte_eth_rxmode \<Rightarrow> rte_eth_rxmode" where
  "set_split_hdr_size_compat old v m = (if old then m\<lparr>split_hdr_size := v\<rparr> else m)"

definition setRxPktLen :: "u32 \<Rightarrow> rte_eth_rxmode \<Rightarrow> rte_eth_rxmode" where
  "setRxPktLen n m = m\<lparr>rx_mtu := n\<rparr>"

definition OptLinkSpeeds :: "u64 \<Rightarrow> rte_eth_conf \<Rightarrow> rte_eth_conf" where
  "OptLinkSpeeds speeds c = c\<lparr>link_speeds := ucast speeds\<rparr>"

definition OptRxMode :: "bool \<Rightarrow> RxMode \<Rightarrow> rte_eth_conf \<Rightarrow> rte_eth_conf" where
  "OptRxMode old r c =
     (let m = zero_rxmode\<lparr>rx_mq_mode := ucast (rm_MqMode r), rx_offloads := rm_Offloads r\<rparr>;
          m = (if SplitHdrSize r \<noteq> 0 then set_split_hdr_size_compat old (SplitHdrSize r) m else m)
      in c\<lparr>rxmode := setRxPktLen (rm_MTU r) m\<rparr>)"

definition OptTxMode :: "TxMode \<Rightarrow> rte_eth_conf \<Rightarrow> rte_eth_conf" where
  "OptTxMode t c =
     (let m = zero_txmode\<lparr>tx_mq_mode := ucast (tm_MqMode t), tx_offloads := tm_Offloads t, pvid := Pvid t\<rparr>;
          m = (if HwVlanRejectTagged t then m\<lparr>hw_vlan_reject_tagged := True\<rparr> else m);
          m = (if HwVlanRejectUntagged t then m\<lparr>hw_vlan_reject_untagged := True\<rparr> else m);
          m = (if HwVlanInsertPvid t then m\<lparr>hw_vlan_insert_pvid := True\<rparr> else m)
      in c\<lparr>txmode := m\<rparr>)"

definition OptLoopbackMode :: "u32 \<Rightarrow> rte_eth_conf \<Rightarrow> rte_eth_conf" where
  "OptLoopbackMode mode c = c\<lparr>lpbk_mode := mode\<rparr>"

definition boolToInt :: "bool \<Rightarrow> int" where
  "boolToInt flag = (if flag then 1 else 0)"

definition OptIntrConf :: "IntrConf \<Rightarrow> rte_eth_conf \<Rightarrow> rte_eth_conf" where
  "OptIntrConf i c = c\<lparr>intr_conf := (boolToInt (LSC i), boolToInt (RXQ i), boolToInt (RMV i))\<rparr>"

text \<open>\<^verbatim>\<open>C.CBytes\<close> is a copy in C memory; a nil key is an empty one here.\<close>

definition OptRss :: "(pheap \<Rightarrow> pptr) \<Rightarrow> RssConf \<Rightarrow> ethConf \<times> pheap \<Rightarrow> ethConf \<times> pheap" where
  "OptRss malloc r = (\<lambda>(c, h).
     let rc = (rss_conf (conf c))\<lparr>rss_key_len := of_nat (length (Key r)), rss_hf := Hf r\<rparr> in
     if Key r \<noteq> [] then
       (let (p, h) = new_bytes malloc (Key r) h in
        (c\<lparr>conf := (conf c)\<lparr>rss_conf := rc\<lparr>rss_key := p\<rparr>\<rparr>, cptrs := cptrs c @ [p]\<rparr>, h))
     else (c\<lparr>conf := (conf c)\<lparr>rss_conf := rc\<rparr>\<rparr>, h))"

text \<open>An option is one of these functions with its argument; \<^verbatim>\<open>Option\<close> has no other constructors.\<close>

datatype eth_Option =
    LinkSpeeds u64 | RxModeOpt RxMode | TxModeOpt TxMode | LoopbackMode u32 | Intr IntrConf | Rss RssConf

fun option_f :: "bool \<Rightarrow> (pheap \<Rightarrow> pptr) \<Rightarrow> eth_Option \<Rightarrow> ethConf \<times> pheap \<Rightarrow> ethConf \<times> pheap" where
  "option_f old malloc (LinkSpeeds n) = (\<lambda>(c, h). (c\<lparr>conf := OptLinkSpeeds n (conf c)\<rparr>, h))"
| "option_f old malloc (RxModeOpt r) = (\<lambda>(c, h). (c\<lparr>conf := OptRxMode old r (conf c)\<rparr>, h))"
| "option_f old malloc (TxModeOpt t) = (\<lambda>(c, h). (c\<lparr>conf := OptTxMode t (conf c)\<rparr>, h))"
| "option_f old malloc (LoopbackMode n) = (\<lambda>(c, h). (c\<lparr>conf := OptLoopbackMode n (conf c)\<rparr>, h))"
| "option_f old malloc (Intr i) = (\<lambda>(c, h). (c\<lparr>conf := OptIntrConf i (conf c)\<rparr>, h))"
| "option_f old malloc (Rss r) = OptRss malloc r"

fun ethConf_free :: "pptr list \<Rightarrow> pheap \<Rightarrow> pheap option" where
  "ethConf_free [] h = Some h"
| "ethConf_free (p # ps) h = do { h \<leftarrow> Free p h; ethConf_free ps h }"

section \<open>Queues\<close>

record Thresh =
  PThresh :: u8
  HThresh :: u8
  WThresh :: u8

record rte_eth_thresh =
  pthresh :: u8
  hthresh :: u8
  wthresh :: u8

definition cThresh :: "Thresh \<Rightarrow> rte_eth_thresh" where
  "cThresh t = \<lparr>pthresh = PThresh t, hthresh = HThresh t, wthresh = WThresh t\<rparr>"

record RxqConf =
  rq_Thresh :: Thresh
  rq_FreeThresh :: u16
  DropEn :: u8
  rq_DeferredStart :: u8
  rq_Offloads :: u64

record TxqConf =
  tq_Thresh :: Thresh
  RsThresh :: u16
  tq_FreeThresh :: u16
  tq_DeferredStart :: u8
  tq_Offloads :: u64

record rte_eth_rxconf =
  rx_thresh :: rte_eth_thresh
  rx_free_thresh :: u16
  rx_drop_en :: u8
  rx_deferred_start :: u8
  rxq_offloads :: u64

record rte_eth_txconf =
  tx_thresh :: rte_eth_thresh
  tx_rs_thresh :: u16
  tx_free_thresh :: u16
  tx_deferred_start :: u8
  txq_offloads :: u64

record qConf =
  q_socket :: int
  q_rx :: rte_eth_rxconf
  q_tx :: rte_eth_txconf

definition zero_thresh :: rte_eth_thresh where
  "zero_thresh = \<lparr>pthresh = 0, hthresh = 0, wthresh = 0\<rparr>"

definition zero_qConf :: "int \<Rightarrow> qConf" where
  "zero_qConf socket = \<lparr>q_socket = socket,
     q_rx = \<lparr>rx_thresh = zero_thresh, rx_free_thresh = 0, rx_drop_en = 0, rx_deferred_start = 0, rxq_offloads = 0\<rparr>,
     q_tx = \<lparr>tx_thresh = zero_thresh, tx_rs_thresh = 0, tx_free_thresh = 0, tx_deferred_start = 0, txq_offloads = 0\<rparr>\<rparr>"

definition OptRxqConf :: "RxqConf \<Rightarrow> qConf \<Rightarrow> qConf" where
  "OptRxqConf r q = q\<lparr>q_rx := \<lparr>rx_thresh = cThresh (rq_Thresh r), rx_free_thresh = rq_FreeThresh r,
     rx_drop_en = DropEn r, rx_deferred_start = rq_DeferredStart r, rxq_offloads = rq_Offloads r\<rparr>\<rparr>"

definition OptTxqConf :: "TxqConf \<Rightarrow> qConf \<Rightarrow> qConf" where
  "OptTxqConf t q = q\<lparr>q_tx := \<lparr>tx_thresh = cThresh (tq_Thresh t), tx_rs_thresh = RsThresh t,
     tx_free_thresh = tq_FreeThresh t, tx_deferred_start = tq_DeferredStart t, txq_offloads = tq_Offloads t\<rparr>\<rparr>"

definition eth_OptSocket :: "u64 \<Rightarrow> qConf \<Rightarrow> qConf" where
  "eth_OptSocket socket q = q\<lparr>q_socket := sint (ucast socket :: u32)\<rparr>"


section \<open>The C functions\<close>

record EthLink =
  link_speed :: u32
  link_duplex :: u8
  link_autoneg :: u8
  link_status :: u8

record RssRetaEntry64 =
  reta_mask :: u64
  reta :: "u16 list"

record MtrStats =
  Pkts :: u64
  mtr_Bytes :: u64
  DropPkts :: u64
  DropBytes :: u64

record rte_mtr_stats =
  n_pkts :: "u64 \<times> u64 \<times> u64"
  n_bytes :: "u64 \<times> u64 \<times> u64"
  n_pkts_dropped :: u64
  n_bytes_dropped :: u64

datatype mtr_algorithm = RTE_MTR_SRTCM_RFC2697 | OtherMtrAlgorithm int

record rte_mtr_meter_profile =
  mtr_alg :: mtr_algorithm
  mtr_cir :: u64
  mtr_cbs :: u64
  mtr_ebs :: u64
  packet_mode :: int

record rte_mtr_params =
  meter_profile_id :: u32
  meter_policy_id :: u32
  use_prev_mtr_color :: int
  meter_enable :: int
  stats_mask :: u64

datatype mtr_action = MtrDrop | MtrEnd

text \<open>
  Functions with an output argument return its value with the status; \<open>rte_eth_rx_burst\<close> returns the
  mbufs it delivers.  \<open>foreach_dev\<close> is the sequence of ports of \<^verbatim>\<open>RTE_ETH_FOREACH_DEV\<close>.
\<close>

record 'w eth_api =
  ETH_SOCKET_ID_ANY :: int
  rte_eth_dev_configure :: "u16 \<Rightarrow> u16 \<Rightarrow> u16 \<Rightarrow> rte_eth_conf \<Rightarrow> pheap \<Rightarrow> 'w \<Rightarrow> int \<times> 'w"
  rte_eth_rx_queue_setup :: "u16 \<Rightarrow> u16 \<Rightarrow> u16 \<Rightarrow> u32 \<Rightarrow> rte_eth_rxconf \<Rightarrow> addr \<Rightarrow> 'w \<Rightarrow> int \<times> 'w"
  rte_eth_tx_queue_setup :: "u16 \<Rightarrow> u16 \<Rightarrow> u16 \<Rightarrow> u32 \<Rightarrow> rte_eth_txconf \<Rightarrow> 'w \<Rightarrow> int \<times> 'w"
  rte_eth_rx_hairpin_queue_setup :: "u16 \<Rightarrow> u16 \<Rightarrow> u16 \<Rightarrow> u16 \<times> u16 \<Rightarrow> 'w \<Rightarrow> int \<times> 'w"
  rte_eth_tx_hairpin_queue_setup :: "u16 \<Rightarrow> u16 \<Rightarrow> u16 \<Rightarrow> u16 \<times> u16 \<Rightarrow> 'w \<Rightarrow> int \<times> 'w"
  rte_eth_dev_reset :: "u16 \<Rightarrow> 'w \<Rightarrow> int \<times> 'w"
  rte_eth_dev_start :: "u16 \<Rightarrow> 'w \<Rightarrow> int \<times> 'w"
  rte_eth_dev_stop :: "u16 \<Rightarrow> 'w \<Rightarrow> 'w"
  rte_eth_dev_close :: "u16 \<Rightarrow> 'w \<Rightarrow> 'w"
  rte_eth_promiscuous_enable :: "u16 \<Rightarrow> 'w \<Rightarrow> int \<times> 'w"
  rte_eth_promiscuous_disable :: "u16 \<Rightarrow> 'w \<Rightarrow> int \<times> 'w"
  rte_eth_dev_set_link_up :: "u16 \<Rightarrow> 'w \<Rightarrow> int \<times> 'w"
  rte_eth_dev_set_link_down :: "u16 \<Rightarrow> 'w \<Rightarrow> int \<times> 'w"
  rte_eth_dev_get_mtu :: "u16 \<Rightarrow> 'w \<Rightarrow> int \<times> u16"
  rte_eth_dev_set_mtu :: "u16 \<Rightarrow> u16 \<Rightarrow> 'w \<Rightarrow> int \<times> 'w"
  rte_eth_dev_rss_hash_update :: "u16 \<Rightarrow> rte_eth_rss_conf \<Rightarrow> pheap \<Rightarrow> 'w \<Rightarrow> int \<times> 'w"
  rte_eth_dev_rss_reta_update :: "u16 \<Rightarrow> RssRetaEntry64 list \<Rightarrow> u16 \<Rightarrow> 'w \<Rightarrow> int \<times> 'w"
  rte_eth_dev_rss_reta_query :: "u16 \<Rightarrow> RssRetaEntry64 list \<Rightarrow> u16 \<Rightarrow> 'w \<Rightarrow> int \<times> RssRetaEntry64 list"
  rte_eth_dev_get_port_by_name :: "byte list \<Rightarrow> 'w \<Rightarrow> int \<times> u16"
  rte_eth_dev_count_avail :: "'w \<Rightarrow> u16"
  foreach_dev :: "'w \<Rightarrow> u16 list"
  rte_eth_dev_is_valid_port :: "u16 \<Rightarrow> 'w \<Rightarrow> int"
  rte_eth_link_get :: "u16 \<Rightarrow> 'w \<Rightarrow> int \<times> EthLink"
  rte_eth_link_get_nowait :: "u16 \<Rightarrow> 'w \<Rightarrow> int \<times> EthLink"
  rte_eth_rx_burst :: "u16 \<Rightarrow> u16 \<Rightarrow> u16 \<Rightarrow> 'w \<Rightarrow> addr list \<times> 'w"
  rte_eth_tx_burst :: "u16 \<Rightarrow> u16 \<Rightarrow> addr list \<Rightarrow> 'w \<Rightarrow> u16 \<times> 'w"
  rte_mtr_stats_read :: "u16 \<Rightarrow> u32 \<Rightarrow> 'w \<Rightarrow> int \<times> rte_mtr_stats"
  rte_mtr_meter_profile_add :: "u16 \<Rightarrow> u32 \<Rightarrow> rte_mtr_meter_profile \<Rightarrow> 'w \<Rightarrow> int \<times> 'w"
  rte_mtr_meter_profile_delete :: "u16 \<Rightarrow> u32 \<Rightarrow> 'w \<Rightarrow> int \<times> 'w"
  rte_mtr_meter_policy_add :: "u16 \<Rightarrow> u32 \<Rightarrow> mtr_action list \<times> mtr_action list \<times> mtr_action list \<Rightarrow> 'w \<Rightarrow> int \<times> 'w"
  rte_mtr_meter_policy_delete :: "u16 \<Rightarrow> u32 \<Rightarrow> 'w \<Rightarrow> int \<times> 'w"
  rte_mtr_create :: "u16 \<Rightarrow> u32 \<Rightarrow> rte_mtr_params \<Rightarrow> int \<Rightarrow> 'w \<Rightarrow> int \<times> 'w"
  rte_mtr_destroy :: "u16 \<Rightarrow> u32 \<Rightarrow> 'w \<Rightarrow> int \<times> 'w"
  rte_mtr_meter_profile_update :: "u16 \<Rightarrow> u32 \<Rightarrow> u32 \<Rightarrow> 'w \<Rightarrow> int \<times> 'w"

definition errget :: "rte_errnos \<Rightarrow> int \<times> 'w \<Rightarrow> error \<times> 'w" where
  "errget c r = (IntToErr c (fst r), snd r)"

section \<open>Operations on ports\<close>

definition DevConfigure ::
  "rte_errnos \<Rightarrow> 'w eth_api \<Rightarrow> bool \<Rightarrow> (pheap \<Rightarrow> pptr) \<Rightarrow> u16 \<Rightarrow> u16 \<Rightarrow> u16 \<Rightarrow> eth_Option list \<Rightarrow> pheap \<Rightarrow> 'w
    \<Rightarrow> (error \<times> pheap \<times> 'w) option" where
  "DevConfigure c A old malloc pid nrxq ntxq opts h w = do {
     let (ec, h) = fold (option_f old malloc) opts (zero_ethConf, h);
     let (e, w) = errget c (rte_eth_dev_configure A pid nrxq ntxq (conf ec) h w);
     h \<leftarrow> ethConf_free (cptrs ec) h;
     Some (e, h, w) }"

definition RxqSetup ::
  "rte_errnos \<Rightarrow> 'w eth_api \<Rightarrow> u16 \<Rightarrow> u16 \<Rightarrow> u16 \<Rightarrow> addr \<Rightarrow> (qConf \<Rightarrow> qConf) list \<Rightarrow> 'w \<Rightarrow> error \<times> 'w" where
  "RxqSetup c A pid qid nDesc mp opts w =
     (let q = fold (\<lambda>f q. f q) opts (zero_qConf (ETH_SOCKET_ID_ANY A)) in
      errget c (rte_eth_rx_queue_setup A pid qid nDesc (word_of_int (q_socket q)) (q_rx q) mp w))"

definition TxqSetup ::
  "rte_errnos \<Rightarrow> 'w eth_api \<Rightarrow> u16 \<Rightarrow> u16 \<Rightarrow> u16 \<Rightarrow> (qConf \<Rightarrow> qConf) list \<Rightarrow> 'w \<Rightarrow> error \<times> 'w" where
  "TxqSetup c A pid qid nDesc opts w =
     (let q = fold (\<lambda>f q. f q) opts (zero_qConf (ETH_SOCKET_ID_ANY A)) in
      errget c (rte_eth_tx_queue_setup A pid qid nDesc (word_of_int (q_socket q)) (q_tx q) w))"

text \<open>
  \<^verbatim>\<open>setup_hairpin_queues\<close>: \<open>qi\<close> is a 16-bit counter that is compared with an \<^verbatim>\<open>int\<close> sum, so the
  loop has fuel; None means that the fuel was used up.  \<open>base\<close> is the first queue of the other kind.
\<close>

fun hairpin_loop ::
  "(u16 \<Rightarrow> u16 \<times> u16 \<Rightarrow> 'w \<Rightarrow> int \<times> 'w) \<Rightarrow> u16 \<Rightarrow> nat \<Rightarrow> u16 \<Rightarrow> nat \<Rightarrow> u16 \<Rightarrow> nat \<Rightarrow> 'w \<Rightarrow> (bool \<times> 'w) option" where
  "hairpin_loop cfgq pi1 0 base limit qi i w = None"
| "hairpin_loop cfgq pi1 (Suc fuel) base limit qi i w =
     (if unat qi < limit then
        let (diag, w) = cfgq qi (pi1, of_nat (i + unat base)) w in
        if diag = 0 then hairpin_loop cfgq pi1 fuel base limit (qi + 1) (Suc i) w
        else Some (False, w)
      else Some (True, w))"

definition setup_hairpin_queues ::
  "'w eth_api \<Rightarrow> nat \<Rightarrow> u16 \<Rightarrow> u16 \<Rightarrow> u16 \<Rightarrow> u16 \<Rightarrow> u16 \<Rightarrow> u16 \<Rightarrow> 'w \<Rightarrow> (int \<times> 'w) option" where
  "setup_hairpin_queues A fuel pi1 nb_rxq nb_txq nb_hpq nb_rxd nb_txd w = do {
     (ok, w) \<leftarrow> hairpin_loop (\<lambda>qi. rte_eth_rx_hairpin_queue_setup A pi1 qi nb_rxd) pi1 fuel nb_txq
       (unat nb_hpq + unat nb_rxq) nb_rxq 0 w;
     if \<not> ok then Some (-1, w) else do {
       (ok, w) \<leftarrow> hairpin_loop (\<lambda>qi. rte_eth_tx_hairpin_queue_setup A pi1 qi nb_txd) pi1 fuel nb_rxq
         (unat nb_hpq + unat nb_txq) nb_txq 0 w;
       Some (if ok then 0 else -1, w) } }"

definition HairpinQueueSetup ::
  "rte_errnos \<Rightarrow> 'w eth_api \<Rightarrow> nat \<Rightarrow> u16 \<Rightarrow> u16 \<Rightarrow> u16 \<Rightarrow> u16 \<Rightarrow> u16 \<Rightarrow> u16 \<Rightarrow> 'w \<Rightarrow> (error \<times> 'w) option" where
  "HairpinQueueSetup c A fuel pid nrxq ntxq nhpq nrxd ntxd w =
     map_option (errget c) (setup_hairpin_queues A fuel pid nrxq ntxq nhpq nrxd ntxd w)"

definition Reset :: "rte_errnos \<Rightarrow> 'w eth_api \<Rightarrow> u16 \<Rightarrow> 'w \<Rightarrow> error \<times> 'w" where
  "Reset c A pid w = errget c (rte_eth_dev_reset A pid w)"

definition Start :: "rte_errnos \<Rightarrow> 'w eth_api \<Rightarrow> u16 \<Rightarrow> 'w \<Rightarrow> error \<times> 'w" where
  "Start c A pid w = errget c (rte_eth_dev_start A pid w)"

definition Port_Stop :: "'w eth_api \<Rightarrow> u16 \<Rightarrow> 'w \<Rightarrow> 'w" where
  "Port_Stop A pid w = rte_eth_dev_stop A pid w"

definition Port_Close :: "'w eth_api \<Rightarrow> u16 \<Rightarrow> 'w \<Rightarrow> 'w" where
  "Port_Close A pid w = rte_eth_dev_close A pid w"

definition PromiscEnable :: "rte_errnos \<Rightarrow> 'w eth_api \<Rightarrow> u16 \<Rightarrow> 'w \<Rightarrow> error \<times> 'w" where
  "PromiscEnable c A pid w = errget c (rte_eth_promiscuous_enable A pid w)"

definition PromiscDisable :: "rte_errnos \<Rightarrow> 'w eth_api \<Rightarrow> u16 \<Rightarrow> 'w \<Rightarrow> error \<times> 'w" where
  "PromiscDisable c A pid w = errget c (rte_eth_promiscuous_disable A pid w)"

definition SetMTU :: "rte_errnos \<Rightarrow> 'w eth_api \<Rightarrow> u16 \<Rightarrow> u16 \<Rightarrow> 'w \<Rightarrow> error \<times> 'w" where
  "SetMTU c A pid mtu w = errget c (rte_eth_dev_set_mtu A pid mtu w)"

definition SetLinkUp :: "rte_errnos \<Rightarrow> 'w eth_api \<Rightarrow> u16 \<Rightarrow> 'w \<Rightarrow> error \<times> 'w" where
  "SetLinkUp c A pid w = errget c (rte_eth_dev_set_link_up A pid w)"

definition SetLinkDown :: "rte_errnos \<Rightarrow> 'w eth_api \<Rightarrow> u16 \<Rightarrow> 'w \<Rightarrow> error \<times> 'w" where
  "SetLinkDown c A pid w = errget c (rte_eth_dev_set_link_down A pid w)"

definition RssHashUpdate ::
  "rte_errnos \<Rightarrow> 'w eth_api \<Rightarrow> (pheap \<Rightarrow> pptr) \<Rightarrow> u16 \<Rightarrow> RssConf \<Rightarrow> pheap \<Rightarrow> 'w \<Rightarrow> (error \<times> pheap \<times> 'w) option" where
  "RssHashUpdate c A malloc pid r h w =
     (let rc = \<lparr>rss_key = 0, rss_key_len = of_nat (length (Key r)), rss_hf = Hf r\<rparr> in
      if length (Key r) > 0 then do {
        let (p, h) = new_bytes malloc (Key r) h;
        let (e, w) = errget c (rte_eth_dev_rss_hash_update A pid (rc\<lparr>rss_key := p\<rparr>) h w);
        h \<leftarrow> Free p h;
        Some (e, h, w) }
      else let (e, w) = errget c (rte_eth_dev_rss_hash_update A pid rc h w) in Some (e, h, w))"

definition RssRetaUpdate :: "rte_errnos \<Rightarrow> 'w eth_api \<Rightarrow> u16 \<Rightarrow> RssRetaEntry64 list \<Rightarrow> u16 \<Rightarrow> 'w \<Rightarrow> error \<times> 'w" where
  "RssRetaUpdate c A pid cf retaSize w = errget c (rte_eth_dev_rss_reta_update A pid cf retaSize w)"

definition RssRetaQuery ::
  "rte_errnos \<Rightarrow> 'w eth_api \<Rightarrow> u16 \<Rightarrow> RssRetaEntry64 list \<Rightarrow> u16 \<Rightarrow> 'w \<Rightarrow> error \<times> RssRetaEntry64 list" where
  "RssRetaQuery c A pid cf retaSize w = errget c (rte_eth_dev_rss_reta_query A pid cf retaSize w)"

text \<open>
  \<^verbatim>\<open>return uint16(mtu), errget(C.f(\&mtu))\<close>: Go does not say whether \<^verbatim>\<open>mtu\<close> is read before or
  after the call; \<open>late\<close> is the choice of the compiler.
\<close>

definition GetMTU :: "rte_errnos \<Rightarrow> 'w eth_api \<Rightarrow> bool \<Rightarrow> u16 \<Rightarrow> 'w \<Rightarrow> u16 \<times> error" where
  "GetMTU c A late pid w =
     (let (rc, mtu) = rte_eth_dev_get_mtu A pid w in (if late then mtu else 0, IntToErr c rc))"

definition GetPortByName :: "rte_errnos \<Rightarrow> 'w eth_api \<Rightarrow> bool \<Rightarrow> byte list \<Rightarrow> 'w \<Rightarrow> u16 \<times> error" where
  "GetPortByName c A late name w =
     (let (rc, p) = rte_eth_dev_get_port_by_name A name w in (if late then p else 0, IntToErr c rc))"

definition zero_link :: EthLink where
  "zero_link = \<lparr>link_speed = 0, link_duplex = 0, link_autoneg = 0, link_status = 0\<rparr>"

text \<open>The C helpers copy the four members out of the bit fields of \<^verbatim>\<open>rte_eth_link\<close>, whatever the status.\<close>

definition go_rte_eth_link_get :: "'w eth_api \<Rightarrow> u16 \<Rightarrow> 'w \<Rightarrow> int \<times> EthLink" where
  "go_rte_eth_link_get A port_id w = (let (rc, d) = rte_eth_link_get A port_id w in
     (rc, \<lparr>link_speed = link_speed d, link_duplex = link_duplex d, link_autoneg = link_autoneg d, link_status = link_status d\<rparr>))"

definition go_rte_eth_link_get_nowait :: "'w eth_api \<Rightarrow> u16 \<Rightarrow> 'w \<Rightarrow> int \<times> EthLink" where
  "go_rte_eth_link_get_nowait A port_id w = (let (rc, d) = rte_eth_link_get_nowait A port_id w in
     (rc, \<lparr>link_speed = link_speed d, link_duplex = link_duplex d, link_autoneg = link_autoneg d, link_status = link_status d\<rparr>))"

definition EthLinkGet :: "rte_errnos \<Rightarrow> 'w eth_api \<Rightarrow> bool \<Rightarrow> u16 \<Rightarrow> 'w \<Rightarrow> EthLink \<times> error" where
  "EthLinkGet c A late pid w =
     (let (rc, d) = go_rte_eth_link_get A pid w in (if late then d else zero_link, IntToErr c rc))"

definition EthLinkGetNowait :: "rte_errnos \<Rightarrow> 'w eth_api \<Rightarrow> bool \<Rightarrow> u16 \<Rightarrow> 'w \<Rightarrow> EthLink \<times> error" where
  "EthLinkGetNowait c A late pid w =
     (let (rc, d) = go_rte_eth_link_get_nowait A pid w in (if late then d else zero_link, IntToErr c rc))"

definition Speed :: "EthLink \<Rightarrow> u32" where
  "Speed l = link_speed l"

definition Duplex :: "EthLink \<Rightarrow> bool" where
  "Duplex l \<longleftrightarrow> link_duplex l > 0"

definition AutoNeg :: "EthLink \<Rightarrow> bool" where
  "AutoNeg l \<longleftrightarrow> link_autoneg l > 0"

definition Status :: "EthLink \<Rightarrow> bool" where
  "Status l \<longleftrightarrow> link_status l > 0"

definition IsValid :: "'w eth_api \<Rightarrow> u16 \<Rightarrow> 'w \<Rightarrow> bool" where
  "IsValid A pid w \<longleftrightarrow> rte_eth_dev_is_valid_port A pid w \<noteq> 0"

text \<open>
  \<^verbatim>\<open>ValidPorts\<close> counts the ports and then lets C fill a slice of that length; ports may come
  and go in between, from the world \<open>w\<close> to \<open>w'\<close>.
\<close>

fun go_rte_get_ethdev_ports :: "u16 list \<Rightarrow> nat \<Rightarrow> u16 list \<Rightarrow> nat \<Rightarrow> u16 list \<times> nat" where
  "go_rte_get_ethdev_ports [] n_ports ports i = (ports, i)"
| "go_rte_get_ethdev_ports (pid # pids) n_ports ports i =
     (if i \<ge> n_ports then (ports, i)
      else go_rte_get_ethdev_ports pids n_ports (ports[i := pid]) (Suc i))"

definition ValidPorts :: "'w eth_api \<Rightarrow> 'w \<Rightarrow> 'w \<Rightarrow> u16 list" where
  "ValidPorts A w w' =
     (let avail = unat (rte_eth_dev_count_avail A w) in
      if avail = 0 then []
      else let (ports, n) = go_rte_get_ethdev_ports (foreach_dev A w') avail (replicate avail 0) 0
           in take n ports)"

section \<open>Packet bursts and transmit buffers (src/ethdev/rxtx.go)\<close>

text \<open>C writes as many elements as it delivers; beyond the end of the slice this is a fault.\<close>

definition RxBurst :: "'w eth_api \<Rightarrow> u16 \<Rightarrow> u16 \<Rightarrow> addr list \<Rightarrow> u16 \<Rightarrow> 'w \<Rightarrow> (u16 \<times> addr list \<times> 'w) option" where
  "RxBurst A pid qid pkts burst w =
     (if pkts = [] then None
      else let (ms, w) = rte_eth_rx_burst A pid qid burst w in
        if length ms > length pkts then None
        else Some (of_nat (length ms), ms @ drop (length ms) pkts, w))"

definition TxBurst :: "'w eth_api \<Rightarrow> u16 \<Rightarrow> u16 \<Rightarrow> addr list \<Rightarrow> 'w \<Rightarrow> (u16 \<times> 'w) option" where
  "TxBurst A pid qid pkts w =
     (if pkts = [] then None
      else Some (rte_eth_tx_burst A pid qid (take (length pkts mod 2 ^ 16) pkts) w))"

text \<open>Go division truncates toward zero.\<close>

definition go_div :: "int \<Rightarrow> int \<Rightarrow> int" where
  "go_div x y = sgn x * sgn y * (\<bar>x\<bar> div \<bar>y\<bar>)"

definition fracCeilRound :: "int \<Rightarrow> int \<Rightarrow> int" where
  "fracCeilRound x y = (let n = go_div x y in if y * n \<noteq> x then n + 1 else n)"

definition TxBufferSize :: "u64 \<Rightarrow> int \<Rightarrow> u64" where
  "TxBufferSize sizeof_TxBuffer mbufCnt = sizeof_TxBuffer + word_of_int mbufCnt * 8"

text \<open>\<^verbatim>\<open>make\<close> panics on a negative length, and taking the address of the first element on an empty slice.\<close>

definition NewTxBuffer :: "u64 \<Rightarrow> int \<Rightarrow> nat option" where
  "NewTxBuffer sizeof_TxBuffer cnt =
     (let n = fracCeilRound (sint (TxBufferSize sizeof_TxBuffer cnt)) 8 in if n \<le> 0 then None else Some (nat n))"

section \<open>Meters (src/ethdev/mtr.go)\<close>

definition query_mtr_stats :: "'w eth_api \<Rightarrow> u16 \<Rightarrow> u32 \<Rightarrow> MtrStats \<Rightarrow> 'w \<Rightarrow> int \<times> MtrStats" where
  "query_mtr_stats A port mtr_id stats w =
     (let (ret, s) = rte_mtr_stats_read A port mtr_id w in
      if ret \<noteq> 0 then (ret, stats)
      else (ret, \<lparr>Pkts = fst (n_pkts s) + fst (snd (n_pkts s)), mtr_Bytes = fst (n_bytes s) + fst (snd (n_bytes s)),
                  DropPkts = n_pkts_dropped s, DropBytes = n_bytes_dropped s\<rparr>))"

definition QueryMtrStats :: "rte_errnos \<Rightarrow> 'w eth_api \<Rightarrow> u16 \<Rightarrow> u32 \<Rightarrow> MtrStats \<Rightarrow> 'w \<Rightarrow> error \<times> MtrStats" where
  "QueryMtrStats c A port mtrID stats w = errget c (query_mtr_stats A port mtrID stats w)"

text \<open>The C helpers of the package fill the parameter structures; what they print to the error output is left out.\<close>

definition add_srtcm_mtr_profile :: "'w eth_api \<Rightarrow> u16 \<Rightarrow> u32 \<Rightarrow> u64 \<Rightarrow> u64 \<Rightarrow> u64 \<Rightarrow> 'w \<Rightarrow> int \<times> 'w" where
  "add_srtcm_mtr_profile A port profile_id cir cbs ebs w = rte_mtr_meter_profile_add A port profile_id
     \<lparr>mtr_alg = RTE_MTR_SRTCM_RFC2697, mtr_cir = cir, mtr_cbs = cbs, mtr_ebs = ebs, packet_mode = 0\<rparr> w"

definition add_mtr_policy :: "'w eth_api \<Rightarrow> u16 \<Rightarrow> u32 \<Rightarrow> 'w \<Rightarrow> int \<times> 'w" where
  "add_mtr_policy A port policy_id w = rte_mtr_meter_policy_add A port policy_id ([], [], [MtrDrop, MtrEnd]) w"

definition add_mtr :: "'w eth_api \<Rightarrow> u16 \<Rightarrow> u32 \<Rightarrow> u32 \<Rightarrow> u32 \<Rightarrow> 'w \<Rightarrow> int \<times> 'w" where
  "add_mtr A port mtr_id profile_id policy_id w = rte_mtr_create A port mtr_id
     \<lparr>meter_profile_id = profile_id, meter_policy_id = policy_id, use_prev_mtr_color = 0, meter_enable = 1,
      stats_mask = 0xffff\<rparr> 1 w"

definition AddMeterProfile :: "rte_errnos \<Rightarrow> 'w eth_api \<Rightarrow> u16 \<Rightarrow> u32 \<Rightarrow> u64 \<Rightarrow> u64 \<Rightarrow> u64 \<Rightarrow> 'w \<Rightarrow> error \<times> 'w" where
  "AddMeterProfile c A port profileID cir cbs ebs w = errget c (add_srtcm_mtr_profile A port profileID cir cbs ebs w)"

definition DeleteMeterProfile :: "rte_errnos \<Rightarrow> 'w eth_api \<Rightarrow> u16 \<Rightarrow> u32 \<Rightarrow> 'w \<Rightarrow> error \<times> 'w" where
  "DeleteMeterProfile c A port profileID w = errget c (rte_mtr_meter_profile_delete A port profileID w)"

definition AddMeterPolicy :: "rte_errnos \<Rightarrow> 'w eth_api \<Rightarrow> u16 \<Rightarrow> u32 \<Rightarrow> 'w \<Rightarrow> error \<times> 'w" where
  "AddMeterPolicy c A port policyID w = errget c (add_mtr_policy A port policyID w)"

definition DeleteMeterPolicy :: "rte_errnos \<Rightarrow> 'w eth_api \<Rightarrow> u16 \<Rightarrow> u32 \<Rightarrow> 'w \<Rightarrow> error \<times> 'w" where
  "DeleteMeterPolicy c A port policyID w = errget c (rte_mtr_meter_policy_delete A port policyID w)"

definition AddMtr :: "rte_errnos \<Rightarrow> 'w eth_api \<Rightarrow> u16 \<Rightarrow> u32 \<Rightarrow> u32 \<Rightarrow> u32 \<Rightarrow> 'w \<Rightarrow> error \<times> 'w" where
  "AddMtr c A port mtrID profileID policyID w = errget c (add_mtr A port mtrID profileID policyID w)"

definition DeleteMtr :: "rte_errnos \<Rightarrow> 'w eth_api \<Rightarrow> u16 \<Rightarrow> u32 \<Rightarrow> 'w \<Rightarrow> error \<times> 'w" where
  "DeleteMtr c A port mtrID w = errget c (rte_mtr_destroy A port mtrID w)"

definition UpdateMtrMeterProfile :: "rte_errnos \<Rightarrow> 'w eth_api \<Rightarrow> u16 \<Rightarrow> u32 \<Rightarrow> u32 \<Rightarrow> 'w \<Rightarrow> error \<times> 'w" where
  "UpdateMtrMeterProfile c A port mtrID profileID w = errget c (rte_mtr_meter_profile_update A port mtrID profileID w)"

text \<open>Nothing in the package ever adds to the table \<^verbatim>\<open>errStr\<close> of this file.\<close>

record MtrError =
  mtr_type :: u32
  mtr_cause :: addr
  mtr_message :: string

definition mtr_errStr :: "u64 \<rightharpoonup> string" where "mtr_errStr = Map.empty"

definition mtr_ErrorType_Error :: "u64 \<Rightarrow> string" where
  "mtr_ErrorType_Error e = (case mtr_errStr e of Some s \<Rightarrow> s | None \<Rightarrow> [])"

definition MtrError_Unwrap :: "MtrError \<Rightarrow> u64" where
  "MtrError_Unwrap e = ucast (mtr_type e)"

definition MtrError_Error :: "MtrError \<Rightarrow> string" where
  "MtrError_Error e = mtr_ErrorType_Error (MtrError_Unwrap e) @ '': '' @ mtr_message e"

definition MtrError_Cause :: "MtrError \<Rightarrow> addr" where
  "MtrError_Cause e = mtr_cause e"

lemma MtrError_has_no_type: "MtrError_Error e = '': '' @ mtr_message e"
  by (simp add: MtrError_Error_def mtr_ErrorType_Error_def mtr_errStr_def)


section \<open>Properties\<close>

subsection \<open>Configuration\<close>

lemma ethConf_free_restrict:
  "distinct ps \<Longrightarrow> 0 \<notin> set ps \<Longrightarrow> set ps \<subseteq> dom H \<Longrightarrow> ethConf_free ps H = Some (H |` (- set ps))"
proof (induction ps arbitrary: H)
  case (Cons p ps)
  then have "Free p H = Some (H(p := None))" by (auto simp: Free_def)
  moreover have "ethConf_free ps (H(p := None)) = Some (H(p := None) |` (- set ps))"
    using Cons by (intro Cons.IH) auto
  moreover have "H(p := None) |` (- set ps) = H |` (- set (p # ps))"
    by (auto simp: restrict_map_def fun_eq_iff)
  ultimately show ?case by simp
qed (simp add: restrict_map_def)

text \<open>The last option of a kind decides.\<close>

definition last_of :: "('a \<Rightarrow> 'b option) \<Rightarrow> 'a list \<Rightarrow> 'b option" where
  "last_of sel xs = fold (\<lambda>x r. case sel x of None \<Rightarrow> r | Some y \<Rightarrow> Some y) xs None"

lemma last_of_simps [simp]:
  "last_of sel [] = None"
  "last_of sel (xs @ [x]) = (case sel x of None \<Rightarrow> last_of sel xs | Some y \<Rightarrow> Some y)"
  by (simp_all add: last_of_def cong: option.case_cong)

fun speeds_of where "speeds_of (LinkSpeeds n) = Some n" | "speeds_of _ = None"
fun rxmode_of where "rxmode_of (RxModeOpt r) = Some r" | "rxmode_of _ = None"
fun txmode_of where "txmode_of (TxModeOpt t) = Some t" | "txmode_of _ = None"
fun loopback_of where "loopback_of (LoopbackMode n) = Some n" | "loopback_of _ = None"
fun intr_of where "intr_of (Intr i) = Some i" | "intr_of _ = None"
fun rss_of where "rss_of (Rss r) = Some r" | "rss_of _ = None"

text \<open>
  The key is copied only from an RSS option whose key is not empty; an option with an empty key sets the length to
  zero and leaves the pointer to the copy of an earlier key in the configuration.
\<close>

fun nonempty_key_of where
  "nonempty_key_of (Rss r) = (if Key r = [] then None else Some (Key r))" | "nonempty_key_of _ = None"

definition rxmode_spec :: "bool \<Rightarrow> RxMode \<Rightarrow> rte_eth_rxmode" where
  "rxmode_spec old r = \<lparr>rx_mq_mode = ucast (rm_MqMode r), rx_mtu = rm_MTU r,
     split_hdr_size = (if old then SplitHdrSize r else 0), rx_offloads = rm_Offloads r\<rparr>"

definition txmode_spec :: "TxMode \<Rightarrow> rte_eth_txmode" where
  "txmode_spec t = \<lparr>tx_mq_mode = ucast (tm_MqMode t), tx_offloads = tm_Offloads t, pvid = Pvid t,
     hw_vlan_reject_tagged = HwVlanRejectTagged t, hw_vlan_reject_untagged = HwVlanRejectUntagged t,
     hw_vlan_insert_pvid = HwVlanInsertPvid t\<rparr>"

definition configured :: "bool \<Rightarrow> eth_Option list \<Rightarrow> pheap \<Rightarrow> rte_eth_conf \<Rightarrow> bool" where
  "configured old opts h c \<longleftrightarrow>
     link_speeds c = (case last_of speeds_of opts of None \<Rightarrow> 0 | Some n \<Rightarrow> ucast n) \<and>
     rxmode c = (case last_of rxmode_of opts of None \<Rightarrow> zero_rxmode | Some r \<Rightarrow> rxmode_spec old r) \<and>
     txmode c = (case last_of txmode_of opts of None \<Rightarrow> zero_txmode | Some t \<Rightarrow> txmode_spec t) \<and>
     lpbk_mode c = (case last_of loopback_of opts of None \<Rightarrow> 0 | Some n \<Rightarrow> n) \<and>
     intr_conf c = (case last_of intr_of opts of None \<Rightarrow> (0, 0, 0)
       | Some i \<Rightarrow> (boolToInt (LSC i), boolToInt (RXQ i), boolToInt (RMV i))) \<and>
     rss_key_len (rss_conf c) = (case last_of rss_of opts of None \<Rightarrow> 0 | Some r \<Rightarrow> of_nat (length (Key r))) \<and>
     rss_hf (rss_conf c) = (case last_of rss_of opts of None \<Rightarrow> 0 | Some r \<Rightarrow> Hf r) \<and>
     (case last_of nonempty_key_of opts of None \<Rightarrow> rss_key (rss_conf c) = 0
      | Some k \<Rightarrow> h (rss_key (rss_conf c)) = Some (CChars k))"

definition owns :: "pheap \<Rightarrow> ethConf \<Rightarrow> pheap \<Rightarrow> bool" where
  "owns h0 ec h \<longleftrightarrow> finite (dom h) \<and> h0 \<subseteq>\<^sub>m h \<and> distinct (cptrs ec) \<and> 0 \<notin> set (cptrs ec) \<and>
     set (cptrs ec) = dom h - dom h0"

lemma OptRxMode_spec: "OptRxMode old r c = c\<lparr>rxmode := rxmode_spec old r\<rparr>"
  by (simp add: OptRxMode_def rxmode_spec_def setRxPktLen_def set_split_hdr_size_compat_def zero_rxmode_def Let_def)

lemma OptTxMode_spec: "OptTxMode t c = c\<lparr>txmode := txmode_spec t\<rparr>"
  by (simp add: OptTxMode_def txmode_spec_def zero_txmode_def Let_def)

lemma configured_fresh:
  "configured old opts h c \<Longrightarrow> h p = None \<Longrightarrow> configured old opts (h(p \<mapsto> b)) c"
  by (auto simp: configured_def split: option.splits)

lemma option_keeps:
  assumes "fresh_malloc malloc" "owns h0 ec h" "configured old opts h (conf ec)"
    and "option_f old malloc opt (ec, h) = (ec', h')"
  shows "owns h0 ec' h' \<and> configured old (opts @ [opt]) h' (conf ec')"
proof (cases opt)
  case (Rss r)
  show ?thesis
  proof (cases "Key r = []")
    case True
    then have e: "h' = h" "ec' = ec\<lparr>conf := (conf ec)\<lparr>rss_conf := (rss_conf (conf ec))\<lparr>rss_key_len := 0, rss_hf := Hf r\<rparr>\<rparr>\<rparr>"
      using assms(4) Rss by (auto simp: OptRss_def Let_def)
    show ?thesis
      using assms(2,3) True unfolding e by (auto simp: owns_def configured_def Rss split: option.splits)
  next
    case False
    let ?p = "malloc h"
    have "finite (dom h)" using assms(2) by (simp add: owns_def)
    note p = fresh_mallocD [OF assms(1) this]
    have e: "h' = h(?p \<mapsto> CChars (Key r))"
        "conf ec' = (conf ec)\<lparr>rss_conf := (rss_conf (conf ec))\<lparr>rss_key_len := of_nat (length (Key r)), rss_hf := Hf r, rss_key := ?p\<rparr>\<rparr>"
        "cptrs ec' = cptrs ec @ [?p]"
      using assms(4) Rss False by (auto simp: OptRss_def new_bytes_def new_block_def Let_def)
    moreover have "dom h0 \<subseteq> dom h" by (rule map_le_implies_dom_le) (use assms(2) in \<open>simp add: owns_def\<close>)
    then have "h0 ?p = None" using p(2) by auto
    ultimately have "owns h0 ec' h'"
      using assms(2) p unfolding e owns_def by (auto simp: map_le_def)
    moreover have "configured old (opts @ [opt]) h' (conf ec')"
      using configured_fresh [OF assms(3) p(2)] False unfolding e Rss configured_def by simp
    ultimately show ?thesis by simp
  qed
qed (use assms(2-4) in \<open>auto simp: owns_def configured_def OptLinkSpeeds_def OptRxMode_spec OptTxMode_spec
    OptLoopbackMode_def OptIntrConf_def cong: option.case_cong\<close>)

lemma options_keep:
  assumes "fresh_malloc malloc" "finite (dom h0)"
    and "fold (option_f old malloc) opts (zero_ethConf, h0) = (ec, h)"
  shows "owns h0 ec h \<and> configured old opts h (conf ec)"
  using assms(3)
proof (induction opts arbitrary: ec h rule: rev_induct)
  case Nil
  then show ?case using assms(2) by (auto simp: zero_ethConf_def owns_def configured_def)
next
  case (snoc opt opts)
  obtain ec1 h1 where "fold (option_f old malloc) opts (zero_ethConf, h0) = (ec1, h1)" by fastforce
  then show ?case using snoc option_keeps [OF assms(1)] by simp blast
qed

lemma owns_free:
  assumes "owns h0 ec h"
  shows "ethConf_free (cptrs ec) h = Some h0"
proof -
  have "h |` (- set (cptrs ec)) = h0"
  proof
    fix x
    show "(h |` (- set (cptrs ec))) x = h0 x"
      using assms by (cases "x \<in> dom h0") (auto simp: owns_def map_le_def restrict_map_def domIff)
  qed
  then show ?thesis using assms ethConf_free_restrict [of "cptrs ec" h] by (auto simp: owns_def)
qed

text \<open>C19: DevConfigure calls the C function once, with a configuration in which the last option of each kind decides and modes without an option are zero. For RSS the hash types and the key length (its low eight bits) are those of the last Rss option, while the key pointer is NULL if no Rss option has a key and otherwise points to a copy of the key of the last Rss option whose key is not empty: an Rss option without a key after one with a key leaves the earlier pointer beside the length zero. The error of the call is returned, and every copy of a key, also of keys that a later option replaced, is freed, so that C memory afterwards is the memory before.\<close>

theorem DevConfigure_last_option_wins:
  assumes "fresh_malloc malloc" "finite (dom h)"
  shows "\<exists>cf h' r. h \<subseteq>\<^sub>m h' \<and> configured old opts h' cf \<and>
    r = rte_eth_dev_configure A pid nrxq ntxq cf h' w \<and>
    DevConfigure c A old malloc pid nrxq ntxq opts h w = Some (IntToErr c (fst r), h, snd r)"
proof -
  obtain ec h' where f: "fold (option_f old malloc) opts (zero_ethConf, h) = (ec, h')" by fastforce
  note k = options_keep [OF assms f]
  have "h \<subseteq>\<^sub>m h'" using k by (simp add: owns_def)
  moreover have "DevConfigure c A old malloc pid nrxq ntxq opts h w =
      (let r = rte_eth_dev_configure A pid nrxq ntxq (conf ec) h' w in Some (IntToErr c (fst r), h, snd r))"
    using owns_free [of h ec h'] k f by (simp add: DevConfigure_def errget_def Let_def)
  ultimately show ?thesis using k by (auto simp: Let_def)
qed

theorem DevConfigure_last_option_wins_witness:
  "\<forall>A c (w :: 'w). \<exists>cf h' r. Map.empty \<subseteq>\<^sub>m h' \<and>
    configured True [Rss \<lparr>Key = [1, 2], Hf = 4\<rparr>, LinkSpeeds 3, Rss \<lparr>Key = [7], Hf = 8\<rparr>] h' cf \<and>
    r = rte_eth_dev_configure A 0 1 1 cf h' w \<and>
    DevConfigure c A True next_ptr 0 1 1 [Rss \<lparr>Key = [1, 2], Hf = 4\<rparr>, LinkSpeeds 3, Rss \<lparr>Key = [7], Hf = 8\<rparr>] Map.empty w
      = Some (IntToErr c (fst r), Map.empty, snd r)"
  by (intro allI, rule DevConfigure_last_option_wins [OF next_ptr_fresh]) simp


subsection \<open>Hairpin queues\<close>

fun run_calls :: "('w \<Rightarrow> int \<times> 'w) list \<Rightarrow> 'w \<Rightarrow> bool \<times> 'w" where
  "run_calls [] w = (True, w)"
| "run_calls (f # fs) w = (let (d, w) = f w in if d = 0 then run_calls fs w else (False, w))"

lemma run_calls_append:
  "run_calls (fs @ gs) w = (case run_calls fs w of (ok, w) \<Rightarrow> if ok then run_calls gs w else (False, w))"
  by (induction fs arbitrary: w) (simp_all split: prod.split)

lemma hairpin_loop_calls:
  assumes "n < fuel" "unat qi + n = limit" "limit < 2 ^ 16"
  shows "hairpin_loop cfgq pi1 fuel base limit qi i w =
    Some (run_calls (map (\<lambda>k. cfgq (qi + of_nat k) (pi1, base + of_nat (i + k))) [0..<n]) w)"
  using assms
proof (induction fuel arbitrary: n qi i w)
  case (Suc fuel)
  have base: "of_nat i + base = base + of_nat i" by (rule add.commute)
  show ?case
  proof (cases n)
    case 0
    then show ?thesis using Suc.prems by simp
  next
    case (Suc m)
    have "unat (qi + 1) = Suc (unat qi)"
      using Suc.prems Suc by (subst unat_add_exact) simp_all
    then have "hairpin_loop cfgq pi1 fuel base limit (qi + 1) (Suc i) w' =
        Some (run_calls (map (\<lambda>k. cfgq (qi + 1 + of_nat k) (pi1, base + of_nat (Suc i + k))) [0..<m]) w')" for w'
      using Suc Suc.prems by (intro Suc.IH) simp_all
    moreover have "map (\<lambda>k. cfgq (qi + of_nat k) (pi1, base + of_nat (i + k))) [0..<n] =
        cfgq qi (pi1, base + of_nat i) #
        map (\<lambda>k. cfgq (qi + 1 + of_nat k) (pi1, base + of_nat (Suc i + k))) [0..<m]"
      unfolding Suc by (simp add: upt_conv_Cons map_Suc_upt [symmetric] comp_def algebra_simps del: upt_Suc)
    ultimately show ?thesis using Suc Suc.prems(2) by (simp add: base split: prod.split)
  qed
qed simp

text \<open>C17: HairpinQueueSetup configures the receive queues behind the ordinary ones, then the transmit queues behind the ordinary ones, each with one peer on the same port; the k-th hairpin receive queue and the k-th hairpin transmit queue name each other as peer, the calls stop at the first failure, which is reported as error -1, and the call returns whenever the queue numbers fit into 16 bits.\<close>

theorem HairpinQueueSetup_pairs:
  assumes "unat nrxq + unat nhpq < 2 ^ 16" "unat ntxq + unat nhpq < 2 ^ 16" "unat nhpq < fuel"
  shows "HairpinQueueSetup c A fuel pid nrxq ntxq nhpq nrxd ntxd w =
    Some (case run_calls
      (map (\<lambda>k. rte_eth_rx_hairpin_queue_setup A pid (nrxq + of_nat k) nrxd (pid, ntxq + of_nat k)) [0..<unat nhpq] @
       map (\<lambda>k. rte_eth_tx_hairpin_queue_setup A pid (ntxq + of_nat k) ntxd (pid, nrxq + of_nat k)) [0..<unat nhpq]) w
      of (ok, w') \<Rightarrow> (if ok then None else IntToErr c (-1), w'))"
proof -
  have "hairpin_loop cfgq pid fuel ntxq (unat nhpq + unat nrxq) nrxq 0 v =
      Some (run_calls (map (\<lambda>k. cfgq (nrxq + of_nat k) (pid, ntxq + of_nat k)) [0..<unat nhpq]) v)"
    "hairpin_loop cfgq pid fuel nrxq (unat nhpq + unat ntxq) ntxq 0 v =
      Some (run_calls (map (\<lambda>k. cfgq (ntxq + of_nat k) (pid, nrxq + of_nat k)) [0..<unat nhpq]) v)"
    for cfgq :: "u16 \<Rightarrow> u16 \<times> u16 \<Rightarrow> 'a \<Rightarrow> int \<times> 'a" and v
    using hairpin_loop_calls [OF assms(3), of nrxq _ cfgq pid ntxq 0 v]
      hairpin_loop_calls [OF assms(3), of ntxq _ cfgq pid nrxq 0 v] assms(1,2) by (simp_all add: add.commute)
  then show ?thesis
    by (simp add: HairpinQueueSetup_def setup_hairpin_queues_def run_calls_append errget_def IntToErr_def
        split: prod.split)
qed

theorem HairpinQueueSetup_pairs_witness:
  "\<forall>c (A :: nat eth_api). HairpinQueueSetup c (A\<lparr>rte_eth_rx_hairpin_queue_setup := (\<lambda>_ _ _ _ w. (0, w + 1)),
      rte_eth_tx_hairpin_queue_setup := (\<lambda>_ _ _ _ w. (0, w + 1))\<rparr>) 5 0 2 2 2 64 64 0 = Some (None, 4)"
proof (intro allI)
  fix c and A :: "nat eth_api"
  let ?A = "A\<lparr>rte_eth_rx_hairpin_queue_setup := (\<lambda>_ _ _ _ w. (0, w + 1)),
      rte_eth_tx_hairpin_queue_setup := (\<lambda>_ _ _ _ w. (0, w + 1))\<rparr>"
  show "HairpinQueueSetup c ?A 5 0 2 2 2 64 64 0 = Some (None, 4)"
    using HairpinQueueSetup_pairs [where nrxq = 2 and ntxq = 2 and nhpq = 2 and fuel = 5 and c = c and A = ?A
        and pid = 0 and nrxd = 64 and ntxd = 64 and w = 0]
    by (simp add: upt_rec)
qed

text \<open>If the sum needs more than 16 bits, the 16-bit counter never reaches it.\<close>

lemma hairpin_never_ends:
  "limit \<ge> 2 ^ 16 \<Longrightarrow> (\<And>q p w. fst (cfgq q p w) = 0) \<Longrightarrow> hairpin_loop cfgq pi1 fuel base limit qi i w = None"
proof (induction fuel arbitrary: qi i w)
  case (Suc fuel)
  have "unat qi < limit" using Suc.prems(1) unat_mod_small [of qi] by simp
  then show ?case using Suc by (simp add: case_prod_unfold Let_def)
qed simp

subsection \<open>Ports and transmit buffers\<close>

lemma get_ethdev_ports:
  "length ports = n \<Longrightarrow> i \<le> n \<Longrightarrow>
   go_rte_get_ethdev_ports pids n ports i = (ps, j) \<Longrightarrow> take j ps = take i ports @ take (n - i) pids"
proof (induction pids arbitrary: ports i)
  case (Cons pid pids)
  show ?case
  proof (cases "i < n")
    case True
    then have "take j ps = take (Suc i) (ports[i := pid]) @ take (n - Suc i) pids"
      using Cons.prems by (intro Cons.IH) simp_all
    then show ?thesis
      using True Cons.prems(1) by (simp add: take_Suc_conv_app_nth take_Cons' Suc_diff_Suc [symmetric])
  qed (use Cons.prems in auto)
qed simp

lemma ValidPorts_lists:
  "ValidPorts A w w' = take (unat (rte_eth_dev_count_avail A w)) (foreach_dev A w')"
proof -
  obtain ps j where e: "go_rte_get_ethdev_ports (foreach_dev A w') (unat (rte_eth_dev_count_avail A w))
      (replicate (unat (rte_eth_dev_count_avail A w)) 0) 0 = (ps, j)" by fastforce
  then show ?thesis using get_ethdev_ports [OF _ _ e] by (simp add: ValidPorts_def Let_def)
qed

lemma fracCeilRound_bounds:
  assumes "0 \<le> x" "0 < y"
  shows "x \<le> y * fracCeilRound x y" "y * fracCeilRound x y < x + y"
proof -
  have d: "go_div x y = x div y" using assms by (cases "x = 0") (auto simp: go_div_def sgn_if)
  have m: "y * (x div y) = x - x mod y" by (simp add: minus_mod_eq_mult_div)
  have r: "0 \<le> x mod y" "x mod y < y" using assms(2) by auto
  show "x \<le> y * fracCeilRound x y" "y * fracCeilRound x y < x + y"
    unfolding fracCeilRound_def Let_def d using m r by (auto simp: distrib_left)
qed

text \<open>The words allocated for a transmit buffer hold the header and all its pointers, with less than a word to spare.\<close>

lemma NewTxBuffer_fits:
  assumes "unat sz + 8 * cnt < 2 ^ 63" "0 < unat sz"
  shows "\<exists>n. NewTxBuffer sz (int cnt) = Some n \<and> unat sz + 8 * cnt \<le> 8 * n \<and> 8 * n < unat sz + 8 * cnt + 8"
proof -
  define x where "x = unat sz + 8 * cnt"
  have x: "0 < x" "x < 2 ^ 63" using assms by (simp_all add: x_def)
  have "TxBufferSize sz (int cnt) = of_nat x"
    by (simp add: TxBufferSize_def x_def mult.commute)
  moreover have "unat (of_nat x :: u64) = x" using x(2) by (intro unat_of_nat_small) simp
  ultimately have "sint (TxBufferSize sz (int cnt)) = int x" using x(2) sint_small by metis
  then show ?thesis
    unfolding x_def [symmetric] using x(1) fracCeilRound_bounds [of "int x" 8]
    by (intro exI [of _ "nat (fracCeilRound (int x) 8)"]) (auto simp: NewTxBuffer_def Let_def)
qed

end
