(* ===== verification/Mbuf_Array.thy ===== *)
theory Mbuf_Array
  imports Mbuf
begin

text \<open>
  Ownership of mbufs: the pool calls of src/mbuf/mbuf.go and the receive buffers of
  src/util/rx_buffer.go with their C part src/util/mbuf_array.h.  An mbuf is its address.  The
  DPDK functions are the fields of \<open>mbuf_api\<close> on a world \<open>'w\<close>; giving back an mbuf that is not
  taken is a fault (None), as is an access of the buffer outside the memory that was allocated for
  it.  What the code relies on is the predicate \<open>pool_contract\<close>, in which \<open>lib\<close> is the set of mbufs
  that belong to the library, in the pools or in the descriptors of a receive queue, and \<open>chain\<close>
  gives the segments of a packet that has been handed out.
\<close>

record 'w mbuf_api =
  rte_pktmbuf_free :: "addr \<Rightarrow> 'w \<Rightarrow> 'w option"
  rte_pktmbuf_alloc :: "addr \<Rightarrow> 'w \<Rightarrow> addr \<times> 'w"
  rte_pktmbuf_alloc_bulk :: "addr \<Rightarrow> nat \<Rightarrow> 'w \<Rightarrow> (int \<times> addr list) \<times> 'w"
  rx_burst :: "u16 \<Rightarrow> u16 \<Rightarrow> u16 \<Rightarrow> 'w \<Rightarrow> addr list \<times> 'w"
  rte_zmalloc_socket :: "u64 \<Rightarrow> int \<Rightarrow> 'w \<Rightarrow> addr \<times> 'w"
  rte_free :: "addr \<Rightarrow> 'w \<Rightarrow> 'w"

section \<open>Allocation and release (src/mbuf/mbuf.go)\<close>

definition PktMbufFree :: "'w mbuf_api \<Rightarrow> addr \<Rightarrow> 'w \<Rightarrow> 'w option" where
  "PktMbufFree A m w = rte_pktmbuf_free A m w"

definition PktMbufAlloc :: "'w mbuf_api \<Rightarrow> addr \<Rightarrow> 'w \<Rightarrow> addr \<times> 'w" where
  "PktMbufAlloc A p w = rte_pktmbuf_alloc A p w"

text \<open>A failing bulk allocation leaves the slice as it is.\<close>

definition PktMbufAllocBulk ::
  "rte_errnos \<Rightarrow> 'w mbuf_api \<Rightarrow> addr \<Rightarrow> addr list \<Rightarrow> 'w \<Rightarrow> (error \<times> addr list) \<times> 'w" where
  "PktMbufAllocBulk c A p ms w =
     (let ((e, got), w) = rte_pktmbuf_alloc_bulk A p (length ms) w in
      ((IntErr c e, if e = 0 then got else ms), w))"

fun free_bulk :: "'w mbuf_api \<Rightarrow> addr list \<Rightarrow> 'w \<Rightarrow> 'w option" where
  "free_bulk A [] w = Some w"
| "free_bulk A (m # ms) w = do { w \<leftarrow> rte_pktmbuf_free A m w; free_bulk A ms w }"

definition PktMbufFreeBulk :: "'w mbuf_api \<Rightarrow> addr list \<Rightarrow> 'w \<Rightarrow> 'w option" where
  "PktMbufFreeBulk A ms w = free_bulk A ms w"

section \<open>Receive buffers (src/util/rx_buffer.go, src/util/mbuf_array.h)\<close>

text \<open>
  The structure as a value; \<open>opaque\<close> are its 64 user bytes, at whose start \<^verbatim>\<open>struct ethdev_data\<close>
  is overlaid.
\<close>

record mbuf_array =
  arr_size :: u16
  arr_length :: u16
  arr_n :: u16
  arr_opaque :: "byte list"
  arr_pkts :: "addr list"

text \<open>
  Three 16-bit numbers, two bytes of padding, the user bytes and one pointer: 80 bytes, of which the pointer, where
  the array begins, is the last 8.  An allocation of \<open>n\<close> bytes has room for \<open>pkts_room n\<close> pointers.
\<close>

definition sizeof_mbuf_array :: u64 where
  "sizeof_mbuf_array = 3 * 2 + 2 + 64 + 8"

definition pkts_room :: "u64 \<Rightarrow> nat" where
  "pkts_room n = (unat n - (unat sizeof_mbuf_array - 8)) div 8"

definition RX_BUFFER_SIZE :: "u16 \<Rightarrow> u64" where
  "RX_BUFFER_SIZE sz = sizeof_mbuf_array + (ucast sz - 1) * 8"

definition new_mbuf_array :: "'w mbuf_api \<Rightarrow> int \<Rightarrow> u16 \<Rightarrow> 'w \<Rightarrow> (addr \<times> mbuf_array) option \<times> 'w" where
  "new_mbuf_array A socket count w =
     (let size = RX_BUFFER_SIZE count; (p, w) = rte_zmalloc_socket A size socket w in
      (if p = nil then None
       else Some (p, \<lparr>arr_size = count, arr_length = 0, arr_n = 0, arr_opaque = replicate 64 0,
                      arr_pkts = replicate (pkts_room size) nil\<rparr>), w))"

text \<open>\<^verbatim>\<open>NewMbufArray\<close> panics when the memory is exhausted.\<close>

definition NewMbufArray :: "'w mbuf_api \<Rightarrow> u64 \<Rightarrow> u16 \<Rightarrow> 'w \<Rightarrow> ((addr \<times> mbuf_array) \<times> 'w) option" where
  "NewMbufArray A socket sz w =
     (case new_mbuf_array A (sint (ucast socket :: u32)) sz w of
        (None, _) \<Rightarrow> None | (Some b, w) \<Rightarrow> Some (b, w))"

definition NewEthdevMbufArray ::
  "'w mbuf_api \<Rightarrow> u16 \<Rightarrow> u16 \<Rightarrow> u64 \<Rightarrow> u16 \<Rightarrow> 'w \<Rightarrow> ((addr \<times> mbuf_array) \<times> 'w) option" where
  "NewEthdevMbufArray A pid qid socket sz w = do {
     ((p, b), w) \<leftarrow> NewMbufArray A socket sz w;
     Some ((p, b\<lparr>arr_opaque := le16 pid @ le16 qid @ drop 4 (arr_opaque b)\<rparr>), w) }"

definition MbufArray_Free :: "'w mbuf_api \<Rightarrow> addr \<Rightarrow> 'w \<Rightarrow> 'w" where
  "MbufArray_Free A buf w = rte_free A buf w"

text \<open>Reading beyond the allocated pointers is a fault.\<close>

definition cursor :: "mbuf_array \<Rightarrow> addr option" where
  "cursor b = (if unat (arr_n b) < length (arr_pkts b) then Some (arr_pkts b ! unat (arr_n b)) else None)"

definition Buffer :: "mbuf_array \<Rightarrow> addr list" where
  "Buffer b = take (unat (arr_size b)) (arr_pkts b)"

definition Mbufs :: "mbuf_array \<Rightarrow> addr list option" where
  "Mbufs b = (if unat (arr_length b) \<le> unat (arr_size b) then Some (take (unat (arr_length b)) (Buffer b)) else None)"

text \<open>Reading or writing a pointer beyond the allocated ones is a fault.\<close>

definition mbuf_array_ethdev_reload :: "'w mbuf_api \<Rightarrow> mbuf_array \<Rightarrow> 'w \<Rightarrow> (u16 \<times> mbuf_array \<times> 'w) option" where
  "mbuf_array_ethdev_reload A b w =
     (let pid = un_le16 (slice 0 2 (arr_opaque b)); qid = un_le16 (slice 2 2 (arr_opaque b)) in
      if length (arr_pkts b) < unat (arr_length b) then None else do {
        w \<leftarrow> free_bulk A (take (unat (arr_length b)) (arr_pkts b)) w;
        let (ms, w) = rx_burst A pid qid (arr_size b) w;
        if length (arr_pkts b) < length ms then None else
          let b = b\<lparr>arr_pkts := ms @ drop (length ms) (arr_pkts b), arr_length := of_nat (length ms), arr_n := 0\<rparr>
          in Some (arr_length b, b, w) })"

definition Recharge :: "'w mbuf_api \<Rightarrow> mbuf_array \<Rightarrow> 'w \<Rightarrow> (int \<times> mbuf_array \<times> 'w) option" where
  "Recharge A b w = map_option (\<lambda>(n, b, w). (int (unat n), b, w)) (mbuf_array_ethdev_reload A b w)"

section \<open>The contract of the pools\<close>

text \<open>
  \<open>sane\<close> are the worlds of a library in order.  \<open>chain w m\<close> are the segments of the packet \<open>m\<close> when \<open>m\<close> is its first
  segment and the packet is not in the library's hands; it is empty for every other address.  Freeing such a packet
  gives all its segments back; a burst hands out packets from the descriptors of the queue, no more than asked for, and
  may refill the descriptors from the pools, which stays inside the library.  The packets are not shared (their
  reference count is one).
\<close>

definition pool_contract ::
  "'w mbuf_api \<Rightarrow> ('w \<Rightarrow> bool) \<Rightarrow> ('w \<Rightarrow> addr set) \<Rightarrow> ('w \<Rightarrow> addr \<Rightarrow> addr set) \<Rightarrow> bool" where
  "pool_contract A sane lib chain \<longleftrightarrow>
     (\<forall>w. sane w \<longrightarrow> nil \<notin> lib w \<and> (\<forall>m. nil \<notin> chain w m \<and> chain w m \<inter> lib w = {})) \<and>
     (\<forall>m w. sane w \<and> m \<in> chain w m \<longrightarrow>
        (\<exists>w'. rte_pktmbuf_free A m w = Some w' \<and> sane w' \<and> lib w' = lib w \<union> chain w m \<and>
           (\<forall>x. x \<noteq> m \<longrightarrow> chain w' x = chain w x))) \<and>
     (\<forall>p w m w'. sane w \<and> rte_pktmbuf_alloc A p w = (m, w') \<longrightarrow> sane w' \<and> (\<forall>x. x \<noteq> m \<longrightarrow> chain w' x = chain w x) \<and>
        (if m = nil then lib w' = lib w else m \<in> lib w \<and> lib w' = lib w - {m} \<and> chain w' m = {m})) \<and>
     (\<forall>p q n w ms w'. sane w \<and> rx_burst A p q n w = (ms, w') \<longrightarrow> sane w' \<and> distinct ms \<and> length ms \<le> unat n \<and>
        (\<forall>m \<in> set ms. m \<in> chain w' m \<and> chain w' m \<subseteq> lib w) \<and>
        (\<forall>m \<in> set ms. \<forall>x \<in> set ms. m \<noteq> x \<longrightarrow> chain w' m \<inter> chain w' x = {}) \<and>
        lib w' = lib w - (\<Union>m \<in> set ms. chain w' m) \<and> (\<forall>x. x \<notin> set ms \<longrightarrow> chain w' x = chain w x))"

lemma pool_contractD:
  assumes "pool_contract A sane lib chain" "sane w"
  shows "nil \<notin> lib w" "nil \<notin> chain w m" "chain w m \<inter> lib w = {}"
    and "m \<in> chain w m \<Longrightarrow> \<exists>w'. rte_pktmbuf_free A m w = Some w' \<and> sane w' \<and> lib w' = lib w \<union> chain w m \<and>
           (\<forall>x. x \<noteq> m \<longrightarrow> chain w' x = chain w x)"
    and "rx_burst A p q n w = (ms, w') \<Longrightarrow> sane w' \<and> distinct ms \<and> length ms \<le> unat n \<and>
        (\<forall>m \<in> set ms. m \<in> chain w' m \<and> chain w' m \<subseteq> lib w) \<and>
        (\<forall>m \<in> set ms. \<forall>x \<in> set ms. m \<noteq> x \<longrightarrow> chain w' m \<inter> chain w' x = {}) \<and>
        lib w' = lib w - (\<Union>m \<in> set ms. chain w' m) \<and> (\<forall>x. x \<notin> set ms \<longrightarrow> chain w' x = chain w x)"
  using assms(2) assms(1) [unfolded pool_contract_def, THEN conjunct1]
    assms(1) [unfolded pool_contract_def, THEN conjunct2, THEN conjunct1]
    assms(1) [unfolded pool_contract_def, THEN conjunct2, THEN conjunct2, THEN conjunct2]
  by simp_all

text \<open>
  A library with a pool of mbufs, a receive queue whose descriptors hold packets of one or more segments, and the
  packets handed out.  A burst takes packets from the front of the queue and refills it from the pool.
\<close>

record rx_world =
  dw_pool :: "addr list"
  dw_ring :: "addr list list"
  dw_held :: "addr list list"

definition list_pool :: "rx_world mbuf_api" where
  "list_pool =
     \<lparr>rte_pktmbuf_free = (\<lambda>m w. map_option (\<lambda>c. w\<lparr>dw_pool := dw_pool w @ c, dw_held := remove1 c (dw_held w)\<rparr>)
        (find (\<lambda>c. hd c = m) (dw_held w))),
      rte_pktmbuf_alloc = (\<lambda>_ w. case dw_pool w of [] \<Rightarrow> (nil, w)
        | m # ms \<Rightarrow> (m, w\<lparr>dw_pool := ms, dw_held := [m] # dw_held w\<rparr>)),
      rte_pktmbuf_alloc_bulk = (\<lambda>_ n w. if n \<le> length (dw_pool w)
        then ((0, take n (dw_pool w)), w\<lparr>dw_pool := drop n (dw_pool w), dw_held := map (\<lambda>m. [m]) (take n (dw_pool w)) @ dw_held w\<rparr>)
        else ((-1, []), w)),
      rx_burst = (\<lambda>_ _ n w. let k = min (unat n) (length (dw_ring w)) in (map hd (take k (dw_ring w)),
         w\<lparr>dw_pool := drop k (dw_pool w), dw_ring := drop k (dw_ring w) @ map (\<lambda>m. [m]) (take k (dw_pool w)),
           dw_held := take k (dw_ring w) @ dw_held w\<rparr>)),
      rte_zmalloc_socket = (\<lambda>_ _ w. (0x1000, w)), rte_free = (\<lambda>_ w. w)\<rparr>"

definition rx_sane :: "rx_world \<Rightarrow> bool" where
  "rx_sane w \<longleftrightarrow> distinct (dw_pool w @ concat (dw_ring w) @ concat (dw_held w)) \<and> [] \<notin> set (dw_ring w) \<union> set (dw_held w) \<and>
     nil \<notin> set (dw_pool w @ concat (dw_ring w) @ concat (dw_held w))"

definition rx_lib :: "rx_world \<Rightarrow> addr set" where
  "rx_lib w = set (dw_pool w) \<union> set (concat (dw_ring w))"

definition rx_chain :: "rx_world \<Rightarrow> addr \<Rightarrow> addr set" where
  "rx_chain w m = \<Union> (set ` {c \<in> set (dw_held w). hd c = m})"

lemma same_chain:
  assumes "distinct (concat cs)" "[] \<notin> set cs" "c \<in> set cs" "d \<in> set cs" "hd c = hd d"
  shows "c = d"
proof (rule ccontr)
  assume "c \<noteq> d"
  then have "set c \<inter> set d = {}" using assms(1,3,4) by (auto simp: distinct_concat_iff)
  moreover have "hd c \<in> set c" using assms(2,3) by (cases c) auto
  moreover have "hd c \<in> set d" using assms(2,4,5) by (cases d) auto
  ultimately show False by blast
qed

lemma rx_chain_held:
  assumes "rx_sane w" "c \<in> set (dw_held w)"
  shows "rx_chain w (hd c) = set c"
proof -
  have "distinct (concat (dw_held w))" "[] \<notin> set (dw_held w)" using assms(1) by (simp_all add: rx_sane_def)
  from same_chain [OF this] have "{d \<in> set (dw_held w). hd d = hd c} = {c}" using assms(2) by blast
  then show ?thesis by (simp add: rx_chain_def)
qed

lemma list_pool_free:
  assumes sane: "rx_sane w" and m: "m \<in> rx_chain w m"
  shows "\<exists>w'. rte_pktmbuf_free list_pool m w = Some w' \<and> rx_sane w' \<and> rx_lib w' = rx_lib w \<union> rx_chain w m \<and>
    (\<forall>x. x \<noteq> m \<longrightarrow> rx_chain w' x = rx_chain w x)"
proof -
  have "find (\<lambda>c. hd c = m) (dw_held w) \<noteq> None" using m by (auto simp: rx_chain_def find_None_iff)
  then obtain c where f: "find (\<lambda>c. hd c = m) (dw_held w) = Some c" by (cases "find (\<lambda>c. hd c = m) (dw_held w)") auto
  then have c: "find (\<lambda>c. hd c = m) (dw_held w) = Some c" "c \<in> set (dw_held w)" "hd c = m"
    by (auto simp: find_Some_iff)
  obtain xs ys where xs: "dw_held w = xs @ c # ys" "c \<notin> set xs" using split_list_first [OF c(2)] by blast
  then have rem: "remove1 c (dw_held w) = xs @ ys" by (simp add: remove1_append)
  let ?w = "w\<lparr>dw_pool := dw_pool w @ c, dw_held := xs @ ys\<rparr>"
  have "rx_sane ?w" using sane unfolding rx_sane_def xs(1) by auto
  moreover have "rx_lib ?w = rx_lib w \<union> rx_chain w m"
    using rx_chain_held [OF sane c(2)] c(3) by (auto simp: rx_lib_def)
  moreover have "rx_chain ?w x = rx_chain w x" if "x \<noteq> m" for x
    using c(3) that by (auto simp: rx_chain_def xs(1))
  ultimately show ?thesis using c(1) rem by (simp add: list_pool_def)
qed

lemma list_pool_burst:
  assumes sane: "rx_sane w" and r: "rx_burst list_pool p q n w = (ms, w')"
  shows "rx_sane w' \<and> distinct ms \<and> length ms \<le> unat n \<and>
    (\<forall>m \<in> set ms. m \<in> rx_chain w' m \<and> rx_chain w' m \<subseteq> rx_lib w) \<and>
    (\<forall>m \<in> set ms. \<forall>x \<in> set ms. m \<noteq> x \<longrightarrow> rx_chain w' m \<inter> rx_chain w' x = {}) \<and>
    rx_lib w' = rx_lib w - (\<Union>m \<in> set ms. rx_chain w' m) \<and> (\<forall>x. x \<notin> set ms \<longrightarrow> rx_chain w' x = rx_chain w x)"
proof -
  define k where "k = min (unat n) (length (dw_ring w))"
  define tk dk where "tk = take k (dw_ring w)" and "dk = drop k (dw_ring w)"
  define tp dp where "tp = take k (dw_pool w)" and "dp = drop k (dw_pool w)"
  have sp: "dw_ring w = tk @ dk" "dw_pool w = tp @ dp" "length tk \<le> unat n"
    by (simp_all add: tk_def dk_def tp_def dp_def k_def)
  have w': "ms = map hd tk" "w' = w\<lparr>dw_pool := dp, dw_ring := dk @ map (\<lambda>m. [m]) tp, dw_held := tk @ dw_held w\<rparr>"
    using r by (auto simp: list_pool_def Let_def k_def tk_def dk_def tp_def dp_def)
  have single: "concat (map (\<lambda>m. [m]) xs) = xs" for xs :: "addr list" by (induction xs) simp_all
  have sane': "rx_sane w'" using sane unfolding rx_sane_def w' sp by (auto simp: single)
  have chain: "rx_chain w' (hd c) = set c" if "c \<in> set tk" for c
    using rx_chain_held [OF sane', of c] that by (simp add: w')
  have ne: "hd c \<in> set c" if "c \<in> set tk" for c using sane that by (cases c) (auto simp: rx_sane_def sp)
  have dt: "distinct (concat tk)" "[] \<notin> set tk" using sane by (auto simp: rx_sane_def sp)
  have disj: "set c \<inter> set d = {}" if "c \<in> set tk" "d \<in> set tk" "hd c \<noteq> hd d" for c d
    using dt(1) that by (auto simp: distinct_concat_iff)
  have "distinct ms"
  proof -
    have "distinct tk" using dt by (simp add: distinct_concat_iff removeAll_id)
    moreover have "inj_on hd (set tk)" using same_chain [OF dt] by (auto intro: inj_onI)
    ultimately show ?thesis by (simp add: w'(1) distinct_map)
  qed
  moreover have "rx_lib w' = rx_lib w - (\<Union>m \<in> set ms. rx_chain w' m)"
  proof -
    have "(\<Union>m \<in> set ms. rx_chain w' m) = set (concat tk)" using chain by (auto simp: w'(1))
    then show ?thesis using sane by (auto simp: rx_lib_def w'(2) sp single rx_sane_def)
  qed
  moreover have "rx_chain w' x = rx_chain w x" if "x \<notin> set ms" for x
    using that by (auto simp: rx_chain_def w')
  moreover have "\<forall>m \<in> set ms. m \<in> rx_chain w' m \<and> rx_chain w' m \<subseteq> rx_lib w"
    using chain ne by (auto simp: w'(1) rx_lib_def sp)
  moreover have "\<forall>m \<in> set ms. \<forall>x \<in> set ms. m \<noteq> x \<longrightarrow> rx_chain w' m \<inter> rx_chain w' x = {}"
    using chain disj by (auto simp: w'(1))
  ultimately show ?thesis using sane' sp(3) w'(1) by simp
qed

lemma list_pool_contract: "pool_contract list_pool rx_sane rx_lib rx_chain"
  unfolding pool_contract_def
proof (intro conjI allI impI; (elim conjE)?)
  fix p w m w' assume "rx_sane w" "rte_pktmbuf_alloc list_pool p w = (m, w')"
  then have sane: "rx_sane w" and "(m = nil \<and> w' = w) \<or>
      (\<exists>ms. dw_pool w = m # ms \<and> w' = w\<lparr>dw_pool := ms, dw_held := [m] # dw_held w\<rparr>)"
    by (auto simp: list_pool_def split: list.splits)
  then consider "m = nil" "w' = w" | ms where "dw_pool w = m # ms" "w' = w\<lparr>dw_pool := ms, dw_held := [m] # dw_held w\<rparr>"
    by blast
  then have "rx_sane w' \<and> (\<forall>x. x \<noteq> m \<longrightarrow> rx_chain w' x = rx_chain w x) \<and>
    (if m = nil then rx_lib w' = rx_lib w else m \<in> rx_lib w \<and> rx_lib w' = rx_lib w - {m} \<and> rx_chain w' m = {m})"
  proof cases
    case (2 ms)
    then have sane': "rx_sane w'" using sane by (auto simp: rx_sane_def)
    have "rx_chain w' m = {m}" using rx_chain_held [OF sane', of "[m]"] 2 by simp
    then show ?thesis using sane sane' 2 by (auto simp: rx_sane_def rx_lib_def rx_chain_def)
  qed (use sane in simp)
  then show "rx_sane w'" "\<And>x. x \<noteq> m \<Longrightarrow> rx_chain w' x = rx_chain w x"
    "if m = nil then rx_lib w' = rx_lib w else m \<in> rx_lib w \<and> rx_lib w' = rx_lib w - {m} \<and> rx_chain w' m = {m}"
    by simp_all
next
  fix m w assume "rx_sane w" "m \<in> rx_chain w m"
  then show "\<exists>w'. rte_pktmbuf_free list_pool m w = Some w' \<and> rx_sane w' \<and> rx_lib w' = rx_lib w \<union> rx_chain w m \<and>
      (\<forall>x. x \<noteq> m \<longrightarrow> rx_chain w' x = rx_chain w x)"
    by (rule list_pool_free)
next
  fix p q :: u16 and n w ms w' assume r: "rx_sane w" "rx_burst list_pool p q n w = (ms, w')"
  note B = list_pool_burst [OF r]
  show "rx_sane w'" "distinct ms" "length ms \<le> unat n" "rx_lib w' = rx_lib w - (\<Union>m \<in> set ms. rx_chain w' m)"
    "\<forall>m \<in> set ms. m \<in> rx_chain w' m \<and> rx_chain w' m \<subseteq> rx_lib w"
    "\<forall>m \<in> set ms. \<forall>x \<in> set ms. m \<noteq> x \<longrightarrow> rx_chain w' m \<inter> rx_chain w' x = {}"
    by (insert B) (elim conjE, assumption)+
  show "rx_chain w' x = rx_chain w x" if "x \<notin> set ms" for x using B that by blast
next
  fix w assume s: "rx_sane w"
  show "nil \<notin> rx_lib w" using s by (auto simp: rx_sane_def rx_lib_def)
  show "nil \<notin> rx_chain w m" for m using s by (auto simp: rx_sane_def rx_chain_def)
  show "rx_chain w m \<inter> rx_lib w = {}" for m using s by (auto simp: rx_sane_def rx_chain_def rx_lib_def)
qed

section \<open>Properties\<close>

text \<open>The packets of an array are taken, each is held once, and no two share a segment.\<close>

definition array_ok ::
  "('w \<Rightarrow> bool) \<Rightarrow> ('w \<Rightarrow> addr \<Rightarrow> addr set) \<Rightarrow> mbuf_array \<Rightarrow> 'w \<Rightarrow> bool" where
  "array_ok sane chain b w \<longleftrightarrow> sane w \<and> length (arr_pkts b) = unat (arr_size b) \<and> arr_length b \<le> arr_size b \<and>
     length (arr_opaque b) = 64 \<and>
     (let held = take (unat (arr_length b)) (arr_pkts b) in
      distinct held \<and> (\<forall>m \<in> set held. m \<in> chain w m) \<and>
      (\<forall>m \<in> set held. \<forall>x \<in> set held. m \<noteq> x \<longrightarrow> chain w m \<inter> chain w x = {}))"

text \<open>All mbufs that are in the library's hands or in the array.\<close>

definition all_mbufs :: "('w \<Rightarrow> addr set) \<Rightarrow> ('w \<Rightarrow> addr \<Rightarrow> addr set) \<Rightarrow> addr list \<Rightarrow> 'w \<Rightarrow> addr set" where
  "all_mbufs lib chain ms w = lib w \<union> (\<Union>m \<in> set ms. chain w m)"

lemma Mbufs_held: "array_ok sane chain b w \<Longrightarrow> Mbufs b = Some (take (unat (arr_length b)) (arr_pkts b))"
  by (simp add: array_ok_def Mbufs_def Buffer_def Let_def word_le_nat_alt min_def)

lemma free_bulk_gives_back:
  assumes "pool_contract A sane lib chain"
  shows "sane w \<Longrightarrow> distinct ms \<Longrightarrow> \<forall>m \<in> set ms. m \<in> chain w m \<Longrightarrow>
    \<exists>w'. free_bulk A ms w = Some w' \<and> sane w' \<and> lib w' = all_mbufs lib chain ms w"
proof (induction ms arbitrary: w)
  case (Cons m ms)
  obtain w1 where w1: "rte_pktmbuf_free A m w = Some w1" "sane w1" "lib w1 = lib w \<union> chain w m"
      "\<forall>x. x \<noteq> m \<longrightarrow> chain w1 x = chain w x"
    using pool_contractD(4) [OF assms Cons.prems(1), of m] Cons.prems(3) by auto
  have same: "\<forall>x \<in> set ms. chain w1 x = chain w x" using w1(4) Cons.prems(2) by auto
  then obtain w2 where "free_bulk A ms w1 = Some w2" "sane w2" "lib w2 = all_mbufs lib chain ms w1"
    using Cons.IH [OF w1(2)] Cons.prems(2,3) by auto
  then show ?case using w1(1,3) same by (auto simp: all_mbufs_def)
qed (simp add: all_mbufs_def)

lemma Recharge_step:
  assumes "pool_contract A sane lib chain" "array_ok sane chain b w"
  shows "\<exists>b' w'. Recharge A b w = Some (int (unat (arr_length b')), b', w') \<and> array_ok sane chain b' w' \<and>
    arr_opaque b' = arr_opaque b \<and> arr_size b' = arr_size b \<and>
    all_mbufs lib chain (take (unat (arr_length b')) (arr_pkts b')) w' = all_mbufs lib chain (take (unat (arr_length b)) (arr_pkts b)) w"
proof -
  let ?held = "take (unat (arr_length b)) (arr_pkts b)"
  have room: "unat (arr_length b) \<le> length (arr_pkts b)" using assms(2) by (simp add: array_ok_def word_le_nat_alt)
  obtain w1 where w1: "free_bulk A ?held w = Some w1" "sane w1" "lib w1 = all_mbufs lib chain ?held w"
    using free_bulk_gives_back [OF assms(1), of w ?held] assms(2) by (auto simp: array_ok_def Let_def)
  let ?pid = "un_le16 (slice 0 2 (arr_opaque b))" and ?qid = "un_le16 (slice 2 2 (arr_opaque b))"
  obtain ms w2 where r: "rx_burst A ?pid ?qid (arr_size b) w1 = (ms, w2)" by fastforce
  note ms = pool_contractD(5) [OF assms(1) w1(2) r]
  let ?b = "b\<lparr>arr_pkts := ms @ drop (length ms) (arr_pkts b), arr_length := of_nat (length ms), arr_n := 0\<rparr>"
  have fit: "length ms \<le> length (arr_pkts b)" using ms assms(2) by (simp add: array_ok_def)
  have len: "unat (of_nat (length ms) :: u16) = length ms"
    using ms unat_mod_small [of "arr_size b"] by (intro unat_of_nat_small) simp
  have "array_ok sane chain ?b w2"
    using ms len fit assms(2) by (simp add: array_ok_def Let_def word_le_nat_alt)
  moreover have "Recharge A b w = Some (int (unat (arr_length ?b)), ?b, w2)"
    using w1(1) r fit room by (simp add: Recharge_def mbuf_array_ethdev_reload_def)
  moreover have "all_mbufs lib chain (take (unat (arr_length ?b)) (arr_pkts ?b)) w2 = all_mbufs lib chain ?held w"
    using ms w1(3) len by (auto simp: all_mbufs_def)
  ultimately show ?thesis by (intro exI [of _ ?b] exI [of _ w2]) simp
qed

text \<open>Any number of calls of \<^verbatim>\<open>Recharge\<close>, with the numbers they return.\<close>

fun recharges :: "'w mbuf_api \<Rightarrow> nat \<Rightarrow> mbuf_array \<times> 'w \<Rightarrow> (mbuf_array \<times> 'w) option" where
  "recharges A 0 s = Some s"
| "recharges A (Suc k) (b, w) = do { (_, b, w) \<leftarrow> Recharge A b w; recharges A k (b, w) }"

lemma recharges_ok:
  assumes "pool_contract A sane lib chain" "array_ok sane chain b w"
  shows "\<exists>b' w'. recharges A k (b, w) = Some (b', w') \<and> array_ok sane chain b' w' \<and>
    arr_opaque b' = arr_opaque b \<and> arr_size b' = arr_size b \<and>
    all_mbufs lib chain (take (unat (arr_length b')) (arr_pkts b')) w' = all_mbufs lib chain (take (unat (arr_length b)) (arr_pkts b)) w"
  using assms(2)
proof (induction k arbitrary: b w)
  case (Suc k)
  from Recharge_step [OF assms(1) Suc.prems] obtain b1 w1 where
    1: "Recharge A b w = Some (int (unat (arr_length b1)), b1, w1)" "array_ok sane chain b1 w1"
      "arr_opaque b1 = arr_opaque b" "arr_size b1 = arr_size b"
      "all_mbufs lib chain (take (unat (arr_length b1)) (arr_pkts b1)) w1 =
       all_mbufs lib chain (take (unat (arr_length b)) (arr_pkts b)) w" by blast
  then show ?case using Suc.IH [OF 1(2)] by simp
qed simp

text \<open>The allocation has room for exactly the pointers the size promises.\<close>

lemma RX_BUFFER_SIZE_room: "pkts_room (RX_BUFFER_SIZE n) = unat n"
proof -
  have size: "RX_BUFFER_SIZE n = of_nat (72 + 8 * unat n)"
    by (simp add: RX_BUFFER_SIZE_def sizeof_mbuf_array_def algebra_simps of_nat_unat)
  have "72 + 8 * unat n < 2 ^ 64" using unat_mod_small [of n] by simp
  then have "unat (of_nat (72 + 8 * unat n) :: u64) = 72 + 8 * unat n" by (intro unat_of_nat_small) simp
  with size have "unat (RX_BUFFER_SIZE n) = 72 + 8 * unat n" by (simp only:)
  then show ?thesis by (simp add: pkts_room_def sizeof_mbuf_array_def)
qed

lemma NewEthdevMbufArray_ok:
  assumes "NewEthdevMbufArray A pid qid socket n w = Some ((p, b), w')" "sane w'"
  shows "array_ok sane chain b w'" "arr_length b = 0" "arr_size b = n"
    "un_le16 (slice 0 2 (arr_opaque b)) = pid" "un_le16 (slice 2 2 (arr_opaque b)) = qid"
  using assms
  by (auto simp: NewEthdevMbufArray_def NewMbufArray_def new_mbuf_array_def array_ok_def slice_append_left slice_append_right
      le_rt RX_BUFFER_SIZE_room Let_def split: prod.splits option.splits if_splits Option.bind_splits)

text \<open>C22: a receive buffer made by NewEthdevMbufArray may be recharged any number of times: no call frees a packet twice or reads or writes beyond the memory allocated for the buffer, every packet it holds is held once, no two packets share a segment and none has a segment in the library's hands, and the mbufs that belong to the library (in its pools and in the descriptors of its receive queues) together with the segments of the packets in the buffer are exactly those that belonged to the library when the buffer was made, so that none is lost; the queue it receives from stays the one it was made for.\<close>

theorem Recharge_conserves_mbufs:
  assumes "pool_contract A sane lib chain" "NewEthdevMbufArray A pid qid socket n w = Some ((p, b), w0)" "sane w0"
  shows "\<exists>b' w' ms. recharges A k (b, w0) = Some (b', w') \<and> Mbufs b' = Some ms \<and>
    distinct ms \<and> length ms \<le> unat n \<and> (\<forall>m \<in> set ms. m \<in> chain w' m \<and> chain w' m \<inter> lib w' = {}) \<and>
    (\<forall>m \<in> set ms. \<forall>x \<in> set ms. m \<noteq> x \<longrightarrow> chain w' m \<inter> chain w' x = {}) \<and>
    lib w' \<union> (\<Union>m \<in> set ms. chain w' m) = lib w0 \<and>
    un_le16 (slice 0 2 (arr_opaque b')) = pid \<and> un_le16 (slice 2 2 (arr_opaque b')) = qid"
proof -
  note new = NewEthdevMbufArray_ok [where sane = sane, OF assms(2,3)]
  obtain b' w' where r: "recharges A k (b, w0) = Some (b', w')" "array_ok sane chain b' w'"
      "arr_opaque b' = arr_opaque b" "arr_size b' = arr_size b"
      "all_mbufs lib chain (take (unat (arr_length b')) (arr_pkts b')) w' = lib w0"
    using recharges_ok [OF assms(1) new(1), of k] new(2) by (auto simp: all_mbufs_def)
  then show ?thesis
    using Mbufs_held [OF r(2)] new(3-5) pool_contractD(3) [OF assms(1), of w']
    by (intro exI [of _ b'] exI [of _ w'] exI [of _ "take (unat (arr_length b')) (arr_pkts b')"])
      (auto simp: array_ok_def all_mbufs_def Let_def word_le_nat_alt)
qed

text \<open>A queue with a packet of two segments and one of a single segment, and one mbuf in the pool.\<close>

definition two_packets :: rx_world where
  "two_packets = \<lparr>dw_pool = [32], dw_ring = [[8, 16], [24]], dw_held = []\<rparr>"

theorem Recharge_conserves_mbufs_witness:
  "\<exists>b b' w' ms. NewEthdevMbufArray list_pool 1 2 0 2 two_packets = Some ((0x1000, b), two_packets) \<and>
    recharges list_pool 2 (b, two_packets) = Some (b', w') \<and> Mbufs b' = Some ms \<and> distinct ms \<and>
    rx_lib w' \<union> (\<Union>m \<in> set ms. rx_chain w' m) = {8, 16, 24, 32}"
proof -
  obtain b where "NewEthdevMbufArray list_pool 1 2 0 2 two_packets = Some ((0x1000, b), two_packets)"
    by (simp add: NewEthdevMbufArray_def NewMbufArray_def new_mbuf_array_def list_pool_def)
  moreover have "rx_sane two_packets" "rx_lib two_packets = {8, 16, 24, 32}"
    by (auto simp: rx_sane_def rx_lib_def two_packets_def)
  ultimately show ?thesis
    using Recharge_conserves_mbufs [OF list_pool_contract, where k = 2 and pid = 1 and qid = 2 and b = b] by fastforce
qed

lemma alloc_bulk_failure: "rte_pktmbuf_alloc_bulk A p (length ms) w = ((e, got), w') \<Longrightarrow> e \<noteq> 0 \<Longrightarrow>
    PktMbufAllocBulk c A p ms w = ((errno c e, ms), w')"
  by (simp add: PktMbufAllocBulk_def IntErr_def)

end
