(* ===== verification/Acl.thy ===== *)
theory Acl
  imports Transformers
begin

text \<open>
  Packet classification (src/acl/acl.go).  Rules are written into one array of bytes: every
  rule has the size that the C macro gives for the number of fields of the first rule, with
  the rule's data in front and its fields behind.  Sizes and offsets of the C structures are the
  record \<open>rule_layout\<close>; the functions of rte_acl.h are the fields of \<open>acl_api\<close>.
\<close>

record FieldDef =
  def_Type :: u8
  def_Size :: u8
  def_FieldIndex :: u8
  def_InputIndex :: u8
  def_Offset :: u32

record Config =
  Categories :: u32
  Defs :: "FieldDef list"
  MaxSize :: u64

text \<open>A value of type \<^verbatim>\<open>any\<close>: the four widths that are accepted, and anything else.\<close>

datatype any_uint = U8 u8 | U16 u16 | U32 u32 | U64 u64 | NotUint

record Field =
  Value :: any_uint
  MaskRange :: any_uint

record RuleData =
  CategoryMask :: u32
  Priority :: u32
  Userdata :: u32

record Rule =
  Data :: RuleData
  Fields :: "Field list"

record Param =
  prm_Name :: "byte list"
  prm_SocketID :: u64
  prm_RuleSize :: u32
  MaxRuleNum :: u32

record rule_layout = acl_layout +
  cat_off :: nat
  prio_off :: nat
  user_off :: nat
  field_off :: nat
  get_rule_size :: "nat \<Rightarrow> nat"

record 'w acl_api =
  rte_acl_create :: "byte list \<Rightarrow> int \<Rightarrow> u32 \<Rightarrow> u32 \<Rightarrow> 'w \<Rightarrow> addr \<times> 'w"
  rte_acl_find_existing :: "byte list \<Rightarrow> 'w \<Rightarrow> addr"
  rte_acl_errno :: "'w \<Rightarrow> int"
  rte_acl_classify :: "addr \<Rightarrow> addr list \<Rightarrow> u32 \<Rightarrow> 'w \<Rightarrow> int \<times> u32 list"
  rte_acl_build :: "addr \<Rightarrow> u32 \<Rightarrow> FieldDef list \<Rightarrow> u64 \<Rightarrow> 'w \<Rightarrow> int \<times> 'w"
  rte_acl_add_rules :: "addr \<Rightarrow> byte list \<Rightarrow> u32 \<Rightarrow> 'w \<Rightarrow> int \<times> 'w"

section \<open>Operations\<close>

definition RuleSize :: "('a) rule_layout_scheme \<Rightarrow> nat \<Rightarrow> u32" where
  "RuleSize L numDefs = of_nat (get_rule_size L numDefs)"

text \<open>\<^verbatim>\<open>setUint\<close> writes the value at its width; another dynamic type panics.\<close>

fun setUint :: "nat \<Rightarrow> any_uint \<Rightarrow> byte list \<Rightarrow> byte list option" where
  "setUint off (U8 v) ret = Some (patch off [v] ret)"
| "setUint off (U16 v) ret = Some (patch off (le16 v) ret)"
| "setUint off (U32 v) ret = Some (patch off (le32 v) ret)"
| "setUint off (U64 v) ret = Some (patch off (le64 v) ret)"
| "setUint off NotUint ret = None"

definition Field_field :: "'a rule_layout_scheme \<Rightarrow> Field \<Rightarrow> byte list option" where
  "Field_field L f = do {
     ret \<leftarrow> setUint (value_off L) (Value f) (replicate (acl_size L) 0);
     setUint (mask_off L) (MaskRange f) ret }"

definition Acl_Create :: "rte_errnos \<Rightarrow> 'w acl_api \<Rightarrow> Param \<Rightarrow> 'w \<Rightarrow> (addr \<times> error) \<times> 'w" where
  "Acl_Create c A p w =
     (let (ctx, w) = rte_acl_create A (prm_Name p) (sint (ucast (prm_SocketID p) :: u32)) (prm_RuleSize p) (MaxRuleNum p) w in
      if ctx \<noteq> nil then ((ctx, None), w) else ((nil, RteErrno c (rte_acl_errno A w)), w))"

definition Acl_FindExisting :: "rte_errnos \<Rightarrow> 'w acl_api \<Rightarrow> byte list \<Rightarrow> 'w \<Rightarrow> addr \<times> error" where
  "Acl_FindExisting c A name w =
     (let ctx = rte_acl_find_existing A name w in
      if ctx \<noteq> nil then (ctx, None) else (nil, RteErrno c (rte_acl_errno A w)))"

text \<open>The addresses of the first elements panic on empty slices; C writes its results from the start.\<close>

definition Classify ::
  "rte_errnos \<Rightarrow> 'w acl_api \<Rightarrow> addr \<Rightarrow> addr list \<Rightarrow> u32 list \<Rightarrow> u32 \<Rightarrow> 'w \<Rightarrow> (error \<times> u32 list) option" where
  "Classify c A ctx data results categories w =
     (if data = [] \<or> results = [] then None
      else let (rc, out) = rte_acl_classify A ctx (take (length data mod 2 ^ 32) data) categories w in
        if length out > length results then None
        else Some (IntErr c rc, out @ drop (length out) results))"

definition Build :: "rte_errnos \<Rightarrow> 'w acl_api \<Rightarrow> nat \<Rightarrow> addr \<Rightarrow> Config \<Rightarrow> 'w \<Rightarrow> (error \<times> 'w) option" where
  "Build c A max_defs ctx cfg w =
     (let num_fields = unat (of_nat (length (Defs cfg)) :: u32) in
      if num_fields > max_defs then Some (Some (ErrMsg ''too many field definitions''), w)
      else if length (Defs cfg) > max_defs then None
      else let (rc, w) = rte_acl_build A ctx (Categories cfg) (Defs cfg) (MaxSize cfg) w in Some (IntErr c rc, w))"

fun set_acl_fields :: "'a rule_layout_scheme \<Rightarrow> nat \<Rightarrow> nat \<Rightarrow> Field list \<Rightarrow> byte list \<Rightarrow> byte list option" where
  "set_acl_fields L base 0 fs rules = Some rules"
| "set_acl_fields L base (Suc n) [] rules = None"
| "set_acl_fields L base (Suc n) (f # fs) rules = do {
     bs \<leftarrow> Field_field L f;
     set_acl_fields L (base + acl_size L) n fs (patch base bs rules) }"

definition set_rule :: "'a rule_layout_scheme \<Rightarrow> nat \<Rightarrow> nat \<Rightarrow> Rule \<Rightarrow> byte list \<Rightarrow> byte list option" where
  "set_rule L base fieldsNum r rules =
     (let rules = patch (base + cat_off L) (le32 (CategoryMask (Data r))) rules;
          rules = patch (base + prio_off L) (le32 (Priority (Data r))) rules;
          rules = patch (base + user_off L) (le32 (Userdata (Data r))) rules
      in set_acl_fields L (base + field_off L) fieldsNum (Fields r) rules)"

fun rules_loop :: "'a rule_layout_scheme \<Rightarrow> nat \<Rightarrow> nat \<Rightarrow> nat \<Rightarrow> Rule list \<Rightarrow> byte list \<Rightarrow> byte list option" where
  "rules_loop L ruleSize fieldsNum i [] rules = Some rules"
| "rules_loop L ruleSize fieldsNum i (r # rs) rules = do {
     rules \<leftarrow> set_rule L (i * ruleSize) fieldsNum r rules;
     rules_loop L ruleSize fieldsNum (Suc i) rs rules }"

definition AddRules ::
  "rte_errnos \<Rightarrow> 'w acl_api \<Rightarrow> 'a rule_layout_scheme \<Rightarrow> addr \<Rightarrow> Rule list \<Rightarrow> 'w \<Rightarrow> (error \<times> 'w) option" where
  "AddRules c A L ctx input w =
     (if input = [] then None else do {
        let fieldsNum = length (Fields (hd input));
        let ruleSize = unat (RuleSize L fieldsNum);
        rules \<leftarrow> rules_loop L ruleSize fieldsNum 0 input (replicate (ruleSize * length input) 0);
        if rules = [] then None else
        let (rc, w) = rte_acl_add_rules A ctx rules (of_nat (length input)) w in
        Some (IntErr c rc, w) })"

section \<open>What C reads\<close>

definition layout_ok :: "'a rule_layout_scheme \<Rightarrow> bool" where
  "layout_ok L \<longleftrightarrow> value_off L + 8 \<le> mask_off L \<and> mask_off L + 8 \<le> acl_size L \<and>
     cat_off L + 4 \<le> prio_off L \<and> prio_off L + 4 \<le> user_off L \<and> user_off L + 4 \<le> field_off L \<and>
     (\<forall>n. field_off L + n * acl_size L \<le> get_rule_size L n)"

fun uint_value :: "any_uint \<Rightarrow> u64 option" where
  "uint_value (U8 v) = Some (ucast v)"
| "uint_value (U16 v) = Some (ucast v)"
| "uint_value (U32 v) = Some (ucast v)"
| "uint_value (U64 v) = Some v"
| "uint_value NotUint = None"

definition read_field :: "'a rule_layout_scheme \<Rightarrow> byte list \<Rightarrow> nat \<Rightarrow> u64 \<times> u64" where
  "read_field L bs base = (un_le (slice (base + value_off L) 8 bs), un_le (slice (base + mask_off L) 8 bs))"

definition read_rule :: "'a rule_layout_scheme \<Rightarrow> nat \<Rightarrow> byte list \<Rightarrow> nat \<Rightarrow> RuleData \<times> (u64 \<times> u64) list" where
  "read_rule L n bs base =
     (\<lparr>CategoryMask = un_le (slice (base + cat_off L) 4 bs), Priority = un_le (slice (base + prio_off L) 4 bs),
       Userdata = un_le (slice (base + user_off L) 4 bs)\<rparr>,
      map (\<lambda>j. read_field L bs (base + field_off L + j * acl_size L)) [0..<n])"

definition field_seen :: "Field \<Rightarrow> u64 \<times> u64" where
  "field_seen f = (the (uint_value (Value f)), the (uint_value (MaskRange f)))"

definition valid_field :: "Field \<Rightarrow> bool" where
  "valid_field f \<longleftrightarrow> Value f \<noteq> NotUint \<and> MaskRange f \<noteq> NotUint"

section \<open>Writes to the array\<close>

text \<open>A write between \<open>a\<close> and \<open>b\<close> that leaves the rest of the array alone.\<close>

definition within :: "nat \<Rightarrow> nat \<Rightarrow> byte list \<Rightarrow> byte list \<Rightarrow> bool" where
  "within a b r r' \<longleftrightarrow> length r' = length r \<and>
     (\<forall>o1 n. o1 + n \<le> length r \<longrightarrow> o1 + n \<le> a \<or> b \<le> o1 \<longrightarrow> slice o1 n r' = slice o1 n r)"

lemma withinD:
  "within a b r r' \<Longrightarrow> length r' = length r"
  "within a b r r' \<Longrightarrow> o1 + n \<le> length r \<Longrightarrow> o1 + n \<le> a \<or> b \<le> o1 \<Longrightarrow> slice o1 n r' = slice o1 n r"
  by (auto simp: within_def)

lemma within_refl: "within a b r r"
  by (simp add: within_def)

lemma within_trans: "within a b r r' \<Longrightarrow> within a b r' r'' \<Longrightarrow> within a b r r''"
  by (simp add: within_def)

lemma within_mono: "within a b r r' \<Longrightarrow> a' \<le> a \<Longrightarrow> b \<le> b' \<Longrightarrow> within a' b' r r'"
  by (auto simp: within_def)

lemma within_patch: "a \<le> off \<Longrightarrow> off + length bs \<le> b \<Longrightarrow> off + length bs \<le> length r \<Longrightarrow> within a b r (patch off bs r)"
  by (auto simp: within_def intro!: slice_patch_other)

section \<open>Fields\<close>

lemma uint_bytes:
  assumes "v \<noteq> NotUint"
  shows "\<exists>bs. (\<forall>off ret. setUint off v ret = Some (patch off bs ret)) \<and> length bs \<le> 8 \<and>
    un_le64 (bs @ replicate (8 - length bs) 0) = the (uint_value v)"
proof (cases v)
  case (U8 x)
  have "[x] = le_bytes 1 x" by (simp add: numeral_eq_Suc)
  then show ?thesis using un_le_extend [of 1 x] U8 by (intro exI [of _ "[x]"]) simp
next
  case (U16 x)
  then show ?thesis using un_le_extend [of 2 x] by (intro exI [of _ "le16 x"]) simp
next
  case (U32 x)
  then show ?thesis using un_le_extend [of 4 x] by (intro exI [of _ "le32 x"]) simp
next
  case (U64 x)
  then show ?thesis by (intro exI [of _ "le64 x"]) (simp add: le_rt)
qed (use assms in simp)

lemma setUint_reads:
  assumes "v \<noteq> NotUint" "off + 8 \<le> length ret" "slice off 8 ret = replicate 8 0"
  shows "\<exists>ret'. setUint off v ret = Some ret' \<and> within off (off + 8) ret ret' \<and>
    un_le64 (slice off 8 ret') = the (uint_value v)"
proof -
  obtain bs where bs: "setUint off v ret = Some (patch off bs ret)" "length bs \<le> 8"
      "un_le64 (bs @ replicate (8 - length bs) 0) = the (uint_value v)"
    using uint_bytes [OF assms(1)] by blast
  have "slice off 8 (patch off bs ret) = bs @ replicate (8 - length bs) 0"
    by (rule slice_patch_padded [OF assms(2) bs(2) assms(3)])
  moreover have "within off (off + 8) ret (patch off bs ret)" using assms(2) bs(2) by (intro within_patch) auto
  ultimately show ?thesis using bs by simp
qed

lemma Field_field_reads:
  assumes "layout_ok L" "valid_field f"
  shows "\<exists>bs. Field_field L f = Some bs \<and> length bs = acl_size L \<and> read_field L bs 0 = field_seen f"
proof -
  let ?z = "replicate (acl_size L) 0 :: byte list"
  have L: "value_off L + 8 \<le> mask_off L" "mask_off L + 8 \<le> acl_size L" using assms(1) by (auto simp: layout_ok_def)
  obtain r1 where r1: "setUint (value_off L) (Value f) ?z = Some r1" "within (value_off L) (value_off L + 8) ?z r1"
      "un_le64 (slice (value_off L) 8 r1) = the (uint_value (Value f))"
    using setUint_reads [of "Value f" "value_off L" ?z] assms(2) L by (auto simp: valid_field_def slice_replicate)
  note w1 = withinD [OF r1(2)]
  have "slice (mask_off L) 8 r1 = replicate 8 0" using w1(2) L by (simp add: slice_replicate)
  then obtain r2 where r2: "setUint (mask_off L) (MaskRange f) r1 = Some r2" "within (mask_off L) (mask_off L + 8) r1 r2"
      "un_le64 (slice (mask_off L) 8 r2) = the (uint_value (MaskRange f))"
    using setUint_reads [of "MaskRange f" "mask_off L" r1] assms(2) L w1(1) by (auto simp: valid_field_def)
  have "slice (value_off L) 8 r2 = slice (value_off L) 8 r1" using withinD [OF r2(2)] L w1(1) by simp
  then show ?thesis
    using r1 r2 withinD(1) [OF r2(2)] w1(1) by (simp add: Field_field_def read_field_def field_seen_def)
qed

lemma read_field_patch:
  assumes "layout_ok L" "length bs = acl_size L" "base + acl_size L \<le> length r"
  shows "read_field L (patch base bs r) base = read_field L bs 0"
  using assms by (simp add: read_field_def layout_ok_def slice_patch_inside)

lemma read_field_within:
  assumes "layout_ok L" "within a b r r'" "base + acl_size L \<le> length r" "base + acl_size L \<le> a \<or> b \<le> base"
  shows "read_field L r' base = read_field L r base"
  using assms withinD(2) [OF assms(2), of "base + value_off L" 8] withinD(2) [OF assms(2), of "base + mask_off L" 8]
  by (auto simp: read_field_def layout_ok_def)

lemma set_acl_fields_reads:
  assumes "layout_ok L" "n \<le> length fs" "\<forall>f \<in> set fs. valid_field f" "base + n * acl_size L \<le> length r"
  shows "\<exists>r'. set_acl_fields L base n fs r = Some r' \<and> within base (base + n * acl_size L) r r' \<and>
    (\<forall>j<n. read_field L r' (base + j * acl_size L) = field_seen (fs ! j))"
  using assms(2-)
proof (induction n arbitrary: fs base r)
  case 0
  then show ?case by (simp add: within_refl)
next
  case (Suc n)
  let ?sz = "acl_size L"
  obtain f fs' where fs: "fs = f # fs'" using Suc.prems(1) by (cases fs) auto
  obtain bs where bs: "Field_field L f = Some bs" "length bs = ?sz" "read_field L bs 0 = field_seen f"
    using Field_field_reads [OF assms(1), of f] Suc.prems(2) fs by auto
  let ?r = "patch base bs r"
  have len: "base + ?sz \<le> length r" using Suc.prems(3) by simp
  obtain r' where r': "set_acl_fields L (base + ?sz) n fs' ?r = Some r'"
      "within (base + ?sz) (base + ?sz + n * ?sz) ?r r'"
      "\<forall>j<n. read_field L r' (base + ?sz + j * ?sz) = field_seen (fs' ! j)"
    using Suc.IH [of fs' "base + ?sz" ?r] Suc.prems fs bs(2) len by auto
  have "within base (base + Suc n * ?sz) r r'"
    using within_patch [of base base bs "base + Suc n * ?sz" r] within_mono [OF r'(2)] len bs(2)
    by (auto intro: within_trans)
  moreover have "read_field L r' (base + j * ?sz) = field_seen (fs ! j)" if "j < Suc n" for j
  proof (cases j)
    case 0
    then show ?thesis
      using read_field_within [OF assms(1) r'(2), of base] read_field_patch [OF assms(1) bs(2) len] len bs fs by simp
  next
    case (Suc k)
    then show ?thesis using r'(3) that fs by (simp add: algebra_simps)
  qed
  ultimately show ?case using bs(1) r'(1) fs by simp
qed


section \<open>Rules\<close>

lemma set_rule_reads:
  assumes "layout_ok L" "n \<le> length (Fields x)" "\<forall>f \<in> set (Fields x). valid_field f"
    and "base + get_rule_size L n \<le> length r"
  shows "\<exists>r'. set_rule L base n x r = Some r' \<and> within base (base + get_rule_size L n) r r' \<and>
    read_rule L n r' base = (Data x, map field_seen (take n (Fields x)))"
proof -
  let ?a = "patch (base + cat_off L) (le32 (CategoryMask (Data x))) r"
  let ?b = "patch (base + prio_off L) (le32 (Priority (Data x))) ?a"
  let ?c = "patch (base + user_off L) (le32 (Userdata (Data x))) ?b"
  have o: "cat_off L + 4 \<le> prio_off L" "prio_off L + 4 \<le> user_off L" "user_off L + 4 \<le> field_off L"
      "field_off L + n * acl_size L \<le> get_rule_size L n" using assms(1) by (auto simp: layout_ok_def)
  have len: "base + field_off L + n * acl_size L \<le> length r" using o(4) assms(4) by simp
  then have lens: "length ?a = length r" "length ?b = length r" "length ?c = length r" using o by simp_all
  have data: "slice (base + cat_off L) 4 ?c = le32 (CategoryMask (Data x))"
    "slice (base + prio_off L) 4 ?c = le32 (Priority (Data x))"
    "slice (base + user_off L) 4 ?c = le32 (Userdata (Data x))"
    using o len lens by (simp_all add: slice_patch_other slice_patch_same)
  obtain r' where r': "set_acl_fields L (base + field_off L) n (Fields x) ?c = Some r'"
      "within (base + field_off L) (base + field_off L + n * acl_size L) ?c r'"
      "\<forall>j<n. read_field L r' (base + field_off L + j * acl_size L) = field_seen (Fields x ! j)"
    using set_acl_fields_reads [OF assms(1-3), of "base + field_off L" ?c] len lens by auto
  have "slice (base + cat_off L) 4 r' = slice (base + cat_off L) 4 ?c"
    "slice (base + prio_off L) 4 r' = slice (base + prio_off L) 4 ?c"
    "slice (base + user_off L) 4 r' = slice (base + user_off L) 4 ?c"
    using o len lens by (auto intro!: withinD(2) [OF r'(2)])
  moreover have "map (\<lambda>j. read_field L r' (base + field_off L + j * acl_size L)) [0..<n] = map field_seen (take n (Fields x))"
    using r'(3) assms(2) by (intro nth_equalityI) simp_all
  ultimately have "read_rule L n r' base = (Data x, map field_seen (take n (Fields x)))"
    by (simp add: read_rule_def data le_rt)
  moreover have "within base (base + get_rule_size L n) r ?c"
  proof (rule within_trans [OF within_trans])
    show "within base (base + get_rule_size L n) r ?a" using o assms(4) by (intro within_patch) simp_all
    show "within base (base + get_rule_size L n) ?a ?b" using o assms(4) lens by (intro within_patch) simp_all
    show "within base (base + get_rule_size L n) ?b ?c" using o assms(4) lens by (intro within_patch) simp_all
  qed
  then have "within base (base + get_rule_size L n) r r'"
    using within_mono [OF r'(2)] o(4) by (auto intro: within_trans)
  ultimately show ?thesis using r'(1) by (auto simp: set_rule_def Let_def)
qed

lemma read_rule_within:
  assumes "layout_ok L" "within a b r r'" "base + get_rule_size L n \<le> length r"
    and "base + get_rule_size L n \<le> a \<or> b \<le> base"
  shows "read_rule L n r' base = read_rule L n r base"
proof -
  have o: "cat_off L + 4 \<le> prio_off L" "prio_off L + 4 \<le> user_off L" "user_off L + 4 \<le> field_off L"
      "field_off L + n * acl_size L \<le> get_rule_size L n" using assms(1) by (auto simp: layout_ok_def)
  have s: "slice (base + k) 4 r' = slice (base + k) 4 r" if "k + 4 \<le> field_off L" for k
    using that o(4) assms(3,4) by (intro withinD(2) [OF assms(2)]) auto
  have "read_field L r' (base + field_off L + j * acl_size L) = read_field L r (base + field_off L + j * acl_size L)"
    if "j < n" for j
  proof -
    have "Suc j * acl_size L \<le> n * acl_size L" using that by (intro mult_le_mono1) simp
    then have "base + field_off L + j * acl_size L + acl_size L \<le> base + get_rule_size L n" using o(4) by simp
    then show ?thesis using assms(3,4) by (intro read_field_within [OF assms(1,2)]) auto
  qed
  then show ?thesis using s o by (simp add: read_rule_def)
qed

lemma rules_loop_reads:
  assumes "layout_ok L" "ruleSize = get_rule_size L n"
    and "\<forall>x \<in> set xs. n \<le> length (Fields x) \<and> (\<forall>f \<in> set (Fields x). valid_field f)"
    and "(i + length xs) * ruleSize \<le> length r"
  shows "\<exists>r'. rules_loop L ruleSize n i xs r = Some r' \<and> within (i * ruleSize) ((i + length xs) * ruleSize) r r' \<and>
    (\<forall>k<length xs. read_rule L n r' ((i + k) * ruleSize) = (Data (xs ! k), map field_seen (take n (Fields (xs ! k)))))"
  using assms(3,4)
proof (induction xs arbitrary: i r)
  case Nil
  then show ?case by (simp add: within_refl)
next
  case (Cons x xs)
  let ?g = "get_rule_size L n"
  have len: "i * ruleSize + ?g \<le> length r" "(Suc i + length xs) * ruleSize \<le> length r"
    using Cons.prems(2) assms(2) by (simp_all add: algebra_simps)
  obtain r1 where r1: "set_rule L (i * ruleSize) n x r = Some r1" "within (i * ruleSize) (i * ruleSize + ?g) r r1"
      "read_rule L n r1 (i * ruleSize) = (Data x, map field_seen (take n (Fields x)))"
    using set_rule_reads [OF assms(1), of n x "i * ruleSize" r] Cons.prems(1) len(1) by auto
  have l1: "length r1 = length r" by (rule withinD(1) [OF r1(2)])
  obtain r2 where r2: "rules_loop L ruleSize n (Suc i) xs r1 = Some r2"
      "within (Suc i * ruleSize) ((Suc i + length xs) * ruleSize) r1 r2"
      "\<forall>k<length xs. read_rule L n r2 ((Suc i + k) * ruleSize) = (Data (xs ! k), map field_seen (take n (Fields (xs ! k))))"
    using Cons.IH [of "Suc i" r1] Cons.prems(1) len(2) l1 by auto
  have "within (i * ruleSize) ((i + length (x # xs)) * ruleSize) r r2"
    using within_mono [OF r1(2), of "i * ruleSize" "(i + length (x # xs)) * ruleSize"]
      within_mono [OF r2(2), of "i * ruleSize" "(i + length (x # xs)) * ruleSize"] assms(2)
    by (auto simp: algebra_simps intro: within_trans)
  moreover have "read_rule L n r2 (i * ruleSize) = read_rule L n r1 (i * ruleSize)"
    using read_rule_within [OF assms(1) r2(2), of "i * ruleSize" n] len(1) l1 assms(2) by (simp add: add.commute)
  then have "\<forall>k<length (x # xs). read_rule L n r2 ((i + k) * ruleSize) =
      (Data ((x # xs) ! k), map field_seen (take n (Fields ((x # xs) ! k))))"
    using r1(3) r2(3) by (auto simp: less_Suc_eq_0_disj)
  ultimately show ?case using r1(1) r2(1) by simp
qed

text \<open>C23: AddRules passes C an array in which the i-th rule reads back as the i-th Go rule, with its category mask, priority and user data and with the value and mask of each field extended to 64 bits, whatever the widths of the Go values, for as many fields as the first rule has; rules do not disturb each other, and the error of the C call is returned.\<close>

theorem AddRules_reads_back:
  assumes "layout_ok L" "input \<noteq> []" "n = length (Fields (hd input))"
    and "0 < get_rule_size L n" "get_rule_size L n < 2 ^ 32"
    and "\<forall>x \<in> set input. n \<le> length (Fields x) \<and> (\<forall>f \<in> set (Fields x). valid_field f)"
  shows "\<exists>rules r. r = rte_acl_add_rules A ctx rules (of_nat (length input)) w \<and>
    AddRules c A L ctx input w = Some (IntErr c (fst r), snd r) \<and>
    length rules = get_rule_size L n * length input \<and>
    (\<forall>i<length input. read_rule L n rules (i * get_rule_size L n) =
      (Data (input ! i), map field_seen (take n (Fields (input ! i)))))"
proof -
  let ?g = "get_rule_size L n"
  have g: "unat (RuleSize L n) = ?g" using assms(5) by (simp add: RuleSize_def unat_of_nat_small)
  obtain rules where r: "rules_loop L ?g n 0 input (replicate (?g * length input) 0) = Some rules"
      "within 0 (length input * ?g) (replicate (?g * length input) 0) rules"
      "\<forall>k<length input. read_rule L n rules (k * ?g) = (Data (input ! k), map field_seen (take n (Fields (input ! k))))"
    using rules_loop_reads [OF assms(1) refl assms(6), of 0 "replicate (?g * length input) 0"] by auto
  have len: "length rules = ?g * length input" using withinD(1) [OF r(2)] by simp
  then have "rules \<noteq> []" using assms(2,4) by auto
  then have "AddRules c A L ctx input w =
      (let q = rte_acl_add_rules A ctx rules (of_nat (length input)) w in Some (IntErr c (fst q), snd q))"
    using assms(2,3) g r(1) by (simp add: AddRules_def Let_def case_prod_unfold)
  then show ?thesis using r(3) len by (auto simp: Let_def)
qed

definition dpdk_layout :: rule_layout where
  "dpdk_layout = \<lparr>acl_size = 16, value_off = 0, mask_off = 8, cat_off = 0, prio_off = 4, user_off = 8,
     field_off = 16, get_rule_size = (\<lambda>n. 16 + 16 * n)\<rparr>"

definition example_rule :: Rule where
  "example_rule = \<lparr>Data = \<lparr>CategoryMask = 1, Priority = 2, Userdata = 3\<rparr>,
     Fields = [\<lparr>Value = U8 6, MaskRange = U8 255\<rparr>, \<lparr>Value = U16 80, MaskRange = U16 90\<rparr>]\<rparr>"

theorem AddRules_reads_back_witness:
  "\<forall>c (A :: 'w acl_api) ctx w. \<exists>rules r. r = rte_acl_add_rules A ctx rules 1 w \<and>
    AddRules c A dpdk_layout ctx [example_rule] w = Some (IntErr c (fst r), snd r) \<and> length rules = 48 \<and>
    read_rule dpdk_layout 2 rules 0 = (\<lparr>CategoryMask = 1, Priority = 2, Userdata = 3\<rparr>, [(6, 255), (80, 90)])"
proof (intro allI)
  fix c and A :: "'w acl_api" and ctx w
  have "layout_ok dpdk_layout" by (simp add: layout_ok_def dpdk_layout_def)
  from AddRules_reads_back [OF this, of "[example_rule]" 2 A ctx w c]
  show "\<exists>rules r. r = rte_acl_add_rules A ctx rules 1 w \<and>
    AddRules c A dpdk_layout ctx [example_rule] w = Some (IntErr c (fst r), snd r) \<and> length rules = 48 \<and>
    read_rule dpdk_layout 2 rules 0 = (\<lparr>CategoryMask = 1, Priority = 2, Userdata = 3\<rparr>, [(6, 255), (80, 90)])"
    by (auto simp: dpdk_layout_def example_rule_def valid_field_def field_seen_def)
qed

text \<open>The first rule fixes the number of fields: a later rule with fewer panics, further fields are dropped.\<close>

lemma set_acl_fields_short: "length fs < n \<Longrightarrow> set_acl_fields L base n fs r = None"
proof (induction n arbitrary: fs base r)
  case (Suc n)
  then show ?case by (cases fs) (auto simp: Option.bind_eq_None_conv)
qed simp

lemma AddRules_empty: "AddRules c A L ctx [] w = None"
  by (simp add: AddRules_def)

end
