(* ===== verification/Ethdev_Info.thy ===== *)
theory Ethdev_Info
  imports Ethdev Fmt
begin

text \<open>
  Queries of an Ethernet port (src/ethdev/ethdev.go): names, addresses, the device information and its
  accessors, the configuration in force, receive-side scaling and flow control; and the link state counters of
  src/ethdev/lsc_telemetry.go with the C code of src/ethdev/lsc_telemetry.h.  The functions of rte_ethdev.h are
  the fields of \<open>info_api\<close>.
\<close>

section \<open>Constants\<close>

text \<open>The hash functions named in the package; the numbers are those of the Go source.\<close>

definition ETH_RSS_IPV4 :: u64 where "ETH_RSS_IPV4 = push_bit 2 1"
definition ETH_RSS_FRAG_IPV4 :: u64 where "ETH_RSS_FRAG_IPV4 = push_bit 3 1"
definition ETH_RSS_NONFRAG_IPV4_TCP :: u64 where "ETH_RSS_NONFRAG_IPV4_TCP = push_bit 4 1"
definition ETH_RSS_NONFRAG_IPV4_UDP :: u64 where "ETH_RSS_NONFRAG_IPV4_UDP = push_bit 5 1"
definition ETH_RSS_NONFRAG_IPV4_SCTP :: u64 where "ETH_RSS_NONFRAG_IPV4_SCTP = push_bit 6 1"
definition ETH_RSS_NONFRAG_IPV4_OTHER :: u64 where "ETH_RSS_NONFRAG_IPV4_OTHER = push_bit 7 1"

definition ETH_RSS_IP :: u64 where
  "ETH_RSS_IP = ETH_RSS_IPV4 OR ETH_RSS_FRAG_IPV4 OR ETH_RSS_NONFRAG_IPV4_TCP OR ETH_RSS_NONFRAG_IPV4_UDP
     OR ETH_RSS_NONFRAG_IPV4_SCTP OR ETH_RSS_NONFRAG_IPV4_OTHER"

definition ETH_MQ_RX_RSS :: u64 where "ETH_MQ_RX_RSS = push_bit 0 1"

section \<open>The C functions\<close>

text \<open>
  \<open>dev_flags\<close> is a pointer to a word, \<^term>\<open>None\<close> when it is nil.  A C string in memory is the list of the bytes
  from its start; \<open>driver_name\<close> is the memory its pointer leads to.
\<close>

record rte_eth_dev_info =
  driver_name :: "byte list option"
  if_index :: u32
  min_mtu :: u16
  max_mtu :: u16
  dev_flags :: "u32 option"
  min_rx_bufsize :: u32
  max_rx_pktlen :: u32
  max_rx_queues :: u16
  max_tx_queues :: u16
  tx_offload_capa :: u64
  tx_queue_offload_capa :: u64
  reta_size :: u16
  nb_rx_queues :: u16
  nb_tx_queues :: u16

definition zero_info :: rte_eth_dev_info where
  "zero_info = \<lparr>driver_name = None, if_index = 0, min_mtu = 0, max_mtu = 0, dev_flags = None, min_rx_bufsize = 0,
     max_rx_pktlen = 0, max_rx_queues = 0, max_tx_queues = 0, tx_offload_capa = 0, tx_queue_offload_capa = 0,
     reta_size = 0, nb_rx_queues = 0, nb_tx_queues = 0\<rparr>"

record rte_eth_fc_conf =
  fc_high_water :: u32
  fc_low_water :: u32
  fc_pause_time :: u16
  fc_mode :: u32

text \<open>Functions that write through a pointer get what is there and return what they leave, beside the status.\<close>

record 'w info_api =
  RTE_ETH_NAME_MAX_LEN :: nat
  RTE_ETH_DEV_INTR_LSC :: u32
  rte_eth_dev_get_name_by_port :: "u16 \<Rightarrow> byte list \<Rightarrow> 'w \<Rightarrow> int \<times> byte list"
  rte_eth_dev_socket_id :: "u16 \<Rightarrow> 'w \<Rightarrow> int"
  rte_eth_macaddr_get :: "u16 \<Rightarrow> byte list \<Rightarrow> 'w \<Rightarrow> int \<times> byte list"
  rte_eth_dev_info_get :: "u16 \<Rightarrow> rte_eth_dev_info \<Rightarrow> 'w \<Rightarrow> int \<times> rte_eth_dev_info"
  rte_eth_dev_conf_get :: "u16 \<Rightarrow> rte_eth_conf \<Rightarrow> 'w \<Rightarrow> int \<times> rte_eth_conf"
  rte_eth_dev_rss_hash_conf_get :: "u16 \<Rightarrow> rte_eth_rss_conf \<Rightarrow> 'w \<Rightarrow> int \<times> rte_eth_rss_conf"
  rte_eth_dev_flow_ctrl_get :: "u16 \<Rightarrow> rte_eth_fc_conf \<Rightarrow> 'w \<Rightarrow> int \<times> rte_eth_fc_conf"
  rte_eth_dev_flow_ctrl_set :: "u16 \<Rightarrow> rte_eth_fc_conf \<Rightarrow> 'w \<Rightarrow> int \<times> 'w"
  rte_eth_dev_count_total :: "'w \<Rightarrow> u16"
  if_indextoname :: "u32 \<Rightarrow> 'w \<Rightarrow> byte list option"

text \<open>\<^verbatim>\<open>C.GoString\<close>: up to the first zero byte; without one the read runs off the memory, which is \<^term>\<open>None\<close>.\<close>

definition GoString :: "byte list option \<Rightarrow> string option" where
  "GoString p = (case p of
     None \<Rightarrow> Some []
   | Some bs \<Rightarrow> if 0 \<in> set bs then Some (map (\<lambda>b. char_of (unat b)) (takeWhile (\<lambda>b. b \<noteq> 0) bs)) else None)"

section \<open>Names and addresses\<close>

definition Name :: "rte_errnos \<Rightarrow> 'w info_api \<Rightarrow> u16 \<Rightarrow> 'w \<Rightarrow> (string \<times> error) option" where
  "Name c I pid w =
     (let (rc, buf) = rte_eth_dev_get_name_by_port I pid (replicate (RTE_ETH_NAME_MAX_LEN I) 0) w;
          err = IntToErr c rc
      in map_option (\<lambda>s. (s, err)) (GoString (Some buf)))"

definition SocketID :: "'w info_api \<Rightarrow> u16 \<Rightarrow> 'w \<Rightarrow> int" where
  "SocketID I pid w = rte_eth_dev_socket_id I pid w"

definition MACAddrGet :: "rte_errnos \<Rightarrow> 'w info_api \<Rightarrow> u16 \<Rightarrow> byte list \<Rightarrow> 'w \<Rightarrow> error \<times> byte list" where
  "MACAddrGet c I pid addr w = errget c (rte_eth_macaddr_get I pid addr w)"

text \<open>\<^verbatim>\<open>net.HardwareAddr.String\<close>: two hexadecimal digits per byte, separated by colons.\<close>

definition HardwareAddr :: "byte list \<Rightarrow> byte list" where
  "HardwareAddr addr = take 6 addr"

definition MACAddr_String :: "byte list \<Rightarrow> string" where
  "MACAddr_String addr = join '':'' (map hex2 (HardwareAddr addr))"

definition CountAvail :: "'w eth_api \<Rightarrow> 'w \<Rightarrow> int" where
  "CountAvail A w = uint (rte_eth_dev_count_avail A w)"

definition CountTotal :: "'w info_api \<Rightarrow> 'w \<Rightarrow> int" where
  "CountTotal I w = uint (rte_eth_dev_count_total I w)"

section \<open>Device information\<close>

definition InfoGet :: "rte_errnos \<Rightarrow> 'w info_api \<Rightarrow> u16 \<Rightarrow> rte_eth_dev_info \<Rightarrow> 'w \<Rightarrow> error \<times> rte_eth_dev_info" where
  "InfoGet c I pid info w = errget c (rte_eth_dev_info_get I pid info w)"

definition DevConfGet :: "rte_errnos \<Rightarrow> 'w info_api \<Rightarrow> u16 \<Rightarrow> rte_eth_conf \<Rightarrow> 'w \<Rightarrow> error \<times> rte_eth_conf" where
  "DevConfGet c I pid cf w = errget c (rte_eth_dev_conf_get I pid cf w)"

definition DriverName :: "rte_eth_dev_info \<Rightarrow> string option" where
  "DriverName info = GoString (driver_name info)"

definition InterfaceName :: "'w info_api \<Rightarrow> rte_eth_dev_info \<Rightarrow> 'w \<Rightarrow> string option" where
  "InterfaceName I info w = GoString (if_indextoname I (if_index info) w)"

text \<open>The read through a nil \<^verbatim>\<open>dev_flags\<close> is a panic.\<close>

definition DevFlags :: "rte_eth_dev_info \<Rightarrow> u32 option" where
  "DevFlags info = dev_flags info"

definition IsIntrLSC :: "'w info_api \<Rightarrow> u32 \<Rightarrow> bool" where
  "IsIntrLSC I f \<longleftrightarrow> f AND RTE_ETH_DEV_INTR_LSC I \<noteq> 0"

definition RetaSize :: "rte_eth_dev_info \<Rightarrow> u16" where "RetaSize info = reta_size info"
definition NbRxQueues :: "rte_eth_dev_info \<Rightarrow> u16" where "NbRxQueues info = nb_rx_queues info"
definition NbTxQueues :: "rte_eth_dev_info \<Rightarrow> u16" where "NbTxQueues info = nb_tx_queues info"
definition MinMTU :: "rte_eth_dev_info \<Rightarrow> u16" where "MinMTU info = min_mtu info"
definition MaxMTU :: "rte_eth_dev_info \<Rightarrow> u16" where "MaxMTU info = max_mtu info"
definition MaxRxPktLen :: "rte_eth_dev_info \<Rightarrow> u32" where "MaxRxPktLen info = max_rx_pktlen info"
definition MinRxBufSize :: "rte_eth_dev_info \<Rightarrow> u32" where "MinRxBufSize info = min_rx_bufsize info"
definition MaxRxQueues :: "rte_eth_dev_info \<Rightarrow> u16" where "MaxRxQueues info = max_rx_queues info"
definition MaxTxQueues :: "rte_eth_dev_info \<Rightarrow> u16" where "MaxTxQueues info = max_tx_queues info"
definition TxQueueOffloadCapa :: "rte_eth_dev_info \<Rightarrow> u64" where "TxQueueOffloadCapa info = tx_queue_offload_capa info"
definition TxOffloadCapa :: "rte_eth_dev_info \<Rightarrow> u64" where "TxOffloadCapa info = tx_offload_capa info"
definition DevConf_TxOffloadCapa :: "rte_eth_conf \<Rightarrow> u64" where "DevConf_TxOffloadCapa cf = tx_offloads (txmode cf)"

text \<open>\<^verbatim>\<open>readIntrConf\<close> with its C helper.\<close>

definition readIntrConf :: "rte_eth_conf \<Rightarrow> int \<times> int \<times> int" where
  "readIntrConf cf = intr_conf cf"

section \<open>Receive-side scaling and flow control\<close>

text \<open>
  \<^verbatim>\<open>RssHashConfGet\<close> passes a zero structure, whose key pointer is nil, and makes the slice of the caller point to
  what comes back; a slice over foreign memory is its start and its length.
\<close>

definition RssHashConfGet :: "rte_errnos \<Rightarrow> 'w info_api \<Rightarrow> u16 \<Rightarrow> 'w \<Rightarrow> error \<times> (pptr \<times> nat) \<times> u64" where
  "RssHashConfGet c I pid w =
     (let (rc, rssConf) = rte_eth_dev_rss_hash_conf_get I pid \<lparr>rss_key = 0, rss_key_len = 0, rss_hf = 0\<rparr> w
      in (IntToErr c rc, (rss_key rssConf, unat (rss_key_len rssConf)), rss_hf rssConf))"

definition Reta :: "RssRetaEntry64 \<Rightarrow> u16 list" where "Reta e = reta e"
definition RetaMask :: "RssRetaEntry64 \<Rightarrow> u64" where "RetaMask e = reta_mask e"

definition SetMode :: "u32 \<Rightarrow> rte_eth_fc_conf \<Rightarrow> rte_eth_fc_conf" where
  "SetMode n cf = cf\<lparr>fc_mode := n\<rparr>"

definition FlowCtrlGet :: "rte_errnos \<Rightarrow> 'w info_api \<Rightarrow> u16 \<Rightarrow> rte_eth_fc_conf \<Rightarrow> 'w \<Rightarrow> error \<times> rte_eth_fc_conf" where
  "FlowCtrlGet c I pid cf w = errget c (rte_eth_dev_flow_ctrl_get I pid cf w)"

definition FlowCtrlSet :: "rte_errnos \<Rightarrow> 'w info_api \<Rightarrow> u16 \<Rightarrow> rte_eth_fc_conf \<Rightarrow> 'w \<Rightarrow> error \<times> 'w" where
  "FlowCtrlSet c I pid cf w = errget c (rte_eth_dev_flow_ctrl_set I pid cf w)"

section \<open>Properties\<close>

text \<open>The documentation of \<^verbatim>\<open>ETH_RSS_IP\<close>: all six kinds of IPv4 traffic.\<close>

lemma ETH_RSS_IP_value: "ETH_RSS_IP = 0xfc"
  by (simp add: ETH_RSS_IP_def ETH_RSS_IPV4_def ETH_RSS_FRAG_IPV4_def ETH_RSS_NONFRAG_IPV4_TCP_def
    ETH_RSS_NONFRAG_IPV4_UDP_def ETH_RSS_NONFRAG_IPV4_SCTP_def ETH_RSS_NONFRAG_IPV4_OTHER_def)

text \<open>A name that fits its buffer with a zero byte is read back.\<close>

lemma GoString_terminated:
  "0 \<notin> set bs \<Longrightarrow> GoString (Some (bs @ 0 # rest)) = Some (map (\<lambda>b. char_of (unat b)) bs)"
proof -
  assume "0 \<notin> set bs"
  then have "takeWhile (\<lambda>b. b \<noteq> 0) bs = bs" by (auto simp: takeWhile_eq_all_conv)
  then show ?thesis by (simp add: GoString_def takeWhile_tail)
qed

lemma hex2_no_colon: "CHR '':'' \<notin> set (hex2 b)"
proof -
  have "hex_digit d \<noteq> CHR '':''" if "d < 16" for d
  proof -
    have "of_char (hex_digit d) \<noteq> (of_char (CHR '':'') :: nat)" using that by (simp add: hex_digit_def)
    then show ?thesis by metis
  qed
  moreover have "unat b div 16 < 16" using unat_mod_small [of b] by simp
  moreover have "unat b mod 16 < 16" by simp
  ultimately show ?thesis unfolding hex2_def by (metis empty_iff list.set(1) set_ConsD)
qed

text \<open>Distinct addresses have distinct strings, so that the label of a port identifies it.\<close>

lemma MACAddr_String_inject:
  assumes "length a = 6" "length b = 6"
  shows "MACAddr_String a = MACAddr_String b \<longleftrightarrow> a = b"
proof
  assume eq: "MACAddr_String a = MACAddr_String b"
  have "split_on (CHR '':'') (MACAddr_String x) = map hex2 x" if "length x = 6" for x
    using that hex2_no_colon by (auto simp: MACAddr_String_def HardwareAddr_def intro!: split_on_join)
  then have "map hex2 a = map hex2 b" using eq assms by metis
  then show "a = b" by (simp add: inj_map_eq_map inj_on_def)
qed simp

text \<open>A driver with one port and zero answers, for concrete runs.\<close>

definition quiet_info :: "unit info_api" where
  "quiet_info = \<lparr>RTE_ETH_NAME_MAX_LEN = 4, RTE_ETH_DEV_INTR_LSC = 2,
     rte_eth_dev_get_name_by_port = \<lambda>_ _ _. (0, [0x70, 0x30, 0, 0]), rte_eth_dev_socket_id = \<lambda>_ _. 0,
     rte_eth_macaddr_get = \<lambda>_ a _. (0, a), rte_eth_dev_info_get = \<lambda>_ i _. (0, i), rte_eth_dev_conf_get = \<lambda>_ cf _. (0, cf),
     rte_eth_dev_rss_hash_conf_get = \<lambda>_ r _. (0, r), rte_eth_dev_flow_ctrl_get = \<lambda>_ f _. (0, f),
     rte_eth_dev_flow_ctrl_set = \<lambda>_ _ w. (0, w), rte_eth_dev_count_total = \<lambda>_. 1, if_indextoname = \<lambda>_ _. None\<rparr>"

end
