(* ===== verification/Exporter.thy ===== *)
theory Exporter
  imports Ethdev_Info Ethdev_Stats Pools "HOL-Library.Sublist" "HOL-Library.Multiset"
begin

text \<open>
  The metrics of the application dpdk-exporter (src/app/dpdk-exporter/metrics.go).  A gauge vector is a
  map from label values to the value last set, a counter the list of amounts an entry
  adds to it, a log line a message.  Conversion to \<^verbatim>\<open>float64\<close> is the argument \<open>f64\<close>.  Queries of a port are functions
  of the port; the links come from \<open>Ethdev\<close>, the extended statistics from \<open>Ethdev_Stats\<close>, the walk over
  memzones from \<open>Pools\<close>.
\<close>

section \<open>Gauges\<close>

record 'f LinkMetrics =
  lm_AutoNeg :: "string \<rightharpoonup> 'f"
  lm_Duplex :: "string \<rightharpoonup> 'f"
  lm_Speed :: "string \<rightharpoonup> 'f"
  lm_Status :: "string \<rightharpoonup> 'f"

record 'f EthDevMetrics =
  AvailablePorts :: "'f option"
  Link :: "'f LinkMetrics"
  em_SocketID :: "string \<rightharpoonup> 'f"
  em_NbRxQueues :: "string \<rightharpoonup> 'f"
  em_NbTxQueues :: "string \<rightharpoonup> 'f"
  em_RetaSize :: "string \<rightharpoonup> 'f"
  Info :: "string \<times> string \<times> string \<times> string \<rightharpoonup> 'f"

definition setBooleanGauge :: "(int \<Rightarrow> 'f) \<Rightarrow> string \<Rightarrow> bool \<Rightarrow> (string \<rightharpoonup> 'f) \<Rightarrow> (string \<rightharpoonup> 'f)" where
  "setBooleanGauge f64 l v g = (if v then g(l \<mapsto> f64 1) else g(l \<mapsto> f64 0))"

definition LinkMetrics_Collect ::
  "rte_errnos \<Rightarrow> 'w eth_api \<Rightarrow> bool \<Rightarrow> (int \<Rightarrow> 'f) \<Rightarrow> u16 \<Rightarrow> string \<Rightarrow> 'w \<Rightarrow> 'f LinkMetrics \<Rightarrow> error \<times> 'f LinkMetrics" where
  "LinkMetrics_Collect c A late f64 port l w m =
     (let (link, err) = EthLinkGet c A late port w in
      if err = Some ENOTSUP then (None, m)
      else if err \<noteq> None then (err, m)
      else (None, m\<lparr>lm_AutoNeg := setBooleanGauge f64 l (AutoNeg link) (lm_AutoNeg m),
                    lm_Duplex := setBooleanGauge f64 l (Duplex link) (lm_Duplex m),
                    lm_Speed := (lm_Speed m)(l \<mapsto> f64 (uint (link_speed link))),
                    lm_Status := setBooleanGauge f64 l (Status link) (lm_Status m)\<rparr>))"

text \<open>One turn of the loop over the ports; the messages logged are part of the result.\<close>

definition collect_port ::
  "rte_errnos \<Rightarrow> 'w eth_api \<Rightarrow> bool \<Rightarrow> 'w info_api \<Rightarrow> (int \<Rightarrow> 'f) \<Rightarrow> 'w \<Rightarrow> u16 \<Rightarrow> 'f EthDevMetrics \<times> string list
    \<Rightarrow> ('f EthDevMetrics \<times> string list) option" where
  "collect_port c A late I f64 w port = (\<lambda>(m, log). do {
     (name, e) \<leftarrow> Name c I port w;
     if e \<noteq> None then Some (m, log @ [''get device name'']) else do {
       let (e, lm) = LinkMetrics_Collect c A late f64 port name w (Link m);
       let log = (if e \<noteq> None then log @ [''retrieve link status''] else log);
       let m = m\<lparr>Link := lm, em_SocketID := (em_SocketID m)(name \<mapsto> f64 (SocketID I port w))\<rparr>;
       let (e, mac) = MACAddrGet c I port (replicate 6 0) w;
       if e \<noteq> None then Some (m, log @ [''retrieve mac address'']) else do {
         let (e, di) = InfoGet c I port zero_info w;
         if e \<noteq> None then Some (m, log @ [''retrieve device info'']) else do {
           driver \<leftarrow> DriverName di;
           iface \<leftarrow> InterfaceName I di w;
           Some (m\<lparr>em_NbRxQueues := (em_NbRxQueues m)(name \<mapsto> f64 (uint (NbRxQueues di))),
                   em_NbTxQueues := (em_NbTxQueues m)(name \<mapsto> f64 (uint (NbTxQueues di))),
                   em_RetaSize := (em_RetaSize m)(name \<mapsto> f64 (uint (RetaSize di))),
                   Info := (Info m)((name, MACAddr_String mac, driver, iface) \<mapsto> f64 1)\<rparr>, log) }}}})"

definition EthDevMetrics_Collect ::
  "rte_errnos \<Rightarrow> 'w eth_api \<Rightarrow> bool \<Rightarrow> 'w info_api \<Rightarrow> (int \<Rightarrow> 'f) \<Rightarrow> 'w \<Rightarrow> 'f EthDevMetrics
    \<Rightarrow> ('f EthDevMetrics \<times> string list) option" where
  "EthDevMetrics_Collect c A late I f64 w m =
     iterate (collect_port c A late I f64 w) (ValidPorts A w w)
       (m\<lparr>AvailablePorts := Some (f64 (CountAvail A w))\<rparr>, [])"

section \<open>Extended statistics\<close>

record ethXstat =
  ex_cnt :: "u64 list list"
  ex_ids :: "u64 list"
  ex_prev :: "u64 list"
  ex_next :: "u64 list"

text \<open>
  \<open>enum\<close> is the order in which Go ranges over the map of names; \<open>xstats_names\<close> is the result of
  \<^verbatim>\<open>XstatNameIDs\<close> for a port.
\<close>

fun NewEthXstats ::
  "rte_errnos \<Rightarrow> 'w info_api \<Rightarrow> ((u64 \<rightharpoonup> string) \<Rightarrow> (u64 \<times> string) list) \<Rightarrow>
   (u16 \<Rightarrow> (u64 \<rightharpoonup> string) option \<times> error) \<Rightarrow> 'w \<Rightarrow> u16 list \<Rightarrow> (u16 \<times> ethXstat) list \<Rightarrow> (error + (u16 \<times> ethXstat) list) option" where
  "NewEthXstats c I enum xstats_names w [] stats = Some (Inr stats)"
| "NewEthXstats c I enum xstats_names w (port # ports) stats = do {
     (pname, e) \<leftarrow> Name c I port w;
     if e \<noteq> None then Some (Inl e)
     else case xstats_names port of
        (_, Some e) \<Rightarrow> Some (Inl (Some e))
      | (ns, None) \<Rightarrow>
          let nameIDs = enum (case ns of None \<Rightarrow> Map.empty | Some m \<Rightarrow> m);
              n = length nameIDs;
              ex = \<lparr>ex_cnt = replicate n [], ex_ids = map fst nameIDs, ex_prev = replicate n 0, ex_next = replicate n 0\<rparr>
          in NewEthXstats c I enum xstats_names w ports (stats @ [(port, ex)]) }"

text \<open>
  \<open>xget port ids\<close> is the result of \<^verbatim>\<open>rte_eth_xstats_get_by_id\<close> with the values it writes.  The slices have
  the same length by construction.
\<close>

definition collect_xstat :: "rte_errnos \<Rightarrow> (u64 list \<Rightarrow> int \<times> u64 list) \<Rightarrow> ethXstat \<Rightarrow> error \<times> ethXstat" where
  "collect_xstat c xget ex =
     (let (rc, vals) = xget (ex_ids ex);
          ex = ex\<lparr>ex_next := go_copy (ex_next ex) vals\<rparr>;
          (_, err) = XstatGetByID c rc in
      if err \<noteq> None then (err, ex)
      else (None, ex\<lparr>ex_cnt := map2 (\<lambda>l (p, n). if n > p then l @ [n - p] else l) (ex_cnt ex) (zip (ex_prev ex) (ex_next ex)),
                     ex_prev := ex_next ex, ex_next := ex_prev ex\<rparr>))"

fun EthXstats_Collect ::
  "rte_errnos \<Rightarrow> (u16 \<Rightarrow> u64 list \<Rightarrow> int \<times> u64 list) \<Rightarrow> (u16 \<times> ethXstat) list \<Rightarrow> error \<times> (u16 \<times> ethXstat) list" where
  "EthXstats_Collect c xget [] = (None, [])"
| "EthXstats_Collect c xget ((port, ex) # stats) =
     (case collect_xstat c (xget port) ex of
        (Some e, ex) \<Rightarrow> (Some e, (port, ex) # stats)
      | (None, ex) \<Rightarrow> (case EthXstats_Collect c xget stats of (e, stats) \<Rightarrow> (e, (port, ex) # stats)))"

section \<open>Rings\<close>

record 'f RingMetrics =
  MemzoneLen :: "string \<rightharpoonup> 'f"
  MemzonePageSize :: "string \<rightharpoonup> 'f"
  MemzoneSocketID :: "string \<rightharpoonup> 'f"
  ring_Cap :: "string \<rightharpoonup> 'f"
  ring_Count :: "string \<rightharpoonup> 'f"

text \<open>What is read of a memzone and of the ring in it.\<close>

record zone =
  zn_name :: string
  zn_len :: u64
  zn_page :: u64
  zn_socket :: int
  zn_cap :: u32
  zn_count :: u32

definition ring_gauges :: "(int \<Rightarrow> 'f) \<Rightarrow> string \<Rightarrow> zone \<Rightarrow> 'f RingMetrics \<Rightarrow> 'f RingMetrics" where
  "ring_gauges f64 RTE_RING_MZ_PREFIX z m =
     (if \<not> prefix RTE_RING_MZ_PREFIX (zn_name z) then m
      else m\<lparr>MemzoneLen := (MemzoneLen m)(zn_name z \<mapsto> f64 (uint (zn_len z))),
             MemzonePageSize := (MemzonePageSize m)(zn_name z \<mapsto> f64 (uint (zn_page z))),
             MemzoneSocketID := (MemzoneSocketID m)(zn_name z \<mapsto> f64 (zn_socket z)),
             ring_Cap := (ring_Cap m)(zn_name z \<mapsto> f64 (uint (zn_cap z))),
             ring_Count := (ring_Count m)(zn_name z \<mapsto> f64 (uint (zn_count z)))\<rparr>)"

definition RingMetrics_Collect ::
  "(int \<Rightarrow> 'f) \<Rightarrow> string \<Rightarrow> (addr \<Rightarrow> zone) \<Rightarrow> addr list \<Rightarrow> nat \<Rightarrow> 'f RingMetrics mz_state \<Rightarrow> 'f RingMetrics mz_state option" where
  "RingMetrics_Collect f64 pre zn zones fn =
     mz_Walk zones (\<lambda>_ mz (reg, m). Some (reg, ring_gauges f64 pre (zn mz) m)) fn"


section \<open>All metrics\<close>

text \<open>What a gauge is registered as: its subsystem, its name and the names of its labels.\<close>

type_synonym gauge = "string \<times> string \<times> string list"

definition namespace :: string where "namespace = ''dpdk_exporter''"
definition portNameLbl :: string where "portNameLbl = ''port_name''"
definition memzoneLbl :: string where "memzoneLbl = ''memzone_name''"
definition macAddrLbl :: string where "macAddrLbl = ''mac_addr''"
definition drvNameLbl :: string where "drvNameLbl = ''driver_name''"
definition ifaceNameLbl :: string where "ifaceNameLbl = ''interface_name''"

definition NewLinkMetrics :: "string list \<Rightarrow> gauge list" where
  "NewLinkMetrics labelNames = map (\<lambda>n. (''eth_dev_link'', n, labelNames)) [''auto_negotiation'', ''full_duplex'', ''speed_mbps'', ''status'']"

definition NewEthDevMetrics :: "gauge list" where
  "NewEthDevMetrics =
     (let labelNames = [portNameLbl]; subsystem = ''eth_dev'' in
      [(subsystem, ''available_ports'', [])] @ NewLinkMetrics labelNames @
      map (\<lambda>n. (subsystem, n, labelNames)) [''socket_id'', ''nb_rx_queues'', ''nb_tx_queues'', ''redirection_table_size''] @
      [(subsystem, ''info'', labelNames @ [macAddrLbl, drvNameLbl, ifaceNameLbl])])"

definition NewRingMetrics :: "gauge list" where
  "NewRingMetrics = map (\<lambda>n. (''ring'', n, [memzoneLbl])) [''memzone_len'', ''memzone_page_size'', ''memzone_socket_id'', ''capacity'', ''count'']"

definition NewMetrics :: "gauge list" where
  "NewMetrics = NewEthDevMetrics @ NewRingMetrics"

text \<open>The name under which Prometheus knows a gauge.\<close>

fun full_name :: "gauge \<Rightarrow> string" where
  "full_name (subsystem, n, ls) = namespace @ ''_'' @ subsystem @ ''_'' @ n"

text \<open>One collection: the ports, then the rings.\<close>

definition Metrics_Collect ::
  "rte_errnos \<Rightarrow> 'w eth_api \<Rightarrow> bool \<Rightarrow> 'w info_api \<Rightarrow> (int \<Rightarrow> 'f) \<Rightarrow> string \<Rightarrow> (addr \<Rightarrow> zone) \<Rightarrow> addr list \<Rightarrow> nat \<Rightarrow> 'w
    \<Rightarrow> 'f EthDevMetrics \<times> 'f RingMetrics mz_state \<Rightarrow> ('f EthDevMetrics \<times> 'f RingMetrics mz_state \<times> string list) option" where
  "Metrics_Collect c A late I f64 pre zn zones fn w = (\<lambda>(em, rm). do {
     (em, log) \<leftarrow> EthDevMetrics_Collect c A late I f64 w em;
     rm \<leftarrow> RingMetrics_Collect f64 pre zn zones fn rm;
     Some (em, rm, log) })"

section \<open>Properties\<close>

text \<open>
  The errors of package common are made by \<^verbatim>\<open>fmt.Errorf\<close> and never equal \<^verbatim>\<open>syscall.ENOTSUP\<close>: a driver
  without link information is logged at every collection instead of being passed over.
\<close>

lemma errno_not_ENOTSUP: "errno c n \<noteq> Some ENOTSUP"
  by (simp add: errno_def Let_def)

lemma LinkMetrics_Collect_error:
  "fst (rte_eth_link_get A port w) \<noteq> 0 \<Longrightarrow>
     LinkMetrics_Collect c A late f64 port l w m = (IntToErr c (fst (rte_eth_link_get A port w)), m)"
  by (auto simp: LinkMetrics_Collect_def EthLinkGet_def go_rte_eth_link_get_def IntToErr_def errno_not_ENOTSUP case_prod_unfold Let_def)

text \<open>The registration of the gauges never meets a name twice, which would be a panic.\<close>

lemma metrics_distinct: "distinct (map full_name NewMetrics)"
  by code_simp

text \<open>Ring gauges: the walk leaves the registry alone and applies \<open>ring_gauges\<close> to every zone.\<close>

lemma RingMetrics_Collect_transparent:
  "arr.transparent (Suc 0) (RingMetrics_Collect f64 pre zn zones fn) (fold (\<lambda>mz. ring_gauges f64 pre (zn mz)) zones)"
  using mz_Walk_transparent [of 0 "\<lambda>_ mz (reg, m). Some (reg, ring_gauges f64 pre (zn mz) m)" fn
      "\<lambda>mz. ring_gauges f64 pre (zn mz)" zones]
  by (simp add: RingMetrics_Collect_def arr.transparent_def)

subsection \<open>Counters\<close>

lemma unat_rise: "unat p < unat n \<Longrightarrow> unat (n - p) = unat n - unat p" for p n :: u64
  by (simp add: unat_sub_exact word_le_nat_alt)

lemma no_failure: "fst (xget (ex_ids e)) \<ge> 0 \<Longrightarrow> fst (collect_xstat c xget e) = None"
  by (simp add: collect_xstat_def XstatGetByID_def case_prod_unfold Let_def)

fun rises :: "u64 \<Rightarrow> u64 list \<Rightarrow> nat" where
  "rises p [] = 0"
| "rises p (n # ns) = (unat n - unat p) + rises n ns"

lemma rises_sorted: "sorted (p # ns) \<Longrightarrow> rises p ns = unat (last (p # ns)) - unat p"
proof (induction ns arbitrary: p)
  case (Cons n ns)
  then have "rises n ns = unat (last (n # ns)) - unat n" "n \<le> last (n # ns)" "p \<le> n" by auto
  then show ?case by (simp add: word_le_nat_alt)
qed simp

definition readings :: "(int \<times> 'v) list \<Rightarrow> 'v list" where
  "readings rs = map snd (filter (\<lambda>(rc, _). rc \<ge> 0) rs)"

definition total :: "ethXstat \<Rightarrow> nat \<Rightarrow> nat" where
  "total ex i = sum_list (map unat (ex_cnt ex ! i))"

definition xs_ok :: "nat \<Rightarrow> ethXstat \<Rightarrow> bool" where
  "xs_ok m ex \<longleftrightarrow> length (ex_cnt ex) = m \<and> length (ex_prev ex) = m \<and> length (ex_next ex) = m"

lemma go_copy_same: "length vals = length dst \<Longrightarrow> go_copy dst vals = vals"
  by (simp add: go_copy_def)

lemma collect_xstat_ok:
  assumes "xs_ok m ex" "xget (ex_ids ex) = (rc, vals)" "length vals = m" "rc \<ge> 0"
  shows "collect_xstat c xget ex = (None, ex\<lparr>ex_cnt := map2 (\<lambda>l (p, n). if n > p then l @ [n - p] else l) (ex_cnt ex) (zip (ex_prev ex) vals),
    ex_prev := vals, ex_next := ex_prev ex\<rparr>)"
  using assms by (simp add: collect_xstat_def XstatGetByID_def xs_ok_def go_copy_same)

lemma collect_xstat_failed:
  assumes "xs_ok m ex" "xget (ex_ids ex) = (rc, vals)" "length vals = m" "rc < 0"
  shows "collect_xstat c xget ex = (IntToErr c rc, ex\<lparr>ex_next := vals\<rparr>)" and "IntToErr c rc \<noteq> None"
proof -
  show ne: "IntToErr c rc \<noteq> None" using assms(4) by (simp add: IntToErr_def errno_def Let_def)
  then show "collect_xstat c xget ex = (IntToErr c rc, ex\<lparr>ex_next := vals\<rparr>)"
    using assms by (simp add: collect_xstat_def XstatGetByID_def xs_ok_def go_copy_same Let_def err_def IntToErr_def)
qed

lemma collect_xstat_step:
  assumes "xs_ok m ex" "xget (ex_ids ex) = (rc, vals)" "length vals = m"
  shows "xs_ok m (snd (collect_xstat c xget ex)) \<and> ex_ids (snd (collect_xstat c xget ex)) = ex_ids ex \<and>
    ex_prev (snd (collect_xstat c xget ex)) = (if rc \<ge> 0 then vals else ex_prev ex) \<and>
    (\<forall>i<m. total (snd (collect_xstat c xget ex)) i =
      total ex i + (if rc \<ge> 0 then unat (vals ! i) - unat (ex_prev ex ! i) else 0)) \<and>
    (fst (collect_xstat c xget ex) = None \<longleftrightarrow> rc \<ge> 0)"
proof (cases "rc \<ge> 0")
  case True
  then show ?thesis
    using assms collect_xstat_ok [where xget = xget, OF assms True, of c]
    by (auto simp: xs_ok_def total_def word_less_nat_alt unat_rise not_less)
next
  case False
  then show ?thesis
    using assms collect_xstat_failed [where xget = xget, OF assms, of c] by (auto simp: xs_ok_def total_def)
qed

fun port_run :: "rte_errnos \<Rightarrow> (u64 list \<Rightarrow> int \<times> u64 list) list \<Rightarrow> ethXstat \<Rightarrow> ethXstat" where
  "port_run c [] ex = ex"
| "port_run c (q # qs) ex = port_run c qs (snd (collect_xstat c q ex))"

lemma port_run_totals:
  assumes "xs_ok m ex" "\<forall>q \<in> set qs. length (snd (q (ex_ids ex))) = m" "i < m"
  shows "total (port_run c qs ex) i =
    total ex i + rises (ex_prev ex ! i) (map (\<lambda>v. v ! i) (readings (map (\<lambda>q. q (ex_ids ex)) qs)))"
  using assms(1,2)
proof (induction qs arbitrary: ex)
  case Nil
  then show ?case by (simp add: readings_def)
next
  case (Cons q qs)
  obtain rc vals where q: "q (ex_ids ex) = (rc, vals)" by fastforce
  note step = collect_xstat_step [where xget = q and c = c, OF Cons.prems(1) q]
  have len: "length vals = m" using Cons.prems(2) q by auto
  then show ?case using step Cons.IH [of "snd (collect_xstat c q ex)"] Cons.prems(2) q assms(3)
    by (auto simp: readings_def)
qed

text \<open>A round either reaches a port or leaves it alone, and reaches every port if no read fails.\<close>

lemma Collect_port:
  assumes "distinct (map fst stats)" "map_of stats port = Some ex"
  shows "map fst (snd (EthXstats_Collect c xget stats)) = map fst stats"
    and "map_of (snd (EthXstats_Collect c xget stats)) port = Some (snd (collect_xstat c (xget port) ex)) \<or>
      map_of (snd (EthXstats_Collect c xget stats)) port = Some ex"
    and "(\<forall>(p, e) \<in> set stats. fst (collect_xstat c (xget p) e) = None) \<Longrightarrow>
      map_of (snd (EthXstats_Collect c xget stats)) port = Some (snd (collect_xstat c (xget port) ex))"
proof -
  show "map fst (snd (EthXstats_Collect c xget stats)) = map fst stats"
    by (induction stats) (auto split: prod.splits option.splits)
  show "map_of (snd (EthXstats_Collect c xget stats)) port = Some (snd (collect_xstat c (xget port) ex)) \<or>
      map_of (snd (EthXstats_Collect c xget stats)) port = Some ex"
    using assms(2) by (induction stats) (auto split: prod.splits option.splits if_splits)
  show "map_of (snd (EthXstats_Collect c xget stats)) port = Some (snd (collect_xstat c (xget port) ex))"
    if "\<forall>(p, e) \<in> set stats. fst (collect_xstat c (xget p) e) = None"
    using assms(2) that by (induction stats) (auto split: prod.splits option.splits if_splits)
qed


text \<open>
  Rounds of collection.  Go ranges over the map of ports in an order of its own each time, so that every round
  comes with the order it takes.
\<close>

type_synonym xstat_round = "((u16 \<times> ethXstat) list \<Rightarrow> (u16 \<times> ethXstat) list) \<times> (u16 \<Rightarrow> u64 list \<Rightarrow> int \<times> u64 list)"

fun collects :: "rte_errnos \<Rightarrow> xstat_round list \<Rightarrow> (u16 \<times> ethXstat) list \<Rightarrow> (u16 \<times> ethXstat) list" where
  "collects c [] stats = stats"
| "collects c ((ord, q) # qs) stats = collects c qs (snd (EthXstats_Collect c q (ord stats)))"

definition reorders :: "xstat_round list \<Rightarrow> bool" where
  "reorders qs \<longleftrightarrow> (\<forall>(ord, q) \<in> set qs. \<forall>stats. mset (ord stats) = mset stats)"

lemma reordered_map:
  assumes "mset stats' = mset stats" "distinct (map fst stats)" "map_of stats port = Some ex"
  shows "distinct (map fst stats')" and "map_of stats' port = Some ex"
proof -
  have "mset (map fst stats') = mset (map fst stats)" using assms(1) by simp
  then show d: "distinct (map fst stats')" using assms(2) mset_eq_imp_distinct_iff by blast
  have "set stats' = set stats" using assms(1) mset_eq_setD by blast
  then show "map_of stats' port = Some ex"
    using map_of_SomeD [OF assms(3)] d by simp
qed

lemma collects_port:
  assumes "distinct (map fst stats)" "map_of stats port = Some ex" "reorders qs"
  shows "\<exists>qs'. subseq qs' qs \<and> map_of (collects c qs stats) port = Some (port_run c (map (\<lambda>(_, q). q port) qs') ex) \<and>
    ((\<forall>(_, q) \<in> set qs. \<forall>p ids. fst (q p ids) \<ge> 0) \<longrightarrow> qs' = qs)"
  using assms
proof (induction c qs stats arbitrary: ex rule: collects.induct)
  case (1 c stats)
  then show ?case by auto
next
  case (2 c ord q qs stats)
  let ?st = "snd (EthXstats_Collect c q (ord stats))" and ?ex = "snd (collect_xstat c (q port) ex)"
  have r: "mset (ord stats) = mset stats" "reorders qs" using "2.prems"(3) by (auto simp: reorders_def)
  note o = reordered_map [OF r(1) "2.prems"(1,2)]
  have d: "distinct (map fst ?st)" using Collect_port(1) [OF o] o(1) by simp
  have reach: "map_of ?st port = Some ?ex" if "\<forall>p ids. fst (q p ids) \<ge> 0"
    using that by (intro Collect_port(3) [OF o]) (auto intro!: no_failure)
  consider "map_of ?st port = Some ?ex" | "map_of ?st port = Some ex" "map_of ?st port \<noteq> Some ?ex"
    using Collect_port(2) [OF o] by blast
  then show ?case
  proof cases
    case 1
    from "2.IH" [OF d 1 r(2)] obtain qs' where "subseq qs' qs"
        "map_of (collects c qs ?st) port = Some (port_run c (map (\<lambda>(_, q). q port) qs') ?ex)"
        "(\<forall>(_, q) \<in> set qs. \<forall>p ids. fst (q p ids) \<ge> 0) \<longrightarrow> qs' = qs" by blast
    then show ?thesis by (intro exI [of _ "(ord, q) # qs'"]) simp
  next
    case 2
    from "2.IH" [OF d 2(1) r(2)] obtain qs' where "subseq qs' qs"
        "map_of (collects c qs ?st) port = Some (port_run c (map (\<lambda>(_, q). q port) qs') ex)" by blast
    moreover have "\<not> (\<forall>p ids. fst (q p ids) \<ge> 0)" using reach 2(2) by blast
    ultimately show ?thesis by (intro exI [of _ qs']) auto
  qed
qed

text \<open>C39: after any sequence of collections of extended statistics, each over the ports in whatever order Go takes them and with failing reads anywhere, the amounts an entry of a port has added to its counter sum up to the rises between the successive readings that were taken of it, starting from zero, so that a reading that fails or falls adds nothing; without failures every collection counts.\<close>

theorem Collect_counts_rises:
  assumes "distinct (map fst stats)" "map_of stats port = Some ex" "reorders qs"
    and "ex_cnt ex = replicate m []" "ex_prev ex = replicate m 0" "length (ex_next ex) = m"
    and "\<forall>(_, q) \<in> set qs. length (snd (q port (ex_ids ex))) = m"
  shows "\<exists>qs' ex'. subseq qs' qs \<and> map_of (collects c qs stats) port = Some ex' \<and>
    ((\<forall>(_, q) \<in> set qs. \<forall>p ids. fst (q p ids) \<ge> 0) \<longrightarrow> qs' = qs) \<and>
    (\<forall>i<m. sum_list (map unat (ex_cnt ex' ! i)) =
      rises 0 (map (\<lambda>v. v ! i) (readings (map (\<lambda>(_, q). q port (ex_ids ex)) qs'))))"
proof -
  obtain qs' where qs': "subseq qs' qs" "map_of (collects c qs stats) port = Some (port_run c (map (\<lambda>(_, q). q port) qs') ex)"
      "(\<forall>(_, q) \<in> set qs. \<forall>p ids. fst (q p ids) \<ge> 0) \<longrightarrow> qs' = qs"
    using collects_port [OF assms(1-3)] by blast
  have ok: "xs_ok m ex" using assms(4-6) by (simp add: xs_ok_def)
  have "\<forall>q \<in> set (map (\<lambda>(_, q). q port) qs'). length (snd (q (ex_ids ex))) = m"
    using assms(7) list_emb_set [OF qs'(1)] by fastforce
  from port_run_totals [OF ok this, of _ c]
  have "\<forall>i<m. total (port_run c (map (\<lambda>(_, q). q port) qs') ex) i =
      rises 0 (map (\<lambda>v. v ! i) (readings (map (\<lambda>(_, q). q port (ex_ids ex)) qs')))"
    using assms(4,5) by (simp add: total_def comp_def case_prod_unfold)
  then show ?thesis using qs' unfolding total_def by blast
qed

theorem Collect_counts_rises_witness:
  "\<forall>c. \<exists>ex'. map_of (collects c [(rev, \<lambda>_ _. (1, [5])), (id, \<lambda>_ _. (1, [9])), (id, \<lambda>_ _. (1, [2]))]
      [(3, \<lparr>ex_cnt = [[]], ex_ids = [7], ex_prev = [0], ex_next = [0]\<rparr>)]) 3 = Some ex' \<and>
    sum_list (map unat (ex_cnt ex' ! 0)) = 9"
proof (intro allI)
  fix c
  let ?qs = "[(rev, \<lambda>_ _. (1, [5])), (id, \<lambda>_ _. (1, [9])), (id, \<lambda>_ _. (1, [2]))] :: xstat_round list"
  let ?ex = "\<lparr>ex_cnt = [[]], ex_ids = [7], ex_prev = [0], ex_next = [0]\<rparr>"
  have "reorders ?qs" by (simp add: reorders_def)
  then obtain qs' ex' where "map_of (collects c ?qs [(3, ?ex)]) 3 = Some ex'" "qs' = ?qs"
      "sum_list (map unat (ex_cnt ex' ! 0)) = rises 0 (map (\<lambda>v. v ! 0) (readings (map (\<lambda>(_, q). q 3 [7]) qs')))"
    using Collect_counts_rises [where stats = "[(3, ?ex)]" and port = 3 and ex = ?ex and m = 1 and qs = ?qs and c = c]
    by auto
  then show "\<exists>ex'. map_of (collects c ?qs [(3, ?ex)]) 3 = Some ex' \<and> sum_list (map unat (ex_cnt ex' ! 0)) = 9"
    by (auto simp: readings_def)
qed

text \<open>The slices of an entry.\<close>

definition xs_shape :: "ethXstat \<Rightarrow> bool" where
  "xs_shape ex \<longleftrightarrow> xs_ok (length (ex_ids ex)) ex"

lemma collect_xstat_shape: "xs_shape ex \<Longrightarrow> xs_shape (snd (collect_xstat c xget ex))"
  by (auto simp: xs_shape_def xs_ok_def collect_xstat_def case_prod_unfold Let_def go_copy_def)

lemma EthXstats_Collect_shape:
  "\<forall>(p, ex) \<in> set stats. xs_shape ex \<Longrightarrow> \<forall>(p, ex) \<in> set (snd (EthXstats_Collect c xget stats)). xs_shape ex"
proof (induction c xget stats rule: EthXstats_Collect.induct)
  case (2 c xget port ex stats)
  have "xs_shape (snd (collect_xstat c (xget port) ex))" using "2.prems" collect_xstat_shape by auto
  then show ?case using 2 by (cases "collect_xstat c (xget port) ex") (auto split: option.splits prod.splits)
qed simp

lemma NewEthXstats_shape:
  "NewEthXstats c I enum xn w ports stats = Some (Inr stats') \<Longrightarrow> \<forall>(p, ex) \<in> set stats. xs_shape ex \<Longrightarrow>
   \<forall>(p, ex) \<in> set stats'. xs_shape ex"
proof (induction ports arbitrary: stats)
  case (Cons port ports)
  obtain pname where n: "Name c I port w = Some (pname, None)"
    using Cons.prems(1) by (auto simp: bind_eq_Some_conv split: if_splits)
  obtain ns where x: "xn port = (ns, None)"
    using Cons.prems(1) n by (cases "xn port"; cases "snd (xn port)") simp_all
  define ids where "ids = enum (case ns of None \<Rightarrow> Map.empty | Some m \<Rightarrow> m)"
  define ex where "ex = \<lparr>ex_cnt = replicate (length ids) [], ex_ids = map fst ids,
    ex_prev = replicate (length ids) 0, ex_next = replicate (length ids) 0\<rparr>"
  have "NewEthXstats c I enum xn w ports (stats @ [(port, ex)]) = Some (Inr stats')"
    using Cons.prems(1) n x by (simp add: Let_def ex_def ids_def)
  moreover have "xs_shape ex" by (simp add: ex_def xs_shape_def xs_ok_def)
  ultimately show ?case using Cons.prems(2) by (intro Cons.IH [of "stats @ [(port, ex)]"]) (simp_all add: ball_Un)
qed simp

lemma collects_shape:
  "\<forall>(p, ex) \<in> set stats. xs_shape ex \<Longrightarrow> reorders qs \<Longrightarrow> \<forall>(p, ex) \<in> set (collects c qs stats). xs_shape ex"
proof (induction c qs stats rule: collects.induct)
  case (2 c ord q qs stats)
  have "set (ord stats) = set stats" using "2.prems"(2) by (intro mset_eq_setD) (simp add: reorders_def)
  then show ?case using 2 EthXstats_Collect_shape [of "ord stats" c q] by (simp add: reorders_def)
qed simp

text \<open>C40: for every port that NewEthXstats registers, the slices of counters, identifiers, previous and next readings have one length, and keep it through every sequence of collections whatever the driver reports, so that no index of the loop over the readings is out of range.\<close>

theorem xstats_same_length:
  assumes "NewEthXstats c I enum xn w ports [] = Some (Inr stats)" "reorders qs" "(port, ex) \<in> set (collects c qs stats)"
  shows "length (ex_cnt ex) = length (ex_ids ex) \<and> length (ex_prev ex) = length (ex_ids ex) \<and>
    length (ex_next ex) = length (ex_ids ex)"
  using collects_shape [OF NewEthXstats_shape [OF assms(1)] assms(2), of c] assms(3)
  by (auto simp: xs_shape_def xs_ok_def)

text \<open>Two extended statistics.\<close>

definition two_stats :: "(u64 \<rightharpoonup> string) option \<times> error" where
  "two_stats = (Some [4 \<mapsto> ''rx'', 9 \<mapsto> ''tx''], None)"

theorem xstats_same_length_witness:
  "\<forall>c. \<exists>stats ex. NewEthXstats c quiet_info (\<lambda>_. [(4, ''rx''), (9, ''tx'')]) (\<lambda>_. two_stats) () [1] [] = Some (Inr stats) \<and>
     collects c [(rev, \<lambda>_ _. (2, [5, 6]))] stats = [(1, ex)] \<and> length (ex_cnt ex) = 2"
  (is "\<forall>c. \<exists>stats ex. NewEthXstats c ?I ?enum ?xn () [1] [] = Some (Inr stats) \<and> _")
proof (intro allI)
  fix c
  let ?st = "[(1 :: u16, \<lparr>ex_cnt = [[], []], ex_ids = [4, 9], ex_prev = [0, 0], ex_next = [0, 0]\<rparr>)]"
  obtain n where "Name c ?I 1 () = Some (n, None)" by (simp add: Name_def quiet_info_def GoString_def IntToErr_def)
  then have new: "NewEthXstats c ?I ?enum ?xn () [1] [] = Some (Inr ?st)" by (simp add: two_stats_def numeral_2_eq_2)
  obtain ex where ex: "collects c [(rev, \<lambda>_ _. (2, [5, 6]))] ?st = [(1, ex)]" "ex_ids ex = [4, 9]"
    by (simp add: collect_xstat_def XstatGetByID_def)
  then show "\<exists>stats ex. NewEthXstats c ?I ?enum ?xn () [1] [] = Some (Inr stats) \<and>
      collects c [(rev, \<lambda>_ _. (2, [5, 6]))] stats = [(1, ex)] \<and> length (ex_cnt ex) = 2"
    using new xstats_same_length [OF new, where qs = "[(rev, \<lambda>_ _. (2, [5, 6]))]" and port = 1 and ex = ex]
    by (auto simp: reorders_def)
qed

end
