(* ===== verification/Locked_Thread.thy ===== *)
theory Locked_Thread
  imports Errors "HOL-Library.Sublist"
begin

text \<open>
  The locked threads of package lcore (src/lcore/thread.go): a goroutine pinned to an OS thread which runs the
  functions that come out of a channel, and the operations that send functions to it.

  Every action that can block is one event of \<open>thread_do\<close>, which is \<^term>\<open>None\<close> while the action is
  blocked; interleavings are sequences of events.  The channel is the one the user hands in, of any capacity: a
  send to an idle thread with nothing in the buffer is a hand-over, which is the only way to send when the
  channel has no buffer.  A panic, in a job or by a send to or close of a closed channel, ends the process.
\<close>

section \<open>State\<close>

text \<open>
  What a job does: a function of the user on the state \<^typ>\<open>'w\<close> it shares with others (\<^term>\<open>None\<close> is a panic),
  given the id of the OS thread it runs on, or the store of that id in the local variable of a call of
  \<^verbatim>\<open>Gettid\<close>.
\<close>

datatype 'w closure = User "int \<Rightarrow> 'w \<Rightarrow> 'w option" | Store_tid nat

record 'w tjob =
  job_fn :: "'w closure"
  job_wg :: "nat option"

datatype 'w tphase = is_Waiting: Waiting | is_Running: Running (cur: "'w tjob") | is_Ended: Ended

text \<open>The last two fields are histories: the jobs sent and the jobs finished.\<close>

record 'w locked =
  t_cap :: nat
  t_buf :: "'w tjob list"
  t_closed :: bool
  t_phase :: "'w tphase"
  t_tid :: int
  t_user :: 'w
  t_vars :: "nat \<Rightarrow> int"
  t_wgs :: "nat \<Rightarrow> int option"
  t_crashed :: bool
  t_sent :: "'w tjob list"
  t_ran :: "'w tjob list"

section \<open>Operations\<close>

definition NewLockedThread :: "nat \<Rightarrow> (int \<Rightarrow> 'w \<Rightarrow> 'w option) list \<Rightarrow> int \<Rightarrow> 'w \<Rightarrow> (nat \<Rightarrow> int) \<Rightarrow> 'w locked" where
  "NewLockedThread n fs tid w vars =
     (let ch = map (\<lambda>f. \<lparr>job_fn = User f, job_wg = None\<rparr>) fs in
      \<lparr>t_cap = n, t_buf = ch, t_closed = False, t_phase = Waiting, t_tid = tid, t_user = w, t_vars = vars,
       t_wgs = Map.empty, t_crashed = False, t_sent = ch, t_ran = []\<rparr>)"

definition t_send :: "'w tjob \<Rightarrow> 'w locked \<Rightarrow> 'w locked option" where
  "t_send job s =
     (if t_closed s then Some (s\<lparr>t_crashed := True\<rparr>)
      else if is_Waiting (t_phase s) \<and> t_buf s = []
        then Some (s\<lparr>t_phase := Running job, t_sent := t_sent s @ [job]\<rparr>)
      else if length (t_buf s) < t_cap s
        then Some (s\<lparr>t_buf := t_buf s @ [job], t_sent := t_sent s @ [job]\<rparr>)
      else None)"

text \<open>The send of \<^verbatim>\<open>Exec\<close>; a call that waits makes a wait group \<open>g\<close> of its own.\<close>

definition Exec_send :: "bool \<Rightarrow> nat \<Rightarrow> 'w closure \<Rightarrow> 'w locked \<Rightarrow> 'w locked option" where
  "Exec_send wait g f s =
     (if \<not> wait then t_send \<lparr>job_fn = f, job_wg = None\<rparr> s
      else if t_wgs s g = None then t_send \<lparr>job_fn = f, job_wg = Some g\<rparr> (s\<lparr>t_wgs := (t_wgs s)(g \<mapsto> 1)\<rparr>)
      else None)"

definition call :: "'w closure \<Rightarrow> 'w locked \<Rightarrow> 'w locked option" where
  "call f s = (case f of
     User h \<Rightarrow> map_option (\<lambda>w. s\<lparr>t_user := w\<rparr>) (h (t_tid s) (t_user s))
   | Store_tid v \<Rightarrow> Some (s\<lparr>t_vars := (t_vars s)(v := t_tid s)\<rparr>))"

text \<open>
  The loop of the goroutine: receive a job, or leave the loop when the channel is closed and drained; run it and
  call \<^verbatim>\<open>wg.Done\<close> if the sender waits.
\<close>

definition thread_step :: "'w locked \<Rightarrow> 'w locked option" where
  "thread_step s = (case t_phase s of
     Waiting \<Rightarrow> (case t_buf s of
        job # jobs \<Rightarrow> Some (s\<lparr>t_phase := Running job, t_buf := jobs\<rparr>)
      | [] \<Rightarrow> if t_closed s then Some (s\<lparr>t_phase := Ended\<rparr>) else None)
   | Running job \<Rightarrow> (case call (job_fn job) s of
        None \<Rightarrow> Some (s\<lparr>t_crashed := True\<rparr>)
      | Some s \<Rightarrow> Some (s\<lparr>t_phase := Waiting, t_ran := t_ran s @ [job],
          t_wgs := (case job_wg job of None \<Rightarrow> t_wgs s
                    | Some g \<Rightarrow> (t_wgs s)(g := map_option (\<lambda>n. n - 1) (t_wgs s g)))\<rparr>))
   | Ended \<Rightarrow> None)"

definition t_Close :: "'w locked \<Rightarrow> 'w locked" where
  "t_Close s = (if t_closed s then s\<lparr>t_crashed := True\<rparr> else s\<lparr>t_closed := True\<rparr>)"

datatype 'w tevent = is_TExec: TExec bool nat "'w closure" | is_TStep: TStep | TClose | TOther "'w \<Rightarrow> 'w"

definition thread_do :: "'w tevent \<Rightarrow> 'w locked \<Rightarrow> 'w locked option" where
  "thread_do ev s = (if t_crashed s then None else (case ev of
     TExec wait g f \<Rightarrow> Exec_send wait g f s
   | TStep \<Rightarrow> thread_step s
   | TClose \<Rightarrow> Some (t_Close s)
   | TOther h \<Rightarrow> Some (s\<lparr>t_user := h (t_user s)\<rparr>)))"

fun thread_run :: "'w tevent list \<Rightarrow> 'w locked \<Rightarrow> 'w locked option" where
  "thread_run [] s = Some s"
| "thread_run (ev # evs) s = (case thread_do ev s of None \<Rightarrow> None | Some s' \<Rightarrow> thread_run evs s')"

text \<open>
  \<^verbatim>\<open>Exec\<close> as its caller sees it: it returns after the send, or, if it waits, once the wait group is at zero after
  whatever \<open>sched\<close> the other goroutines do.
\<close>

definition Exec :: "bool \<Rightarrow> nat \<Rightarrow> 'w tevent list \<Rightarrow> 'w closure \<Rightarrow> 'w locked \<Rightarrow> 'w locked option" where
  "Exec wait g sched f s =
     (case thread_run (TExec wait g f # (if wait then sched else [])) s of
        None \<Rightarrow> None
      | Some s' \<Rightarrow> if t_crashed s' then None
          else if \<not> wait \<or> t_wgs s' g = Some 0 then Some s' else None)"

definition Gettid :: "nat \<Rightarrow> nat \<Rightarrow> 'w tevent list \<Rightarrow> 'w locked \<Rightarrow> (int \<times> 'w locked) option" where
  "Gettid tid g sched s = map_option (\<lambda>s'. (t_vars s' tid, s')) (Exec True g sched (Store_tid tid) s)"

text \<open>
  \<open>cpu_set\<close>, \<open>SchedSetaffinity\<close> and \<open>SchedGetaffinity\<close> are the functions of golang.org/x/sys/unix and \<open>zero\<close> the
  empty set.  \<^verbatim>\<open>GetAffinity\<close> returns \<open>s\<close> beside the call that fills it; the language leaves open whether the
  operand is read before the call, which is \<open>late\<close> when it is read after it.
\<close>

definition SetAffinity ::
  "(int \<Rightarrow> 'set \<Rightarrow> 'set) \<Rightarrow> 'set \<Rightarrow> (int \<Rightarrow> 'set \<Rightarrow> error) \<Rightarrow> nat \<Rightarrow> nat \<Rightarrow> 'w tevent list \<Rightarrow> u64 \<Rightarrow> 'w locked
    \<Rightarrow> (error \<times> 'w locked) option" where
  "SetAffinity cpu_set zero SchedSetaffinity v g sched cpu s =
     map_option (\<lambda>(tid, s'). (SchedSetaffinity tid (cpu_set (sint cpu) zero), s')) (Gettid v g sched s)"

definition GetAffinity ::
  "'set \<Rightarrow> (int \<Rightarrow> 'set \<times> error) \<Rightarrow> bool \<Rightarrow> nat \<Rightarrow> nat \<Rightarrow> 'w tevent list \<Rightarrow> 'w locked
    \<Rightarrow> (('set \<times> error) \<times> 'w locked) option" where
  "GetAffinity zero SchedGetaffinity late v g sched s =
     map_option (\<lambda>(tid, s'). let (set, err) = SchedGetaffinity tid in ((if late then set else zero, err), s'))
       (Gettid v g sched s)"

section \<open>Invariant\<close>

definition pending :: "'w locked \<Rightarrow> 'w tjob list" where
  "pending s = (case t_phase s of Running job \<Rightarrow> job # t_buf s | _ \<Rightarrow> t_buf s)"

definition waits :: "nat \<Rightarrow> 'w tjob list \<Rightarrow> nat" where
  "waits g jobs = count_list (map job_wg jobs) (Some g)"

lemma waits_simps [simp]:
  "waits g [] = 0" "waits g (j # js) = (if job_wg j = Some g then 1 else 0) + waits g js"
  "waits g (js @ ks) = waits g js + waits g ks"
  by (auto simp: waits_def)

lemma waits_zero: "waits g js = 0 \<longleftrightarrow> (\<forall>j \<in> set js. job_wg j \<noteq> Some g)"
  by (induction js) auto

text \<open>
  Jobs are run in the order they were sent; the buffer keeps within the capacity; a wait group counts the pending
  jobs that will call its \<^verbatim>\<open>Done\<close>, and was given to one job; a variable that has been stored holds the id of
  the thread.
\<close>

fun wg_at :: "int option \<Rightarrow> nat \<Rightarrow> nat \<Rightarrow> bool" where
  "wg_at None r p \<longleftrightarrow> r = 0 \<and> p = 0"
| "wg_at (Some n) r p \<longleftrightarrow> n = int p \<and> r + p = 1"

definition wgs_ok :: "(nat \<Rightarrow> int option) \<Rightarrow> 'w tjob list \<Rightarrow> 'w tjob list \<Rightarrow> bool" where
  "wgs_ok wgs fin pend \<longleftrightarrow> (\<forall>g. wg_at (wgs g) (waits g fin) (waits g pend))"

lemma wgs_okD: "wgs_ok wgs fin pend \<Longrightarrow> wg_at (wgs g) (waits g fin) (waits g pend)"
  by (simp add: wgs_ok_def)

definition thread_ok :: "'w locked \<Rightarrow> bool" where
  "thread_ok s \<longleftrightarrow> t_sent s = t_ran s @ pending s \<and> length (t_buf s) \<le> t_cap s \<and>
     (is_Ended (t_phase s) \<longrightarrow> t_closed s \<and> t_buf s = []) \<and>
     wgs_ok (t_wgs s) (t_ran s) (pending s) \<and>
     (\<forall>job \<in> set (t_ran s). \<forall>v. job_fn job = Store_tid v \<longrightarrow> t_vars s v = t_tid s)"

definition thread_inv :: "'w locked \<Rightarrow> bool" where
  "thread_inv s \<longleftrightarrow> t_crashed s \<or> thread_ok s"

lemma thread_invD: "thread_inv s \<Longrightarrow> \<not> t_crashed s \<Longrightarrow> thread_ok s"
  by (simp add: thread_inv_def)

lemma NewLockedThread_inv: "length fs \<le> n \<Longrightarrow> thread_inv (NewLockedThread n fs tid w vars)"
  by (simp add: thread_inv_def thread_ok_def wgs_ok_def NewLockedThread_def pending_def waits_zero Let_def)

lemma wgs_ok_plain: "wgs_ok wgs fin pend \<Longrightarrow> job_wg j = None \<Longrightarrow> wgs_ok wgs fin (pend @ [j])"
  by (simp add: wgs_ok_def)

lemma wgs_ok_new:
  assumes "wgs_ok wgs fin pend" "job_wg j = Some g" "wgs g = None"
  shows "wgs_ok (wgs(g \<mapsto> 1)) fin (pend @ [j])"
  using assms wgs_okD [OF assms(1), of g] by (simp add: wgs_ok_def)

lemma wgs_ok_done:
  assumes "wgs_ok wgs fin (j # pend)"
  shows "wgs_ok (case job_wg j of None \<Rightarrow> wgs | Some g \<Rightarrow> wgs(g := map_option (\<lambda>n. n - 1) (wgs g))) (fin @ [j]) pend"
proof (cases "job_wg j")
  case None
  then show ?thesis using assms by (simp add: wgs_ok_def)
next
  case (Some g)
  have "wg_at (wgs g) (waits g fin) (Suc (waits g pend))" using wgs_okD [OF assms, of g] Some by simp
  moreover have "wg_at (wgs h) (waits h fin) (waits h pend)" if "h \<noteq> g" for h
    using wgs_okD [OF assms, of h] Some that by simp
  ultimately show ?thesis using Some by (cases "wgs g") (auto simp: wgs_ok_def)
qed

lemma pending_update [simp]:
  "pending (s\<lparr>t_wgs := x\<rparr>) = pending s" "pending (s\<lparr>t_user := w\<rparr>) = pending s"
  "pending (s\<lparr>t_closed := b\<rparr>) = pending s"
  by (cases "t_phase s", simp_all add: pending_def)+

text \<open>A send that does not panic adds its job at the end of those that are pending.\<close>

lemma t_send_effect:
  assumes "t_send job s = Some s'" "\<not> t_crashed s'" "length (t_buf s) \<le> t_cap s" "is_Ended (t_phase s) \<longrightarrow> t_closed s"
  shows "pending s' = pending s @ [job] \<and> t_sent s' = t_sent s @ [job] \<and> length (t_buf s') \<le> t_cap s' \<and>
    \<not> is_Ended (t_phase s') \<and> t_ran s' = t_ran s \<and> t_vars s' = t_vars s \<and> t_tid s' = t_tid s \<and> t_wgs s' = t_wgs s \<and>
    (pending s \<noteq> [] \<longrightarrow> is_Running (t_phase s') = is_Running (t_phase s))"
  using assms by (auto simp: t_send_def pending_def split: if_splits tphase.splits)

lemma Exec_send_effect:
  assumes "thread_ok s" "Exec_send wait g f s = Some s'" "\<not> t_crashed s'"
  shows "thread_ok s'" and "pending s' = pending s @ [\<lparr>job_fn = f, job_wg = (if wait then Some g else None)\<rparr>]"
    and "t_ran s' = t_ran s" and "t_wgs s' = (if wait then (t_wgs s)(g \<mapsto> 1) else t_wgs s)"
    and "wait \<Longrightarrow> t_wgs s g = None" and "pending s \<noteq> [] \<Longrightarrow> is_Running (t_phase s') = is_Running (t_phase s)"
proof -
  let ?job = "\<lparr>job_fn = f, job_wg = (if wait then Some g else None)\<rparr>"
    and ?wgs = "if wait then (t_wgs s)(g \<mapsto> 1) else t_wgs s"
  have send: "t_send ?job (s\<lparr>t_wgs := ?wgs\<rparr>) = Some s'" and fresh: "wait \<longrightarrow> t_wgs s g = None"
    using assms(2) by (auto simp: Exec_send_def split: if_splits)
  have eff: "pending s' = pending s @ [?job]" "t_sent s' = t_sent s @ [?job]" "length (t_buf s') \<le> t_cap s'"
      "\<not> is_Ended (t_phase s')" "t_ran s' = t_ran s" "t_vars s' = t_vars s" "t_tid s' = t_tid s" "t_wgs s' = ?wgs"
      "pending s \<noteq> [] \<longrightarrow> is_Running (t_phase s') = is_Running (t_phase s)"
    using t_send_effect [OF send assms(3)] assms(1) by (simp_all add: thread_ok_def)
  have "wgs_ok ?wgs (t_ran s) (pending s @ [?job])"
    using assms(1) fresh by (cases wait) (simp_all add: thread_ok_def wgs_ok_plain wgs_ok_new)
  then show "thread_ok s'" using assms(1) by (simp add: thread_ok_def eff)
  show "pending s' = pending s @ [?job]" "t_ran s' = t_ran s" "t_wgs s' = ?wgs" by (fact eff)+
  show "t_wgs s g = None" if wait using fresh that by simp
  show "is_Running (t_phase s') = is_Running (t_phase s)" if "pending s \<noteq> []" using eff(9) that by simp
qed

text \<open>A step of the thread takes a job out of the buffer, finishes the one it runs, or ends.\<close>

lemma call_effect:
  assumes "call f s = Some s'"
  shows "t_phase s' = t_phase s \<and> t_buf s' = t_buf s \<and> t_cap s' = t_cap s \<and> t_closed s' = t_closed s \<and> t_sent s' = t_sent s \<and>
    t_ran s' = t_ran s \<and> t_wgs s' = t_wgs s \<and> t_tid s' = t_tid s \<and> t_crashed s' = t_crashed s \<and>
    t_vars s' = (case f of Store_tid v \<Rightarrow> (t_vars s)(v := t_tid s) | _ \<Rightarrow> t_vars s)"
  using assms by (auto simp: call_def split: closure.splits)

lemma thread_step_cases:
  assumes "thread_step s = Some s'" "\<not> t_crashed s'"
  obtains (take) job jobs where "t_phase s = Waiting" "t_buf s = job # jobs" "s' = s\<lparr>t_phase := Running job, t_buf := jobs\<rparr>"
    | (stop) "t_phase s = Waiting" "t_buf s = []" "t_closed s" "s' = s\<lparr>t_phase := Ended\<rparr>"
    | (finish) job s1 where "t_phase s = Running job" "call (job_fn job) s = Some s1"
      "s' = s1\<lparr>t_phase := Waiting, t_ran := t_ran s @ [job],
         t_wgs := (case job_wg job of None \<Rightarrow> t_wgs s | Some g \<Rightarrow> (t_wgs s)(g := map_option (\<lambda>n. n - 1) (t_wgs s g)))\<rparr>"
proof (cases "t_phase s")
  case Waiting
  then show thesis using assms take stop by (cases "t_buf s") (auto simp: thread_step_def split: if_splits)
next
  case (Running job)
  then obtain s1 where "call (job_fn job) s = Some s1" using assms by (cases "call (job_fn job) s") (auto simp: thread_step_def)
  with Running show thesis using assms(1) call_effect [of "job_fn job" s s1]
    by (intro finish [of job s1]) (simp_all add: thread_step_def cong: option.case_cong)
next
  case Ended
  then show thesis using assms by (simp add: thread_step_def)
qed

lemma thread_step_ok:
  assumes "thread_ok s" "thread_step s = Some s'" "\<not> t_crashed s'"
  shows "thread_ok s'"
  using assms(2,3)
proof (cases rule: thread_step_cases)
  case (take job jobs)
  then show ?thesis using assms(1) by (auto simp: thread_ok_def pending_def)
next
  case stop
  then show ?thesis using assms(1) by (auto simp: thread_ok_def pending_def)
next
  case (finish job s1)
  note c = call_effect [OF finish(2)]
  have "wgs_ok (t_wgs s') (t_ran s @ [job]) (t_buf s)"
    using assms(1) finish(1,3) wgs_ok_done [of "t_wgs s" "t_ran s" job "t_buf s"] by (simp add: thread_ok_def pending_def)
  then show ?thesis
    using assms(1) finish(1) c unfolding finish(3)
    by (auto simp: thread_ok_def pending_def split: closure.splits)
qed

lemma thread_do_ok:
  assumes "thread_ok s" "thread_do ev s = Some s'" "\<not> t_crashed s'"
  shows "thread_ok s'"
  using assms Exec_send_effect(1) [OF assms(1)] thread_step_ok [OF assms(1)]
  by (auto simp: thread_do_def split: if_splits tevent.splits) (auto simp: thread_ok_def t_Close_def split: if_splits)

lemma thread_run_crashed: "t_crashed s \<Longrightarrow> thread_run evs s = Some s' \<Longrightarrow> evs = []"
  by (cases evs) (auto simp: thread_do_def)

lemma thread_run_ok:
  assumes "thread_inv s" "thread_run evs s = Some s'"
  shows "thread_inv s'"
  using assms
proof (induction evs arbitrary: s)
  case (Cons ev evs)
  then obtain s1 where s1: "thread_do ev s = Some s1" "thread_run evs s1 = Some s'" by (auto split: option.splits)
  then have "\<not> t_crashed s" by (auto simp: thread_do_def)
  then have "thread_inv s1" using Cons.prems(1) s1(1) thread_do_ok by (auto simp: thread_inv_def)
  then show ?case using Cons.IH s1(2) by simp
qed simp

lemma thread_run_crashed_mono: "thread_run evs s = Some s' \<Longrightarrow> \<not> t_crashed s' \<Longrightarrow> \<not> t_crashed s"
  using thread_run_crashed by fastforce

section \<open>Order\<close>

text \<open>The jobs sent are extended, never dropped or reordered.\<close>

lemma thread_do_sent:
  assumes "thread_do ev s = Some s'"
  shows "prefix (t_sent s) (t_sent s')"
proof (cases ev)
  case (TExec wait g f)
  then show ?thesis using assms by (auto simp: thread_do_def Exec_send_def t_send_def split: if_splits)
next
  case TStep
  then show ?thesis using assms call_effect
    by (fastforce simp: thread_do_def thread_step_def split: if_splits tphase.splits option.splits list.splits)
qed (use assms in \<open>auto simp: thread_do_def t_Close_def split: if_splits\<close>)

lemma thread_run_sent: "thread_run evs s = Some s' \<Longrightarrow> prefix (t_sent s) (t_sent s')"
proof (induction evs arbitrary: s)
  case (Cons ev evs)
  then show ?case by (auto split: option.splits intro: prefix_order.trans dest: thread_do_sent)
qed simp

section \<open>Progress\<close>

text \<open>The number of steps of the thread until the job of wait group \<open>g\<close> is finished.\<close>

definition todo :: "nat \<Rightarrow> 'w locked \<Rightarrow> nat" where
  "todo g s = (if waits g (pending s) = 0 then 0
     else 2 * (length (takeWhile (\<lambda>j. job_wg j \<noteq> Some g) (pending s)) + 1) - (if is_Running (t_phase s) then 1 else 0))"

lemma todo_update [simp]:
  "todo g (s\<lparr>t_user := w\<rparr>) = todo g s" "todo g (s\<lparr>t_closed := b\<rparr>) = todo g s"
  by (simp_all add: todo_def)

lemma todo_send:
  assumes "thread_ok s" "Exec_send wait h f s = Some s'" "\<not> t_crashed s'" "t_wgs s g \<noteq> None"
  shows "todo g s' = todo g s"
proof -
  have ne: "wait \<Longrightarrow> h \<noteq> g" using Exec_send_effect(5) [OF assms(1-3)] assms(4) by auto
  show ?thesis
  proof (cases "waits g (pending s) = 0")
    case True
    then show ?thesis using ne Exec_send_effect(2) [OF assms(1-3)] by (auto simp: todo_def)
  next
    case False
    then have "pending s \<noteq> []" "\<exists>j \<in> set (pending s). job_wg j = Some g" by (auto simp: waits_zero)
    then show ?thesis using False ne Exec_send_effect(2,6) [OF assms(1-3)]
      by (auto simp: todo_def takeWhile_append1)
  qed
qed

lemma todo_step:
  assumes "thread_ok s" "thread_step s = Some s'" "\<not> t_crashed s'"
  shows "todo g s' = todo g s - 1"
  using assms(2,3)
proof (cases rule: thread_step_cases)
  case (take job jobs)
  then show ?thesis by (auto simp: todo_def pending_def)
next
  case stop
  then show ?thesis by (simp add: todo_def pending_def)
next
  case (finish job s1)
  have "wgs_ok (t_wgs s) (t_ran s) (job # t_buf s)" using assms(1) finish(1) by (simp add: thread_ok_def pending_def)
  from wgs_okD [OF this, of g] have "job_wg job = Some g \<Longrightarrow> waits g (t_buf s) = 0"
    by (cases "t_wgs s g") auto
  then show ?thesis
    using finish(1) call_effect [OF finish(2)] unfolding finish(3) by (auto simp: todo_def pending_def)
qed

lemma thread_do_wgs:
  assumes "thread_do ev s = Some s'" "t_wgs s g \<noteq> None"
  shows "t_wgs s' g \<noteq> None"
proof (cases ev)
  case (TExec wait g f)
  then show ?thesis using assms by (auto simp: thread_do_def Exec_send_def t_send_def split: if_splits)
next
  case TStep
  then show ?thesis using assms call_effect
    by (fastforce simp: thread_do_def thread_step_def split: if_splits tphase.splits option.splits list.splits)
qed (use assms in \<open>auto simp: thread_do_def t_Close_def split: if_splits\<close>)

lemma todo_do:
  assumes "thread_ok s" "thread_do ev s = Some s'" "\<not> t_crashed s'" "t_wgs s g \<noteq> None"
  shows "todo g s' = todo g s - (if is_TStep ev then 1 else 0)"
  using assms todo_send [OF assms(1) _ assms(3,4)] todo_step [OF assms(1) _ assms(3), of g]
  by (cases ev) (auto simp: thread_do_def t_Close_def split: if_splits)

lemma todo_run:
  assumes "thread_inv s" "thread_run evs s = Some s'" "\<not> t_crashed s'" "t_wgs s g \<noteq> None"
  shows "todo g s' = todo g s - length (filter is_TStep evs) \<and> t_wgs s' g \<noteq> None"
  using assms
proof (induction evs arbitrary: s)
  case (Cons ev evs)
  then obtain s1 where s1: "thread_do ev s = Some s1" "thread_run evs s1 = Some s'" by (auto split: option.splits)
  then have nc: "\<not> t_crashed s" "\<not> t_crashed s1"
    using thread_run_crashed_mono Cons.prems(2,3) by blast+
  then have ok: "thread_ok s" "thread_inv s1"
    using thread_do_ok [OF _ s1(1)] Cons.prems(1) by (auto simp: thread_inv_def)
  show ?case
    using Cons.IH [OF ok(2) s1(2) Cons.prems(3) thread_do_wgs [OF s1(1) Cons.prems(4)]]
      todo_do [OF ok(1) s1(1) nc(2) Cons.prems(4)] by simp
qed simp

lemma todo_zero:
  assumes "thread_ok s" "t_wgs s g \<noteq> None"
  shows "todo g s = 0 \<longleftrightarrow> t_wgs s g = Some 0"
  using assms wgs_okD [of "t_wgs s" "t_ran s" "pending s" g]
  by (cases "t_wgs s g") (auto simp: thread_ok_def todo_def)

lemma thread_not_stuck:
  assumes "thread_ok s" "t_wgs s g \<noteq> None" "t_wgs s g \<noteq> Some 0"
  shows "thread_step s \<noteq> None"
proof -
  have "pending s \<noteq> []" using todo_zero [OF assms(1,2)] assms(3) by (auto simp: todo_def)
  then show ?thesis using assms(1)
    by (auto simp: thread_ok_def pending_def thread_step_def split: tphase.splits list.splits option.splits)
qed

text \<open>
  A send that has to wait: the channel is open, its buffer full or missing and the thread busy.  Without another
  sender two steps of the thread, the end of a job and the receipt of the next, make room.
\<close>

lemma send_blocked_iff:
  assumes "thread_ok s" "\<not> t_crashed s" "t_wgs s g = None"
  shows "thread_do (TExec True g f) s = None \<longleftrightarrow>
    \<not> t_closed s \<and> length (t_buf s) = t_cap s \<and> (is_Waiting (t_phase s) \<longrightarrow> t_buf s \<noteq> [])"
  using assms by (auto simp: thread_do_def Exec_send_def t_send_def thread_ok_def)

lemma send_blocked_step:
  assumes "thread_ok s" "\<not> t_crashed s" "t_wgs s g = None" "thread_do (TExec True g f) s = None"
  shows "thread_do TStep s \<noteq> None"
  using assms(1,2) assms(4) [unfolded send_blocked_iff [OF assms(1-3)]]
  by (auto simp: thread_do_def thread_step_def thread_ok_def split: tphase.splits list.splits option.splits)

text \<open>Steps until the send is enabled.\<close>

definition room_in :: "'w locked \<Rightarrow> nat" where
  "room_in s = (if t_closed s \<or> length (t_buf s) < t_cap s then 0
     else case t_phase s of Waiting \<Rightarrow> if t_buf s = [] then 0 else 1 | Running job \<Rightarrow> if t_buf s = [] then 1 else 2 | Ended \<Rightarrow> 0)"

lemma room_in_zero:
  assumes "thread_ok s" "\<not> t_crashed s" "t_wgs s g = None"
  shows "room_in s = 0 \<Longrightarrow> thread_do (TExec True g f) s \<noteq> None"
  unfolding send_blocked_iff [OF assms] using assms(1)
  by (auto simp: room_in_def thread_ok_def split: if_splits tphase.splits)

lemma room_in_do:
  assumes "thread_ok s" "thread_do ev s = Some s'" "\<not> t_crashed s'" "\<not> is_TExec ev"
  shows "room_in s' \<le> room_in s - (if is_TStep ev then 1 else 0)" and "t_wgs s g = None \<Longrightarrow> t_wgs s' g = None"
proof -
  have "room_in s' \<le> room_in s - (if is_TStep ev then 1 else 0) \<and> (t_wgs s g = None \<longrightarrow> t_wgs s' g = None)"
  proof (cases ev)
    case TStep
    then have step: "thread_step s = Some s'" using assms(2) by (simp add: thread_do_def split: if_splits)
    then show ?thesis using assms(3)
    proof (cases rule: thread_step_cases)
      case (finish job s1)
      show ?thesis using finish(1) call_effect [OF finish(2)] TStep unfolding finish(3)
        by (auto simp: room_in_def split: option.splits)
    qed (use assms(1) TStep in \<open>auto simp: room_in_def thread_ok_def\<close>)
  qed (use assms(2-4) in \<open>auto simp: thread_do_def t_Close_def room_in_def split: if_splits tphase.splits\<close>)
  then show "room_in s' \<le> room_in s - (if is_TStep ev then 1 else 0)" and "t_wgs s g = None \<Longrightarrow> t_wgs s' g = None"
    by blast+
qed

lemma room_in_run:
  assumes "thread_inv s" "thread_run evs s = Some s'" "\<not> t_crashed s'" "\<forall>ev \<in> set evs. \<not> is_TExec ev" "t_wgs s g = None"
  shows "room_in s' \<le> room_in s - length (filter is_TStep evs) \<and> t_wgs s' g = None"
  using assms
proof (induction evs arbitrary: s)
  case (Cons ev evs)
  then obtain s1 where s1: "thread_do ev s = Some s1" "thread_run evs s1 = Some s'" by (auto split: option.splits)
  then have nc: "\<not> t_crashed s" "\<not> t_crashed s1"
    using thread_run_crashed_mono Cons.prems(2,3) by blast+
  then have ok: "thread_ok s" "thread_inv s1"
    using thread_do_ok [OF _ s1(1)] Cons.prems(1) by (auto simp: thread_inv_def)
  have ev: "\<not> is_TExec ev" using Cons.prems(4) by simp
  have "t_wgs s1 g = None" using room_in_do(2) [OF ok(1) s1(1) nc(2) ev] Cons.prems(5) by blast
  then show ?case
    using Cons.IH [OF ok(2) s1(2) Cons.prems(3)] Cons.prems(4) room_in_do(1) [OF ok(1) s1(1) nc(2) ev] by auto
qed simp

lemma send_after_two_steps:
  assumes "thread_inv s" "thread_run pre s = Some s'" "\<not> t_crashed s'" "\<forall>ev \<in> set pre. \<not> is_TExec ev" "t_wgs s g = None"
    and "2 \<le> length (filter is_TStep pre)"
  shows "thread_do (TExec True g f) s' \<noteq> None"
proof -
  have "room_in s \<le> 2" by (simp add: room_in_def split: tphase.splits)
  then have "room_in s' = 0" "t_wgs s' g = None" using room_in_run [OF assms(1-5)] assms(6) by auto
  then show ?thesis
    using room_in_zero [OF thread_invD [OF thread_run_ok [OF assms(1,2)] assms(3)] assms(3)] by blast
qed

section \<open>Calls\<close>

lemma Exec_waitD:
  assumes "Exec True g sched f s = Some s'"
  obtains s1 where "\<not> t_crashed s" "Exec_send True g f s = Some s1" "thread_run sched s1 = Some s'" "\<not> t_crashed s'" "t_wgs s' g = Some 0"
  using assms by (auto simp: Exec_def thread_do_def split: option.splits if_splits)

lemma thread_run_tid: "thread_run evs s = Some s' \<Longrightarrow> t_tid s' = t_tid s"
proof (induction evs arbitrary: s)
  case (Cons ev evs)
  have "t_tid s1 = t_tid s" if "thread_do ev s = Some s1" for s1
    using that call_effect by (cases ev) (fastforce simp: thread_do_def Exec_send_def t_send_def thread_step_def t_Close_def
      split: if_splits tphase.splits option.splits list.splits)+
  then show ?case using Cons by (auto split: option.splits)
qed simp

text \<open>Once a call that waits has returned, its job and every job sent before it have been run, in that order.\<close>

lemma Exec_order:
  assumes "thread_inv s" "Exec True g sched f s = Some s'"
  obtains after where "t_ran s' = t_ran s @ pending s @ \<lparr>job_fn = f, job_wg = Some g\<rparr> # after"
    "waits g (t_ran s @ pending s @ after) = 0" "thread_ok s'"
proof -
  let ?job = "\<lparr>job_fn = f, job_wg = Some g\<rparr>"
  obtain s1 where s1: "\<not> t_crashed s" "Exec_send True g f s = Some s1" "thread_run sched s1 = Some s'" "\<not> t_crashed s'"
      "t_wgs s' g = Some 0" using assms(2) by (rule Exec_waitD)
  have nc: "\<not> t_crashed s1" using thread_run_crashed_mono [OF s1(3,4)] .
  have ok: "thread_ok s" using assms(1) s1(1) by (simp add: thread_inv_def)
  note eff = Exec_send_effect [OF ok s1(2) nc]
  have ok': "thread_ok s'" using thread_run_ok [OF _ s1(3)] eff(1) s1(4) by (simp add: thread_inv_def)
  have "t_sent s1 = t_ran s @ pending s @ [?job]" using eff(1-3) by (simp add: thread_ok_def)
  then obtain rest where "t_sent s' = t_ran s @ pending s @ ?job # rest"
    using thread_run_sent [OF s1(3)] by (auto elim: prefixE)
  then have split: "t_ran s' @ pending s' = (t_ran s @ pending s) @ ?job # rest" using ok' by (simp add: thread_ok_def)
  have w: "waits g (pending s') = 0" "waits g (t_ran s') = 1"
    using wgs_okD [of "t_wgs s'" "t_ran s'" "pending s'" g] ok' s1(5) by (auto simp: thread_ok_def)
  obtain us where us: "(t_ran s' = (t_ran s @ pending s) @ us \<and> us @ pending s' = ?job # rest) \<or>
      (t_ran s' @ us = t_ran s @ pending s \<and> pending s' = us @ ?job # rest)"
    using split unfolding append_eq_append_conv2 by blast
  moreover have "?job \<notin> set (pending s')" using w(1) by (auto simp: waits_zero)
  ultimately obtain after where after: "t_ran s' = t_ran s @ pending s @ ?job # after" by (cases us) auto
  then show thesis using w(2) ok' that by simp
qed

text \<open>The id returned by \<^verbatim>\<open>Gettid\<close> is that of the thread, and \<^verbatim>\<open>SetAffinity\<close> pins it.\<close>

lemma Gettid_returns_tid:
  assumes "thread_inv s" "Gettid v g sched s = Some (tid, s')"
  shows "tid = t_tid s"
proof -
  have ex: "Exec True g sched (Store_tid v) s = Some s'" "tid = t_vars s' v" using assms(2) by (auto simp: Gettid_def)
  then have "t_tid s' = t_tid s"
    using thread_run_tid [of "TExec True g (Store_tid v) # sched" s s'] by (auto simp: Exec_def split: option.splits if_splits)
  moreover obtain after where "t_ran s' = t_ran s @ pending s @ \<lparr>job_fn = Store_tid v, job_wg = Some g\<rparr> # after" "thread_ok s'"
    using Exec_order [OF assms(1) ex(1)] by blast
  ultimately show ?thesis using ex(2) by (auto simp: thread_ok_def)
qed

lemma SetAffinity_pins_thread:
  "thread_inv s \<Longrightarrow> SetAffinity cpu_set zero sys v g sched cpu s = Some (e, s') \<Longrightarrow>
     e = sys (t_tid s) (cpu_set (sint cpu) zero)"
  by (auto simp: SetAffinity_def dest!: Gettid_returns_tid)

text \<open>A call whose job has been sent returns.\<close>

lemma Exec_progress:
  assumes "thread_inv s" "thread_run (TExec True g f # sched) s = Some s'" "\<not> t_crashed s'"
  shows "Exec True g sched f s \<noteq> Some s' \<longrightarrow> thread_do TStep s' \<noteq> None"
    and "2 * length (pending s) + 2 \<le> length (filter is_TStep sched) \<longrightarrow> Exec True g sched f s = Some s'"
proof -
  obtain s1 where s1: "thread_do (TExec True g f) s = Some s1" "thread_run sched s1 = Some s'"
    using assms(2) by (auto split: option.splits)
  have nc: "\<not> t_crashed s" "\<not> t_crashed s1" using thread_run_crashed_mono assms(2,3) s1(2) by blast+
  have send: "Exec_send True g f s = Some s1" using s1(1) nc(1) by (simp add: thread_do_def)
  note eff = Exec_send_effect [OF thread_invD [OF assms(1) nc(1)] send nc(2)]
  have ok: "thread_inv s1" "thread_ok s'"
    using eff(1) thread_run_ok [OF _ s1(2)] assms(3) by (auto simp: thread_inv_def)
  have run: "todo g s' = todo g s1 - length (filter is_TStep sched)" "t_wgs s' g \<noteq> None"
    using todo_run [OF ok(1) s1(2) assms(3), of g] eff(4) by simp_all
  have "todo g s1 \<le> 2 * (length (takeWhile (\<lambda>j. job_wg j \<noteq> Some g) (pending s1)) + 1)" by (simp add: todo_def)
  also have "\<dots> \<le> 2 * length (pending s) + 2"
    using length_takeWhile_le [of "\<lambda>j. job_wg j \<noteq> Some g" "pending s"] by (simp add: eff(2) takeWhile_tail)
  finally have "2 * length (pending s) + 2 \<le> length (filter is_TStep sched) \<Longrightarrow> t_wgs s' g = Some 0"
    using run todo_zero [OF ok(2)] by simp
  moreover have "Exec True g sched f s = (if t_wgs s' g = Some 0 then Some s' else None)"
    using assms(2,3) by (simp add: Exec_def)
  ultimately show "Exec True g sched f s \<noteq> Some s' \<longrightarrow> thread_do TStep s' \<noteq> None"
    and "2 * length (pending s) + 2 \<le> length (filter is_TStep sched) \<longrightarrow> Exec True g sched f s = Some s'"
    using thread_not_stuck [OF ok(2) run(2)] assms(3) by (auto simp: thread_do_def)
qed

section \<open>Properties\<close>

text \<open>C9: when Exec with wait returns, in any interleaving with other senders, closers and the thread, its job has been run exactly once, after every job that was in the channel or running when it was called and after no other.\<close>

theorem Exec_runs_in_order:
  assumes "length fs \<le> n" "thread_run evs (NewLockedThread n fs tid w vars) = Some s"
    and "Exec True g sched f s = Some s'"
  shows "\<exists>after. t_ran s' = t_ran s @ pending s @ \<lparr>job_fn = f, job_wg = Some g\<rparr> # after \<and>
    waits g (t_ran s @ pending s @ after) = 0"
  using Exec_order [OF thread_run_ok [OF NewLockedThread_inv [OF assms(1)] assms(2)] assms(3)] by metis

theorem Exec_runs_in_order_witness:
  "\<exists>s s' after. thread_run [TStep] (NewLockedThread 2 [\<lambda>_ w. Some (w + 1)] 77 (0 :: int) (\<lambda>_. 0)) = Some s \<and>
    Exec True 0 [TStep, TStep, TExec False 1 (User (\<lambda>_ w. Some w)), TClose, TStep] (User (\<lambda>_ w. Some (2 * w))) s = Some s' \<and>
    t_ran s' = t_ran s @ pending s @ \<lparr>job_fn = User (\<lambda>_ w. Some (2 * w)), job_wg = Some 0\<rparr> # after"
proof -
  let ?s = "the (thread_run [TStep] (NewLockedThread 2 [\<lambda>_ w. Some (w + 1)] 77 (0 :: int) (\<lambda>_. 0)))"
    and ?sched = "[TStep, TStep, TExec False 1 (User (\<lambda>_ w. Some w)), TClose, TStep]" and ?f = "User (\<lambda>_ w. Some (2 * w))"
  let ?s' = "the (Exec True 0 ?sched ?f ?s)"
  note eval = NewLockedThread_def Exec_def thread_do_def thread_step_def Exec_send_def t_send_def call_def t_Close_def Let_def
  have 1: "thread_run [TStep] (NewLockedThread 2 [\<lambda>_ w. Some (w + 1)] 77 (0 :: int) (\<lambda>_. 0)) = Some ?s" by (simp add: eval)
  have 2: "Exec True 0 ?sched ?f ?s = Some ?s'" by (simp add: eval)
  show ?thesis using Exec_runs_in_order [OF _ 1 2] 1 2 by auto
qed

text \<open>C10: a call of Exec that waits is never stuck, in any reachable state. While its send is blocked, because the thread is busy and the channel is unbuffered or full, the thread can take a step; and when no other sender interferes the send is possible after two steps of the thread, in every interleaving with closers and user code. Once the send has happened, in every interleaving with other senders, closers and user code in which nothing panics, the thread can take a step as long as the call has not returned, and the call returns as soon as the thread has taken two steps for each job that was pending at the send and two for its own.\<close>

theorem Exec_returns:
  assumes "length fs \<le> n" "thread_run evs (NewLockedThread n fs tid w vars) = Some s" "\<not> t_crashed s" "t_wgs s g = None"
  shows "(thread_do (TExec True g f) s = None \<longrightarrow> thread_do TStep s \<noteq> None) \<and>
    (\<forall>pre s1. thread_run pre s = Some s1 \<and> \<not> t_crashed s1 \<and> (\<forall>ev \<in> set pre. \<not> is_TExec ev) \<and> 2 \<le> length (filter is_TStep pre)
       \<longrightarrow> thread_do (TExec True g f) s1 \<noteq> None) \<and>
    (\<forall>sched s'. thread_run (TExec True g f # sched) s = Some s' \<and> \<not> t_crashed s' \<longrightarrow>
       (Exec True g sched f s \<noteq> Some s' \<longrightarrow> thread_do TStep s' \<noteq> None) \<and>
       (2 * length (pending s) + 2 \<le> length (filter is_TStep sched) \<longrightarrow> Exec True g sched f s = Some s'))"
proof (intro conjI allI impI; (elim conjE)?)
  have inv: "thread_inv s" using thread_run_ok [OF NewLockedThread_inv [OF assms(1)] assms(2)] .
  show "thread_do TStep s \<noteq> None" if "thread_do (TExec True g f) s = None"
    using send_blocked_step [OF thread_invD [OF inv assms(3)] assms(3,4) that] .
  show "thread_do (TExec True g f) s1 \<noteq> None" if "thread_run pre s = Some s1" "\<not> t_crashed s1"
      "\<forall>ev \<in> set pre. \<not> is_TExec ev" "2 \<le> length (filter is_TStep pre)" for pre s1
    using send_after_two_steps [OF inv that(1-3) assms(4) that(4)] .
  show "thread_do TStep s' \<noteq> None" if "thread_run (TExec True g f # sched) s = Some s'" "\<not> t_crashed s'"
      "Exec True g sched f s \<noteq> Some s'" for sched s'
    using Exec_progress(1) [OF inv that(1,2)] that(3) by blast
  show "Exec True g sched f s = Some s'" if "thread_run (TExec True g f # sched) s = Some s'" "\<not> t_crashed s'"
      "2 * length (pending s) + 2 \<le> length (filter is_TStep sched)" for sched s'
    using Exec_progress(2) [OF inv that(1,2)] that(3) by blast
qed

theorem Exec_returns_witness:
  "(\<exists>s'. Exec True 0 [TStep, TStep, TOther (\<lambda>w. 3 * w), TStep, TStep] (Store_tid 5)
      (NewLockedThread 2 [\<lambda>_ w. Some (w + 1)] 77 (0 :: int) (\<lambda>_. 0)) = Some s' \<and> t_user s' = 3) \<and>
   (\<exists>s. thread_run [TExec False 9 (User (\<lambda>_ w. Some (w + 1)))] (NewLockedThread 0 [] 77 (0 :: int) (\<lambda>_. 0)) = Some s \<and>
      thread_do (TExec True 0 (Store_tid 5)) s = None \<and> thread_do TStep s \<noteq> None)"
proof
  let ?s = "NewLockedThread 2 [\<lambda>_ w. Some (w + 1)] 77 (0 :: int) (\<lambda>_. 0)"
    and ?sched = "[TStep, TStep, TOther (\<lambda>w. 3 * w), TStep, TStep]"
  let ?s' = "the (thread_run (TExec True 0 (Store_tid 5) # ?sched) ?s)"
  note eval = NewLockedThread_def thread_do_def thread_step_def Exec_send_def t_send_def call_def Let_def
  have 1: "thread_run (TExec True 0 (Store_tid 5) # ?sched) ?s = Some ?s'" by (simp add: eval)
  have 2: "\<not> t_crashed ?s'" "t_user ?s' = 3" "length (pending ?s) = 1" "\<not> t_crashed ?s" "t_wgs ?s 0 = None"
    by (simp_all add: eval pending_def)
  have "Exec True 0 ?sched (Store_tid 5) ?s = Some ?s'"
    using Exec_returns [of "[\<lambda>_ w. Some (w + 1)]" 2 "[]" 77 0 "\<lambda>_. 0" ?s 0 "Store_tid 5"] 1 2 by simp
  then show "\<exists>s'. Exec True 0 ?sched (Store_tid 5) ?s = Some s' \<and> t_user s' = 3" using 2(2) by blast
next
  let ?f = "User (\<lambda>_ w. Some (w + 1))" and ?n = "NewLockedThread 0 [] 77 (0 :: int) (\<lambda>_. 0)"
  let ?s = "the (thread_run [TExec False 9 ?f] ?n)"
  note eval = NewLockedThread_def thread_do_def Exec_send_def t_send_def Let_def
  have 1: "thread_run [TExec False 9 ?f] ?n = Some ?s" by (simp add: eval)
  have 2: "\<not> t_crashed ?s" "t_wgs ?s 0 = None" "thread_do (TExec True 0 (Store_tid 5)) ?s = None"
    by (simp_all add: eval)
  show "\<exists>s. thread_run [TExec False 9 ?f] ?n = Some s \<and>
      thread_do (TExec True 0 (Store_tid 5)) s = None \<and> thread_do TStep s \<noteq> None"
    using Exec_returns [OF _ 1 2(1,2), of "Store_tid 5"] 1 2(3) by auto
qed

end
