(* ===== verification/Lsc.thy ===== *)
theory Lsc
  imports Ethdev_Info
begin

text \<open>
  Link state telemetry (src/ethdev/lsc_telemetry.go over the C code of src/ethdev/lsc_telemetry.h): a global
  array of counters, one per port, which a callback of the driver increments on every link state change, and a
  telemetry command that reports them.  The registration of callbacks is DPDK code: \<open>cb_api\<close>.
\<close>

section \<open>Counters and callback\<close>

record lsc_port =
  enabled :: int
  counter :: u64

type_synonym lsc_counters = "lsc_port list"

datatype rte_eth_event = RTE_ETH_EVENT_INTR_LSC | Other_event nat

text \<open>\<open>registered\<close> tells for which ports the callback is registered for the event of a link state change.\<close>

record 'w cb_api =
  is_valid_port :: "u16 \<Rightarrow> 'w \<Rightarrow> bool"
  callback_register :: "u16 \<Rightarrow> 'w \<Rightarrow> int \<times> 'w"
  callback_unregister :: "u16 \<Rightarrow> 'w \<Rightarrow> int \<times> 'w"
  registered :: "'w \<Rightarrow> u16 set"

abbreviation (input) EINVAL :: int where "EINVAL \<equiv> 22"
abbreviation (input) ENOENT :: int where "ENOENT \<equiv> 2"

definition lsc_counters_callback :: "rte_eth_event \<Rightarrow> lsc_port \<Rightarrow> lsc_port" where
  "lsc_counters_callback event p = p\<lparr>counter := counter p + (if event = RTE_ETH_EVENT_INTR_LSC then 1 else 0)\<rparr>"

text \<open>An index beyond the array is a fault, \<^term>\<open>None\<close>.\<close>

definition set_enabled :: "int \<Rightarrow> u16 \<Rightarrow> lsc_counters \<Rightarrow> lsc_counters option" where
  "set_enabled v p c = (if unat p < length c then Some (c[unat p := (c ! unat p)\<lparr>enabled := v\<rparr>]) else None)"

definition lsc_counters_callback_register ::
  "'w cb_api \<Rightarrow> u16 \<Rightarrow> lsc_counters \<times> 'w \<Rightarrow> (int \<times> lsc_counters \<times> 'w) option" where
  "lsc_counters_callback_register A port_id = (\<lambda>(c, w).
     if \<not> is_valid_port A port_id w then Some (- EINVAL, c, w)
     else do { c \<leftarrow> set_enabled 1 port_id c; let (rc, w) = callback_register A port_id w; Some (rc, c, w) })"

definition lsc_counters_callback_unregister ::
  "'w cb_api \<Rightarrow> u16 \<Rightarrow> lsc_counters \<times> 'w \<Rightarrow> (int \<times> lsc_counters \<times> 'w) option" where
  "lsc_counters_callback_unregister A port_id = (\<lambda>(c, w).
     if \<not> is_valid_port A port_id w then Some (- EINVAL, c, w)
     else do { c \<leftarrow> set_enabled 0 port_id c; let (rc, w) = callback_unregister A port_id w; Some (rc, c, w) })"

definition RegisterCallbackLSC ::
  "rte_errnos \<Rightarrow> 'w cb_api \<Rightarrow> u16 \<Rightarrow> lsc_counters \<times> 'w \<Rightarrow> (error \<times> lsc_counters \<times> 'w) option" where
  "RegisterCallbackLSC e A p s = map_option (\<lambda>(rc, s). (IntErr e rc, s)) (lsc_counters_callback_register A p s)"

definition UnregisterCallbackLSC ::
  "rte_errnos \<Rightarrow> 'w cb_api \<Rightarrow> u16 \<Rightarrow> lsc_counters \<times> 'w \<Rightarrow> (error \<times> lsc_counters \<times> 'w) option" where
  "UnregisterCallbackLSC e A p s = map_option (\<lambda>(rc, s). (IntErr e rc, s)) (lsc_counters_callback_unregister A p s)"

section \<open>The telemetry command\<close>

text \<open>
  \<^verbatim>\<open>strtoul(params, \&end, 0)\<close> of the C library: white space, a sign, a prefix that selects the base, digits; the
  value saturates and a minus sign negates it as an \<^verbatim>\<open>unsigned long\<close>.  Without digits nothing is consumed.
\<close>

definition digit_of :: "char \<Rightarrow> nat" where
  "digit_of ch = (let n = of_char ch in
     if 48 \<le> n \<and> n \<le> 57 then n - 48 else if 97 \<le> n \<and> n \<le> 122 then n - 87
     else if 65 \<le> n \<and> n \<le> 90 then n - 55 else 36)"

definition digits_value :: "nat \<Rightarrow> string \<Rightarrow> nat" where
  "digits_value base ds = foldl (\<lambda>n ch. base * n + digit_of ch) 0 ds"

definition c_isspace :: "char \<Rightarrow> bool" where
  "c_isspace ch \<longleftrightarrow> ch = CHR '' '' \<or> (9 \<le> (of_char ch :: nat) \<and> (of_char ch :: nat) \<le> 13)"

definition strtoul_base :: "string \<Rightarrow> nat \<times> string" where
  "strtoul_base s = (case s of
     z # x # d # r \<Rightarrow> if z = CHR ''0'' \<and> x \<in> {CHR ''x'', CHR ''X''} \<and> digit_of d < 16 then (16, d # r)
                     else if z = CHR ''0'' then (8, s) else (10, s)
   | z # r \<Rightarrow> if z = CHR ''0'' then (8, s) else (10, s)
   | [] \<Rightarrow> (10, s))"

definition strtoul :: "string \<Rightarrow> u64 \<times> string" where
  "strtoul params =
     (let s = dropWhile c_isspace params;
          (neg, s) = (case s of ch # r \<Rightarrow> if ch = CHR ''-'' then (True, r) else if ch = CHR ''+'' then (False, r) else (False, s)
                      | [] \<Rightarrow> (False, s));
          (base, s) = strtoul_base s;
          ds = takeWhile (\<lambda>ch. digit_of ch < base) s;
          v = (let n = digits_value base ds in if n < 2 ^ 64 then (of_nat n :: u64) else - 1) in
      if ds = [] then (0, params)
      else ((if neg \<and> digits_value base ds < 2 ^ 64 then - v else v), drop (length ds) s))"

text \<open>
  The value is stored in an \<^verbatim>\<open>int\<close>, checked as a \<^verbatim>\<open>uint16_t\<close> and used as an \<^verbatim>\<open>int\<close> index.  The result is the
  status and the dictionary.
\<close>

definition ethdev_lsc :: "'w cb_api \<Rightarrow> string option \<Rightarrow> lsc_counters \<times> 'w \<Rightarrow> (int \<times> (int \<times> u64) option) option" where
  "ethdev_lsc A params = (\<lambda>(c, w). case params of
     None \<Rightarrow> Some (-1, None)
   | Some ps \<Rightarrow>
       if ps = [] then Some (-1, None)
       else let (v, end_param) = strtoul ps; port_id = sint (ucast v :: u32) in
         if end_param \<noteq> [] then Some (-1, None)
         else if \<not> is_valid_port A (word_of_int port_id) w then Some (- ENOENT, None)
         else if port_id < 0 \<or> int (length c) \<le> port_id then None
         else let p = c ! nat port_id in Some (0, Some (enabled p, counter p)))"

section \<open>Properties\<close>

text \<open>What DPDK documents of the registration: success adds or removes the callback, failure changes nothing.\<close>

definition cb_contract :: "'w cb_api \<Rightarrow> bool" where
  "cb_contract A \<longleftrightarrow> (\<forall>p w rc w'.
     (callback_register A p w = (rc, w') \<longrightarrow> registered A w' = (if rc = 0 then insert p (registered A w) else registered A w)) \<and>
     (callback_unregister A p w = (rc, w') \<longrightarrow> registered A w' = (if rc = 0 then registered A w - {p} else registered A w)))"

text \<open>Calls of the package and events of the driver, in any order.\<close>

datatype lsc_event = Reg u16 | Unreg u16 | Driver u16 rte_eth_event

definition lsc_do :: "'w cb_api \<Rightarrow> lsc_event \<Rightarrow> lsc_counters \<times> 'w \<Rightarrow> (lsc_counters \<times> 'w) option" where
  "lsc_do A ev s = (case ev of
     Reg p \<Rightarrow> map_option snd (lsc_counters_callback_register A p s)
   | Unreg p \<Rightarrow> map_option snd (lsc_counters_callback_unregister A p s)
   | Driver p e \<Rightarrow> Some (if p \<in> registered A (snd s) \<and> e = RTE_ETH_EVENT_INTR_LSC
       then ((fst s)[unat p := lsc_counters_callback e (fst s ! unat p)], snd s) else s))"

fun lsc_run :: "'w cb_api \<Rightarrow> lsc_event list \<Rightarrow> lsc_counters \<times> 'w \<Rightarrow> (lsc_counters \<times> 'w) option" where
  "lsc_run A [] s = Some s"
| "lsc_run A (ev # evs) s = Option.bind (lsc_do A ev s) (lsc_run A evs)"

text \<open>Link state changes of a port that fall in a period of registration, read off the calls and their results.\<close>

fun changes :: "'w cb_api \<Rightarrow> u16 \<Rightarrow> lsc_event list \<Rightarrow> bool \<Rightarrow> 'w \<Rightarrow> nat" where
  "changes A p [] on w = 0"
| "changes A p (Reg q # evs) on w =
     (if is_valid_port A q w then case callback_register A q w of
        (rc, w') \<Rightarrow> changes A p evs (on \<or> (q = p \<and> rc = 0)) w' else changes A p evs on w)"
| "changes A p (Unreg q # evs) on w =
     (if is_valid_port A q w then case callback_unregister A q w of
        (rc, w') \<Rightarrow> changes A p evs (on \<and> \<not> (q = p \<and> rc = 0)) w' else changes A p evs on w)"
| "changes A p (Driver q e # evs) on w =
     (if on \<and> q = p \<and> e = RTE_ETH_EVENT_INTR_LSC then 1 else 0) + changes A p evs on w"

lemma set_enabled_counter:
  assumes "set_enabled v q c = Some c'"
  shows "length c' = length c \<and> (unat p < length c \<longrightarrow> counter (c' ! unat p) = counter (c ! unat p))"
  using assms by (auto simp: set_enabled_def nth_list_update split: if_splits)

lemma unat_neq: "q \<noteq> p \<Longrightarrow> unat q \<noteq> unat p"
  by (simp add: word_unat_eq_iff)

lemma lsc_run_counts:
  assumes "cb_contract A" "lsc_run A evs (c, w) = Some (c', w')" "unat p < length c"
  shows "length c' = length c \<and>
    counter (c' ! unat p) = counter (c ! unat p) + of_nat (changes A p evs (p \<in> registered A w) w)"
  using assms(2,3)
proof (induction evs arbitrary: c w)
  case (Cons ev evs)
  obtain c1 w1 where s1: "lsc_do A ev (c, w) = Some (c1, w1)" "lsc_run A evs (c1, w1) = Some (c', w')"
    using Cons.prems(1) by (auto simp: bind_eq_Some_conv)
  show ?case
  proof (cases ev)
    case (Reg q)
    obtain rc w2 where r: "callback_register A q w = (rc, w2)" by fastforce
    have reg: "registered A w2 = (if rc = 0 then insert q (registered A w) else registered A w)"
      using assms(1) r by (auto simp: cb_contract_def)
    have "length c1 = length c \<and> counter (c1 ! unat p) = counter (c ! unat p)" "w1 = (if is_valid_port A q w then w2 else w)"
      using s1(1) Reg r Cons.prems(2) set_enabled_counter [of 1 q c c1 p]
      by (auto simp: lsc_do_def lsc_counters_callback_register_def bind_eq_Some_conv split: if_splits)
    then show ?thesis using Cons.IH [OF s1(2)] Cons.prems(2) Reg r reg by (cases "p = q") auto
  next
    case (Unreg q)
    obtain rc w2 where r: "callback_unregister A q w = (rc, w2)" by fastforce
    have reg: "registered A w2 = (if rc = 0 then registered A w - {q} else registered A w)"
      using assms(1) r by (auto simp: cb_contract_def)
    have "length c1 = length c \<and> counter (c1 ! unat p) = counter (c ! unat p)" "w1 = (if is_valid_port A q w then w2 else w)"
      using s1(1) Unreg r Cons.prems(2) set_enabled_counter [of 0 q c c1 p]
      by (auto simp: lsc_do_def lsc_counters_callback_unregister_def bind_eq_Some_conv split: if_splits)
    then show ?thesis using Cons.IH [OF s1(2)] Cons.prems(2) Unreg r reg by (cases "p = q") auto
  next
    case (Driver q e)
    have "length c1 = length c" "w1 = w" "counter (c1 ! unat p) = counter (c ! unat p) +
        (if p \<in> registered A w \<and> q = p \<and> e = RTE_ETH_EVENT_INTR_LSC then 1 else 0)"
      using s1(1) Driver Cons.prems(2) unat_neq [of q p]
      by (cases "q = p"; auto simp: lsc_do_def lsc_counters_callback_def split: if_splits)+
    then show ?thesis using Cons.IH [OF s1(2)] Cons.prems(2) Driver by simp
  qed
qed simp

text \<open>A decimal number is read back whole.\<close>

lemma digit_char_0: "digit_char 0 = CHR ''0''"
  unfolding digit_char_def by code_simp

lemma hd_dec_str: "hd (dec_str n) = CHR ''0'' \<longleftrightarrow> n = 0"
proof (induction n rule: dec_str.induct)
  case (1 n)
  have "digit_char n = CHR ''0'' \<longleftrightarrow> n = 0" if "n < 10"
  proof
    assume "digit_char n = CHR ''0''"
    then have "digit_val (digit_char n) = digit_val (digit_char 0)" by (simp add: digit_char_0)
    then show "n = 0" using that by simp
  qed (simp add: digit_char_0)
  then show ?case using 1 by (subst dec_str.simps) (auto simp: hd_append div_eq_0_iff)
qed

lemma dec_str_read:
  assumes "ch \<in> set (dec_str n)"
  shows "digit_of ch = digit_val ch" "digit_of ch < 10" "\<not> c_isspace ch" "ch \<noteq> CHR ''-''" "ch \<noteq> CHR ''+''" "ch \<noteq> CHR ''x''" "ch \<noteq> CHR ''X''"
  using dec_str_digits [OF assms] by (auto simp: digit_of_def digit_val_def c_isspace_def Let_def)

lemma digits_value_dec_str: "digits_value 10 (dec_str n) = n"
proof -
  have "foldl (\<lambda>m ch. 10 * m + digit_of ch) 0 (dec_str n) = foldl (\<lambda>m ch. 10 * m + digit_val ch) 0 (dec_str n)"
    using dec_str_read(1) by (intro foldl_cong) auto
  then show ?thesis using read_dec_dec_str [of n] by (simp add: digits_value_def read_dec_def)
qed

lemma strtoul_dec_str:
  assumes "n < 2 ^ 64"
  shows "strtoul (dec_str n) = (of_nat n, [])"
proof (cases "n = 0")
  case True
  have "dec_str 0 = ''0''" by (subst dec_str.simps) (simp add: digit_char_0)
  then show ?thesis using True
    by (simp add: strtoul_def c_isspace_def strtoul_base_def digit_of_def digits_value_def Let_def)
next
  case False
  obtain d ds where s: "dec_str n = d # ds" by (cases "dec_str n") auto
  have d: "d \<noteq> CHR ''0''" "\<not> c_isspace d" "d \<noteq> CHR ''-''" "d \<noteq> CHR ''+''"
    using hd_dec_str [of n] False s dec_str_read [of d n] by auto
  have "strtoul_base (d # ds) = (10, d # ds)" using d(1) by (simp add: strtoul_base_def split: list.splits)
  moreover have "takeWhile (\<lambda>ch. digit_of ch < 10) (d # ds) = d # ds"
    using dec_str_read(2) [of _ n] s by (simp add: takeWhile_eq_all_conv)
  ultimately show ?thesis using d digits_value_dec_str [of n] assms s by (simp add: strtoul_def Let_def)
qed

text \<open>
  The check of the port truncates the number to sixteen bits while the index does not: a number of \<^term>\<open>2 ^ 16\<close>
  or more whose low half is a valid port reads outside the array.
\<close>

lemma port_index: "n < 2 ^ 31 \<Longrightarrow> sint (ucast (of_nat n :: u64) :: u32) = int n"
proof -
  assume n: "n < 2 ^ 31"
  then have "(ucast (of_nat n :: u64) :: u32) = of_nat n" by (simp add: word_uint_eq_iff uint_word_of_int unsigned_of_nat take_bit_nat_eq_self)
  then show ?thesis using n by (simp add: signed_of_nat signed_take_bit_int_eq_self)
qed

lemma ethdev_lsc_out_of_bounds:
  assumes "is_valid_port A p w" "length c \<le> 2 ^ 16" "k > 0" "unat p + k * 2 ^ 16 < 2 ^ 31"
  shows "ethdev_lsc A (Some (dec_str (unat p + k * 2 ^ 16))) (c, w) = None"
proof -
  define n where "n = unat p + k * 2 ^ 16"
  have low: "(word_of_int (int n) :: u16) = p"
  proof -
    have "unat (of_nat m :: u16) = m mod 2 ^ 16" for m by (simp add: unsigned_of_nat take_bit_eq_mod)
    then have "unat (of_nat n :: u16) = n mod 2 ^ 16" by blast
    also have "\<dots> = unat p" using unat_mod_small [of p] by (simp add: n_def)
    finally show ?thesis by (simp only: word_unat_eq_iff of_int_of_nat_eq)
  qed
  have big: "length c \<le> n" using assms(2,3) by (cases k) (simp_all add: n_def)
  have "n < 2 ^ 31" using assms(4) by (simp add: n_def)
  then show ?thesis
    unfolding n_def [symmetric] ethdev_lsc_def
    using assms(1) low big strtoul_dec_str [of n] port_index [of n] by (simp add: Let_def)
qed

text \<open>C24: whatever the order of registrations, unregistrations and driver events, the telemetry command asked for a valid port by its decimal number answers with the number of link state changes of that port that fell in its periods of registration, modulo 2 ^ 64.\<close>

theorem telemetry_reports_changes:
  assumes "cb_contract A" "lsc_run A evs (c, w) = Some (c', w')"
    and "unat p < length c" "length c \<le> 2 ^ 16" "counter (c ! unat p) = 0" "is_valid_port A p w'"
  shows "\<exists>en. ethdev_lsc A (Some (dec_str (unat p))) (c', w') =
    Some (0, Some (en, of_nat (changes A p evs (p \<in> registered A w) w)))"
proof -
  have c': "length c' = length c" "counter (c' ! unat p) = of_nat (changes A p evs (p \<in> registered A w) w)"
    using lsc_run_counts [OF assms(1,2,3)] assms(5) by simp_all
  define n where "n = unat p"
  have small: "n < 2 ^ 31" using unat_mod_small [of p] by (simp add: n_def)
  have "(word_of_int (int n) :: u16) = p" "n < length c'" using assms(3) c'(1) by (simp_all add: n_def)
  then show ?thesis
    unfolding c'(2) [symmetric] n_def [symmetric] ethdev_lsc_def
    using assms(6) strtoul_dec_str [of n] port_index [OF small] small by (simp add: Let_def)
qed

text \<open>A driver with two ports on which every registration succeeds.\<close>

definition two_ports :: "u16 set cb_api" where
  "two_ports = \<lparr>is_valid_port = \<lambda>p _. p < 2, callback_register = \<lambda>p w. (0, insert p w),
     callback_unregister = \<lambda>p w. (0, w - {p}), registered = \<lambda>w. w\<rparr>"

theorem telemetry_reports_changes_witness:
  "\<exists>s en. lsc_run two_ports [Reg 1, Driver 1 RTE_ETH_EVENT_INTR_LSC, Driver 0 RTE_ETH_EVENT_INTR_LSC,
      Driver 1 RTE_ETH_EVENT_INTR_LSC, Unreg 1, Driver 1 RTE_ETH_EVENT_INTR_LSC]
      (replicate 32 \<lparr>enabled = 0, counter = 0\<rparr>, {}) = Some s \<and>
    ethdev_lsc two_ports (Some (dec_str 1)) s = Some (0, Some (en, 2))"
proof -
  let ?evs = "[Reg 1, Driver 1 RTE_ETH_EVENT_INTR_LSC, Driver 0 RTE_ETH_EVENT_INTR_LSC,
      Driver 1 RTE_ETH_EVENT_INTR_LSC, Unreg 1, Driver 1 RTE_ETH_EVENT_INTR_LSC]"
    and ?c = "replicate 32 \<lparr>enabled = 0, counter = 0\<rparr> :: lsc_counters"
  have con: "cb_contract two_ports" by (simp add: cb_contract_def two_ports_def)
  obtain c' w' where run: "lsc_run two_ports ?evs (?c, {}) = Some (c', w')"
    by (simp add: lsc_do_def two_ports_def lsc_counters_callback_register_def lsc_counters_callback_unregister_def set_enabled_def)
  have ch: "changes two_ports 1 ?evs (1 \<in> registered two_ports {}) {} = 2" by (simp add: two_ports_def)
  have "\<exists>en. ethdev_lsc two_ports (Some (dec_str (unat (1 :: u16)))) (c', w') = Some (0, Some (en, of_nat 2))"
    using telemetry_reports_changes [OF con run, of 1] ch by (simp add: two_ports_def)
  then show ?thesis using run by auto
qed

end
