(* ===== verification/Port_Setup.thy ===== *)
theory Port_Setup
  imports Ethdev_Info Lsc Pools Util_Hash Flow Sniffer
begin

text \<open>
  Bringing up the ports of the test-sniffer application: memory pools per port
  (src/app/test-sniffer/mempool.go), configuration of a port (port.go), the hooks that run afterwards (util.go),
  the sequence of the whole start (init.go) and the counters of the receive queues (queue_count.go).

  The DPDK functions, with what else the code cannot decide, are the record \<open>env\<close>; the state \<open>sys\<close> is the world
  of the driver, the C heap, the link state counters and the objects of flow rules.  A function that can panic
  has an optional result; output to the console is left out.
\<close>

section \<open>State\<close>

record 'w env =
  en_errnos :: rte_errnos
  en_eth :: "'w eth_api"
  en_info :: "'w info_api"
  en_cb :: "'w cb_api"
  en_pool :: "'w mempool_api"
  en_flow :: "'w flow_api"
  en_consts :: flow_consts
  en_old :: bool
  en_malloc :: "pheap \<Rightarrow> pptr"
  en_cmalloc :: "cheap \<Rightarrow> cptr"
  en_ref :: "(nat \<rightharpoonup> flow_object) \<Rightarrow> nat"
  en_fuel :: nat
  en_hook_text :: "nat \<Rightarrow> string"
  en_flow_error :: "'w \<Rightarrow> string"

record 'w sys =
  sy_w :: 'w
  sy_heap :: pheap
  sy_lsc :: lsc_counters
  sy_flow :: flow_state

type_synonym 'w action = "'w sys \<Rightarrow> (error \<times> 'w sys) option"

section \<open>Memory pools\<close>

text \<open>\<^verbatim>\<open>CmdMempool\<close> with the flags of the command line.\<close>

definition CmdMempool_NewMempool ::
  "'w env \<Rightarrow> int \<Rightarrow> int \<Rightarrow> string \<Rightarrow> mp_Option list \<Rightarrow> 'w \<Rightarrow> (addr \<times> error) \<times> 'w" where
  "CmdMempool_NewMempool E mbufElts mbufSize name opts w =
     CreateMbufPool (en_errnos E) (en_pool E) name (word_of_int mbufElts) (word_of_int mbufSize) opts w"

fun pools_loop ::
  "'w env \<Rightarrow> (string \<Rightarrow> mp_Option list \<Rightarrow> 'w \<Rightarrow> (addr \<times> error) \<times> 'w) \<Rightarrow> string \<Rightarrow> mp_Option list \<Rightarrow> nat list \<Rightarrow> addr list \<Rightarrow> 'w
    \<Rightarrow> (error \<times> addr list) \<times> 'w" where
  "pools_loop E src pre opts [] pools w = ((None, pools), w)"
| "pools_loop E src pre opts (i # is) pools w =
     (let pid = of_nat i in
      if IsValid (en_eth E) pid w then
        (case src (pre @ ''_'' @ dec_str i) (mp_OptSocket (Ethdev_Info.SocketID (en_info E) pid w) # opts) w of
           ((mp, Some e), w) \<Rightarrow> ((Some e, pools[i := mp]), w)
         | ((mp, None), w) \<Rightarrow> pools_loop E src pre opts is (pools[i := mp]) w)
      else pools_loop E src pre opts is pools w)"

definition NewMempoolPerPort ::
  "'w env \<Rightarrow> string \<Rightarrow> (string \<Rightarrow> mp_Option list \<Rightarrow> 'w \<Rightarrow> (addr \<times> error) \<times> 'w) \<Rightarrow> mp_Option list \<Rightarrow> 'w
    \<Rightarrow> (error + addr list) \<times> 'w" where
  "NewMempoolPerPort E pre src opts w =
     (let n = nat (CountTotal (en_info E) w) in
      case pools_loop E src pre opts [0..<n] (replicate n nil) w of
        ((Some e, _), w) \<Rightarrow> (Inl (Some e), w)
      | ((None, pools), w) \<Rightarrow> (Inr pools, w))"

definition GetRxMempool :: "'w env \<Rightarrow> addr list \<Rightarrow> u16 \<Rightarrow> 'w \<Rightarrow> (addr \<times> error) option" where
  "GetRxMempool E pools pid w =
     (if \<not> IsValid (en_eth E) pid w then Some (nil, Some OsErrInvalid)
      else if unat pid < length pools then Some (pools ! unat pid, None) else None)"

definition FreeMempools :: "(addr \<Rightarrow> 'w \<Rightarrow> 'w) \<Rightarrow> addr list \<Rightarrow> 'w \<Rightarrow> 'w" where
  "FreeMempools rte_mempool_free pools w = fold rte_mempool_free pools w"

section \<open>Configuration of a port\<close>

record 'w EthdevConfig =
  Options :: "eth_Option list"
  RxQueues :: u16
  TxQueues :: u16
  HairpinQueues :: u16
  OnConfig :: "(u16 \<Rightarrow> 'w action) list"
  Pooler :: "addr list"
  RxDescriptors :: u16
  TxDescriptors :: u16
  RxOptions :: "(qConf \<Rightarrow> qConf) list"
  TxOptions :: "(qConf \<Rightarrow> qConf) list"
  FcMode :: u32

text \<open>The loops over the queues count an \<^verbatim>\<open>uint16\<close> up to a bound of that type; \<open>k\<close> turns are left.\<close>

fun rxq_loop :: "'w env \<Rightarrow> 'w EthdevConfig \<Rightarrow> u16 \<Rightarrow> nat \<Rightarrow> u16 \<Rightarrow> 'w \<Rightarrow> (error \<times> 'w) option" where
  "rxq_loop E cf pid 0 qid w = Some (None, w)"
| "rxq_loop E cf pid (Suc k) qid w = do {
     (mp, e) \<leftarrow> GetRxMempool E (Pooler cf) pid w;
     if e \<noteq> None then Some (e, w)
     else case RxqSetup (en_errnos E) (en_eth E) pid qid (RxDescriptors cf) mp (RxOptions cf) w of
        (Some e, w) \<Rightarrow> Some (Some e, w)
      | (None, w) \<Rightarrow> rxq_loop E cf pid k (qid + 1) w }"

fun txq_loop :: "'w env \<Rightarrow> 'w EthdevConfig \<Rightarrow> u16 \<Rightarrow> nat \<Rightarrow> u16 \<Rightarrow> 'w \<Rightarrow> error \<times> 'w" where
  "txq_loop E cf pid 0 qid w = (None, w)"
| "txq_loop E cf pid (Suc k) qid w =
     (case TxqSetup (en_errnos E) (en_eth E) pid qid (TxDescriptors cf) (TxOptions cf) w of
        (Some e, w) \<Rightarrow> (Some e, w)
      | (None, w) \<Rightarrow> txq_loop E cf pid k (qid + 1) w)"

fun hooks_loop :: "'w env \<Rightarrow> u16 \<Rightarrow> nat \<Rightarrow> (u16 \<Rightarrow> 'w action) list \<Rightarrow> 'w action" where
  "hooks_loop E pid i [] s = Some (None, s)"
| "hooks_loop E pid i (hook # hooks) s = do {
     (e, s) \<leftarrow> hook pid s;
     if e \<noteq> None then Some (ErrWrapf e (''OnConfig '' @ dec_str i @ '': '' @ en_hook_text E i), s)
     else hooks_loop E pid (Suc i) hooks s }"

text \<open>The choice of options: an interrupt on link state changes if the device has it.\<close>

definition lsc_option :: "'w env \<Rightarrow> 'w EthdevConfig \<Rightarrow> u16 \<Rightarrow> u32 \<Rightarrow> 'w sys \<Rightarrow> (eth_Option list \<times> 'w sys) option" where
  "lsc_option E cf pid flags s =
     (if IsIntrLSC (en_info E) flags
      then do { (_, c, w) \<leftarrow> RegisterCallbackLSC (en_errnos E) (en_cb E) pid (sy_lsc s, sy_w s);
                Some (Options cf @ [Intr \<lparr>LSC = True, RXQ = False, RMV = False\<rparr>], s\<lparr>sy_lsc := c, sy_w := w\<rparr>) }
      else Some (Options cf, s))"

definition Configure :: "'w env \<Rightarrow> 'w EthdevConfig \<Rightarrow> u16 \<Rightarrow> 'w action" where
  "Configure E cf pid s =
     (let (e, info) = Ethdev_Info.InfoGet (en_errnos E) (en_info E) pid zero_info (sy_w s) in
      if e \<noteq> None then Some (e, s) else do {
        flags \<leftarrow> DevFlags info;
        (opts, s) \<leftarrow> lsc_option E cf pid flags s;
        (e, h, w) \<leftarrow> DevConfigure (en_errnos E) (en_eth E) (en_old E) (en_malloc E) pid
           (RxQueues cf + HairpinQueues cf) (TxQueues cf + HairpinQueues cf) opts (sy_heap s) (sy_w s);
        let s = s\<lparr>sy_heap := h, sy_w := w\<rparr>;
        if e \<noteq> None then Some (e, s) else do {
          let (e, w) = PromiscEnable (en_errnos E) (en_eth E) pid (sy_w s);
          let s = s\<lparr>sy_w := w\<rparr>;
          if e \<noteq> None then Some (e, s) else do {
            (e, w) \<leftarrow> rxq_loop E cf pid (unat (RxQueues cf)) 0 (sy_w s);
            let s = s\<lparr>sy_w := w\<rparr>;
            if e \<noteq> None then Some (e, s) else do {
              let (e, w) = txq_loop E cf pid (unat (TxQueues cf)) 0 (sy_w s);
              let s = s\<lparr>sy_w := w\<rparr>;
              if e \<noteq> None then Some (e, s) else do {
                s \<leftarrow> (if HairpinQueues cf > 0 then do {
                       (_, w) \<leftarrow> HairpinQueueSetup (en_errnos E) (en_eth E) (en_fuel E) pid (RxQueues cf) (TxQueues cf)
                         (HairpinQueues cf) (RxDescriptors cf) (TxDescriptors cf) (sy_w s);
                       Some (s\<lparr>sy_w := w\<rparr>) }
                     else Some s);
                hooks_loop E pid 0 (OnConfig cf) s }}}}})"

section \<open>Hooks\<close>

definition driverName :: "'w env \<Rightarrow> u16 \<Rightarrow> 'w \<Rightarrow> string option" where
  "driverName E pid w =
     (let (e, devInfo) = Ethdev_Info.InfoGet (en_errnos E) (en_info E) pid zero_info w in
      if e \<noteq> None then Some [] else DriverName devInfo)"

definition ifaceName :: "'w env \<Rightarrow> u16 \<Rightarrow> 'w \<Rightarrow> string option" where
  "ifaceName E pid w = map_option fst (Name (en_errnos E) (en_info E) pid w)"

text \<open>A Go object made for a rule is a new reference, which no rule holds.\<close>

definition new_obj :: "'w env \<Rightarrow> flow_obj \<Rightarrow> flow_state \<Rightarrow> nat \<times> flow_state" where
  "new_obj E d st = (let r = en_ref E (objs st) in (r, st\<lparr>objs := (objs st)(r \<mapsto> \<lparr>odata = d, ocptr = 0\<rparr>)\<rparr>))"

definition ingress_attr :: Attr where
  "ingress_attr = \<lparr>attr_Group = 0, attr_Priority = 0, attr_Ingress = True, attr_Egress = False, attr_Transfer = False\<rparr>"

definition plain_item :: "u32 \<Rightarrow> Item" where
  "plain_item t = \<lparr>Spec = Some (Plain t), Last = None, Mask = None\<rparr>"

text \<open>The error returned is the \<^verbatim>\<open>flow.Error\<close> structure, whatever the driver has left in it.\<close>

definition rssEthVlanIPv4 :: "'w env \<Rightarrow> u32 \<Rightarrow> u16 \<Rightarrow> RssConf \<Rightarrow> 'w sys \<Rightarrow> ((addr \<times> error) \<times> 'w sys) option" where
  "rssEthVlanIPv4 E toeplitz pid cf s = do {
     let K = en_consts E;
     let pat = [plain_item (ItemTypeEth K), plain_item (ItemTypeVlan K), plain_item (ItemTypeIPv4 K)];
     let (r, st) = new_obj E (ORSS \<lparr>Func = toeplitz, Queues = [], rss_Key = [], Level = 0, rss_Types = Hf cf\<rparr>) (sy_flow s);
     (e, st) \<leftarrow> Validate (en_errnos E) (en_flow E) (en_cmalloc E) K pid ingress_attr pat [Some (Obj r)] (st, sy_w s);
     if e \<noteq> None then Some ((nil, Some (ErrMsg (en_flow_error E (sy_w s)))), s\<lparr>sy_flow := st\<rparr>) else do {
       ((f, e), st, w) \<leftarrow> Create (en_errnos E) (en_flow E) (en_cmalloc E) K pid ingress_attr pat [Some (Obj r)] (st, sy_w s);
       let s = s\<lparr>sy_flow := st, sy_w := w\<rparr>;
       Some (if e = None then (f, None) else (nil, Some (ErrMsg (en_flow_error E w))), s) } }"

text \<open>The variant for Mellanox devices, of which only a commented call is left, spreads over every configured queue.\<close>

definition mlxRssEthVlanIPv4 :: "'w env \<Rightarrow> u32 \<Rightarrow> u16 \<Rightarrow> RssConf \<Rightarrow> 'w sys \<Rightarrow> ((addr \<times> error) \<times> 'w sys) option" where
  "mlxRssEthVlanIPv4 E toeplitz pid cf s = do {
     let K = en_consts E;
     let pat = [plain_item (ItemTypeEth K), plain_item (ItemTypeIPv4 K)];
     let (e, info) = Ethdev_Info.InfoGet (en_errnos E) (en_info E) pid zero_info (sy_w s);
     if e \<noteq> None then Some ((nil, e), s) else do {
     let (r, st) = new_obj E (ORSS \<lparr>Func = toeplitz, Queues = queuesSeq (unat (NbRxQueues info)), rss_Key = Key cf, Level = 0,
       rss_Types = Hf cf\<rparr>) (sy_flow s);
     (e, st) \<leftarrow> Validate (en_errnos E) (en_flow E) (en_cmalloc E) K pid ingress_attr pat [Some (Obj r)] (st, sy_w s);
     if e \<noteq> None then Some ((nil, Some (ErrMsg (en_flow_error E (sy_w s)))), s\<lparr>sy_flow := st\<rparr>) else do {
       ((f, e), st, w) \<leftarrow> Create (en_errnos E) (en_flow E) (en_cmalloc E) K pid ingress_attr pat [Some (Obj r)] (st, sy_w s);
       let s = s\<lparr>sy_flow := st, sy_w := w\<rparr>;
       Some (if e = None then (f, None) else (nil, Some (ErrMsg (en_flow_error E w))), s) } } }"

definition RssConfig_EthdevCall :: "'w env \<Rightarrow> u32 \<Rightarrow> RssConf \<Rightarrow> u16 \<Rightarrow> 'w action" where
  "RssConfig_EthdevCall E toeplitz cf pid s = do {
     drv \<leftarrow> driverName E pid (sy_w s);
     if drv = ''mlx5_pci'' then Some (None, s)
     else if drv = ''net_af_packet'' \<or> drv = ''net_ice''
     then map_option (\<lambda>((_, e), s). (e, s)) (rssEthVlanIPv4 E toeplitz pid cf s)
     else Some (None, s) }"

text \<open>\<^verbatim>\<open>EthdevCallbackFunc((ethdev.Port).Start)\<close>.\<close>

definition Start_hook :: "'w env \<Rightarrow> u16 \<Rightarrow> 'w action" where
  "Start_hook E pid s = (let (e, w) = Start (en_errnos E) (en_eth E) pid (sy_w s) in Some (e, s\<lparr>sy_w := w\<rparr>))"

section \<open>Start of the application\<close>

record app_flags =
  mbufElts :: int
  mbufSize :: int
  poolCache :: int
  rxQueues :: int
  txQueues :: int
  hairpinQueues :: int
  rxDesc :: int
  txDesc :: int
  isolate :: int
  flag_FcMode :: u32
  toeplitz :: u32

text \<open>\<open>st_ids\<close> and \<open>st_port\<close> are the identifiers and the counters of a port.\<close>

record app_stat =
  st_pid :: u16
  st_ids :: "u64 list"
  st_port :: portStat

record App =
  ap_pools :: "addr list"
  ap_Ports :: "u16 list"
  ap_Stats :: "app_stat list"
  ap_Work :: "nat \<Rightarrow> PortQueue option"
  ap_Flows :: "addr list"

text \<open>
  \<^verbatim>\<open>NewStats\<close> without the registration of the counters in Prometheus.  \<open>xnames\<close> is \<^verbatim>\<open>XstatNameIDs\<close> of a port and \<open>enum\<close>
  the order in which Go ranges over its result; \<open>words\<close> is the size of the statistics structure.
\<close>

fun NewStats ::
  "'w env \<Rightarrow> (u16 \<Rightarrow> 'w \<Rightarrow> (u64 \<rightharpoonup> string) option \<times> error) \<Rightarrow> ((u64 \<rightharpoonup> string) \<Rightarrow> (u64 \<times> string) list) \<Rightarrow> nat \<Rightarrow> 'w \<Rightarrow> u16 list \<Rightarrow> app_stat list
    \<Rightarrow> (error + app_stat list) option" where
  "NewStats E xnames enum words w [] acc = Some (Inr acc)"
| "NewStats E xnames enum words w (pid # pids) acc =
     (let (e, devInfo) = Ethdev_Info.InfoGet (en_errnos E) (en_info E) pid zero_info w in
      if e \<noteq> None then Some (Inl e) else do {
        (devName, e) \<leftarrow> Name (en_errnos E) (en_info E) pid w;
        if e \<noteq> None then Some (Inl e) else do {
          _ \<leftarrow> DriverName devInfo;
          (case xnames pid w of
             (_, Some e) \<Rightarrow> Some (Inl (Some e))
           | (ns, None) \<Rightarrow>
               let ids = map fst (enum (case ns of None \<Rightarrow> Map.empty | Some m \<Rightarrow> m)); n = length ids in
               NewStats E xnames enum words w pids (acc @ [\<lparr>st_pid = pid, st_ids = ids,
                 st_port = \<lparr>prevStats = replicate words 0, curStats = replicate words 0, counters = replicate 8 0,
                   prevVals = replicate n 0, curVals = replicate n 0, xcounters = replicate n 0\<rparr>\<rparr>])) }})"

text \<open>\<^verbatim>\<open>printPortConfig\<close> reads and prints; what matters here is that it may panic.\<close>

definition printPortConfig :: "'w env \<Rightarrow> u16 \<Rightarrow> 'w \<Rightarrow> error option" where
  "printPortConfig E pid w =
     (let (e, info) = Ethdev_Info.InfoGet (en_errnos E) (en_info E) pid zero_info w in
      if e \<noteq> None then Some e
      else let (e, cf) = DevConfGet (en_errnos E) (en_info E) pid (conf zero_ethConf) w in
        if e \<noteq> None then Some e else do {
          _ \<leftarrow> DriverName info;
          _ \<leftarrow> DevFlags info;
          _ \<leftarrow> printTXOffloads (DevConf_TxOffloadCapa cf);
          Some None })"

fun ports_loop :: "'w env \<Rightarrow> int \<Rightarrow> 'w EthdevConfig \<Rightarrow> u16 list \<Rightarrow> 'w action" where
  "ports_loop E isol cf [] s = Some (None, s)"
| "ports_loop E isol cf (pid # pids) s = do {
     (e, s) \<leftarrow> Some (if isol \<noteq> 0 then let (e, w) = Isolate (en_errnos E) (en_flow E) pid 1 (sy_w s) in (e, s\<lparr>sy_w := w\<rparr>)
                      else (None, s));
     if e \<noteq> None then Some (e, s) else do {
       _ \<leftarrow> ifaceName E pid (sy_w s);
       (e, s) \<leftarrow> Configure E cf pid s;
       if e \<noteq> None then Some (e, s) else do {
         _ \<leftarrow> printPortConfig E pid (sy_w s);
         ports_loop E isol cf pids s }}}"

definition zero_ipv4_item :: flow_obj where
  "zero_ipv4_item = OIPv4 \<lparr>VersionIHL = 0, ToS = 0, h4_TotalLength = 0, h4_ID = 0, h4_FragmentOffset = 0, TTL = 0,
     h4_Proto = 0, h4_Checksum = 0, h4_SrcAddr = replicate 4 0, h4_DstAddr = replicate 4 0\<rparr>"

fun flows_loop :: "'w env \<Rightarrow> int \<Rightarrow> u16 list \<Rightarrow> addr list \<Rightarrow> 'w sys \<Rightarrow> ((error + addr list) \<times> 'w sys) option" where
  "flows_loop E isol [] fs s = Some (Inr fs, s)"
| "flows_loop E isol (pid # pids) fs s =
     (if isol = 0 then flows_loop E isol pids fs s else do {
        let K = en_consts E;
        let (spec, st) = new_obj E zero_ipv4_item (sy_flow s);
        let (mask, st) = new_obj E zero_ipv4_item st;
        let (cnt, st) = new_obj E (OCount 0) st;
        let (que, st) = new_obj E (OQueue 0) st;
        let pat = [plain_item (ItemTypeEth K), \<lparr>Spec = Some (Obj spec), Last = None, Mask = Some (Obj mask)\<rparr>];
        let act = [Some (Obj cnt), Some (Obj que)];
        (e, st) \<leftarrow> Validate (en_errnos E) (en_flow E) (en_cmalloc E) K pid ingress_attr pat act (st, sy_w s);
        if e \<noteq> None then Some (Inl e, s\<lparr>sy_flow := st\<rparr>) else do {
          ((f, e), st, w) \<leftarrow> Create (en_errnos E) (en_flow E) (en_cmalloc E) K pid ingress_attr pat act (st, sy_w s);
          let s = s\<lparr>sy_flow := st, sy_w := w\<rparr>;
          if e \<noteq> None then Some (Inl e, s) else flows_loop E isol pids (fs @ [f]) s }})"

text \<open>What \<^verbatim>\<open>DistributeQueues\<close> asks of a port, read in the world \<open>w\<close>.\<close>

definition port_of :: "'w env \<Rightarrow> 'w \<Rightarrow> nat \<Rightarrow> port_info" where
  "port_of E w pid =
     (let (e, info) = Ethdev_Info.InfoGet (en_errnos E) (en_info E) (of_nat pid) zero_info w in
      \<lparr>InfoGet = (case e of Some x \<Rightarrow> Inl x | None \<Rightarrow> Inr (unat (NbRxQueues info))),
       SocketID = Ethdev_Info.SocketID (en_info E) (of_nat pid) w\<rparr>)"

definition app_config :: "'w env \<Rightarrow> app_flags \<Rightarrow> addr list \<Rightarrow> 'w EthdevConfig" where
  "app_config E F pools =
     (let rssConf = \<lparr>Key = [], Hf = 0xf00000000003afbc\<rparr> in
      \<lparr>Options = [Rss rssConf, RxModeOpt \<lparr>rm_MqMode = ETH_MQ_RX_RSS, rm_MTU = 0, SplitHdrSize = 0, rm_Offloads = 0\<rparr>],
       RxQueues = word_of_int (rxQueues F), TxQueues = word_of_int (txQueues F), HairpinQueues = word_of_int (hairpinQueues F),
       OnConfig = [Start_hook E, RssConfig_EthdevCall E (toeplitz F) rssConf], Pooler = pools,
       RxDescriptors = word_of_int (rxDesc F), TxDescriptors = word_of_int (txDesc F), RxOptions = [], TxOptions = [],
       FcMode = flag_FcMode F\<rparr>)"

definition app_ports :: "'w env \<Rightarrow> 'w \<Rightarrow> u16 list" where
  "app_ports E w = filter (\<lambda>pid. IsValid (en_eth E) pid w) (map of_nat [0..<nat (CountTotal (en_info E) w)])"

definition newApp ::
  "'w env \<Rightarrow> app_flags \<Rightarrow> (u16 \<Rightarrow> 'w \<Rightarrow> (u64 \<rightharpoonup> string) option \<times> error) \<Rightarrow> ((u64 \<rightharpoonup> string) \<Rightarrow> (u64 \<times> string) list) \<Rightarrow> nat \<Rightarrow>
   (nat \<Rightarrow> nat) \<Rightarrow> nat list \<Rightarrow> 'w sys \<Rightarrow> ((error + App) \<times> 'w sys) option" where
  "newApp E F xnames enum words LcoreToSocket LcoresWorker s =
     (case NewMempoolPerPort E ''mbuf_pool'' (CmdMempool_NewMempool E (mbufElts F) (mbufSize F))
             [OptCacheSize (word_of_int (poolCache F)), OptOpsName ''ring_mp_mc'', OptPrivateDataSize 64] (sy_w s) of
        (Inl e, w) \<Rightarrow> Some (Inl e, s\<lparr>sy_w := w\<rparr>)
      | (Inr rxqPools, w) \<Rightarrow> do {
          let ports = app_ports E w;
          (e, s) \<leftarrow> ports_loop E (isolate F) (app_config E F rxqPools) ports (s\<lparr>sy_w := w\<rparr>);
          if e \<noteq> None then Some (Inl e, s) else do {
            m \<leftarrow> NewStats E xnames enum words (sy_w s) ports [];
            (case m of Inl e \<Rightarrow> Some (Inl e, s)
             | Inr metrics \<Rightarrow>
                 (case DistributeQueues LcoreToSocket (port_of E (sy_w s)) (map unat ports) LcoresWorker of
                    Inl e \<Rightarrow> Some (Inl (Some e), s)
                  | Inr work \<Rightarrow> do {
                      (r, s) \<leftarrow> flows_loop E (isolate F) ports [] s;
                      (case r of Inl e \<Rightarrow> Some (Inl e, s)
                       | Inr fs \<Rightarrow> Some (Inr \<lparr>ap_pools = rxqPools, ap_Ports = ports, ap_Stats = metrics,
                                           ap_Work = work, ap_Flows = fs\<rparr>, s)) })) }})"

text \<open>\<^verbatim>\<open>ReportFlowStats\<close> asks the first port for the counters of every flow and stops at the first failure.\<close>

fun ReportFlowStats :: "'w env \<Rightarrow> u16 list \<Rightarrow> addr list \<Rightarrow> 'w \<Rightarrow> error option" where
  "ReportFlowStats E ports [] w = Some None"
| "ReportFlowStats E ports (f # fs) w =
     (case ports of [] \<Rightarrow> None
      | p # _ \<Rightarrow> let (e, _) = Query (en_errnos E) (en_flow E) p f w in
          if e \<noteq> None then Some e else ReportFlowStats E ports fs w)"

section \<open>Counters of receive queues\<close>

record QueueCounter =
  qc_Packets :: nat
  qc_Bytes :: nat

text \<open>\<^verbatim>\<open>getLcoresCounter\<close> grows the slice up to the lcore and puts a new counter there.\<close>

definition getLcoresCounter :: "nat \<Rightarrow> QueueCounter option list \<Rightarrow> QueueCounter option list" where
  "getLcoresCounter lcore ls =
     (let extra = int lcore - int (length ls) + 1;
          ls = (if extra > 0 then ls @ replicate (nat extra) None else ls)
      in ls[lcore := Some \<lparr>qc_Packets = 0, qc_Bytes = 0\<rparr>])"

text \<open>
  \<open>reg\<close> holds the labels that are registered, as pairs of a metric's name and its labels; registering one twice
  panics, as does a port without a name.
\<close>

definition Register ::
  "'w env \<Rightarrow> nat \<Rightarrow> u16 \<Rightarrow> u16 \<Rightarrow> 'w \<Rightarrow> (string \<times> string \<times> string \<times> string) set \<times> QueueCounter option list
    \<Rightarrow> ((string \<times> string \<times> string \<times> string) set \<times> QueueCounter option list) option" where
  "Register E lcore pid qid w = (\<lambda>(reg, ls). do {
     let ls = getLcoresCounter lcore ls;
     (name, e) \<leftarrow> Name (en_errnos E) (en_info E) pid w;
     let lbl = (dec_str (unat pid), dec_str (unat qid), name);
     if e \<noteq> None \<or> (''rx_packets'', lbl) \<in> reg \<or> (''rx_bytes'', lbl) \<in> reg then None
     else Some (reg \<union> {(''rx_packets'', lbl), (''rx_bytes'', lbl)}, ls) })"

definition Incr :: "(addr \<Rightarrow> byte list) \<Rightarrow> addr list \<Rightarrow> QueueCounter \<Rightarrow> QueueCounter" where
  "Incr data pkts qc =
     (let dataLen = fold (\<lambda>p n. n + of_nat (length (data p))) pkts (0 :: u64) in
      qc\<lparr>qc_Packets := qc_Packets qc + length pkts, qc_Bytes := qc_Bytes qc + unat dataLen\<rparr>)"

section \<open>The plan of a configuration\<close>

text \<open>
  The reference: a list of steps, run one after another until the first error of a step whose error counts; that
  of the hairpin queues does not, since the code drops it.
\<close>

datatype setup_step = SDevice "eth_Option list" | SPromisc | SRxq u16 | STxq u16 | SHairpin | SHook nat

definition exec_step :: "'w env \<Rightarrow> 'w EthdevConfig \<Rightarrow> u16 \<Rightarrow> setup_step \<Rightarrow> 'w action" where
  "exec_step E cf pid st s = (case st of
     SDevice opts \<Rightarrow> map_option (\<lambda>(e, h, w). (e, s\<lparr>sy_heap := h, sy_w := w\<rparr>))
       (DevConfigure (en_errnos E) (en_eth E) (en_old E) (en_malloc E) pid
          (RxQueues cf + HairpinQueues cf) (TxQueues cf + HairpinQueues cf) opts (sy_heap s) (sy_w s))
   | SPromisc \<Rightarrow> Some (case PromiscEnable (en_errnos E) (en_eth E) pid (sy_w s) of (e, w) \<Rightarrow> (e, s\<lparr>sy_w := w\<rparr>))
   | SRxq q \<Rightarrow> do {
       (mp, e) \<leftarrow> GetRxMempool E (Pooler cf) pid (sy_w s);
       if e \<noteq> None then Some (e, s)
       else Some (case RxqSetup (en_errnos E) (en_eth E) pid q (RxDescriptors cf) mp (RxOptions cf) (sy_w s) of
         (e, w) \<Rightarrow> (e, s\<lparr>sy_w := w\<rparr>)) }
   | STxq q \<Rightarrow> Some (case TxqSetup (en_errnos E) (en_eth E) pid q (TxDescriptors cf) (TxOptions cf) (sy_w s) of
       (e, w) \<Rightarrow> (e, s\<lparr>sy_w := w\<rparr>))
   | SHairpin \<Rightarrow> map_option (\<lambda>(e, w). (e, s\<lparr>sy_w := w\<rparr>))
       (HairpinQueueSetup (en_errnos E) (en_eth E) (en_fuel E) pid (RxQueues cf) (TxQueues cf) (HairpinQueues cf)
          (RxDescriptors cf) (TxDescriptors cf) (sy_w s))
   | SHook i \<Rightarrow> map_option (\<lambda>(e, s). (ErrWrapf e (''OnConfig '' @ dec_str i @ '': '' @ en_hook_text E i), s))
       ((OnConfig cf ! i) pid s))"

fun error_counts :: "setup_step \<Rightarrow> bool" where
  "error_counts SHairpin = False"
| "error_counts _ = True"

fun run_steps :: "'w env \<Rightarrow> 'w EthdevConfig \<Rightarrow> u16 \<Rightarrow> setup_step list \<Rightarrow> 'w action" where
  "run_steps E cf pid [] s = Some (None, s)"
| "run_steps E cf pid (st # sts) s = do {
     (e, s) \<leftarrow> exec_step E cf pid st s;
     if e \<noteq> None \<and> error_counts st then Some (e, s) else run_steps E cf pid sts s }"

definition setup_plan :: "'w EthdevConfig \<Rightarrow> eth_Option list \<Rightarrow> setup_step list" where
  "setup_plan cf opts = SDevice opts # SPromisc #
     map (\<lambda>q. SRxq (of_nat q)) [0..<unat (RxQueues cf)] @ map (\<lambda>q. STxq (of_nat q)) [0..<unat (TxQueues cf)] @
     (if HairpinQueues cf > 0 then [SHairpin] else []) @ map SHook [0..<length (OnConfig cf)]"

lemma of_nat_u16_inject: "x < 2 ^ 16 \<Longrightarrow> y < 2 ^ 16 \<Longrightarrow> (of_nat x :: u16) = of_nat y \<longleftrightarrow> x = y"
  by (auto simp: word_unat_eq_iff unsigned_of_nat take_bit_nat_eq_self)

lemma steps_from_Suc: "map (\<lambda>j. f (q + of_nat j)) [0..<Suc k] = f q # map (\<lambda>j. f (q + 1 + of_nat j)) [0..<k]" for q :: u16
  unfolding map_upt_Suc by (simp add: algebra_simps)

lemma rxq_loop_steps:
  "run_steps E cf pid (map (\<lambda>j. SRxq (q + of_nat j)) [0..<k] @ sts) s = do {
     (e, w) \<leftarrow> rxq_loop E cf pid k q (sy_w s);
     if e \<noteq> None then Some (e, s\<lparr>sy_w := w\<rparr>) else run_steps E cf pid sts (s\<lparr>sy_w := w\<rparr>) }"
proof (induction k arbitrary: q s)
  case (Suc k)
  show ?case
  proof (cases "GetRxMempool E (Pooler cf) pid (sy_w s)")
    case None
    then show ?thesis by (simp add: steps_from_Suc exec_step_def del: upt_Suc)
  next
    case (Some r)
    obtain mp e where r: "r = (mp, e)" by (cases r)
    obtain e' w where q: "RxqSetup (en_errnos E) (en_eth E) pid q (RxDescriptors cf) mp (RxOptions cf) (sy_w s) = (e', w)" by fastforce
    show ?thesis
      using Some r q Suc.IH [of "q + 1" "s\<lparr>sy_w := w\<rparr>"]
      by (cases e; cases e') (simp_all add: steps_from_Suc exec_step_def case_prod_unfold del: upt_Suc cong: if_cong)
  qed
qed simp

lemma txq_loop_steps:
  "run_steps E cf pid (map (\<lambda>j. STxq (q + of_nat j)) [0..<k] @ sts) s =
     (case txq_loop E cf pid k q (sy_w s) of
        (e, w) \<Rightarrow> if e \<noteq> None then Some (e, s\<lparr>sy_w := w\<rparr>) else run_steps E cf pid sts (s\<lparr>sy_w := w\<rparr>))"
proof (induction k arbitrary: q s)
  case (Suc k)
  obtain e w where q: "TxqSetup (en_errnos E) (en_eth E) pid q (TxDescriptors cf) (TxOptions cf) (sy_w s) = (e, w)" by fastforce
  show ?case
    using q Suc.IH [of "q + 1" "s\<lparr>sy_w := w\<rparr>"]
    by (cases e) (simp_all add: steps_from_Suc exec_step_def case_prod_unfold del: upt_Suc cong: if_cong)
qed simp

lemma hooks_loop_steps:
  "i + length hooks = length (OnConfig cf) \<Longrightarrow> hooks = drop i (OnConfig cf) \<Longrightarrow>
   run_steps E cf pid (map SHook [i..<length (OnConfig cf)]) s = hooks_loop E pid i hooks s"
proof (induction hooks arbitrary: i s)
  case (Cons hook hooks)
  have i: "i < length (OnConfig cf)" using Cons.prems(1) by simp
  have hook: "OnConfig cf ! i = hook" "hooks = drop (Suc i) (OnConfig cf)"
    using Cons.prems(2) Cons_nth_drop_Suc [OF i] by (metis list.inject)+
  have "Suc i + length hooks = length (OnConfig cf)" using Cons.prems(1) by simp
  note IH = Cons.IH [OF this hook(2)]
  show ?case
    unfolding upt_conv_Cons [OF i] using IH hook(1)
    by (cases "hook pid s") (auto simp: exec_step_def ErrWrapf_def split: option.splits)
qed simp

lemma Configure_steps:
  assumes "Ethdev_Info.InfoGet (en_errnos E) (en_info E) pid zero_info (sy_w s) = (None, info)"
    and "DevFlags info = Some flags" "lsc_option E cf pid flags s = Some (opts, s1)"
  shows "Configure E cf pid s = run_steps E cf pid (setup_plan cf opts) s1"
proof -
  have q0: "map (\<lambda>q. f (of_nat q)) [0..<k] = map (\<lambda>j. f (0 + of_nat j)) [0..<k]" for f :: "u16 \<Rightarrow> setup_step" and k by simp
  have hooks: "run_steps E cf pid (map SHook [0..<length (OnConfig cf)]) s = hooks_loop E pid 0 (OnConfig cf) s" for s
    using hooks_loop_steps [of 0 "OnConfig cf" cf E pid s] by simp
  have hairpin: "run_steps E cf pid ((if HairpinQueues cf > 0 then [SHairpin] else []) @ map SHook [0..<length (OnConfig cf)]) s =
    Option.bind (if HairpinQueues cf > 0 then Option.bind (HairpinQueueSetup (en_errnos E) (en_eth E) (en_fuel E) pid (RxQueues cf)
       (TxQueues cf) (HairpinQueues cf) (RxDescriptors cf) (TxDescriptors cf) (sy_w s)) (\<lambda>(_, w). Some (s\<lparr>sy_w := w\<rparr>)) else Some s)
     (hooks_loop E pid 0 (OnConfig cf))" for s
    by (cases "HairpinQueues cf > 0") (simp_all add: exec_step_def hooks bind_map_option comp_def case_prod_unfold)
  show ?thesis
    using assms
    unfolding Configure_def setup_plan_def q0 run_steps.simps rxq_loop_steps txq_loop_steps hairpin
    by (simp add: exec_step_def Let_def case_prod_unfold bind_map_option comp_def cong: if_cong)
qed

text \<open>A configuration that returns without an error has run its whole plan.\<close>

lemma Configure_succeeds:
  assumes "Configure E cf pid s = Some (None, s')"
  obtains info flags opts s1 where
    "Ethdev_Info.InfoGet (en_errnos E) (en_info E) pid zero_info (sy_w s) = (None, info)"
    "DevFlags info = Some flags" "lsc_option E cf pid flags s = Some (opts, s1)"
    "run_steps E cf pid (setup_plan cf opts) s1 = Some (None, s')"
proof -
  obtain e info where i: "Ethdev_Info.InfoGet (en_errnos E) (en_info E) pid zero_info (sy_w s) = (e, info)" by fastforce
  then have e: "e = None" using assms by (cases e) (simp_all add: Configure_def)
  obtain flags where f: "DevFlags info = Some flags"
    using assms i e by (cases "DevFlags info") (auto simp: Configure_def)
  obtain opts s1 where o: "lsc_option E cf pid flags s = Some (opts, s1)"
    using assms i e f by (cases "lsc_option E cf pid flags s") (auto simp: Configure_def)
  show thesis using that [OF i [unfolded e] f o] Configure_steps [OF i [unfolded e] f o] assms by simp
qed

text \<open>C20: once the device information has been read and the interrupt option chosen, Configure is the run of the plan that configures the device, enables promiscuous mode, sets up every receive queue and every transmit queue exactly once in ascending order, then the hairpin queues if there are any, and calls the hooks last, in order. The run stops at the first error of a step and returns it, except that an error of the hairpin setup is ignored and the hooks are called nevertheless.\<close>

theorem Configure_follows_plan:
  assumes "Ethdev_Info.InfoGet (en_errnos E) (en_info E) pid zero_info (sy_w s) = (None, info)"
    and "DevFlags info = Some flags" "lsc_option E cf pid flags s = Some (opts, s1)"
  shows "Configure E cf pid s = run_steps E cf pid (setup_plan cf opts) s1 \<and>
    distinct (setup_plan cf opts) \<and> length (setup_plan cf opts) =
      2 + unat (RxQueues cf) + unat (TxQueues cf) + (if HairpinQueues cf > 0 then 1 else 0) + length (OnConfig cf)"
proof (intro conjI)
  show "Configure E cf pid s = run_steps E cf pid (setup_plan cf opts) s1" by (rule Configure_steps [OF assms])
  show "length (setup_plan cf opts) =
      2 + unat (RxQueues cf) + unat (TxQueues cf) + (if HairpinQueues cf > 0 then 1 else 0) + length (OnConfig cf)"
    by (simp add: setup_plan_def)
  have "inj_on (\<lambda>q. f (of_nat q :: u16)) (set [0..<unat (n :: u16)])" if "inj f" for f :: "u16 \<Rightarrow> setup_step" and n
  proof (intro inj_onI)
    fix x y assume xy: "x \<in> set [0..<unat n]" "y \<in> set [0..<unat n]" "f (of_nat x) = f (of_nat y)"
    then have "(of_nat x :: u16) = of_nat y" using injD [OF that] by metis
    then show "x = y" using xy(1,2) unat_mod_small [of n] of_nat_u16_inject [of x y] by simp
  qed
  from this [of SRxq] this [of STxq] show "distinct (setup_plan cf opts)"
    by (auto simp: setup_plan_def distinct_map inj_def inj_on_def)
qed

section \<open>The started application\<close>

lemma distinct_app_ports: "distinct (app_ports E w)"
proof -
  let ?n = "nat (CountTotal (en_info E) w)"
  have n: "?n < 2 ^ 16" using unat_mod_small [of "rte_eth_dev_count_total (en_info E) w"] by (simp add: CountTotal_def)
  have "inj_on (of_nat :: nat \<Rightarrow> u16) (set [0..<?n])"
  proof (intro inj_onI)
    fix x y assume "x \<in> set [0..<?n]" "y \<in> set [0..<?n]" "(of_nat x :: u16) = of_nat y"
    then show "x = y" using n of_nat_u16_inject [of x y] by simp
  qed
  then show ?thesis by (simp add: app_ports_def distinct_map)
qed

lemma newApp_stages:
  assumes "newApp E F xnames enum words sock ls s = Some (Inr app, s')"
  obtains pools w1 s2 where
    "NewMempoolPerPort E ''mbuf_pool'' (CmdMempool_NewMempool E (mbufElts F) (mbufSize F))
       [OptCacheSize (word_of_int (poolCache F)), OptOpsName ''ring_mp_mc'', OptPrivateDataSize 64] (sy_w s) = (Inr pools, w1)"
    "ap_Ports app = app_ports E w1" "ap_pools app = pools"
    "ports_loop E (isolate F) (app_config E F pools) (ap_Ports app) (s\<lparr>sy_w := w1\<rparr>) = Some (None, s2)"
    "DistributeQueues sock (port_of E (sy_w s2)) (map unat (ap_Ports app)) ls = Inr (ap_Work app)"
proof -
  obtain r w1 where p: "NewMempoolPerPort E ''mbuf_pool'' (CmdMempool_NewMempool E (mbufElts F) (mbufSize F))
      [OptCacheSize (word_of_int (poolCache F)), OptOpsName ''ring_mp_mc'', OptPrivateDataSize 64] (sy_w s) = (r, w1)"
    by fastforce
  then obtain pools where pools: "r = Inr pools" using assms by (cases r) (auto simp: newApp_def)
  obtain s2 where s2: "ports_loop E (isolate F) (app_config E F pools) (app_ports E w1) (s\<lparr>sy_w := w1\<rparr>) = Some (None, s2)"
    using assms p pools by (auto simp: newApp_def Let_def bind_eq_Some_conv split: if_splits)
  obtain m where m: "NewStats E xnames enum words (sy_w s2) (app_ports E w1) [] = Some (Inr m)"
  proof -
    obtain ms where "NewStats E xnames enum words (sy_w s2) (app_ports E w1) [] = Some ms"
      using assms p pools s2
      by (cases "NewStats E xnames enum words (sy_w s2) (app_ports E w1) []") (simp_all add: newApp_def Let_def)
    then show thesis using assms p pools s2 that by (cases ms) (simp_all add: newApp_def Let_def)
  qed
  obtain work where work: "DistributeQueues sock (port_of E (sy_w s2)) (map unat (app_ports E w1)) ls = Inr work"
    using assms p pools s2 m
    by (cases "DistributeQueues sock (port_of E (sy_w s2)) (map unat (app_ports E w1)) ls") (auto simp: newApp_def Let_def)
  obtain fs where "app = \<lparr>ap_pools = pools, ap_Ports = app_ports E w1, ap_Stats = m, ap_Work = work, ap_Flows = fs\<rparr>"
  proof -
    obtain r' s3 where "flows_loop E (isolate F) (app_ports E w1) [] s2 = Some (r', s3)"
      using assms p pools s2 m work
      by (cases "flows_loop E (isolate F) (app_ports E w1) [] s2") (auto simp: newApp_def Let_def)
    then show thesis using assms p pools s2 m work that by (cases r') (auto simp: newApp_def Let_def)
  qed
  then show thesis using that p pools s2 work by simp
qed

text \<open>
  What the start does with one port: isolate it when asked to, then read its information and run the whole plan of
  its configuration, no step of which fails but perhaps the hairpin setup.
\<close>

definition brought_up :: "'w env \<Rightarrow> int \<Rightarrow> 'w EthdevConfig \<Rightarrow> u16 \<Rightarrow> 'w sys \<Rightarrow> 'w sys \<Rightarrow> bool" where
  "brought_up E isol cf pid s s' \<longleftrightarrow> (\<exists>w info flags opts s1.
     (if isol = 0 then w = sy_w s else Isolate (en_errnos E) (en_flow E) pid 1 (sy_w s) = (None, w)) \<and>
     Ethdev_Info.InfoGet (en_errnos E) (en_info E) pid zero_info w = (None, info) \<and> DevFlags info = Some flags \<and>
     lsc_option E cf pid flags (s\<lparr>sy_w := w\<rparr>) = Some (opts, s1) \<and>
     run_steps E cf pid (setup_plan cf opts) s1 = Some (None, s'))"

fun all_brought_up :: "'w env \<Rightarrow> int \<Rightarrow> 'w EthdevConfig \<Rightarrow> u16 list \<Rightarrow> 'w sys \<Rightarrow> 'w sys \<Rightarrow> bool" where
  "all_brought_up E isol cf [] s s' \<longleftrightarrow> s' = s"
| "all_brought_up E isol cf (pid # pids) s s' \<longleftrightarrow> (\<exists>s1. brought_up E isol cf pid s s1 \<and> all_brought_up E isol cf pids s1 s')"

lemma ports_loop_brings_up:
  "ports_loop E isol cf pids s = Some (None, s') \<Longrightarrow> all_brought_up E isol cf pids s s'"
proof (induction pids arbitrary: s)
  case (Cons pid pids)
  obtain e w where i: "(if isol \<noteq> 0 then Isolate (en_errnos E) (en_flow E) pid 1 (sy_w s) else (None, sy_w s)) = (e, w)"
    by fastforce
  let ?s = "s\<lparr>sy_w := w\<rparr>"
  have loop: "(if e \<noteq> None then Some (e, ?s) else do {
       _ \<leftarrow> ifaceName E pid (sy_w ?s);
       (e, s) \<leftarrow> Configure E cf pid ?s;
       if e \<noteq> None then Some (e, s) else do {
         _ \<leftarrow> printPortConfig E pid (sy_w s);
         ports_loop E isol cf pids s }}) = Some (None, s')"
    using Cons.prems i by (cases "isol = 0") (auto simp: Let_def)
  then have e: "e = None" by (auto split: if_splits)
  then obtain s1 where s1: "Configure E cf pid ?s = Some (None, s1)" "ports_loop E isol cf pids s1 = Some (None, s')"
    using loop by (auto simp: bind_eq_Some_conv split: if_splits)
  obtain info flags opts s2 where "Ethdev_Info.InfoGet (en_errnos E) (en_info E) pid zero_info (sy_w ?s) = (None, info)"
      "DevFlags info = Some flags" "lsc_option E cf pid flags ?s = Some (opts, s2)"
      "run_steps E cf pid (setup_plan cf opts) s2 = Some (None, s1)"
    using Configure_succeeds [OF s1(1)] by blast
  then have "brought_up E isol cf pid s s1" using i e unfolding brought_up_def by (cases "isol = 0") auto
  then show ?case using Cons.IH [OF s1(2)] by auto
qed simp

text \<open>C21: when the start of the application succeeds, its ports are the valid ones below the total count in the world the creation of the memory pools has left; one after another each of them has been isolated if that is asked for and then configured by its whole plan (device, promiscuous mode, every receive and transmit queue, hairpin queues, hooks), in which no step failed but perhaps the ignored hairpin setup; and every receive queue that a port then reports is assigned to exactly one of the worker lcores, which lies on the socket of the port.\<close>

theorem newApp_serves_every_queue:
  assumes "newApp E F xnames enum words sock ls s = Some (Inr app, s')" "distinct ls"
  shows "\<exists>w1 s2. NewMempoolPerPort E ''mbuf_pool'' (CmdMempool_NewMempool E (mbufElts F) (mbufSize F))
       [OptCacheSize (word_of_int (poolCache F)), OptOpsName ''ring_mp_mc'', OptPrivateDataSize 64] (sy_w s) = (Inr (ap_pools app), w1) \<and>
    ap_Ports app = app_ports E w1 \<and>
    all_brought_up E (isolate F) (app_config E F (ap_pools app)) (ap_Ports app) (s\<lparr>sy_w := w1\<rparr>) s2 \<and>
    (\<forall>pid \<in> set (ap_Ports app). \<forall>n q. port_info.InfoGet (port_of E (sy_w s2) (unat pid)) = Inr n \<and> q < n \<longrightarrow>
      (\<exists>!l. assigned (ap_Work app) l (unat pid) q)) \<and>
    (\<forall>l pid q. assigned (ap_Work app) l pid q \<longrightarrow> l \<in> set ls \<and> of_nat pid \<in> set (ap_Ports app) \<and>
      sock l = nat (port_info.SocketID (port_of E (sy_w s2) pid)))"
proof -
  obtain pools w1 s2 where pl: "NewMempoolPerPort E ''mbuf_pool'' (CmdMempool_NewMempool E (mbufElts F) (mbufSize F))
         [OptCacheSize (word_of_int (poolCache F)), OptOpsName ''ring_mp_mc'', OptPrivateDataSize 64] (sy_w s) = (Inr pools, w1)"
      and st: "ap_Ports app = app_ports E w1" "ap_pools app = pools"
      "ports_loop E (isolate F) (app_config E F pools) (ap_Ports app) (s\<lparr>sy_w := w1\<rparr>) = Some (None, s2)"
      "DistributeQueues sock (port_of E (sy_w s2)) (map unat (ap_Ports app)) ls = Inr (ap_Work app)"
    using newApp_stages [OF assms(1)] by metis
  have "distinct (map unat (ap_Ports app))"
    using distinct_app_ports [of E w1] st(1) by (simp add: distinct_map inj_on_def word_unat_eq_iff)
  note D = DistributeQueues_ok [OF this assms(2) st(4)]
  have "\<forall>l pid q. assigned (ap_Work app) l pid q \<longrightarrow> l \<in> set ls \<and> of_nat pid \<in> set (ap_Ports app) \<and>
      sock l = nat (port_info.SocketID (port_of E (sy_w s2) pid))"
    using D(1) by fastforce
  then show ?thesis using st D(2) pl ports_loop_brings_up [OF st(3)] by (intro exI [of _ w1] exI [of _ s2]) simp
qed

text \<open>A driver with one port of one receive and one transmit queue, on which everything succeeds.\<close>

definition small_env :: "unit env" where
  "small_env = undefined\<lparr>
     en_errnos := \<lparr>E_RTE_NO_CONFIG = 1002, E_RTE_SECONDARY = 1001, RTE_MAX_ERRNO = 1003, RTE_MIN_ERRNO = 1000\<rparr>,
     en_eth := undefined\<lparr>ETH_SOCKET_ID_ANY := -1, rte_eth_dev_configure := \<lambda>_ _ _ _ _ w. (0, w),
       rte_eth_rx_queue_setup := \<lambda>_ _ _ _ _ _ w. (0, w), rte_eth_tx_queue_setup := \<lambda>_ _ _ _ _ w. (0, w),
       rte_eth_promiscuous_enable := \<lambda>_ w. (0, w), rte_eth_dev_start := \<lambda>_ w. (0, w),
       rte_eth_dev_is_valid_port := \<lambda>p _. if p = 0 then 1 else 0\<rparr>,
     en_info := quiet_info\<lparr>rte_eth_dev_info_get := \<lambda>_ i _. (0, i\<lparr>nb_rx_queues := 1, dev_flags := Some 0\<rparr>)\<rparr>,
     en_pool := undefined\<lparr>mp_SOCKET_ID_ANY := -1, rte_pktmbuf_pool_create_by_ops := \<lambda>_ _ _ _ _ _ _ w. (Inr 4096, w)\<rparr>,
     en_old := False, en_malloc := \<lambda>_. 1, en_fuel := 0\<rparr>"

definition small_flags :: app_flags where
  "small_flags = \<lparr>mbufElts = 1000, mbufSize = 2048, poolCache = 0, rxQueues = 1, txQueues = 1, hairpinQueues = 0,
     rxDesc = 256, txDesc = 256, isolate = 0, flag_FcMode = 0, toeplitz = 1\<rparr>"

lemma small_env_sel [simp]:
  "rte_eth_dev_info_get (en_info small_env) p i w = (0, i\<lparr>nb_rx_queues := 1, dev_flags := Some 0\<rparr>)"
  "rte_eth_dev_get_name_by_port (en_info small_env) p buf w = (0, [0x70, 0x30, 0, 0])"
  "rte_eth_dev_conf_get (en_info small_env) p cf w = (0, cf)"
  "rte_eth_dev_socket_id (en_info small_env) p w = 0"
  "rte_eth_dev_count_total (en_info small_env) w = 1"
  "RTE_ETH_DEV_INTR_LSC (en_info small_env) = 2"
  "ETH_SOCKET_ID_ANY (en_eth small_env) = -1"
  "rte_eth_dev_configure (en_eth small_env) a b d e h w = (0, w)"
  "rte_eth_rx_queue_setup (en_eth small_env) a b d n f g w = (0, w)"
  "rte_eth_tx_queue_setup (en_eth small_env) a b d n txc w = (0, w)"
  "rte_eth_promiscuous_enable (en_eth small_env) p w = (0, w)"
  "rte_eth_dev_start (en_eth small_env) p w = (0, w)"
  "rte_eth_dev_is_valid_port (en_eth small_env) p w = (if p = 0 then 1 else 0)"
  "rte_pktmbuf_pool_create_by_ops (en_pool small_env) n1 n2 n3 n4 n5 n6 n7 w = (Inr 4096, w)"
  by (simp_all add: small_env_def quiet_info_def)

definition small_sys :: "unit sys" where
  "small_sys = \<lparr>sy_w = (), sy_heap = Map.empty, sy_lsc = [], sy_flow = \<lparr>objs = Map.empty, cheap = Map.empty\<rparr>\<rparr>"

lemmas small_defs = newApp_def NewMempoolPerPort_def CountTotal_def CmdMempool_NewMempool_def CreateMbufPool_def
  ptr_or_errno_def IsValid_def app_ports_def ifaceName_def Name_def GoString_def IntToErr_def app_config_def Configure_def
  Ethdev_Info.InfoGet_def errget_def DevFlags_def lsc_option_def IsIntrLSC_def DevConfigure_def OptRss_def
  PromiscEnable_def GetRxMempool_def RxqSetup_def TxqSetup_def Start_hook_def Start_def RssConfig_EthdevCall_def
  driverName_def DriverName_def zero_info_def printPortConfig_def DevConfGet_def DevConf_TxOffloadCapa_def
  zero_ethConf_def zero_txmode_def printTXOffloads_def small_flags_def small_sys_def

lemma small_newApp:
  "\<exists>app s'. newApp small_env small_flags (\<lambda>_ _. (Some Map.empty, None)) (\<lambda>_. []) 8 (\<lambda>_. 0) [1] small_sys = Some (Inr app, s')"
  by (simp add: small_defs DistributeQueues_def dissectLcores_def distributeQueuesPort_def port_of_def NbRxQueues_def
      Ethdev_Info.SocketID_def Let_def OptRxMode_def)

theorem Configure_follows_plan_witness:
  "Configure small_env (app_config small_env small_flags [4096]) 0 small_sys =
     run_steps small_env (app_config small_env small_flags [4096]) 0
       (setup_plan (app_config small_env small_flags [4096]) (Options (app_config small_env small_flags [4096]))) small_sys \<and>
   length (setup_plan (app_config small_env small_flags [4096]) (Options (app_config small_env small_flags [4096]))) = 6"
proof -
  let ?cf = "app_config small_env small_flags [4096]"
  have 1: "Ethdev_Info.InfoGet (en_errnos small_env) (en_info small_env) 0 zero_info (sy_w small_sys) =
      (None, zero_info\<lparr>nb_rx_queues := 1, dev_flags := Some 0\<rparr>)"
    by (simp add: Ethdev_Info.InfoGet_def errget_def IntToErr_def)
  have 2: "DevFlags (zero_info\<lparr>nb_rx_queues := 1, dev_flags := Some 0\<rparr>) = Some 0" by (simp add: DevFlags_def)
  have 3: "lsc_option small_env ?cf 0 0 small_sys = Some (Options ?cf, small_sys)"
    by (simp add: lsc_option_def IsIntrLSC_def)
  have "2 + unat (RxQueues ?cf) + unat (TxQueues ?cf) + (if HairpinQueues ?cf > 0 then 1 else 0) + length (OnConfig ?cf) = 6"
    by (simp add: app_config_def small_flags_def Let_def)
  then show ?thesis using Configure_follows_plan [OF 1 2 3] by simp
qed

theorem newApp_serves_every_queue_witness:
  "\<exists>app s'. newApp small_env small_flags (\<lambda>_ _. (Some Map.empty, None)) (\<lambda>_. []) 8 (\<lambda>_. 0) [1] small_sys = Some (Inr app, s') \<and>
     ap_Ports app = [0] \<and> (\<exists>!l. assigned (ap_Work app) l 0 0) \<and>
     (\<exists>s1 s2. brought_up small_env 0 (app_config small_env small_flags (ap_pools app)) 0 s1 s2)"
proof -
  obtain app s' where app: "newApp small_env small_flags (\<lambda>_ _. (Some Map.empty, None)) (\<lambda>_. []) 8 (\<lambda>_. 0) [1] small_sys = Some (Inr app, s')"
    using small_newApp by blast
  have ports: "app_ports small_env w = [0]" for w by (simp add: app_ports_def CountTotal_def IsValid_def)
  have info: "port_info.InfoGet (port_of small_env w 0) = Inr 1" for w
    by (simp add: port_of_def Ethdev_Info.InfoGet_def errget_def IntToErr_def NbRxQueues_def)
  obtain w1 s2 where "ap_Ports app = app_ports small_env w1"
      and up: "all_brought_up small_env (isolate small_flags) (app_config small_env small_flags (ap_pools app)) (ap_Ports app) (small_sys\<lparr>sy_w := w1\<rparr>) s2"
      and "\<forall>pid \<in> set (ap_Ports app). \<forall>n q. port_info.InfoGet (port_of small_env (sy_w s2) (unat pid)) = Inr n \<and> q < n \<longrightarrow>
        (\<exists>!l. assigned (ap_Work app) l (unat pid) q)"
    using newApp_serves_every_queue [OF app] by auto
  then have "ap_Ports app = [0] \<and> (\<exists>!l. assigned (ap_Work app) l 0 0)" using ports info by simp
  moreover from this up have "\<exists>s1 s2. brought_up small_env 0 (app_config small_env small_flags (ap_pools app)) 0 s1 s2"
    by (auto simp: small_flags_def)
  ultimately show ?thesis using app by blast
qed

end
