(* ===== verification/Lcore_Loop.thy ===== *)
theory Lcore_Loop
  imports Responder Port_Setup
begin

text \<open>
  The loop that test-sniffer runs on every worker lcore (\<^verbatim>\<open>LcoreFunc\<close> of src/app/test-sniffer/lcores.go) and the
  transmit buffer it uses (src/ethdev/rxtx.go): flush the buffer, receive a burst, answer every packet, and either
  release its mbuf or put it into the buffer, then count.  \<open>Responder\<close> is the answer to one packet; here the
  ownership of the mbufs is what is followed.
\<close>

section \<open>Transmit buffer\<close>

text \<open>
  The buffering functions of rte_ethdev.h act on the packets in the buffer and on the world of the driver; \<open>gone\<close>
  is what the driver has taken over: packets sent, or given to the callback for unsent ones.
\<close>

record 'w tx_api =
  rte_eth_tx_buffer :: "u16 \<Rightarrow> u16 \<Rightarrow> addr \<Rightarrow> addr list \<times> 'w \<Rightarrow> u16 \<times> addr list \<times> 'w"
  rte_eth_tx_buffer_flush :: "u16 \<Rightarrow> u16 \<Rightarrow> addr list \<times> 'w \<Rightarrow> u16 \<times> addr list \<times> 'w"
  gone :: "'w \<Rightarrow> addr multiset"

definition TxBuffer :: "'w tx_api \<Rightarrow> u16 \<Rightarrow> u16 \<Rightarrow> addr \<Rightarrow> addr list \<times> 'w \<Rightarrow> u16 \<times> addr list \<times> 'w" where
  "TxBuffer T pid qid m s = rte_eth_tx_buffer T pid qid m s"

definition TxBufferFlush :: "'w tx_api \<Rightarrow> u16 \<Rightarrow> u16 \<Rightarrow> addr list \<times> 'w \<Rightarrow> u16 \<times> addr list \<times> 'w" where
  "TxBufferFlush T pid qid s = rte_eth_tx_buffer_flush T pid qid s"

text \<open>\<^verbatim>\<open>TxBuffer.Mbufs\<close> is a view of the packets behind the header, as many as the length says.\<close>

definition TxBuffer_Mbufs :: "addr list \<times> 'w \<Rightarrow> addr list" where
  "TxBuffer_Mbufs s = fst s"

section \<open>One round\<close>

text \<open>\<open>released\<close> is the history of the mbufs given back by \<^verbatim>\<open>PktMbufFree\<close>, \<open>received\<close> that of the bursts.\<close>

record 'w lstate =
  l_w :: 'w
  l_mem :: memory
  l_buf :: "addr list"
  l_txbuf :: "addr list"
  l_qc :: QueueCounter
  released :: "addr list"
  received :: "addr list"

text \<open>
  \<open>mb\<close> is the header of an mbuf, which the loop does not change.  A packet that makes the parser or the answer panic
  ends the lcore function, \<^term>\<open>None\<close>.
\<close>

fun answer_loop :: "'w tx_api \<Rightarrow> (addr \<Rightarrow> Mbuf) \<Rightarrow> u16 \<Rightarrow> u16 \<Rightarrow> addr list \<Rightarrow> 'w lstate \<Rightarrow> 'w lstate option" where
  "answer_loop T mb pid qid [] s = Some s"
| "answer_loop T mb pid qid (p # ps) s = do {
     (v, m) \<leftarrow> respond (mb p) (l_mem s);
     let s = s\<lparr>l_mem := m\<rparr>;
     let s = (case v of
       Release \<Rightarrow> s\<lparr>released := released s @ [p]\<rparr>
     | Transmit \<Rightarrow> (case TxBuffer T pid qid p (l_txbuf s, l_w s) of (_, b, w) \<Rightarrow> s\<lparr>l_txbuf := b, l_w := w\<rparr>));
     answer_loop T mb pid qid ps s }"

definition lcore_round ::
  "'w eth_api \<Rightarrow> 'w tx_api \<Rightarrow> (addr \<Rightarrow> Mbuf) \<Rightarrow> u16 \<Rightarrow> u16 \<Rightarrow> u16 \<Rightarrow> 'w lstate \<Rightarrow> 'w lstate option" where
  "lcore_round A T mb pid rxQid burstSize s = do {
     let (_, b, w) = TxBufferFlush T pid rxQid (l_txbuf s, l_w s);
     (n, buf, w) \<leftarrow> RxBurst A pid rxQid (l_buf s) burstSize w;
     let pkts = take (unat n) buf;
     s \<leftarrow> answer_loop T mb pid rxQid pkts
            (s\<lparr>l_txbuf := b, l_w := w, l_buf := buf, received := received s @ pkts\<rparr>);
     Some (s\<lparr>l_qc := Incr (\<lambda>p. Mbuf_Data (l_mem s) (mb p)) pkts (l_qc s)\<rparr>) }"

fun lcore_rounds ::
  "'w eth_api \<Rightarrow> 'w tx_api \<Rightarrow> (addr \<Rightarrow> Mbuf) \<Rightarrow> u16 \<Rightarrow> u16 \<Rightarrow> u16 \<Rightarrow> nat \<Rightarrow> 'w lstate \<Rightarrow> 'w lstate option" where
  "lcore_rounds A T mb pid rxQid burstSize 0 s = Some s"
| "lcore_rounds A T mb pid rxQid burstSize (Suc k) s = do {
     s \<leftarrow> lcore_round A T mb pid rxQid burstSize s;
     lcore_rounds A T mb pid rxQid burstSize k s }"

section \<open>Ownership\<close>

text \<open>
  What the library documents: buffering a packet adds it to those in the buffer or taken by the driver, flushing
  empties the buffer, receiving does not touch what was sent, and a burst is not longer than asked for.
\<close>

definition tx_contract :: "'w eth_api \<Rightarrow> 'w tx_api \<Rightarrow> bool" where
  "tx_contract A T \<longleftrightarrow>
     (\<forall>p q m b w n b' w'. rte_eth_tx_buffer T p q m (b, w) = (n, b', w') \<longrightarrow>
        mset b' + gone T w' = mset b + gone T w + {#m#}) \<and>
     (\<forall>p q b w n b' w'. rte_eth_tx_buffer_flush T p q (b, w) = (n, b', w') \<longrightarrow>
        b' = [] \<and> gone T w' = gone T w + mset b) \<and>
     (\<forall>p q k w ms w'. rte_eth_rx_burst A p q k w = (ms, w') \<longrightarrow> length ms \<le> unat k \<and> gone T w' = gone T w)"

definition owned_by_driver :: "'w tx_api \<Rightarrow> 'w lstate \<Rightarrow> addr multiset" where
  "owned_by_driver T s = mset (l_txbuf s) + gone T (l_w s)"

definition balanced :: "'w tx_api \<Rightarrow> 'w lstate \<Rightarrow> addr multiset \<Rightarrow> bool" where
  "balanced T s before \<longleftrightarrow> before + mset (received s) = mset (released s) + owned_by_driver T s"

lemma answer_loop_moves:
  assumes "tx_contract A T" "answer_loop T mb pid qid ps s = Some s'"
  shows "mset (released s') + owned_by_driver T s' = mset (released s) + owned_by_driver T s + mset ps \<and>
    received s' = received s"
  using assms(2)
proof (induction ps arbitrary: s)
  case (Cons p ps)
  obtain v m where v: "respond (mb p) (l_mem s) = Some (v, m)" using Cons.prems by (auto simp: bind_eq_Some_conv)
  obtain n b w where b: "rte_eth_tx_buffer T pid qid p (l_txbuf s, l_w s) = (n, b, w)" by (metis prod_cases3)
  have "mset b + gone T w = mset (l_txbuf s) + gone T (l_w s) + {#p#}"
    using assms(1) b by (auto simp: tx_contract_def)
  then show ?case
    using Cons.prems v b Cons.IH
    by (cases v) (fastforce simp: TxBuffer_def owned_by_driver_def)+
qed simp

lemma lcore_round_balanced:
  assumes "tx_contract A T" "balanced T s before" "lcore_round A T mb pid q k s = Some s'"
  shows "balanced T s' before"
proof -
  obtain n b w where f: "rte_eth_tx_buffer_flush T pid q (l_txbuf s, l_w s) = (n, b, w)" by (metis prod_cases3)
  have fl: "b = []" "gone T w = gone T (l_w s) + mset (l_txbuf s)" using assms(1) f by (auto simp: tx_contract_def)
  obtain ms w' where r: "rte_eth_rx_burst A pid q k w = (ms, w')" by fastforce
  have len: "length ms \<le> unat k" "gone T w' = gone T w" using assms(1) r by (auto simp: tx_contract_def)
  have "length ms < 2 ^ 16" using len(1) unat_mod_small [of k] by simp
  then have n: "unat (of_nat (length ms) :: u16) = length ms" by (simp add: unsigned_of_nat take_bit_nat_eq_self)
  obtain s1 where s1: "answer_loop T mb pid q ms
      (s\<lparr>l_txbuf := b, l_w := w', l_buf := ms @ drop (length ms) (l_buf s), received := received s @ ms\<rparr>) = Some s1"
    and s': "s' = s1\<lparr>l_qc := l_qc s'\<rparr>"
    using assms(3) f r n
    by (auto simp: lcore_round_def TxBufferFlush_def RxBurst_def bind_eq_Some_conv split: if_splits)
  from answer_loop_moves [OF assms(1) s1]
  have "mset (released s1) + owned_by_driver T s1 = mset (released s) + gone T w' + mset ms" "received s1 = received s @ ms"
    by (simp_all add: owned_by_driver_def fl(1))
  then show ?thesis
    using assms(2) fl(2) len(2) arg_cong [OF s', of released] arg_cong [OF s', of received] arg_cong [OF s', of l_txbuf] arg_cong [OF s', of l_w]
    by (simp add: balanced_def owned_by_driver_def algebra_simps)
qed

lemma lcore_rounds_balanced:
  assumes "tx_contract A T" "balanced T s before" "lcore_rounds A T mb pid q k n s = Some s'"
  shows "balanced T s' before"
  using assms(2,3)
proof (induction n arbitrary: s)
  case (Suc n)
  then show ?case by (auto simp: bind_eq_Some_conv dest: lcore_round_balanced [OF assms(1)])
qed simp

text \<open>
  When the burst is counted the loop owns none of its mbufs any more: each has been released or given to the
  transmit path, which may have sent and freed it.
\<close>

lemma Incr_reads_disowned:
  assumes "tx_contract A T" "answer_loop T mb pid qid ps s = Some s'" "p \<in> set ps"
  shows "p \<in># mset (released s') + owned_by_driver T s'"
  using answer_loop_moves [OF assms(1,2)] assms(3) by simp

text \<open>C3: after any number of rounds of the receive loop, every mbuf received has been, exactly once, either released or put into the transmit buffer, from where it is still waiting or taken by the driver: no mbuf is lost and none is given back twice.\<close>

theorem lcore_loop_conserves_mbufs:
  assumes "tx_contract A T" "lcore_rounds A T mb pid q k n s = Some s'"
    and "received s = []" "released s = []" "l_txbuf s = []" "gone T (l_w s) = {#}"
  shows "mset (received s') = mset (released s') + mset (l_txbuf s') + gone T (l_w s')"
proof -
  have "balanced T s {#}" using assms(3-6) by (simp add: balanced_def owned_by_driver_def)
  from lcore_rounds_balanced [OF assms(1) this assms(2)] show ?thesis
    by (simp add: balanced_def owned_by_driver_def add.assoc)
qed

text \<open>A driver whose world is the packets to deliver and those it has taken.\<close>

definition loop_eth :: "(addr list \<times> addr list) eth_api" where
  "loop_eth = undefined\<lparr>rte_eth_rx_burst := \<lambda>_ _ k (rx, g). (take (unat k) rx, (drop (unat k) rx, g))\<rparr>"

definition loop_tx :: "(addr list \<times> addr list) tx_api" where
  "loop_tx = \<lparr>rte_eth_tx_buffer = \<lambda>_ _ m (b, w). (0, b @ [m], w),
     rte_eth_tx_buffer_flush = \<lambda>_ _ (b, (rx, g)). (of_nat (length b), [], (rx, g @ b)), gone = \<lambda>(rx, g). mset g\<rparr>"

theorem lcore_loop_conserves_mbufs_witness:
  "\<exists>s'. lcore_rounds loop_eth loop_tx (\<lambda>_. sample_mbuf 42) 0 0 4 1
      \<lparr>l_w = ([5], []), l_mem = ping_memory, l_buf = [0, 0, 0, 0], l_txbuf = [], l_qc = \<lparr>qc_Packets = 0, qc_Bytes = 0\<rparr>,
       released = [], received = []\<rparr> = Some s' \<and>
    received s' = [5] \<and> {#5#} = mset (released s') + mset (l_txbuf s') + gone loop_tx (l_w s')"
proof -
  let ?s = "\<lparr>l_w = ([5], []), l_mem = ping_memory, l_buf = [0, 0, 0, 0], l_txbuf = [], l_qc = \<lparr>qc_Packets = 0, qc_Bytes = 0\<rparr>,
    released = [], received = []\<rparr> :: (addr list \<times> addr list) lstate"
  have con: "tx_contract loop_eth loop_tx" by (auto simp: tx_contract_def loop_eth_def loop_tx_def)
  obtain m' where m': "respond (sample_mbuf 42) ping_memory = Some (Transmit, m')"
    using respond_ping [where mb = "sample_mbuf 42" and a = "0x10080" and m = ping_memory and n = 0] ping_memory_request
    by (auto simp: sample_mbuf_def Mbuf_L2_def)
  obtain s' where s': "lcore_rounds loop_eth loop_tx (\<lambda>_. sample_mbuf 42) 0 0 4 1 ?s = Some s'" "received s' = [5]"
    using m' by (simp add: lcore_round_def TxBufferFlush_def TxBuffer_def RxBurst_def loop_eth_def loop_tx_def Let_def)
  have "mset (received s') = mset (released s') + mset (l_txbuf s') + gone loop_tx (l_w s')"
    using lcore_loop_conserves_mbufs [OF con s'(1)] by (simp add: loop_tx_def)
  then show ?thesis using s' by auto
qed

end
