(* ===== verification/Ring_Life.thy ===== *)
theory Ring_Life
  imports Ring
begin

text \<open>
  Life cycle and queries of rings (src/ring/ring.go, src/ring/ring_telemetry.go): rings in Go memory, release,
  lookup, counts, and the registration of the telemetry commands.  The C functions are the fields of
  \<open>ring_query\<close> beside those of \<open>ring_api\<close>.
\<close>

record 'w ring_query =
  rte_ring_free :: "addr \<Rightarrow> 'w \<Rightarrow> 'w"
  rte_ring_count :: "addr \<Rightarrow> 'w \<Rightarrow> u32"
  rte_ring_get_size :: "addr \<Rightarrow> 'w \<Rightarrow> u32"
  rte_ring_get_capacity :: "addr \<Rightarrow> 'w \<Rightarrow> u32"
  rte_ring_free_count :: "addr \<Rightarrow> 'w \<Rightarrow> u32"
  rte_ring_full :: "addr \<Rightarrow> 'w \<Rightarrow> int"
  rte_ring_empty :: "addr \<Rightarrow> 'w \<Rightarrow> int"
  rte_ring_lookup :: "string \<Rightarrow> 'w \<Rightarrow> int + addr"
  ring_memzone :: "addr \<Rightarrow> 'w \<Rightarrow> addr"
  rte_telemetry_register_cmd :: "string \<Rightarrow> string \<Rightarrow> 'w \<Rightarrow> int \<times> 'w"

text \<open>
  \<^verbatim>\<open>New\<close>: the memory is a Go slice, from \<open>go_make\<close>; \<^verbatim>\<open>make\<close> panics on a size it cannot make and the address of the
  first element on an empty slice.  The ring is returned beside the error of \<^verbatim>\<open>Init\<close>.
\<close>

definition New ::
  "rte_errnos \<Rightarrow> 'w ring_api \<Rightarrow> (nat \<Rightarrow> 'w \<Rightarrow> addr \<times> 'w) \<Rightarrow> string \<Rightarrow> u64 \<Rightarrow> Option list \<Rightarrow> 'w \<Rightarrow> ((addr \<times> error) \<times> 'w) option" where
  "New c A go_make name count opts w =
     (case GetMemSize c A count of
        (_, Some e) \<Rightarrow> Some ((nil, Some e), w)
      | (msize, None) \<Rightarrow>
          if msize = 0 then None
          else let (r, w) = go_make (nat msize) w; (e, w) = Ring_Init c A r name count opts w in Some ((r, e), w))"

definition Ring_Free :: "'w ring_api \<Rightarrow> 'w ring_query \<Rightarrow> addr \<Rightarrow> 'w \<Rightarrow> 'w" where
  "Ring_Free A Q r w = (if r \<noteq> nil \<and> ring_memzone Q r w \<noteq> nil then rte_ring_free Q r w else rte_free A r w)"

definition Ring_Count :: "'w ring_query \<Rightarrow> addr \<Rightarrow> 'w \<Rightarrow> u64" where
  "Ring_Count Q r w = ucast (rte_ring_count Q r w)"

definition Ring_Size :: "'w ring_query \<Rightarrow> addr \<Rightarrow> 'w \<Rightarrow> u64" where
  "Ring_Size Q r w = ucast (rte_ring_get_size Q r w)"

definition Ring_Cap :: "'w ring_query \<Rightarrow> addr \<Rightarrow> 'w \<Rightarrow> u64" where
  "Ring_Cap Q r w = ucast (rte_ring_get_capacity Q r w)"

definition Ring_FreeCount :: "'w ring_query \<Rightarrow> addr \<Rightarrow> 'w \<Rightarrow> u64" where
  "Ring_FreeCount Q r w = ucast (rte_ring_free_count Q r w)"

definition Ring_IsFull :: "'w ring_query \<Rightarrow> addr \<Rightarrow> 'w \<Rightarrow> bool" where
  "Ring_IsFull Q r w \<longleftrightarrow> rte_ring_full Q r w \<noteq> 0"

definition Ring_IsEmpty :: "'w ring_query \<Rightarrow> addr \<Rightarrow> 'w \<Rightarrow> bool" where
  "Ring_IsEmpty Q r w \<longleftrightarrow> rte_ring_empty Q r w \<noteq> 0"

definition Ring_Lookup :: "rte_errnos \<Rightarrow> 'w ring_query \<Rightarrow> string \<Rightarrow> 'w \<Rightarrow> addr \<times> error" where
  "Ring_Lookup c Q name w = (case rte_ring_lookup Q name w of Inl e \<Rightarrow> (nil, RteErrno c e) | Inr r \<Rightarrow> (r, None))"

text \<open>\<^verbatim>\<open>TelemetryInit\<close> registers two commands and panics at the first failure.\<close>

fun register_cmds :: "'w ring_query \<Rightarrow> (string \<times> string) list \<Rightarrow> 'w \<Rightarrow> 'w option" where
  "register_cmds Q [] w = Some w"
| "register_cmds Q ((cmd, help) # ds) w =
     (case rte_telemetry_register_cmd Q cmd help w of (rc, w) \<Rightarrow> if rc \<noteq> 0 then None else register_cmds Q ds w)"

definition TelemetryInit :: "'w ring_query \<Rightarrow> string \<Rightarrow> 'w \<Rightarrow> 'w option" where
  "TelemetryInit Q pre = register_cmds Q
     [(pre @ ''/list'', ''Show list of rings. Takes no parameters.''),
      (pre @ ''/info'', ''Show info on the ring. Param: ring name.'')]"

section \<open>Release\<close>

text \<open>
  What DPDK documents: \<open>blocks\<close> are the pieces of DPDK memory in use.  \<^verbatim>\<open>rte_ring_create\<close> takes a memzone and
  records it in the ring, \<^verbatim>\<open>rte_ring_init\<close> clears the structure and with it the memzone; \<^verbatim>\<open>rte_ring_free\<close> releases
  a ring with a memzone and ignores others, \<^verbatim>\<open>rte_free\<close> releases blocks of \<^verbatim>\<open>rte_zmalloc_socket\<close> only.
\<close>

record 'w ring_mem =
  zones :: "'w \<Rightarrow> addr set"
  blocks :: "'w \<Rightarrow> addr set"

definition ring_mem_contract :: "'w ring_api \<Rightarrow> 'w ring_query \<Rightarrow> 'w ring_mem \<Rightarrow> bool" where
  "ring_mem_contract A Q M \<longleftrightarrow>
     (\<forall>n k s f w r w'. rte_ring_create A n k s f w = (Inr r, w') \<longrightarrow>
        r \<noteq> nil \<and> r \<notin> zones M w \<and> zones M w' = insert r (zones M w) \<and> blocks M w' = blocks M w \<and> ring_memzone Q r w' \<noteq> nil) \<and>
     (\<forall>n k s f w e w'. rte_ring_create A n k s f w = (Inl e, w') \<longrightarrow> zones M w' = zones M w \<and> blocks M w' = blocks M w) \<and>
     (\<forall>n z a s w r w'. rte_zmalloc_socket A n z a s w = (r, w') \<longrightarrow> zones M w' = zones M w \<and>
        (if r = nil then blocks M w' = blocks M w else r \<notin> blocks M w \<and> blocks M w' = insert r (blocks M w))) \<and>
     (\<forall>r n k f w e w'. rte_ring_init A r n k f w = (e, w') \<longrightarrow>
        zones M w' = zones M w \<and> blocks M w' = blocks M w \<and> (e = 0 \<longrightarrow> ring_memzone Q r w' = nil)) \<and>
     (\<forall>r w. zones M (rte_ring_free Q r w) = (if ring_memzone Q r w \<noteq> nil then zones M w - {r} else zones M w) \<and>
        blocks M (rte_ring_free Q r w) = blocks M w) \<and>
     (\<forall>r w. zones M (rte_free A r w) = zones M w \<and> blocks M (rte_free A r w) = blocks M w - {r})"

text \<open>Two worlds with the same memory in use.\<close>

definition same_mem :: "'w ring_mem \<Rightarrow> 'w \<Rightarrow> 'w \<Rightarrow> bool" where
  "same_mem M w w' \<longleftrightarrow> zones M w' = zones M w \<and> blocks M w' = blocks M w"

text \<open>A creation that yields no ring takes nothing, and releasing a fresh ring gives back what its creation took.\<close>

lemma Create_Free:
  assumes "ring_mem_contract A Q M" "Create c A name count opts w = ((r, e), w')"
  shows "same_mem M w (if r = nil then w' else Ring_Free A Q r w')"
proof -
  let ?rc = "makeOpts (SOCKET_ID_ANY A) name opts"
  obtain res where res: "rte_ring_create A (cname ?rc) (ucast count) (socket ?rc) (flags ?rc) w = (res, w')"
    using assms(2) by (auto simp: Create_def Let_def split: prod.splits sum.splits)
  then show ?thesis
  proof (cases res)
    case (Inl e)
    then show ?thesis using assms res by (auto simp: Create_def same_mem_def ring_mem_contract_def)
  next
    case (Inr r')
    then have r: "r' = r" using assms(2) res by (simp add: Create_def)
    have "r \<noteq> nil" "r \<notin> zones M w" "zones M w' = insert r (zones M w)" "blocks M w' = blocks M w" "ring_memzone Q r w' \<noteq> nil"
      using assms(1) res Inr r by (auto simp: ring_mem_contract_def)
    then show ?thesis using assms(1) by (auto simp: same_mem_def Ring_Free_def ring_mem_contract_def)
  qed
qed

lemma Ring_Init_mem:
  assumes "ring_mem_contract A Q M" "Ring_Init c A r name count opts w = (e, w')"
  shows "zones M w' = zones M w" "blocks M w' = blocks M w" "e = None \<Longrightarrow> ring_memzone Q r w' = nil"
  using assms by (auto simp: Ring_Init_def ring_mem_contract_def IntToErr_def Let_def split: prod.splits)

lemma NewEAL_Free:
  assumes "ring_mem_contract A Q M" "NewEAL c A name count opts w = ((r, e), w')"
  shows "same_mem M w (if r = nil then w' else Ring_Free A Q r w')"
proof -
  let ?rc = "makeOpts (SOCKET_ID_ANY A) name opts"
  obtain msize me where ms: "GetMemSize c A count = (msize, me)" by fastforce
  show ?thesis
  proof (cases me)
    case (Some x)
    then show ?thesis using assms(2) ms by (auto simp: NewEAL_def same_mem_def)
  next
    case None
    obtain p w1 where p: "rte_zmalloc_socket A (cname ?rc) (of_int msize) (align ?rc) (socket ?rc) w = (p, w1)" by fastforce
    have m: "zones M w1 = zones M w" "p = nil \<Longrightarrow> blocks M w1 = blocks M w"
        "p \<noteq> nil \<Longrightarrow> p \<notin> blocks M w" "p \<noteq> nil \<Longrightarrow> blocks M w1 = insert p (blocks M w)"
      using assms(1) p by (auto simp: ring_mem_contract_def split: if_splits)
    obtain ie w2 where i: "Ring_Init c A p name count opts w1 = (ie, w2)" by fastforce
    note im = Ring_Init_mem [OF assms(1) i]
    have fr: "zones M (rte_free A p v) = zones M v" "blocks M (rte_free A p v) = blocks M v - {p}" for v
      using assms(1) by (auto simp: ring_mem_contract_def)
    show ?thesis
    proof (cases "p = nil")
      case True
      then show ?thesis using assms(2) ms None p m by (auto simp: NewEAL_def same_mem_def)
    next
      case False
      then show ?thesis using assms(2) ms None p m i im fr
        by (cases ie) (auto simp: NewEAL_def same_mem_def Ring_Free_def)
    qed
  qed
qed

end
