(* ===== verification/Wrappers.thy ===== *)
theory Wrappers
  imports Pools Mbuf_Array Eal Ethdev_Info Fmt "HOL-Library.Sublist"
begin

text \<open>
  Operations that add a conversion or a branch to one C call: counters and release of memory pools
  (src/mempool/mempool.go, cache.go), the fields of a memzone (src/memzone/memzone.go), reference counts and room of
  mbufs (src/mbuf/mbuf.go), and the queries, messages and stack traces of package eal (src/eal/eal.go, init.go).
\<close>

section \<open>Memory pools\<close>

record 'w mp_query =
  rte_mempool_free :: "addr \<Rightarrow> 'w \<Rightarrow> 'w"
  rte_mempool_full :: "addr \<Rightarrow> 'w \<Rightarrow> int"
  rte_mempool_empty :: "addr \<Rightarrow> 'w \<Rightarrow> int"
  rte_mempool_avail_count :: "addr \<Rightarrow> 'w \<Rightarrow> u32"
  rte_mempool_in_use_count :: "addr \<Rightarrow> 'w \<Rightarrow> u32"
  rte_mempool_cache_flush :: "addr \<Rightarrow> addr \<Rightarrow> 'w \<Rightarrow> 'w"
  rte_mempool_cache_free :: "addr \<Rightarrow> 'w \<Rightarrow> 'w"

definition Mempool_Free :: "'w mp_query \<Rightarrow> addr \<Rightarrow> 'w \<Rightarrow> 'w" where
  "Mempool_Free Q mp w = rte_mempool_free Q mp w"

definition mp_IsFull :: "'w mp_query \<Rightarrow> addr \<Rightarrow> 'w \<Rightarrow> bool" where
  "mp_IsFull Q mp w \<longleftrightarrow> rte_mempool_full Q mp w \<noteq> 0"

definition mp_IsEmpty :: "'w mp_query \<Rightarrow> addr \<Rightarrow> 'w \<Rightarrow> bool" where
  "mp_IsEmpty Q mp w \<longleftrightarrow> rte_mempool_empty Q mp w \<noteq> 0"

definition AvailCount :: "'w mp_query \<Rightarrow> addr \<Rightarrow> 'w \<Rightarrow> int" where
  "AvailCount Q mp w = uint (rte_mempool_avail_count Q mp w)"

definition InUseCount :: "'w mp_query \<Rightarrow> addr \<Rightarrow> 'w \<Rightarrow> int" where
  "InUseCount Q mp w = uint (rte_mempool_in_use_count Q mp w)"

definition Cache_Flush :: "'w mp_query \<Rightarrow> addr \<Rightarrow> addr \<Rightarrow> 'w \<Rightarrow> 'w" where
  "Cache_Flush Q mpc mp w = rte_mempool_cache_flush Q mpc mp w"

definition Cache_Free :: "'w mp_query \<Rightarrow> addr \<Rightarrow> 'w \<Rightarrow> 'w" where
  "Cache_Free Q mpc w = rte_mempool_cache_free Q mpc w"

section \<open>Memzones\<close>

record rte_memzone =
  memzone_name :: "byte list"
  memzone_addr :: addr
  memzone_len :: u64
  hugepage_sz :: u64
  memzone_socket_id :: "32 word"

definition mz_Name :: "rte_memzone \<Rightarrow> string option" where
  "mz_Name mz = GoString (Some (memzone_name mz))"

definition mz_Addr :: "rte_memzone \<Rightarrow> addr" where "mz_Addr mz = memzone_addr mz"
definition mz_Len :: "rte_memzone \<Rightarrow> u64" where "mz_Len mz = memzone_len mz"
definition mz_SocketID :: "rte_memzone \<Rightarrow> int" where "mz_SocketID mz = sint (memzone_socket_id mz)"
definition HugePageSz :: "rte_memzone \<Rightarrow> u64" where "HugePageSz mz = hugepage_sz mz"

section \<open>Mbufs\<close>

record 'w mbuf_query =
  rte_mbuf_refcnt_update :: "addr \<Rightarrow> 16 word \<Rightarrow> 'w \<Rightarrow> u16 \<times> 'w"
  rte_mbuf_refcnt_read :: "addr \<Rightarrow> 'w \<Rightarrow> u16"
  rte_mbuf_refcnt_set :: "addr \<Rightarrow> u16 \<Rightarrow> 'w \<Rightarrow> 'w"
  rte_mbuf_raw_free :: "addr \<Rightarrow> 'w \<Rightarrow> 'w"
  rte_pktmbuf_clone :: "addr \<Rightarrow> addr \<Rightarrow> 'w \<Rightarrow> addr \<times> 'w"
  rte_pktmbuf_priv_size :: "addr \<Rightarrow> 'w \<Rightarrow> u16"
  rte_pktmbuf_reset :: "addr \<Rightarrow> 'w \<Rightarrow> 'w"
  rte_pktmbuf_headroom :: "addr \<Rightarrow> 'w \<Rightarrow> u16"
  rte_pktmbuf_tailroom :: "addr \<Rightarrow> 'w \<Rightarrow> u16"

definition RefCntUpdate :: "'w mbuf_query \<Rightarrow> addr \<Rightarrow> 16 word \<Rightarrow> 'w \<Rightarrow> u16 \<times> 'w" where
  "RefCntUpdate Q m v w = rte_mbuf_refcnt_update Q m v w"

definition RefCntRead :: "'w mbuf_query \<Rightarrow> addr \<Rightarrow> 'w \<Rightarrow> u16" where
  "RefCntRead Q m w = rte_mbuf_refcnt_read Q m w"

definition RefCntSet :: "'w mbuf_query \<Rightarrow> addr \<Rightarrow> u16 \<Rightarrow> 'w \<Rightarrow> 'w" where
  "RefCntSet Q m v w = rte_mbuf_refcnt_set Q m v w"

definition RawFree :: "'w mbuf_query \<Rightarrow> addr \<Rightarrow> 'w \<Rightarrow> 'w" where
  "RawFree Q m w = rte_mbuf_raw_free Q m w"

definition PktMbufClone :: "'w mbuf_query \<Rightarrow> addr \<Rightarrow> addr \<Rightarrow> 'w \<Rightarrow> addr \<times> 'w" where
  "PktMbufClone Q m p w = rte_pktmbuf_clone Q m p w"

definition PktMbufPrivSize :: "'w mbuf_query \<Rightarrow> addr \<Rightarrow> 'w \<Rightarrow> int" where
  "PktMbufPrivSize Q p w = uint (rte_pktmbuf_priv_size Q p w)"

definition PktMbufReset :: "'w mbuf_query \<Rightarrow> addr \<Rightarrow> 'w \<Rightarrow> 'w" where
  "PktMbufReset Q m w = rte_pktmbuf_reset Q m w"

definition PktMbufHeadRoomSize :: "'w mbuf_query \<Rightarrow> addr \<Rightarrow> 'w \<Rightarrow> u16" where
  "PktMbufHeadRoomSize Q m w = rte_pktmbuf_headroom Q m w"

definition PktMbufTailRoomSize :: "'w mbuf_query \<Rightarrow> addr \<Rightarrow> 'w \<Rightarrow> u16" where
  "PktMbufTailRoomSize Q m w = rte_pktmbuf_tailroom Q m w"

section \<open>Environment\<close>

record 'w eal_api =
  rte_lcore_id :: "'w \<Rightarrow> u32"
  rte_socket_id :: "'w \<Rightarrow> u32"
  rte_lcore_to_socket_id :: "u32 \<Rightarrow> 'w \<Rightarrow> u32"
  rte_eal_has_hugepages :: "'w \<Rightarrow> int"
  rte_eal_has_pci :: "'w \<Rightarrow> int"
  rte_eal_process_type :: "'w \<Rightarrow> int"
  rte_lcore_count :: "'w \<Rightarrow> u32"
  rte_get_main_lcore :: "'w \<Rightarrow> u32"
  rte_eal_primary_proc_alive :: "string option \<Rightarrow> 'w \<Rightarrow> int"
  rte_eal_cleanup :: "'w \<Rightarrow> int \<times> 'w"

definition LcoreID :: "'w eal_api \<Rightarrow> 'w \<Rightarrow> u64" where "LcoreID A w = ucast (rte_lcore_id A w)"
definition eal_SocketID :: "'w eal_api \<Rightarrow> 'w \<Rightarrow> u64" where "eal_SocketID A w = ucast (rte_socket_id A w)"

definition LcoreToSocket :: "'w eal_api \<Rightarrow> u64 \<Rightarrow> 'w \<Rightarrow> u64" where
  "LcoreToSocket A lid w = ucast (rte_lcore_to_socket_id A (ucast lid) w)"

definition HasHugePages :: "'w eal_api \<Rightarrow> 'w \<Rightarrow> bool" where "HasHugePages A w \<longleftrightarrow> rte_eal_has_hugepages A w \<noteq> 0"
definition HasPCI :: "'w eal_api \<Rightarrow> 'w \<Rightarrow> bool" where "HasPCI A w \<longleftrightarrow> rte_eal_has_pci A w \<noteq> 0"
definition ProcessType :: "'w eal_api \<Rightarrow> 'w \<Rightarrow> int" where "ProcessType A w = rte_eal_process_type A w"
definition LcoreCount :: "'w eal_api \<Rightarrow> 'w \<Rightarrow> u64" where "LcoreCount A w = ucast (rte_lcore_count A w)"
definition GetMainLcore :: "'w eal_api \<Rightarrow> 'w \<Rightarrow> u64" where "GetMainLcore A w = ucast (rte_get_main_lcore A w)"

text \<open>An empty path is passed as a nil pointer.\<close>

definition PrimaryProcAlive :: "'w eal_api \<Rightarrow> string \<Rightarrow> 'w \<Rightarrow> bool" where
  "PrimaryProcAlive A path w \<longleftrightarrow> rte_eal_primary_proc_alive A (if path \<noteq> [] then Some path else None) w \<noteq> 0"

definition Cleanup :: "rte_errnos \<Rightarrow> 'w eal_api \<Rightarrow> 'w \<Rightarrow> error \<times> 'w" where
  "Cleanup c A w = (case rte_eal_cleanup A w of (rc, w) \<Rightarrow> (err c 0 [rc], w))"

definition LcoreCtx_String :: "'w eal_api \<Rightarrow> ('v \<Rightarrow> string) \<Rightarrow> 'w \<Rightarrow> 'v LcoreCtx \<Rightarrow> string" where
  "LcoreCtx_String A show_value w cx =
     ''lcore='' @ dec_str (unat (LcoreID A w)) @ '' socket='' @ dec_str (unat (eal_SocketID A w)) @ '' value='' @ show_value (Value cx)"

definition ExecOnMainAsync :: "nat \<Rightarrow> 'v lcoreJob \<Rightarrow> 'v eal \<Rightarrow> 'v eal option" where
  "ExecOnMainAsync main job s = ExecOnLcoreAsync main job s"

section \<open>Panics of jobs\<close>

text \<open>The value of a panic is an error or something else, here its printed form.\<close>

datatype panic_value = PanicErr go_error string | PanicOther string

record 'f lcore_panic =
  lp_Pc :: "'f list"
  lp_LcoreID :: nat
  lp_R :: panic_value

fun show_panic :: "panic_value \<Rightarrow> string" where
  "show_panic (PanicErr e s) = s"
| "show_panic (PanicOther s) = s"

definition ErrLcorePanic_Error :: "'f lcore_panic \<Rightarrow> string" where
  "ErrLcorePanic_Error e = ''panic on lcore '' @ dec_str (lp_LcoreID e) @ '': '' @ show_panic (lp_R e)"

definition ErrLcorePanic_Unwrap :: "'f lcore_panic \<Rightarrow> error" where
  "ErrLcorePanic_Unwrap e = (case lp_R e of PanicErr x _ \<Rightarrow> Some x | PanicOther _ \<Rightarrow> None)"

record frame =
  fr_Function :: string
  fr_File :: string
  fr_Line :: nat

definition pad2 :: "nat \<Rightarrow> string" where
  "pad2 n = (if n < 10 then '' '' @ dec_str n else dec_str n)"

definition frame_line :: "nat \<Rightarrow> frame \<Rightarrow> string" where
  "frame_line n f = '' -- ('' @ pad2 n @ ''): '' @ fr_Function f @ '', '' @ fr_File f @ '':'' @ dec_str (fr_Line f) @ [char_of (10 :: nat)]"

definition shown :: "frame \<Rightarrow> bool" where
  "shown f \<longleftrightarrow> \<not> sublist ''runtime/'' (fr_File f)"

text \<open>
  The loop of \<^verbatim>\<open>fPrintStack\<close> over the frames of \<^verbatim>\<open>runtime.CallersFrames\<close>: \<^verbatim>\<open>Next\<close> tells beside a frame whether more
  follow, and gives the zero frame when there is none at all.
\<close>

fun fPrintStack_from :: "nat \<Rightarrow> frame list \<Rightarrow> string" where
  "fPrintStack_from n [] = frame_line n \<lparr>fr_Function = [], fr_File = [], fr_Line = 0\<rparr>"
| "fPrintStack_from n [f] = (if shown f then frame_line n f else [])"
| "fPrintStack_from n (f # g # fs) = (if shown f then frame_line n f else []) @ fPrintStack_from (Suc n) (g # fs)"

definition fPrintStack :: "frame list \<Rightarrow> string" where
  "fPrintStack fs = fPrintStack_from 0 fs"

definition strStack :: "frame list \<Rightarrow> string" where
  "strStack fs = fPrintStack fs"

definition FprintStack :: "frame lcore_panic \<Rightarrow> string" where
  "FprintStack e = fPrintStack (lp_Pc e)"

text \<open>A trace is one numbered line for every frame outside the runtime, in order.\<close>

lemma fPrintStack_lines:
  assumes "fs \<noteq> []"
  shows "fPrintStack fs = concat (map (\<lambda>(n, f). frame_line n f) (filter (\<lambda>(n, f). shown f) (enumerate 0 fs)))"
proof -
  have "fPrintStack_from n fs = concat (map (\<lambda>(n, f). frame_line n f) (filter (\<lambda>(n, f). shown f) (enumerate n fs)))" for n
    using assms by (induction n fs rule: fPrintStack_from.induct) auto
  then show ?thesis by (simp add: fPrintStack_def)
qed

text \<open>The listener's error for a panic carries the lcore and the printed value, as the message of the Go error does.\<close>

lemma panic_message:
  assumes "f c = (c', Some s)"
  shows "panicCatcher lid f c = (c', Some (ErrLcorePanic lid s)) \<and>
    ErrLcorePanic_Error \<lparr>lp_Pc = pc, lp_LcoreID = lid, lp_R = PanicOther s\<rparr> = ''panic on lcore '' @ dec_str lid @ '': '' @ s"
  using assms by (simp add: panicCatcher_def ErrLcorePanic_Error_def)

end
