(* ===== verification/Programs.thy ===== *)
theory Programs
  imports Lcore_Loop Ring_Life Wrappers Exporter
begin

text \<open>
  The programs that the packages are put together in: the message test of src/app/ring, the jobs and the start of
  src/app/test-sniffer (main.go, \<^verbatim>\<open>NewApp\<close> and \<^verbatim>\<open>doOnMain\<close>, \<^verbatim>\<open>LcoreFunc\<close>), the greeting of
  src/app/helloworld and the collecting loop of src/app/dpdk-exporter.  What remains of the mains are the command
  line, sockets and signals.
\<close>

section \<open>Messages through a ring (src/app/ring/main.go)\<close>

text \<open>
  The producer enqueues the address of the ring itself, the consumer counts it when it comes out; each retries until
  its counter is at \<open>n\<close>.  One attempt is one step, and a schedule says whose attempt is next, \<^term>\<open>True\<close> being
  the producer.  An attempt of a loop that has ended does nothing.
\<close>

record 'r traffic =
  tr_ring :: 'r
  tr_sent :: nat
  tr_received :: nat

definition send_attempt :: "'r rte_ring \<Rightarrow> addr \<Rightarrow> nat \<Rightarrow> 'r traffic \<Rightarrow> 'r traffic option" where
  "send_attempt C r n t =
     (if tr_sent t < n then do {
        (ok, q) \<leftarrow> Enqueue C Def r (tr_ring t);
        Some (t\<lparr>tr_ring := q, tr_sent := (if ok then tr_sent t + 1 else tr_sent t)\<rparr>) }
      else Some t)"

definition receive_attempt :: "'r rte_ring \<Rightarrow> addr \<Rightarrow> nat \<Rightarrow> 'r traffic \<Rightarrow> 'r traffic option" where
  "receive_attempt C r n t =
     (if tr_received t < n then do {
        ((ptr, ok), q) \<leftarrow> Dequeue C Def (tr_ring t);
        let ok = (ok \<and> r = ptr);
        Some (t\<lparr>tr_ring := q, tr_received := (if ok then tr_received t + 1 else tr_received t)\<rparr>) }
      else Some t)"

fun exchange :: "'r rte_ring \<Rightarrow> addr \<Rightarrow> nat \<Rightarrow> bool list \<Rightarrow> 'r traffic \<Rightarrow> 'r traffic option" where
  "exchange C r n [] t = Some t"
| "exchange C r n (who # sched) t =
     Option.bind (if who then send_attempt C r n t else receive_attempt C r n t) (exchange C r n sched)"

text \<open>
  The start of the program: a failure of \<^verbatim>\<open>Init\<close> or of the creation and the lack of a worker lcore end it, which is
  \<^term>\<open>None\<close>; otherwise the ring and the lcore of the consumer.  The job that creates the ring does not panic.
\<close>

definition ring_start ::
  "rte_errnos \<Rightarrow> 'w ring_api \<Rightarrow> int \<times> error \<Rightarrow> nat list \<Rightarrow> 'w \<Rightarrow> (addr \<times> nat \<times> 'w) option" where
  "ring_start c A initial workers w = (case snd initial of
     Some e \<Rightarrow> None
   | None \<Rightarrow> (case Create c A ''test_ring'' 1024 [] w of
        ((r, Some e), w) \<Rightarrow> None
      | ((r, None), w) \<Rightarrow> (case workers of [] \<Rightarrow> None | slave # _ \<Rightarrow> Some (r, slave, w))))"

definition messages :: nat where "messages = 1000000"

text \<open>How often the consumer gets a turn after the producer has had one.\<close>

fun turns :: "bool \<Rightarrow> bool list \<Rightarrow> nat" where
  "turns armed [] = 0"
| "turns armed (True # sched) = turns True sched"
| "turns armed (False # sched) = (if armed then 1 else 0) + turns False sched"

definition traffic_ok :: "('r \<Rightarrow> addr list) \<Rightarrow> ('r \<Rightarrow> nat) \<Rightarrow> addr \<Rightarrow> nat \<Rightarrow> 'r traffic \<Rightarrow> bool" where
  "traffic_ok contents capacity r n t \<longleftrightarrow>
     contents (tr_ring t) = replicate (tr_sent t - tr_received t) r \<and>
     tr_received t \<le> tr_sent t \<and> tr_sent t \<le> n \<and> 0 < capacity (tr_ring t)"

lemma send_attempt_ok:
  assumes "ring_contract C contents capacity" "traffic_ok contents capacity r n t"
  shows "\<exists>t'. send_attempt C r n t = Some t' \<and> traffic_ok contents capacity r n t' \<and>
    tr_received t' = tr_received t \<and> (tr_sent t' = n \<or> tr_received t' < tr_sent t')"
proof (cases "tr_sent t < n")
  case True
  obtain q where q: "Enqueue C Def r (tr_ring t) = Some (length (contents (tr_ring t)) < capacity (tr_ring t), q)"
      "capacity q = capacity (tr_ring t)"
      "contents q = (if length (contents (tr_ring t)) < capacity (tr_ring t) then contents (tr_ring t) @ [r] else contents (tr_ring t))"
    using Enqueue_spec [OF assms(1), of Def r "tr_ring t"] by blast
  have k: "contents (tr_ring t) = replicate (tr_sent t - tr_received t) r" "tr_received t \<le> tr_sent t" "0 < capacity (tr_ring t)"
    using assms(2) by (simp_all add: traffic_ok_def)
  show ?thesis
    using q k True
    by (auto simp: send_attempt_def traffic_ok_def Suc_diff_le replicate_append_same simp flip: replicate_Suc)
next
  case False
  then show ?thesis using assms(2) by (auto simp: send_attempt_def traffic_ok_def)
qed

lemma receive_attempt_ok:
  assumes "ring_contract C contents capacity" "traffic_ok contents capacity r n t"
  shows "\<exists>t'. receive_attempt C r n t = Some t' \<and> traffic_ok contents capacity r n t' \<and> tr_sent t' = tr_sent t \<and>
    tr_received t' = (if tr_received t < tr_sent t then tr_received t + 1 else tr_received t)"
proof (cases "tr_received t < n")
  case True
  obtain q where q: "Dequeue C Def (tr_ring t) = Some (case contents (tr_ring t) of [] \<Rightarrow> (nil, False) | x # _ \<Rightarrow> (x, True), q)"
      "capacity q = capacity (tr_ring t)" "contents q = tl (contents (tr_ring t))"
    using Dequeue_spec [OF assms(1), of Def "tr_ring t"] by blast
  have k: "contents (tr_ring t) = replicate (tr_sent t - tr_received t) r" "tr_received t \<le> tr_sent t"
    using assms(2) by (simp_all add: traffic_ok_def)
  show ?thesis
    using q k True assms(2)
    by (cases "tr_sent t - tr_received t")
      (auto simp: receive_attempt_def traffic_ok_def split: if_splits)
next
  case False
  then show ?thesis using assms(2) by (auto simp: receive_attempt_def traffic_ok_def)
qed

lemma exchange_progress:
  assumes "ring_contract C contents capacity" "traffic_ok contents capacity r n t"
    and "armed \<Longrightarrow> tr_sent t = n \<or> tr_received t < tr_sent t"
  shows "\<exists>t'. exchange C r n sched t = Some t' \<and> traffic_ok contents capacity r n t' \<and>
    min n (tr_received t + turns armed sched) \<le> tr_received t'"
  using assms(2,3)
proof (induction armed sched arbitrary: t rule: turns.induct)
  case (1 armed)
  then show ?case by simp
next
  case (2 armed sched)
  obtain t1 where t1: "send_attempt C r n t = Some t1" "traffic_ok contents capacity r n t1"
      "tr_received t1 = tr_received t" "tr_sent t1 = n \<or> tr_received t1 < tr_sent t1"
    using send_attempt_ok [OF assms(1) "2.prems"(1)] by blast
  then show ?case using "2.IH" [of t1] by auto
next
  case (3 armed sched)
  obtain t1 where t1: "receive_attempt C r n t = Some t1" "traffic_ok contents capacity r n t1"
      "tr_sent t1 = tr_sent t" "tr_received t1 = (if tr_received t < tr_sent t then tr_received t + 1 else tr_received t)"
    using receive_attempt_ok [OF assms(1) "3.prems"(1)] by blast
  have "traffic_ok contents capacity r n t" by fact
  then have le: "tr_received t \<le> tr_sent t" "tr_sent t \<le> n" by (simp_all add: traffic_ok_def)
  obtain t2 where "exchange C r n sched t1 = Some t2" "traffic_ok contents capacity r n t2"
      "min n (tr_received t1 + turns False sched) \<le> tr_received t2"
    using "3.IH" [OF t1(2)] by auto
  then show ?case using t1 le "3.prems"(2) by (auto split: if_splits)
qed

text \<open>C16: in every interleaving of the producer and the consumer of the ring program no attempt panics, the consumer is never ahead of the producer nor behind it by more than the ring holds, and once the consumer has had as many turns after the producer as there are messages both loops have ended, everything sent has been received and the ring is empty; without enough turns nothing is claimed, since both loops are busy waits.\<close>

theorem exchange_completes:
  assumes "ring_contract C contents capacity" "contents q = []" "0 < capacity q"
  shows "\<exists>t. exchange C r n sched \<lparr>tr_ring = q, tr_sent = 0, tr_received = 0\<rparr> = Some t \<and>
    tr_received t \<le> tr_sent t \<and> tr_sent t - tr_received t \<le> capacity (tr_ring t) \<and>
    (n \<le> turns False sched \<longrightarrow> tr_sent t = n \<and> tr_received t = n \<and> contents (tr_ring t) = [])"
proof -
  let ?t = "\<lparr>tr_ring = q, tr_sent = 0, tr_received = 0\<rparr>"
  have "traffic_ok contents capacity r n ?t" using assms(2,3) by (simp add: traffic_ok_def)
  then obtain t where t: "exchange C r n sched ?t = Some t" "traffic_ok contents capacity r n t"
      "min n (turns False sched) \<le> tr_received t"
    using exchange_progress [OF assms(1), of r n ?t False sched] by auto
  have "length (contents (tr_ring t)) \<le> capacity (tr_ring t)" using assms(1) by (simp add: ring_contract_def)
  then show ?thesis using t by (auto simp: traffic_ok_def)
qed

theorem exchange_completes_witness:
  "\<exists>t. exchange list_ring 0x5000 2 [True, True, False, False, True, False] \<lparr>tr_ring = [], tr_sent = 0, tr_received = 0\<rparr> = Some t \<and>
    tr_sent t = 2 \<and> tr_received t = 2"
  using exchange_completes [OF list_ring_contract, where q = "[]" and r = "0x5000" and n = 2 and sched = "[True, True, False, False, True, False]"]
  by auto

section \<open>Greetings (src/app/helloworld/main.go)\<close>

text \<open>
  The job is executed on one lcore after the other and its error is ignored.  For each call the channel it makes and
  what the listeners do meanwhile are given.
\<close>

fun hello_loop ::
  "bool \<Rightarrow> ('v LcoreCtx \<Rightarrow> 'v LcoreCtx \<times> string option) \<Rightarrow> (nat \<times> chan_id \<times> 'v event list) list \<Rightarrow> 'v eal \<Rightarrow> 'v eal option" where
  "hello_loop p hello [] s = Some s"
| "hello_loop p hello ((lid, c, sched) # calls) s = do {
     (_, s) \<leftarrow> ExecOnLcore p c sched lid hello s;
     hello_loop p hello calls s }"

text \<open>
  On idle lcores with empty channels, whose listeners take one round each, every greeting is given: the calls return
  one after the other and each lcore has run the job once.
\<close>

lemma ExecOnLcore_runs:
  assumes "\<not> crashed s" "chans s c = None" "lcores s lid = Some l" "phase l = Idle" "ch l = []"
    and "run_job p lid \<lparr>fn = f, ret = Some c\<rparr> (ctx l) = Some (y, e)"
  shows "\<exists>s'. ExecOnLcore p c [Run lid, Reply lid] lid f s = Some (e, s') \<and> \<not> crashed s' \<and>
    lcores s' = (lcores s)(lid \<mapsto> l\<lparr>ctx := y, ch := [], phase := (if ctx_done y then Stopped else Idle)\<rparr>) \<and>
    (\<forall>k. k \<noteq> c \<longrightarrow> chans s' k = chans s k) \<and>
    ran s' = (ran s)(lid := ran s lid @ [(\<lparr>fn = f, ret = Some c\<rparr>, e)])"
  using assms
  by (simp add: ExecOnLcore_def make_chan_def ExecOnLcoreAsync_def lcoreJobsBuffer_def listener_run_def listener_reply_def
      put_err_def recv_def Let_def)

lemma hello_loop_greets:
  assumes "\<not> crashed s" "distinct (map fst calls)" "distinct (map snd calls)"
    and "\<forall>(lid, c) \<in> set calls. chans s c = None \<and>
      (\<exists>l y e. lcores s lid = Some l \<and> phase l = Idle \<and> ch l = [] \<and> run_job p lid \<lparr>fn = hello, ret = Some c\<rparr> (ctx l) = Some (y, e))"
  shows "\<exists>s'. hello_loop p hello (map (\<lambda>(lid, c). (lid, c, [Run lid, Reply lid])) calls) s = Some s' \<and> \<not> crashed s' \<and>
    (\<forall>lid. map (fn \<circ> fst) (ran s' lid) = map (fn \<circ> fst) (ran s lid) @ (if lid \<in> set (map fst calls) then [hello] else []))"
  using assms
proof (induction calls arbitrary: s)
  case (Cons call calls)
  obtain lid c where call: "call = (lid, c)" by fastforce
  obtain l y e where l: "chans s c = None" "lcores s lid = Some l" "phase l = Idle" "ch l = []"
      "run_job p lid \<lparr>fn = hello, ret = Some c\<rparr> (ctx l) = Some (y, e)"
    using Cons.prems(4) call by auto
  obtain s1 where s1: "ExecOnLcore p c [Run lid, Reply lid] lid hello s = Some (e, s1)" "\<not> crashed s1"
      "lcores s1 = (lcores s)(lid \<mapsto> l\<lparr>ctx := y, ch := [], phase := (if ctx_done y then Stopped else Idle)\<rparr>)"
      "\<forall>k. k \<noteq> c \<longrightarrow> chans s1 k = chans s k"
      "ran s1 = (ran s)(lid := ran s lid @ [(\<lparr>fn = hello, ret = Some c\<rparr>, e)])"
    using ExecOnLcore_runs [OF Cons.prems(1) l] by blast
  have new: "k \<noteq> lid \<and> d \<noteq> c" if "(k, d) \<in> set calls" for k d
    using Cons.prems(2,3) call that by (force simp: image_iff)
  have pre: "\<forall>(k, d) \<in> set calls. chans s1 d = None \<and>
      (\<exists>l y e. lcores s1 k = Some l \<and> phase l = Idle \<and> ch l = [] \<and> run_job p k \<lparr>fn = hello, ret = Some d\<rparr> (ctx l) = Some (y, e))"
  proof (intro ballI, clarify)
    fix k d assume kd: "(k, d) \<in> set calls"
    have "chans s1 d = chans s d" "lcores s1 k = lcores s k" using new [OF kd] s1(3,4) by simp_all
    then show "chans s1 d = None \<and>
      (\<exists>l y e. lcores s1 k = Some l \<and> phase l = Idle \<and> ch l = [] \<and> run_job p k \<lparr>fn = hello, ret = Some d\<rparr> (ctx l) = Some (y, e))"
      using Cons.prems(4) kd by auto
  qed
  obtain s' where s': "hello_loop p hello (map (\<lambda>(lid, c). (lid, c, [Run lid, Reply lid])) calls) s1 = Some s'" "\<not> crashed s'"
      "\<forall>k. map (fn \<circ> fst) (ran s' k) = map (fn \<circ> fst) (ran s1 k) @ (if k \<in> set (map fst calls) then [hello] else [])"
    using Cons.IH [OF s1(2) _ _ pre] Cons.prems(2,3) by (simp only: distinct.simps list.map) blast
  have "lid \<notin> set (map fst calls)" using new by force
  then show ?case using s' s1(1,5) call by (auto simp: comp_def)
qed simp

section \<open>Work on the main lcore (src/app/test-sniffer/util.go, init.go)\<close>

text \<open>
  \<^verbatim>\<open>ExecOnMain\<close> of a job that works on variables outside its context, seen by its caller: the listener runs the job
  once and the caller gets its error.  A panic that is not turned into an error ends the process, \<^term>\<open>None\<close>.
\<close>

definition main_job :: "bool \<Rightarrow> nat \<Rightarrow> ('w \<Rightarrow> 'w \<times> string option) \<Rightarrow> 'w \<Rightarrow> ('w \<times> error) option" where
  "main_job PanicAsErr main f w =
     (case f w of
        (w, None) \<Rightarrow> Some (w, None)
      | (w, Some r) \<Rightarrow> if PanicAsErr then Some (w, Some (ErrLcorePanic main r)) else None)"

lemma main_job_is_run_job:
  "run_job p main \<lparr>fn = \<lambda>c. let (w, r) = f (Value c) in (c\<lparr>Value := w\<rparr>, r), ret = r\<rparr> c =
     map_option (\<lambda>(w, e). (c\<lparr>Value := w\<rparr>, e)) (main_job p main f (Value c))"
  by (auto simp: run_job_def panicCatcher_def main_job_def Let_def case_prod_unfold split: prod.splits option.splits)

text \<open>The function either panics with a value or returns an error, which the job stores in a variable.\<close>

definition doOnMain :: "bool \<Rightarrow> nat \<Rightarrow> ('w \<Rightarrow> 'w \<times> (string + error)) \<Rightarrow> 'w \<Rightarrow> (error \<times> 'w) option" where
  "doOnMain PanicAsErr main f w = do {
     ((w, er), e) \<leftarrow> main_job PanicAsErr main
       (\<lambda>(w, er). case f w of (w, Inl r) \<Rightarrow> ((w, er), Some r) | (w, Inr er) \<Rightarrow> ((w, er), None)) (w, None);
     Some (if e \<noteq> None then e else er, w) }"

lemma doOnMain_returns: "f w = (w', Inr er) \<Longrightarrow> doOnMain p main f w = Some (er, w')"
  by (simp add: doOnMain_def main_job_def)

lemma doOnMain_panics:
  "f w = (w', Inl r) \<Longrightarrow> doOnMain p main f w = (if p then Some (Some (ErrLcorePanic main r), w') else None)"
  by (simp add: doOnMain_def main_job_def)

text \<open>
  \<^verbatim>\<open>NewApp\<close> returns the variable that the job sets beside the call that runs the job; \<open>late\<close> says that the variable
  is read after the call, which Go leaves open.  The program does not set \<^verbatim>\<open>PanicAsErr\<close>.
\<close>

definition NewApp ::
  "bool \<Rightarrow> nat \<Rightarrow> 'w env \<Rightarrow> app_flags \<Rightarrow> (u16 \<Rightarrow> 'w \<Rightarrow> (u64 \<rightharpoonup> string) option \<times> error) \<Rightarrow> ((u64 \<rightharpoonup> string) \<Rightarrow> (u64 \<times> string) list) \<Rightarrow>
   nat \<Rightarrow> (nat \<Rightarrow> nat) \<Rightarrow> nat list \<Rightarrow> 'w sys \<Rightarrow> ((App option \<times> error) \<times> 'w sys) option" where
  "NewApp late main E F xnames enum words sock ls s = do {
     (e, s, app) \<leftarrow> doOnMain False main (\<lambda>(s, app).
       case newApp E F xnames enum words sock ls s of
         None \<Rightarrow> ((s, app), Inl [])
       | Some (Inl e, s) \<Rightarrow> ((s, None), Inr e)
       | Some (Inr a, s) \<Rightarrow> ((s, Some a), Inr None)) (s, None);
     Some ((if late then app else None, e), s) }"

lemma NewApp_newApp:
  "NewApp late main E F xnames enum words sock ls s =
     map_option (\<lambda>(r, s). (case r of Inl e \<Rightarrow> (None, e) | Inr a \<Rightarrow> (if late then Some a else None, None), s))
       (newApp E F xnames enum words sock ls s)"
  by (auto simp: NewApp_def doOnMain_def main_job_def split: option.splits sum.splits)

section \<open>The job of a worker lcore (LcoreFunc of src/app/test-sniffer/lcores.go)\<close>

text \<open>
  What is set up before the loop: the counter of the queue, the receive buffer on the socket of the lcore and the
  transmit buffer.  The loop has no exit; \<open>n\<close> is how often it has gone round.  Without an error the result is
  \<^term>\<open>Some None\<close> for a dry run and the state of the loop otherwise.
\<close>

definition LcoreFunc_start ::
  "'w env \<Rightarrow> 'w mbuf_api \<Rightarrow> u64 \<Rightarrow> nat \<Rightarrow> u64 \<Rightarrow> int \<Rightarrow> PortQueue \<Rightarrow> memory
    \<Rightarrow> (string \<times> string \<times> string \<times> string) set \<times> QueueCounter option list \<Rightarrow> 'w \<Rightarrow> 'w lstate option" where
  "LcoreFunc_start E B sizeof_TxBuffer lcore sck burstSize pq mem qcr w = do {
     let pid = of_nat (Pid pq); let rxQid = of_nat (RxQid pq);
     (_, counters) \<leftarrow> Register E lcore pid rxQid w qcr;
     qc \<leftarrow> counters ! lcore;
     ((_, src), w) \<leftarrow> NewEthdevMbufArray B pid rxQid sck (word_of_int burstSize) w;
     let buf = Buffer src;
     _ \<leftarrow> NewTxBuffer sizeof_TxBuffer 128;
     Some \<lparr>l_w = w, l_mem = mem, l_buf = buf, l_txbuf = [], l_qc = qc, released = [], received = []\<rparr> }"

definition LcoreFunc ::
  "bool \<Rightarrow> 'w env \<Rightarrow> 'w tx_api \<Rightarrow> 'w mbuf_api \<Rightarrow> u64 \<Rightarrow> nat \<Rightarrow> u64 \<Rightarrow> int \<Rightarrow> (addr \<Rightarrow> Mbuf) \<Rightarrow> PortQueue \<Rightarrow> nat \<Rightarrow> memory
    \<Rightarrow> (string \<times> string \<times> string \<times> string) set \<times> QueueCounter option list \<Rightarrow> 'w \<Rightarrow> 'w lstate option option" where
  "LcoreFunc dryRun E T B sizeof_TxBuffer lcore sck burstSize mb pq n mem qcr w =
     (if dryRun then Some None
      else do {
        s \<leftarrow> LcoreFunc_start E B sizeof_TxBuffer lcore sck burstSize pq mem qcr w;
        s \<leftarrow> lcore_rounds (en_eth E) T mb (of_nat (Pid pq)) (of_nat (RxQid pq)) (word_of_int burstSize) n s;
        Some (Some s) })"

text \<open>A job that starts with nothing handed to the driver by itself conserves the mbufs it receives.\<close>

lemma LcoreFunc_conserves_mbufs:
  assumes "tx_contract (en_eth E) T"
    and "LcoreFunc False E T B n2 lcore sck burstSize mb pq n mem qcr w = Some (Some s)"
    and "\<And>p x w'. NewEthdevMbufArray B (of_nat (Pid pq)) (of_nat (RxQid pq)) sck (word_of_int burstSize) w = Some (p, w')
      \<Longrightarrow> gone T w' = {#}"
  shows "mset (received s) = mset (released s) + mset (l_txbuf s) + gone T (l_w s)"
proof -
  obtain s0 where s0: "LcoreFunc_start E B n2 lcore sck burstSize pq mem qcr w = Some s0"
      "lcore_rounds (en_eth E) T mb (of_nat (Pid pq)) (of_nat (RxQid pq)) (word_of_int burstSize) n s0 = Some s"
    using assms(2) by (auto simp: LcoreFunc_def bind_eq_Some_conv)
  have "received s0 = [] \<and> released s0 = [] \<and> l_txbuf s0 = [] \<and> gone T (l_w s0) = {#}"
    using s0(1) assms(3) by (auto simp: LcoreFunc_start_def Let_def bind_eq_Some_conv)
  then have "balanced T s0 {#}" by (simp add: balanced_def owned_by_driver_def)
  from lcore_rounds_balanced [OF assms(1) this s0(2)] show ?thesis
    by (simp add: balanced_def owned_by_driver_def add.assoc)
qed

section \<open>Start of the workers (src/app/test-sniffer/main.go)\<close>

text \<open>
  The arguments behind those of the EAL, with the name of the program in front:
  \<^verbatim>\<open>os.Args[n], os.Args = os.Args[0], os.Args[n:]\<close>, which panics when \<open>n\<close> is beyond the last argument.
\<close>

definition rest_args :: "nat \<Rightarrow> string list \<Rightarrow> string list option" where
  "rest_args n os_Args = (if n < length os_Args then Some (drop n (os_Args[n := os_Args ! 0])) else None)"

lemma rest_args_program:
  "n < length os_Args \<Longrightarrow> rest_args n os_Args = Some (os_Args ! 0 # drop (Suc n) os_Args)"
  by (simp add: rest_args_def drop_update_swap flip: Cons_nth_drop_Suc)

text \<open>
  One job per lcore of \<^verbatim>\<open>app.Work\<close>, in the order in which Go goes over the map, all answering into one channel with a
  slot per job.
\<close>

definition worker_job :: "chan_id \<Rightarrow> (nat \<Rightarrow> 'v LcoreCtx \<Rightarrow> 'v LcoreCtx \<times> string option) \<Rightarrow> nat \<Rightarrow> 'v lcoreJob" where
  "worker_job retCh job lid = \<lparr>fn = job lid, ret = Some retCh\<rparr>"

definition start_workers :: "chan_id \<Rightarrow> (nat \<Rightarrow> 'v LcoreCtx \<Rightarrow> 'v LcoreCtx \<times> string option) \<Rightarrow> nat list \<Rightarrow> 'v event list" where
  "start_workers retCh job work = MakeChan retCh (length work) # map (\<lambda>lid. Send lid (worker_job retCh job lid)) work"

text \<open>The goroutine that waits for the jobs prints the stack of a panic and the error; nil is passed over.\<close>

fun report_jobs :: "(go_error \<Rightarrow> string) \<Rightarrow> (go_error \<Rightarrow> frame lcore_panic option) \<Rightarrow> error list \<Rightarrow> string list" where
  "report_jobs text panicked [] = []"
| "report_jobs text panicked (None # errs) = report_jobs text panicked errs"
| "report_jobs text panicked (Some e # errs) =
     (case panicked e of Some q \<Rightarrow> [FprintStack q] | None \<Rightarrow> []) @ text e # report_jobs text panicked errs"

lemma sends_proceed:
  assumes "distinct work" "\<not> crashed s" "\<forall>lid \<in> set work. \<exists>l. lcores s lid = Some l \<and> length (ch l) < lcoreJobsBuffer"
  shows "\<exists>s'. eal_run p (map (\<lambda>lid. Send lid (job lid)) work) s = Some s' \<and> \<not> crashed s' \<and> chans s' = chans s \<and>
    (\<forall>lid. sent s' lid = sent s lid @ (if lid \<in> set work then [job lid] else []))"
  using assms
proof (induction work arbitrary: s)
  case (Cons lid work)
  then obtain l where l: "lcores s lid = Some l" "length (ch l) < lcoreJobsBuffer" by auto
  define s1 where "s1 = s\<lparr>lcores := (lcores s)(lid \<mapsto> l\<lparr>ch := ch l @ [job lid]\<rparr>), sent := (sent s)(lid := sent s lid @ [job lid])\<rparr>"
  have step: "eal_do p (Send lid (job lid)) s = Some s1"
    using l Cons.prems(2) by (simp add: s1_def ExecOnLcoreAsync_def)
  have "\<forall>k \<in> set work. \<exists>l. lcores s1 k = Some l \<and> length (ch l) < lcoreJobsBuffer"
    using Cons.prems(1,3) by (auto simp: s1_def)
  then obtain s' where "eal_run p (map (\<lambda>k. Send k (job k)) work) s1 = Some s'" "\<not> crashed s'" "chans s' = chans s1"
      "\<forall>k. sent s' k = sent s1 k @ (if k \<in> set work then [job k] else [])"
    using Cons.IH [of s1] Cons.prems(1,2) by (auto simp: s1_def)
  then show ?case using step Cons.prems(1) by (auto simp: s1_def simp del: eal_do.simps)
qed simp

text \<open>The start never blocks and gives every lcore of the table its job, whatever the order.\<close>

lemma start_workers_proceeds:
  assumes "distinct work" "\<not> crashed s" "chans s retCh = None"
    and "\<forall>lid \<in> set work. \<exists>l. lcores s lid = Some l \<and> length (ch l) < lcoreJobsBuffer"
  shows "\<exists>s'. eal_run p (start_workers retCh job work) s = Some s' \<and> \<not> crashed s' \<and>
    chans s' retCh = Some \<lparr>cap = length work, buf = []\<rparr> \<and>
    (\<forall>lid. sent s' lid = sent s lid @ (if lid \<in> set work then [worker_job retCh job lid] else []))"
proof -
  define s1 where "s1 = s\<lparr>chans := (chans s)(retCh \<mapsto> \<lparr>cap = length work, buf = []\<rparr>)\<rparr>"
  have "eal_do p (MakeChan retCh (length work)) s = Some s1" using assms(2,3) by (simp add: s1_def make_chan_def)
  moreover obtain s' where "eal_run p (map (\<lambda>lid. Send lid (worker_job retCh job lid)) work) s1 = Some s'" "\<not> crashed s'"
      "chans s' = chans s1" "\<forall>lid. sent s' lid = sent s1 lid @ (if lid \<in> set work then [worker_job retCh job lid] else [])"
    using sends_proceed [of work s1 p "worker_job retCh job"] assms by (auto simp: s1_def)
  ultimately show ?thesis by (auto simp: start_workers_def s1_def simp del: eal_do.simps)
qed

section \<open>The collecting loop (src/app/dpdk-exporter/metrics.go)\<close>

text \<open>
  The loop waits for the ticker or for the end of the context; which of the two comes next is given.  A tick runs one
  collection on the main lcore.  \<^term>\<open>None\<close> is a panic, and the truth value tells whether the loop has returned.
\<close>

datatype wakeup = Tick | Done

fun StartCollecting :: "('w \<Rightarrow> 'w option) \<Rightarrow> wakeup list \<Rightarrow> 'w \<Rightarrow> (bool \<times> 'w) option" where
  "StartCollecting collect [] w = Some (False, w)"
| "StartCollecting collect (Done # evs) w = Some (True, w)"
| "StartCollecting collect (Tick # evs) w = do { w \<leftarrow> collect w; StartCollecting collect evs w }"

lemma StartCollecting_returns:
  "StartCollecting collect (replicate n Tick @ Done # evs) w = map_option (Pair True) (((\<lambda>x. Option.bind x collect) ^^ n) (Some w))"
proof -
  have fail: "((\<lambda>x. Option.bind x collect) ^^ n) None = None" for n by (induction n) auto
  show ?thesis
  proof (induction n arbitrary: w)
    case (Suc n)
    then show ?case by (cases "collect w") (simp_all add: funpow_Suc_right fail del: funpow.simps)
  qed simp
qed

section \<open>Assertions and stacks (src/common/assert.go)\<close>

record test_state =
  t_errors :: nat
  t_stopped :: bool

definition Assert :: "bool \<Rightarrow> bool \<Rightarrow> test_state \<Rightarrow> test_state" where
  "Assert fail expected t =
     (if expected then t
      else let t = t\<lparr>t_errors := t_errors t + 1\<rparr> in if fail then t\<lparr>t_stopped := True\<rparr> else t)"

text \<open>
  The frames of \<^verbatim>\<open>runtime.CallersFrames\<close>: \<^verbatim>\<open>Next\<close> says with the last frame that no more follow, and the loop stops
  before it prints that frame.
\<close>

definition stack_line :: "frame \<Rightarrow> string" where
  "stack_line f = ''... at '' @ fr_File f @ '':'' @ dec_str (fr_Line f) @ '', '' @ fr_Function f @ [char_of (10 :: nat)]"

fun FprintStackFrames :: "frame list \<Rightarrow> string" where
  "FprintStackFrames [] = []"
| "FprintStackFrames [f] = []"
| "FprintStackFrames (f # g # fs) =
     (if prefix ''runtime.'' (fr_Function f) then [] else stack_line f) @ FprintStackFrames (g # fs)"

lemma FprintStackFrames_lines:
  "FprintStackFrames fs = concat (map stack_line (filter (\<lambda>f. \<not> prefix ''runtime.'' (fr_Function f)) (butlast fs)))"
  by (induction fs rule: FprintStackFrames.induct) auto

end
