(* ===== verification/Bindings.thy ===== *)
theory Bindings
  imports Wrappers Ring_Life Alloc Acl Lsc Util_Hash Flow
begin

text \<open>
  The rest of the small bindings: the two C allocators behind the interface \<^verbatim>\<open>Allocator\<close>
  (src/common/allocator_std.go, allocator_rte.go), the answers of the ring telemetry commands
  (src/ring/ring_telemetry.h), releases and resets of ACL, LPM and statistics, byte order helpers of flow rules,
  the random prefix of src/eal/init_once.go.
\<close>

section \<open>Allocators of C\<close>

text \<open>The functions of stdlib.h and rte_malloc.h, on a heap state.\<close>

record 'h malloc_api =
  c_malloc :: "u64 \<Rightarrow> 'h \<Rightarrow> addr \<times> 'h"
  c_free :: "addr \<Rightarrow> 'h \<Rightarrow> 'h option"
  c_realloc :: "addr \<Rightarrow> u64 \<Rightarrow> 'h \<Rightarrow> addr \<times> 'h"
  rte_malloc_socket :: "u64 \<Rightarrow> u32 \<Rightarrow> int \<Rightarrow> 'h \<Rightarrow> addr \<times> 'h"
  m_rte_free :: "addr \<Rightarrow> 'h \<Rightarrow> 'h option"
  rte_realloc :: "addr \<Rightarrow> u64 \<Rightarrow> u32 \<Rightarrow> 'h \<Rightarrow> addr \<times> 'h"

definition StdAlloc_Malloc :: "'h malloc_api \<Rightarrow> u64 \<Rightarrow> 'h \<Rightarrow> addr \<times> 'h" where
  "StdAlloc_Malloc C sz h = c_malloc C sz h"

definition StdAlloc_Free :: "'h malloc_api \<Rightarrow> addr \<Rightarrow> 'h \<Rightarrow> 'h option" where
  "StdAlloc_Free C p h = c_free C p h"

definition StdAlloc_Realloc :: "'h malloc_api \<Rightarrow> addr \<Rightarrow> u64 \<Rightarrow> 'h \<Rightarrow> addr \<times> 'h" where
  "StdAlloc_Realloc C p sz h = c_realloc C p sz h"

record RteAlloc =
  ra_Align :: u64
  ra_Socket :: int

definition RteAlloc_Malloc :: "'h malloc_api \<Rightarrow> RteAlloc \<Rightarrow> u64 \<Rightarrow> 'h \<Rightarrow> addr \<times> 'h" where
  "RteAlloc_Malloc C mem sz h = rte_malloc_socket C sz (ucast (ra_Align mem)) (sint (word_of_int (ra_Socket mem) :: u32)) h"

definition RteAlloc_Free :: "'h malloc_api \<Rightarrow> addr \<Rightarrow> 'h \<Rightarrow> 'h option" where
  "RteAlloc_Free C p h = m_rte_free C p h"

definition RteAlloc_Realloc :: "'h malloc_api \<Rightarrow> RteAlloc \<Rightarrow> addr \<Rightarrow> u64 \<Rightarrow> 'h \<Rightarrow> addr \<times> 'h" where
  "RteAlloc_Realloc C mem p sz h = rte_realloc C p sz (ucast (ra_Align mem)) h"

text \<open>
  Where the C functions keep the laws of an allocator for every alignment and socket, so does a \<^verbatim>\<open>RteAlloc\<close> value, and
  with it every session on top of one.
\<close>

lemma RteAlloc_is_allocator:
  assumes "\<And>a k. allocator (\<lambda>n. rte_malloc_socket C n a k) (m_rte_free C) (\<lambda>p n. rte_realloc C p n a) owned"
  shows "allocator (RteAlloc_Malloc C mem) (RteAlloc_Free C) (RteAlloc_Realloc C mem) owned"
  using assms [of "ucast (ra_Align mem)" "sint (word_of_int (ra_Socket mem) :: u32)"]
  by (simp add: RteAlloc_Malloc_def [abs_def] RteAlloc_Free_def [abs_def] RteAlloc_Realloc_def [abs_def])

lemma session_on_RteAlloc:
  assumes "\<And>a k. allocator (\<lambda>n. rte_malloc_socket C n a k) (m_rte_free C) (\<lambda>p n. rte_realloc C p n a) owned"
  shows "allocator (Session_Malloc (RteAlloc_Malloc C mem)) (Session_Free (RteAlloc_Free C))
    (Session_Realloc (RteAlloc_Realloc C mem)) (\<lambda>s. owned (s_mem s))"
  by (rule allocator.session_is_allocator [OF RteAlloc_is_allocator [OF assms]])

section \<open>Telemetry of rings\<close>

text \<open>
  The memzone of a ring has the name of the ring behind \<^verbatim>\<open>RTE_RING_MZ_PREFIX\<close>.  \<open>lookup\<close> is \<^verbatim>\<open>rte_ring_lookup\<close>, with
  \<^term>\<open>nil\<close> for no ring, and \<open>walk\<close> the names of the memzones in the order of \<^verbatim>\<open>rte_memzone_walk\<close>.
\<close>

definition trim_prefix :: "string \<Rightarrow> string \<Rightarrow> string" where
  "trim_prefix s pre = drop (if take (length pre) s = pre then length pre else 0) s"

definition memzone_reap_rings :: "string \<Rightarrow> (string \<Rightarrow> addr) \<Rightarrow> string \<Rightarrow> string list \<Rightarrow> string list" where
  "memzone_reap_rings pre lookup mz d =
     (let name = trim_prefix mz pre in if lookup name \<noteq> nil then d @ [name] else d)"

definition ring_list :: "string \<Rightarrow> (string \<Rightarrow> addr) \<Rightarrow> string list \<Rightarrow> int \<times> string list" where
  "ring_list pre lookup walk = (0, fold (memzone_reap_rings pre lookup) walk [])"

record ring_data =
  rd_name :: string
  rd_mz_name :: string
  rd_is_sc :: int
  rd_is_sp :: int
  rd_prod_sync :: int
  rd_cons_sync :: int
  rd_size :: u32
  rd_count :: u32
  rd_capacity :: u32

text \<open>\<open>data\<close> are the fields read of a ring, whose name in the answer is that of the question.\<close>

definition ring_info :: "(string \<Rightarrow> addr) \<Rightarrow> (addr \<Rightarrow> ring_data) \<Rightarrow> string option \<Rightarrow> int \<times> ring_data option" where
  "ring_info lookup data name = (case name of
     None \<Rightarrow> (- 22, None)
   | Some n \<Rightarrow>
       if n = [] then (- 22, None)
       else let r = lookup n in if r = nil then (- 2, None) else (0, Some ((data r)\<lparr>rd_name := n\<rparr>)))"

lemma trim_prefix_append [simp]: "trim_prefix (pre @ s) pre = s"
  by (simp add: trim_prefix_def)

lemma trim_prefix_other: "take (length pre) s \<noteq> pre \<Longrightarrow> trim_prefix s pre = s"
  by (simp add: trim_prefix_def)

lemma reap_fold:
  "fold (memzone_reap_rings pre lookup) mzs d =
     d @ filter (\<lambda>n. lookup n \<noteq> nil) (map (\<lambda>mz. trim_prefix mz pre) mzs)"
  by (induction mzs arbitrary: d) (simp_all add: memzone_reap_rings_def Let_def)

text \<open>
  Among memzones of rings the list is that of the rings, in order.  A further memzone without the prefix appears as a
  ring when a ring happens to have its name.
\<close>

lemma ring_list_rings:
  assumes "\<forall>r \<in> set rings. lookup r \<noteq> nil"
    and "\<forall>z \<in> set others. lookup (trim_prefix z pre) = nil"
  shows "ring_list pre lookup (map (\<lambda>r. pre @ r) rings @ others) = (0, rings)"
  using assms by (auto simp: ring_list_def reap_fold comp_def filter_empty_conv)

lemma ring_list_twice:
  "lookup n \<noteq> nil \<Longrightarrow> take (length pre) n \<noteq> pre \<Longrightarrow> ring_list pre lookup [pre @ n, n] = (0, [n, n])"
  by (simp add: ring_list_def memzone_reap_rings_def trim_prefix_other)

text \<open>Every name of the list has an answer, with the name that was asked for.\<close>

lemma ring_info_listed:
  assumes "n \<in> set (snd (ring_list pre lookup walk))" "n \<noteq> []"
  shows "\<exists>d. ring_info lookup data (Some n) = (0, Some d) \<and> rd_name d = n"
  using assms by (auto simp: ring_list_def reap_fold ring_info_def Let_def)

definition Ring_Name :: "byte list \<Rightarrow> string option" where
  "Ring_Name rname = GoString (Some rname)"

section \<open>Releases and resets\<close>

record 'w reset_api =
  rte_acl_free :: "addr \<Rightarrow> 'w \<Rightarrow> 'w"
  rte_acl_reset :: "addr \<Rightarrow> 'w \<Rightarrow> 'w"
  rte_acl_reset_rules :: "addr \<Rightarrow> 'w \<Rightarrow> 'w"
  rte_lpm_free :: "addr \<Rightarrow> 'w \<Rightarrow> 'w"
  rte_lpm6_free :: "addr \<Rightarrow> 'w \<Rightarrow> 'w"
  rte_eth_xstats_reset :: "u16 \<Rightarrow> 'w \<Rightarrow> int \<times> 'w"
  rte_eth_stats_reset :: "u16 \<Rightarrow> 'w \<Rightarrow> int \<times> 'w"
  rte_hash_crc_set_alg :: "u8 \<Rightarrow> 'w \<Rightarrow> 'w"
  reset_telemetry_register :: "string \<Rightarrow> string \<Rightarrow> 'w \<Rightarrow> int \<times> 'w"

definition Acl_Free :: "'w reset_api \<Rightarrow> addr \<Rightarrow> 'w \<Rightarrow> 'w" where
  "Acl_Free A c w = rte_acl_free A c w"

definition Acl_Reset :: "'w reset_api \<Rightarrow> addr \<Rightarrow> 'w \<Rightarrow> 'w" where
  "Acl_Reset A c w = rte_acl_reset A c w"

definition ResetRules :: "'w reset_api \<Rightarrow> addr \<Rightarrow> 'w \<Rightarrow> 'w" where
  "ResetRules A c w = rte_acl_reset_rules A c w"

definition LPM_Free :: "'w reset_api \<Rightarrow> addr \<Rightarrow> 'w \<Rightarrow> 'w" where
  "LPM_Free A r w = rte_lpm_free A r w"

definition LPM6_Free :: "'w reset_api \<Rightarrow> addr \<Rightarrow> 'w \<Rightarrow> 'w" where
  "LPM6_Free A r w = rte_lpm6_free A r w"

definition XstatsReset :: "rte_errnos \<Rightarrow> 'w reset_api \<Rightarrow> u16 \<Rightarrow> 'w \<Rightarrow> error \<times> 'w" where
  "XstatsReset c A pid w = errget c (rte_eth_xstats_reset A pid w)"

definition StatsReset :: "rte_errnos \<Rightarrow> 'w reset_api \<Rightarrow> u16 \<Rightarrow> 'w \<Rightarrow> error \<times> 'w" where
  "StatsReset c A pid w = errget c (rte_eth_stats_reset A pid w)"

definition XstatName_String :: "byte list \<Rightarrow> string option" where
  "XstatName_String x = GoString (Some x)"

definition CrcSetAlg :: "'w reset_api \<Rightarrow> u8 \<Rightarrow> 'w \<Rightarrow> 'w" where
  "CrcSetAlg A alg w = rte_hash_crc_set_alg A alg w"

text \<open>The status of the registration is dropped.\<close>

definition lsc_register_telemetry_cmd :: "'w reset_api \<Rightarrow> string \<Rightarrow> 'w \<Rightarrow> 'w" where
  "lsc_register_telemetry_cmd A name w = snd (reset_telemetry_register A name ''Returns LSC counter for specified port id'' w)"

definition RegisterTelemetryLSC :: "'w reset_api \<Rightarrow> string \<Rightarrow> 'w \<Rightarrow> 'w" where
  "RegisterTelemetryLSC A name w = lsc_register_telemetry_cmd A name w"

section \<open>Byte order and names\<close>

definition beU32 :: "u32 \<Rightarrow> byte list" where
  "beU32 n = [ucast (drop_bit 24 n), ucast (drop_bit 16 n), ucast (drop_bit 8 n), ucast n]"

definition leU32 :: "u32 \<Rightarrow> byte list" where
  "leU32 n = [ucast n, ucast (drop_bit 8 n), ucast (drop_bit 16 n), ucast (drop_bit 24 n)]"

lemma leU32_is_reversed: "leU32 n = rev (beU32 n)"
  by (simp add: leU32_def beU32_def)

lemma leU32_in_memory: "leU32 n = le32 n"
  by (simp add: leU32_def numeral_eq_Suc drop_bit_drop_bit)

text \<open>\<^verbatim>\<open>rand.Read\<close> fills 16 bytes or fails, which is a panic; the text is hexadecimal.\<close>

definition makeRandomString :: "byte list option \<Rightarrow> string option" where
  "makeRandomString random = map_option (\<lambda>b. concat (map hex2 b)) random"

lemma makeRandomString_length:
  "length b = 16 \<Longrightarrow> makeRandomString (Some b) = Some s \<Longrightarrow> length s = 32"
  by (auto simp: makeRandomString_def length_concat comp_def sum_list_triv)

lemma hex_text_inject:
  "length a = length b \<Longrightarrow> concat (map hex2 a) = concat (map hex2 b) \<longleftrightarrow> a = b"
  by (induction a b rule: list_induct2) (simp_all add: append_eq_append_conv)

text \<open>Different random bytes give different file prefixes, so that safe instances do not share their files.\<close>

lemma makeRandomString_inject:
  "length a = length b \<Longrightarrow> makeRandomString (Some a) = makeRandomString (Some b) \<longleftrightarrow> a = b"
  by (simp add: makeRandomString_def hex_text_inject)

end
