(* ===== verification/Spec2Isabelle.thy ===== *)
theory Spec2Isabelle
  imports Responder Sniffer Packet_Edit Ring Eal Util_Hash Flat_Rows Mem_Flat Alloc Registry Ethdev_Stats
    Lpm Pools Flow_Rules Pipeline Ethdev Mbuf_Array Acl Exporter Locked_Thread Lsc Port_Setup Lcore_Loop
    Ring_Life Wrappers Programs Bindings
begin

text \<open>
  A verification of go-dpdk, the Go bindings of the Data Plane Development Kit with the
  packet library, the lcore executor and the applications built on them.

  \<^bold>\<open>The program.\<close>  A DPDK application initializes the EAL (src/eal), which starts one listener
  goroutine per logical core; jobs reach it through a buffered channel.  Jobs receive bursts
  of mbufs (src/mbuf) from a port, overlay packet headers on their memory (src/packet), edit
  the headers, recompute the checksums and transmit or free the mbufs.  Around this core
  stand registries and allocators (src/common), memory routines and flat rows (src/mem),
  rings (src/ring), core sets (src/common/set.go, src/lcore, src/util), statistics
  (src/ethdev/stats.go), the bindings of devices, flow rules, pools, tables and pipelines, and
  the applications test-sniffer (src/app/test-sniffer), which puts all of it together, and
  dpdk-exporter (src/app/dpdk-exporter), which publishes statistics.

  \<^bold>\<open>Conventions.\<close>  Memory is a total function from 64-bit addresses to bytes, little-endian for
  multi-byte integers; address 0 is nil.  Machine integers are words of their width.  An
  operation that may panic (nil dereference, index out of range, explicit panic) returns an
  option, None being the panic; Go error results are values of \<open>go_error option\<close>.  C
  functions and the operating system are arguments of the definitions that call them; what
  the code relies on is stated as a contract of the argument, and each contract has an
  instance.

  \<^bold>\<open>Theories, in the order of dependence.\<close>
  \<^item> \<open>Prelude\<close>: slices of lists, copies, words read as numbers.  \<open>Memory\<close>: loads, stores,
    little-endian codecs, regions and sequences of byte moves.  \<open>Fmt\<close>: decimal and hexadecimal
    text of the fmt package and its reading.
  \<^item> \<open>Errors\<close> (src/common/common.go): errno values and results; each non-zero status becomes an
    error, and \<open>DoOnce\<close> runs its function once.
  \<^item> \<open>Types_Pkg\<close> (src/types): addresses, their bytes, text and JSON.
  \<^item> \<open>Mbuf\<close> (src/mbuf/mbuf.go): the mbuf as a record; append, adjust, trim and prepend refine the
    operations of a segment with head and tail room.
  \<^item> \<open>Headers\<close> (the structs of src/packet): records with encoder and decoder; the locale
    \<open>layout\<close> states that they are inverse, and is interpreted for each header, so that the
    lemmas on overlaid structures (reading after writing, writes elsewhere) are proved once.
  \<^item> \<open>Packet\<close>, \<open>Frame\<close> (src/packet/packet.go): the pointers of a packet and the parsers, and a
    specification of frames as byte sequences that the parsers are proved to meet.
  \<^item> \<open>Packet_Gen\<close>, \<open>Packet_Edit\<close>: generated packets parse back; encapsulation and decapsulation
    as operations on the contents of a packet.
  \<^item> \<open>Checksum\<close> (src/packet/checksum.go): every checksum routine makes its header verify in the
    sense of RFC 1071; the folding loop ends.
  \<^item> \<open>Arp_Icmp6\<close> (src/packet/arp.go, icmp6.go): the bytes of generated ARP frames and neighbour
    discovery messages.
  \<^item> \<open>Responder\<close> (LcoreFunc of src/app/test-sniffer/lcores.go): the treatment of one received
    packet, composed of parsing, decapsulation, editing and checksums.
  \<^item> \<open>Common_Set\<close>, \<open>Lcores\<close> (src/common/set.go, src/lcore, src/util/lcores.go): core sets, their
    hexadecimal text and its reading, lists of lcores and their text.
  \<^item> \<open>Registry\<close>, \<open>Alloc\<close> (src/common/objects.go, allocator.go, pointers.go, endian.go): one locale
    for both registries; a locale for allocators, with an arena as instance, in which
    allocator sessions are shown to give back what they took.
  \<^item> \<open>Mem_Flat\<close>, \<open>Flat_Rows\<close> (src/mem): memory routines against byte lists; save and dump of rows.
  \<^item> \<open>Splitter\<close>, \<open>Eal\<close> (src/common/parse.go, src/eal): the command line, and the executor as a
    state with channels, on which every action of a goroutine is an event; a schedule is a list
    of events, and an event that is not enabled gives None.  Invariants are proved for every
    schedule, termination for explicit schedules.
  \<^item> \<open>Ring\<close> (src/ring), \<open>Ethdev_Stats\<close> (src/ethdev/stats.go), \<open>Util_Hash\<close> (src/util, src/hash),
    \<open>Sniffer\<close> (src/app/test-sniffer: queue distribution, offload text, statistics report).

  \<^item> \<open>Lpm\<close> (src/lpm): the net.IP and net.IPNet operations the package uses, the conversions to the
    arguments of rte_lpm and rte_lpm6, and routing by the longest prefix under the contract
    \<open>lpm_contract\<close> of the C tables; the locale \<open>net_conversion\<close> carries the proof for both widths.
  \<^item> \<open>Pools\<close> (src/mempool, src/memzone): creation options and calls; walks that pass Go functions
    to C through the registry, shown to leave the registry as it was, also when nested.
  \<^item> \<open>Flow\<close>, \<open>Flow_Rules\<close> (src/ethdev/flow): items and actions as Go objects that own C structures on a
    typed heap; creation of a rule lays the structures out and keeps those of other objects,
    given \<open>malloc_contract\<close>.

  \<^item> \<open>Transformers\<close> (src/port, src/table), \<open>Pipeline\<close> (src/pipeline): Go configurations copied into C
    parameter blocks; the locale \<open>transformer\<close> is the interface common.Transformer with its
    contract, interpreted for input ports, output ports, tables and pipelines, so that
    creation is shown to pass the configuration and to give all memory back; the run loop.
  \<^item> \<open>Ethdev\<close> (src/ethdev/ethdev.go, rxtx.go, mtr.go): device configuration by options, hairpin queues,
    enumeration of ports, transmit buffers, meters.  \<open>Ethdev_Info\<close>: the device information, names,
    addresses, RSS and flow control settings.  \<open>Lsc\<close> (src/ethdev/lsc_telemetry.go and .h): the counters of
    link state changes; under \<open>cb_contract\<close> the telemetry command reports the changes that fell in
    the periods of registration, for every order of events.

  \<^item> \<open>Mbuf_Array\<close> (src/util/rx_buffer.go, mbuf_array.h, allocation in src/mbuf/mbuf.go): the receive
    buffer; under \<open>pool_contract\<close> recharging it loses no mbuf and frees none twice.
  \<^item> \<open>Acl\<close> (src/acl): the byte array of rules with the offsets of C as arguments, read back rule by
    rule.
  \<^item> \<open>Locked_Thread\<close> (src/lcore/thread.go): the locked thread with its channel and wait groups as
    events, in the manner of \<open>Eal\<close>.
  \<^item> \<open>Exporter\<close> (src/app/dpdk-exporter/metrics.go): gauges and counters of links, devices, extended
    statistics and rings; the counters add up the rises between readings.
  \<^item> \<open>Port_Setup\<close> (init.go, port.go, mempool.go, queue_count.go of src/app/test-sniffer): pools per port, the
    configuration of a port as the run of a plan up to the first error, and the start of the
    application, composed of ports, flow rules, statistics and queue distribution.
  \<^item> \<open>Lcore_Loop\<close> (LcoreFunc, src/ethdev/rxtx.go): rounds of the receive loop over \<open>Responder\<close>; under
    \<open>tx_contract\<close> each received mbuf is released or transmitted, once.
  \<^item> \<open>Ring_Life\<close> (src/ring/ring.go, ring_telemetry.go): rings on the Go and EAL heaps; under
    \<open>ring_mem_contract\<close> the release of a ring gives back what its creation took.  \<open>Wrappers\<close>: the
    queries and releases of pools, zones, mbufs and the EAL that call one C function, and the text
    and stack of a panic.  \<open>Bindings\<close>: the two C allocators as instances of the locale \<open>allocator\<close>, the
    answers of the ring telemetry commands, the remaining releases and resets.
  \<^item> \<open>Programs\<close> (main.go of src/app/ring, helloworld and test-sniffer, \<open>doOnMain\<close>, \<open>NewApp\<close>, \<open>LcoreFunc\<close>,
    the collecting loop of dpdk-exporter, src/common/assert.go): the packages put together.  The
    messages of the ring program arrive in every interleaving that gives the consumer enough
    turns; the workers of test-sniffer are started without blocking.

  \<^bold>\<open>Bounds and fuel.\<close>  \<open>max_hdrs\<close> (240) bounds the bytes in front of any payload, so that address
  arithmetic does not wrap on a frame.  The loops of \<open>getLcores\<close>, \<open>ctzll\<close>, \<open>clzll\<close> and
  \<open>printTXOffloads\<close> have fuel and are proved to return; those of \<open>reduceChecksum\<close>, of the
  scanner and of the list text are functions with a measure.  The pipeline loop and the
  hairpin loop have fuel because they may run for ever; the theorems say after how many
  iterations they return.  The loop of a worker lcore has no exit; its theorems hold after any
  number of rounds.  The busy waits of the ring program are schedules of attempts.

  \<^bold>\<open>Not modelled.\<close>  The C library behind the bindings, beyond the stated contracts; goroutine
  preemption inside an operation and mutexes (operations are atomic); tickers, log output,
  HTTP and command line glue of the applications; the enumerations of
  src/ethdev/flow/constants.go, which are lists of C constants without behaviour.
\<close>

end
